(* ===== verification/Prelude.thy ===== *)
theory Prelude
  imports Main "HOL-Library.AList" "HOL-Library.List_Lexorder" "HOL-Library.Char_ord"
begin

text \<open>
  Shared vocabulary of the development: Go maps as association lists
  (\<open>'v table\<close>), point-wise updates of every row of a table, counting of
  rows, results that are either an error or a value, and the lemma
  collections the component theories add to.

  A Go map is iterated in an unspecified order. A table is a list of
  key/value pairs in an arbitrary order, so a fact proved for every table
  holds for every iteration order. \<open>table_ok\<close> says that no key occurs
  twice, which every operation keeps.
\<close>

section \<open>Collections\<close>

named_theorems table_simps \<open>lookup after an update, a deletion or a sweep of a table\<close>
named_theorems store_frame \<open>fields an operation leaves unchanged\<close>
named_theorems store_defs \<open>definitions unfolded by the invariant proofs\<close>

section \<open>Results\<close>

type_synonym time = int
type_synonym ('e, 'a) result = "'e + 'a"

fun bindR :: "('e, 'a) result \<Rightarrow> ('a \<Rightarrow> ('e, 'b) result) \<Rightarrow> ('e, 'b) result" where
  "bindR (Inl e) f = Inl e"
| "bindR (Inr a) f = f a"

lemma bindR_Inr_iff: "bindR m f = Inr b \<longleftrightarrow> (\<exists>a. m = Inr a \<and> f a = Inr b)"
  by (cases m) auto

lemma bindR_assoc: "bindR (bindR m f) g = bindR m (\<lambda>a. bindR (f a) g)"
  by (cases m) auto

section \<open>Tables\<close>

type_synonym 'v table = "(string \<times> 'v) list"

definition table_ok :: "'v table \<Rightarrow> bool" where
  "table_ok m \<longleftrightarrow> distinct (map fst m)"

definition tget :: "'v table \<Rightarrow> string \<Rightarrow> 'v option" where
  "tget m k = map_of m k"

definition tput :: "string \<Rightarrow> 'v \<Rightarrow> 'v table \<Rightarrow> 'v table" where
  "tput k v m = AList.update k v m"

definition tdel :: "string \<Rightarrow> 'v table \<Rightarrow> 'v table" where
  "tdel k m = AList.delete k m"

text \<open>
  \<open>tsweep f m\<close> is a loop \<open>for id, v := range m { m[id] = f(id, v) }\<close>, and
  \<open>tkeep p m\<close> a loop that deletes every row \<open>p\<close> does not accept.
\<close>

definition tsweep :: "(string \<Rightarrow> 'v \<Rightarrow> 'v) \<Rightarrow> 'v table \<Rightarrow> 'v table" where
  "tsweep f m = map (\<lambda>(k, v). (k, f k v)) m"

definition tkeep :: "(string \<Rightarrow> 'v \<Rightarrow> bool) \<Rightarrow> 'v table \<Rightarrow> 'v table" where
  "tkeep p m = filter (\<lambda>(k, v). p k v) m"

definition trows :: "'v table \<Rightarrow> 'v list" where
  "trows m = map snd m"

definition tcount :: "('v \<Rightarrow> bool) \<Rightarrow> 'v table \<Rightarrow> nat" where
  "tcount p m = length (filter p (trows m))"

text \<open>The first row a loop over the map meets that satisfies a condition.\<close>

definition tfirst :: "('v \<Rightarrow> bool) \<Rightarrow> 'v table \<Rightarrow> (string \<times> 'v) option" where
  "tfirst p m = find (\<lambda>(k, v). p v) m"

text \<open>A Go map read without the comma-ok form: the zero value for a missing key.\<close>

definition tgetz :: "'v \<Rightarrow> 'v table \<Rightarrow> string \<Rightarrow> 'v" where
  "tgetz z m k = (case tget m k of Some v \<Rightarrow> v | None \<Rightarrow> z)"

lemma tgetz_Some [simp]: "tget m k = Some v \<Longrightarrow> tgetz z m k = v"
  by (simp add: tgetz_def)

lemma tgetz_None [simp]: "tget m k = None \<Longrightarrow> tgetz z m k = z"
  by (simp add: tgetz_def)

lemma tget_Nil [simp]: "tget [] k = None"
  by (simp add: tget_def)

lemma tget_Cons [simp]: "tget ((j, v) # m) k = (if j = k then Some v else tget m k)"
  by (simp add: tget_def)

lemma tget_tput [simp, table_simps]: "tget (tput k v m) j = (if j = k then Some v else tget m j)"
  by (simp add: tget_def tput_def update_conv')

lemma tget_tdel [simp, table_simps]: "tget (tdel k m) j = (if j = k then None else tget m j)"
  by (simp add: tget_def tdel_def delete_conv')

lemma tget_tsweep [simp, table_simps]: "tget (tsweep f m) k = map_option (f k) (tget m k)"
  unfolding tget_def tsweep_def by (induction m) auto

lemma tget_tkeep:
  "table_ok m \<Longrightarrow> tget (tkeep p m) k =
     (case tget m k of None \<Rightarrow> None | Some v \<Rightarrow> if p k v then Some v else None)"
proof (induction m)
  case Nil
  then show ?case by (simp add: tkeep_def)
next
  case (Cons x m)
  obtain j v where x: "x = (j, v)" by (cases x)
  from Cons.prems have ok: "table_ok m" and j: "tget m j = None"
    by (auto simp: x table_ok_def tget_def map_of_eq_None_iff)
  show ?case
    using Cons.IH [OF ok] j by (auto simp: x tkeep_def)
qed

lemma table_ok_Nil [simp]: "table_ok []"
  by (simp add: table_ok_def)

lemma table_ok_tput [simp, intro]: "table_ok m \<Longrightarrow> table_ok (tput k v m)"
  by (simp add: table_ok_def tput_def distinct_update)

lemma table_ok_tdel [simp, intro]: "table_ok m \<Longrightarrow> table_ok (tdel k m)"
  by (simp add: table_ok_def tdel_def distinct_delete)

lemma map_fst_tsweep [simp]: "map fst (tsweep f m) = map fst m"
  unfolding tsweep_def by (induction m) auto

lemma table_ok_tsweep [simp]: "table_ok (tsweep f m) = table_ok m"
  by (simp add: table_ok_def)

lemma table_ok_tkeep [simp, intro]: "table_ok m \<Longrightarrow> table_ok (tkeep p m)"
  unfolding table_ok_def tkeep_def by (simp add: distinct_map_filter)

lemma tsweep_tsweep: "tsweep f (tsweep g m) = tsweep (\<lambda>k v. f k (g k v)) m"
  unfolding tsweep_def by (simp add: case_prod_beta)

lemma tsweep_id [simp]: "tsweep (\<lambda>k v. v) m = m"
  unfolding tsweep_def by simp

lemma tsweep_cong:
  "(\<And>k v. (k, v) \<in> set m \<Longrightarrow> f k v = g k v) \<Longrightarrow> tsweep f m = tsweep g m"
  unfolding tsweep_def by auto

lemma tget_in_set: "tget m k = Some v \<Longrightarrow> (k, v) \<in> set m"
  by (simp add: tget_def map_of_SomeD)

lemma tget_iff: "table_ok m \<Longrightarrow> tget m k = Some v \<longleftrightarrow> (k, v) \<in> set m"
  by (simp add: tget_def table_ok_def)

lemma trows_iff: "table_ok m \<Longrightarrow> v \<in> set (trows m) \<longleftrightarrow> (\<exists>k. tget m k = Some v)"
  by (force simp: trows_def tget_iff)

lemma tget_trows: "tget m k = Some v \<Longrightarrow> v \<in> set (trows m)"
  by (force simp: trows_def dest: tget_in_set)

lemma trows_tsweep: "trows (tsweep f m) = map (\<lambda>(k, v). f k v) m"
  by (simp add: trows_def tsweep_def case_prod_unfold)

lemma tfirst_Some:
  assumes "table_ok m" "tfirst p m = Some (k, v)"
  shows "tget m k = Some v" "p v"
  using assms by (auto simp: tfirst_def find_Some_iff tget_iff intro: nth_mem) (metis nth_mem)

lemma tfirst_None: "tfirst p m = None \<longleftrightarrow> (\<forall>v \<in> set (trows m). \<not> p v)"
  by (auto simp: tfirst_def find_None_iff trows_def)

lemma tput_tget_same: "table_ok m \<Longrightarrow> tget m k = Some v \<Longrightarrow>
    tput k w m = tsweep (\<lambda>j u. if j = k then w else u) m"
  unfolding tget_def tput_def tsweep_def table_ok_def
proof (induction m)
  case Nil
  then show ?case by simp
next
  case (Cons p m)
  show ?case
  proof (cases "fst p = k")
    case True
    moreover have "map (\<lambda>(j, u). (j, if j = k then w else u)) m = m"
      using Cons.prems(1) True by (intro map_idI) (auto intro!: rev_image_eqI)
    ultimately show ?thesis by (cases p) simp
  next
    case False
    with Cons show ?thesis by (cases p) simp
  qed
qed

lemma tput_fresh: "tget m k = None \<Longrightarrow> tput k v m = m @ [(k, v)]"
  unfolding tget_def tput_def
proof (induction m)
  case Nil
  then show ?case by simp
next
  case (Cons x m)
  then show ?case by (cases x) (simp split: if_splits)
qed

subsection \<open>Keys that identify a row\<close>

text \<open>Among the rows that satisfy \<open>P\<close> no two agree on \<open>f\<close>.\<close>

definition unique_on :: "('v \<Rightarrow> bool) \<Rightarrow> ('v \<Rightarrow> 'k) \<Rightarrow> 'v table \<Rightarrow> bool" where
  "unique_on P f m \<longleftrightarrow>
     (\<forall>k k' v v'. tget m k = Some v \<longrightarrow> tget m k' = Some v' \<longrightarrow> P v \<longrightarrow> P v' \<longrightarrow> f v = f v' \<longrightarrow> k = k')"

lemma unique_onD:
  "unique_on P f m \<Longrightarrow> tget m k = Some v \<Longrightarrow> tget m k' = Some v' \<Longrightarrow> P v \<Longrightarrow> P v' \<Longrightarrow> f v = f v' \<Longrightarrow> k = k'"
  unfolding unique_on_def by blast

lemma unique_on_Nil [simp]: "unique_on P f []"
  by (simp add: unique_on_def)

lemma unique_on_tput:
  assumes "unique_on P f m"
    and "\<And>k' v'. tget m k' = Some v' \<Longrightarrow> k' \<noteq> k \<Longrightarrow> P v' \<Longrightarrow> P v \<Longrightarrow> f v' \<noteq> f v"
  shows "unique_on P f (tput k v m)"
  unfolding unique_on_def
proof (intro allI impI)
  fix a b x y
  assume "tget (tput k v m) a = Some x" "tget (tput k v m) b = Some y" "P x" "P y" "f x = f y"
  then show "a = b"
    using assms(2) unique_onD [OF assms(1), of a x b y] by (fastforce split: if_splits)
qed

lemma unique_on_fresh:
  assumes "unique_on P f m" "\<forall>v' \<in> set (trows m). P v' \<longrightarrow> f v' \<noteq> f v"
  shows "unique_on P f (tput k v m)"
  using assms by (auto intro!: unique_on_tput dest: tget_trows)

lemma unique_on_keep:
  assumes "unique_on P f m" "tget m k = Some w" "f v = f w" "P v \<Longrightarrow> P w"
  shows "unique_on P f (tput k v m)"
  using assms(2-4) unique_onD [OF assms(1)] by (intro unique_on_tput [OF assms(1)]) metis

lemma unique_on_tdel: "unique_on P f m \<Longrightarrow> unique_on P f (tdel k m)"
  by (auto simp: unique_on_def split: if_splits)

lemma unique_on_tkeep: "table_ok m \<Longrightarrow> unique_on P f m \<Longrightarrow> unique_on P f (tkeep p m)"
  by (auto simp: unique_on_def tget_tkeep split: option.splits if_splits)

subsection \<open>Counting rows\<close>

lemma tcount_tput_fresh: "tget m k = None \<Longrightarrow>
    tcount p (tput k v m) = tcount p m + (if p v then 1 else 0)"
  by (simp add: tput_fresh tcount_def trows_def)

lemma tcount_tsweep: "tcount p (tsweep f m) = length (filter (\<lambda>(k, v). p (f k v)) m)"
  unfolding tcount_def trows_def tsweep_def
  by (simp add: filter_map o_def case_prod_unfold)

lemma tcount_alt: "tcount p m = length (filter (\<lambda>(k, v). p v) m)"
  unfolding tcount_def trows_def by (simp add: filter_map o_def case_prod_unfold)

lemma length_filter_mono: "(\<And>x. x \<in> set xs \<Longrightarrow> p x \<Longrightarrow> q x) \<Longrightarrow>
    length (filter p xs) \<le> length (filter q xs)"
  by (induction xs) (auto simp: le_SucI)

lemma tcount_tsweep_le:
  assumes "\<And>k v. (k, v) \<in> set m \<Longrightarrow> p (f k v) \<Longrightarrow> p v"
  shows "tcount p (tsweep f m) \<le> tcount p m"
  unfolding tcount_tsweep unfolding tcount_alt
  by (rule length_filter_mono) (use assms in auto)

lemma tcount_tkeep_le: "tcount p (tkeep q m) \<le> tcount p m"
  unfolding tcount_alt tkeep_def by (induction m) auto

lemma tcount_tput_le:
  assumes "table_ok m" "tget m k = Some w" "p v \<Longrightarrow> p w"
  shows "tcount p (tput k v m) \<le> tcount p m"
  unfolding tput_tget_same [OF assms(1,2)]
proof (rule tcount_tsweep_le)
  fix j u
  assume "(j, u) \<in> set m" and "p (if j = k then v else u)"
  moreover from this have "j = k \<Longrightarrow> u = w"
    using assms(1,2) by (metis option.inject tget_iff)
  ultimately show "p u" using assms(3) by (auto split: if_splits)
qed

lemma length_filter_le_Suc_one:
  assumes "distinct (map fst m)" "\<And>k v. (k, v) \<in> set m \<Longrightarrow> k \<noteq> a \<Longrightarrow> q (k, v) \<Longrightarrow> p (k, v)"
  shows "length (filter q m) \<le> Suc (length (filter p m))"
  using assms
proof (induction m)
  case Nil
  then show ?case by simp
next
  case (Cons x m)
  obtain k v where x: "x = (k, v)" by (cases x)
  show ?case
  proof (cases "k = a")
    case True
    have "length (filter q m) \<le> length (filter p m)"
      by (rule length_filter_mono) (use Cons.prems x True in force)
    then show ?thesis by simp
  next
    case False
    have "length (filter q m) \<le> Suc (length (filter p m))"
      by (rule Cons.IH) (use Cons.prems in auto)
    moreover have "q x \<Longrightarrow> p x"
      using False Cons.prems(2) [of k v] by (simp add: x)
    ultimately show ?thesis by simp
  qed
qed

text \<open>Rewriting one row raises a count by at most one.\<close>

lemma tcount_tput_Suc:
  assumes "table_ok m" "tget m k = Some w"
  shows "tcount p (tput k v m) \<le> Suc (tcount p m)"
  unfolding tput_tget_same [OF assms] tcount_tsweep unfolding tcount_alt
  by (rule length_filter_le_Suc_one [where a = k])
    (use assms(1) in \<open>auto simp: table_ok_def\<close>)

lemma tcount_0_iff: "tcount p m = 0 \<longleftrightarrow> (\<forall>v \<in> set (trows m). \<not> p v)"
  by (auto simp: tcount_def filter_empty_conv)

text \<open>Counts compared key by key, and the count after any write of a row.\<close>

lemma tcount_card:
  assumes "table_ok m"
  shows "tcount p m = card {k. \<exists>v. tget m k = Some v \<and> p v}"
proof -
  have d: "distinct (map fst (filter (\<lambda>(k, v). p v) m))"
    using assms unfolding table_ok_def by (rule distinct_map_filter)
  have "set (map fst (filter (\<lambda>(k, v). p v) m)) = {k. \<exists>v. tget m k = Some v \<and> p v}"
    using assms by (force simp: tget_iff)
  then show ?thesis
    unfolding tcount_alt using distinct_card [OF d] by simp
qed

lemma finite_tget: "finite {k. \<exists>v. tget m k = Some v \<and> p v}"
  by (rule finite_subset [of _ "fst ` set m"]) (force dest: tget_in_set)+

lemma tcount_le_keys:
  assumes "table_ok m" "table_ok m'"
    and "\<And>k v'. tget m' k = Some v' \<Longrightarrow> p' v' \<Longrightarrow> \<exists>v. tget m k = Some v \<and> p v"
  shows "tcount p' m' \<le> tcount p m"
  unfolding tcount_card [OF assms(1)] tcount_card [OF assms(2)]
  by (rule card_mono [OF finite_tget]) (use assms(3) in blast)

lemma tcount_tput_any:
  assumes "table_ok m"
  shows "tcount p (tput k v m) \<le> tcount p m + (if p v then 1 else 0)"
proof (cases "tget m k")
  case None
  then show ?thesis by (simp add: tcount_tput_fresh)
next
  case (Some w)
  show ?thesis
  proof (cases "p v")
    case True
    then show ?thesis using tcount_tput_Suc [OF assms Some] by simp
  next
    case False
    then show ?thesis using tcount_tput_le [OF assms Some, of p v] by simp
  qed
qed

lemma tcount_fold_tput:
  assumes "table_ok m"
  shows "tcount p (fold (\<lambda>c. tput (key c) (row c)) cs m) \<le>
     tcount p m + length (filter (\<lambda>c. p (row c)) cs)"
  using assms
proof (induction cs arbitrary: m)
  case (Cons c cs)
  have "tcount p (fold (\<lambda>c. tput (key c) (row c)) cs (tput (key c) (row c) m)) \<le>
      tcount p (tput (key c) (row c) m) + length (filter (\<lambda>c. p (row c)) cs)"
    using Cons by blast
  also have "\<dots> \<le> tcount p m + length (filter (\<lambda>c. p (row c)) (c # cs))"
    using tcount_tput_any [OF Cons.prems, of p "key c" "row c"] by (simp split: if_splits)
  finally show ?case by simp
qed simp

section \<open>Transition systems\<close>

text \<open>
  A system is an initial state, a step for every operation and a guard that says which operations
  its callers issue in a state.  \<open>run\<close> executes a sequence of operations and \<open>run_ok\<close> checks the
  guards on the way; \<open>reach\<close> holds of the states some guarded sequence ends in.
\<close>

fun run :: "('op \<Rightarrow> 's \<Rightarrow> 's) \<Rightarrow> 'op list \<Rightarrow> 's \<Rightarrow> 's" where
  "run step [] s = s"
| "run step (op # ops) s = run step ops (step op s)"

fun run_ok :: "('op \<Rightarrow> 's \<Rightarrow> 's) \<Rightarrow> ('op \<Rightarrow> 's \<Rightarrow> bool) \<Rightarrow> 'op list \<Rightarrow> 's \<Rightarrow> bool" where
  "run_ok step ok [] s = True"
| "run_ok step ok (op # ops) s = (ok op s \<and> run_ok step ok ops (step op s))"

inductive reach :: "'s \<Rightarrow> ('op \<Rightarrow> 's \<Rightarrow> 's) \<Rightarrow> ('op \<Rightarrow> 's \<Rightarrow> bool) \<Rightarrow> 's \<Rightarrow> bool"
  for init :: 's and step :: "'op \<Rightarrow> 's \<Rightarrow> 's" and ok :: "'op \<Rightarrow> 's \<Rightarrow> bool" where
  reach_init: "reach init step ok init"
| reach_step: "reach init step ok s \<Longrightarrow> ok op s \<Longrightarrow> reach init step ok (step op s)"

lemma run_append: "run step (xs @ ys) s = run step ys (run step xs s)"
  by (induction xs arbitrary: s) simp_all

lemma run_ok_append: "run_ok step ok (xs @ ys) s \<longleftrightarrow> run_ok step ok xs s \<and> run_ok step ok ys (run step xs s)"
  by (induction xs arbitrary: s) simp_all

lemma reach_run: "reach init step ok s \<Longrightarrow> run_ok step ok ops s \<Longrightarrow> reach init step ok (run step ops s)"
  by (induction ops arbitrary: s) (auto intro: reach_step)

lemma reach_run_init: "run_ok step ok ops init \<Longrightarrow> reach init step ok (run step ops init)"
  by (rule reach_run [OF reach_init])

lemma reach_trans: "reach s step ok u \<Longrightarrow> reach init step ok s \<Longrightarrow> reach init step ok u"
  by (induction rule: reach.induct) (auto intro: reach_step)

lemma reach_one: "ok op s \<Longrightarrow> reach s step ok (step op s)"
  by (rule reach_step [OF reach_init])

lemma reach_iff_run: "reach init step ok s \<longleftrightarrow> (\<exists>ops. run_ok step ok ops init \<and> s = run step ops init)"
proof
  assume "reach init step ok s"
  then show "\<exists>ops. run_ok step ok ops init \<and> s = run step ops init"
  proof induction
    case reach_init
    show ?case by (rule exI [where x = "[]"]) simp
  next
    case (reach_step s op)
    then obtain ops where "run_ok step ok ops init" "s = run step ops init" by blast
    with reach_step.hyps(2) show ?case
      by (intro exI [where x = "ops @ [op]"]) (simp add: run_append run_ok_append)
  qed
qed (auto intro: reach_run_init)

lemma reach_mono:
  assumes "reach init step ok s" "\<And>op s. ok op s \<Longrightarrow> ok' op s"
  shows "reach init step ok' s"
  using assms(1) by induction (auto intro: reach.intros assms(2))

text \<open>The contract of an invariant: it holds at the start and every guarded step keeps it.\<close>

locale invariant_of =
  fixes init :: 's and step :: "'op \<Rightarrow> 's \<Rightarrow> 's" and ok :: "'op \<Rightarrow> 's \<Rightarrow> bool" and inv :: "'s \<Rightarrow> bool"
  assumes inv_init: "inv init"
    and inv_step: "inv s \<Longrightarrow> ok op s \<Longrightarrow> inv (step op s)"
begin

lemma reach_inv: "reach init step ok s \<Longrightarrow> inv s"
  by (induction rule: reach.induct) (simp_all add: inv_init inv_step)

lemma run_inv: "inv s \<Longrightarrow> run_ok step ok ops s \<Longrightarrow> inv (run step ops s)"
  by (induction ops arbitrary: s) (simp_all add: inv_step)

end

text \<open>An invariant whose preservation rests on another one.\<close>

locale invariant_under = base: invariant_of init step ok inv
  for init :: 's and step :: "'op \<Rightarrow> 's \<Rightarrow> 's" and ok inv +
  fixes inv2 :: "'s \<Rightarrow> bool"
  assumes inv2_init: "inv2 init"
    and inv2_step: "inv s \<Longrightarrow> inv2 s \<Longrightarrow> ok op s \<Longrightarrow> inv2 (step op s)"

sublocale invariant_under \<subseteq> both: invariant_of init step ok "\<lambda>s. inv s \<and> inv2 s"
  by unfold_locales (simp_all add: base.inv_init inv2_init base.inv_step inv2_step)

text \<open>A quantity no operation lowers, guarded or not.\<close>

locale never_lowered =
  fixes step :: "'op \<Rightarrow> 's \<Rightarrow> 's" and size_of :: "'s \<Rightarrow> 'm::preorder"
  assumes step_le: "size_of s \<le> size_of (step op s)"
begin

lemma run_le: "size_of s \<le> size_of (run step ops s)"
proof (induction ops arbitrary: s)
  case (Cons op ops)
  show ?case using order_trans [OF step_le Cons.IH] by simp
qed simp

end

end
