(* ===== verification/StoreTypes.thy ===== *)
theory StoreTypes
  imports Prelude
begin

text \<open>
  The rows of the store (package \<^verbatim>\<open>internal/store\<close>) and the state machines over them.

  Every Go struct is a record whose fields carry the source's names behind a prefix
  (\<^verbatim>\<open>Task.Status\<close> is \<open>task_Status\<close>), every string enumeration a datatype with the source's
  constants as constructors.  A pointer is an option, a time a number of nanoseconds, a Go map
  from strings to strings an association list.  Task and step statuses have one constructor more
  for a string that is none of the constants, because the transition checks of the code have a
  branch for it.

  The in-memory store (package \<^verbatim>\<open>internal/store/fake\<close>) is one record of tables.
\<close>

section \<open>Statuses\<close>

datatype task_status =
    TaskStatusPending
  | TaskStatusReady
  | TaskStatusAssigned
  | TaskStatusRunning
  | TaskStatusSucceeded
  | TaskStatusFailed
  | TaskStatusCanceled
  | TaskStatusOther string

datatype step_status =
    StepStatusPending
  | StepStatusReady
  | StepStatusRunning
  | StepStatusCompleted
  | StepStatusFailed
  | StepStatusCanceled
  | StepStatusOther string

datatype job_status =
    JobStatusPending
  | JobStatusRunning
  | JobStatusPaused
  | JobStatusBlocked
  | JobStatusCompleted
  | JobStatusFailed
  | JobStatusCanceled

datatype attempt_status =
    AttemptStatusRunning
  | AttemptStatusSucceeded
  | AttemptStatusFailed
  | AttemptStatusCanceled

datatype worker_status =
    WorkerStatusOnline
  | WorkerStatusOffline
  | WorkerStatusDisabled

text \<open>\<^verbatim>\<open>StepStatus.IsTerminal\<close> and \<^verbatim>\<open>JobStatus.IsTerminal\<close>; the in-memory store's
  \<^verbatim>\<open>terminalTask\<close> and \<^verbatim>\<open>inFlightTask\<close> are their task counterparts.\<close>

fun StepStatus_IsTerminal :: "step_status \<Rightarrow> bool" where
  "StepStatus_IsTerminal StepStatusCompleted = True"
| "StepStatus_IsTerminal StepStatusFailed = True"
| "StepStatus_IsTerminal StepStatusCanceled = True"
| "StepStatus_IsTerminal _ = False"

fun JobStatus_IsTerminal :: "job_status \<Rightarrow> bool" where
  "JobStatus_IsTerminal JobStatusCompleted = True"
| "JobStatus_IsTerminal JobStatusFailed = True"
| "JobStatus_IsTerminal JobStatusCanceled = True"
| "JobStatus_IsTerminal _ = False"

fun terminalTask :: "task_status \<Rightarrow> bool" where
  "terminalTask TaskStatusSucceeded = True"
| "terminalTask TaskStatusFailed = True"
| "terminalTask TaskStatusCanceled = True"
| "terminalTask _ = False"

fun inFlightTask :: "task_status \<Rightarrow> bool" where
  "inFlightTask TaskStatusAssigned = True"
| "inFlightTask TaskStatusRunning = True"
| "inFlightTask _ = False"

lemma inFlightTask_iff:
  "inFlightTask s \<longleftrightarrow> s = TaskStatusAssigned \<or> s = TaskStatusRunning"
  by (cases s) simp_all

lemma terminalTask_iff:
  "terminalTask s \<longleftrightarrow> s = TaskStatusSucceeded \<or> s = TaskStatusFailed \<or> s = TaskStatusCanceled"
  by (cases s) simp_all

lemma inFlight_not_terminal: "inFlightTask s \<Longrightarrow> \<not> terminalTask s"
  by (cases s) simp_all

lemma JobStatus_IsTerminal_iff:
  "JobStatus_IsTerminal s \<longleftrightarrow>
     s = JobStatusCompleted \<or> s = JobStatusFailed \<or> s = JobStatusCanceled"
  by (cases s) simp_all

lemma StepStatus_IsTerminal_iff:
  "StepStatus_IsTerminal s \<longleftrightarrow>
     s = StepStatusCompleted \<or> s = StepStatusFailed \<or> s = StepStatusCanceled"
  by (cases s) simp_all

section \<open>Failure reasons\<close>

definition FailureReasonCanceledByUser :: string where
  "FailureReasonCanceledByUser = ''canceled by user''"

definition FailureReasonUpstreamFailed :: string where
  "FailureReasonUpstreamFailed = ''canceled: upstream step failed''"

definition FailureReasonWorkerOffline :: string where
  "FailureReasonWorkerOffline = ''worker went offline''"

definition FailureReasonWorkerShutdown :: string where
  "FailureReasonWorkerShutdown = ''worker shut down''"

definition FailureReasonWorkerRestarted :: string where
  "FailureReasonWorkerRestarted = ''worker restarted''"

section \<open>Errors\<close>

text \<open>The sentinel errors of \<^verbatim>\<open>store.go\<close>, \<^verbatim>\<open>fence.go\<close> and \<^verbatim>\<open>statemachine.go\<close> an operation can
  return.  \<open>ErrOther\<close> stands for an error with a message and no sentinel.\<close>

datatype store_error =
    ErrNotFound
  | ErrConflict
  | ErrFenced
  | ErrStaleRegistration
  | ErrInvalidTransition
  | ErrInvalidPagination
  | ErrRunAsGroupWithoutUser
  | ErrLastAdmin
  | DependencyUnsatisfiable string "job_status option"
  | ErrOther string

type_synonym 'a sres = "(store_error, 'a) result"

section \<open>Rows\<close>

record Farm =
  farm_ID :: string
  farm_Name :: string
  farm_Description :: string
  farm_MaxConcurrentTasks :: int
  farm_MaxAttempts :: "int option"
  farm_RetryDelaySeconds :: "int option"
  farm_FailureLimit :: "int option"
  farm_CreatedAt :: time
  farm_UpdatedAt :: time

record Queue =
  queue_ID :: string
  queue_FarmID :: string
  queue_Name :: string
  queue_Description :: string
  queue_Priority :: int
  queue_MaxConcurrentTasks :: int
  queue_Paused :: bool
  queue_MaxAttempts :: "int option"
  queue_RetryDelaySeconds :: "int option"
  queue_FailureLimit :: "int option"
  queue_RunAsUser :: "string option"
  queue_RunAsGroup :: "string option"
  queue_CreatedAt :: time
  queue_UpdatedAt :: time
  queue_PreserveRunAsUser :: bool
  queue_PreserveRunAsGroup :: bool

record UsagePool =
  pool_ID :: string
  pool_Name :: string
  pool_ServerHint :: string
  pool_MaxConcurrent :: int
  pool_CreatedAt :: time
  pool_UpdatedAt :: time

record UsageClaim =
  claim_ID :: string
  claim_PoolID :: string
  claim_TaskAttemptID :: string
  claim_ClaimedAt :: time
  claim_ReleasedAt :: "time option"

record UsagePoolClaim =
  upc_ClaimID :: string
  upc_PoolID :: string
  upc_PoolName :: string

record GPUInfo =
  gpu_Vendor :: string
  gpu_Model :: string
  gpu_VRAMMb :: int
  gpu_Count :: int

record WorkerExprLimits =
  wel_OperationLimit :: int
  wel_MemoryLimit :: int
  wel_AssignmentPositions :: int
  wel_AssignmentRetainedBytes :: int
  wel_LetRetainedBytes :: int

record Worker =
  worker_ID :: string
  worker_FarmID :: string
  worker_QueueID :: string
  worker_Name :: string
  worker_Hostname :: string
  worker_IPAddress :: string
  worker_ComputeLocation :: string
  worker_OS :: string
  worker_OSVersion :: string
  worker_Arch :: string
  worker_Version :: string
  worker_InstanceID :: string
  worker_RegistrationBrokerAt :: "time option"
  worker_HeartbeatBrokerAt :: "time option"
  worker_CPUCount :: int
  worker_RAMMb :: int
  worker_GPUInfo :: GPUInfo
  worker_Tags :: "(string \<times> string) list"
  worker_ExprLimits :: WorkerExprLimits
  worker_Extensions :: "string list"
  worker_Status :: worker_status
  worker_Disabled :: bool
  worker_LastHeartbeatAt :: "time option"
  worker_RegisteredAt :: time
  worker_UpdatedAt :: time

record Job =
  job_ID :: string
  job_FarmID :: string
  job_QueueID :: string
  job_Name :: string
  job_Owner :: string
  job_Submitter :: string
  job_Priority :: int
  job_Status :: job_status
  job_Project :: string
  job_RawTemplate :: string
  job_TemplateFormat :: string
  job_Parameters :: "(string \<times> string) list"
  job_DeclaredExtensions :: "string list"
  job_ExtensionsRecorded :: bool
  job_DependsOn :: "string list"
  job_FailedAttempts :: int
  job_MaxAttempts :: "int option"
  job_RetryDelaySeconds :: "int option"
  job_FailureLimit :: "int option"
  job_ParkReason :: string
  job_CreatedAt :: time
  job_UpdatedAt :: time
  job_StartedAt :: "time option"
  job_CompletedAt :: "time option"

record StepAmountRequirement =
  amt_Name :: string
  amt_Min :: "string option"
  amt_Max :: "string option"

record StepAttributeRequirement =
  attr_Name :: string
  attr_AnyOf :: "string list"
  attr_AllOf :: "string list"

record StepHostRequirements =
  hr_Amounts :: "StepAmountRequirement list"
  hr_Attributes :: "StepAttributeRequirement list"
  hr_UsagePools :: "string list"

record Step =
  step_ID :: string
  step_JobID :: string
  step_Name :: string
  step_DependsOn :: "string list"
  step_StepOrder :: int
  step_Status :: step_status
  step_HostRequirements :: "StepHostRequirements option"
  step_ComputeLocation :: string
  step_CreatedAt :: time
  step_UpdatedAt :: time

record Task =
  task_ID :: string
  task_JobID :: string
  task_StepID :: string
  task_Name :: string
  task_Parameters :: "(string \<times> string) list"
  task_Status :: task_status
  task_AssignedWorkerID :: string
  task_AssignedAt :: "time option"
  task_CreatedAt :: time
  task_UpdatedAt :: time
  task_RequiredCores :: "int option"
  task_UnschedulableReason :: string
  task_FailureReason :: string
  task_FailedAttempts :: int
  task_RetryAfter :: "time option"

record TaskAttempt =
  att_ID :: string
  att_TaskID :: string
  att_WorkerID :: string
  att_SessionID :: string
  att_AttemptNumber :: int
  att_Status :: attempt_status
  att_ExitCode :: "int option"
  att_Message :: string
  att_StartedAt :: time
  att_EndedAt :: "time option"
  att_CreatedAt :: time
  att_Progress :: "int option"
  att_StatusText :: string
  att_ProgressAt :: "time option"

record TaskLog =
  log_ID :: string
  log_TaskID :: string
  log_AttemptID :: string
  log_SeqNum :: int
  log_NATSSeq :: int
  log_At :: time
  log_ReceivedAt :: time
  log_Stream :: string
  log_Data :: string

record ServerMember =
  mem_InstanceID :: string
  mem_Name :: string
  mem_Host :: string
  mem_PID :: int
  mem_Version :: string
  mem_GrantsFingerprint :: string
  mem_StartedAt :: time
  mem_LastSeenUS :: int
  mem_BrokerOK :: bool
  mem_BrokerOKUS :: "int option"

record StorageLocation =
  sl_ID :: string
  sl_Name :: string
  sl_Type :: string
  sl_Description :: string
  sl_Roots :: "(string \<times> string) list"
  sl_CreatedAt :: time
  sl_UpdatedAt :: time

record ComputeLocation =
  cl_ID :: string
  cl_Name :: string
  cl_Description :: string
  cl_CreatedAt :: time
  cl_UpdatedAt :: time

record Product =
  prod_ID :: string
  prod_Name :: string
  prod_Title :: string
  prod_Description :: string
  prod_Readme :: string
  prod_Category :: string
  prod_Version :: string
  prod_Source :: string
  prod_Template :: string
  prod_Format :: string
  prod_OriginRef :: string
  prod_OriginFingerprint :: string
  prod_CreatedAt :: time
  prod_UpdatedAt :: time

text \<open>The details of an audit entry are a map of JSON values; here the text they are stored as.\<close>

record AuditEntry =
  audit_ID :: string
  audit_EntityType :: string
  audit_EntityID :: string
  audit_Action :: string
  audit_Actor :: string
  audit_Details :: string
  audit_CreatedAt :: time

record User =
  user_ID :: string
  user_Username :: string
  user_DisplayName :: string
  user_PasswordHash :: string
  user_Role :: string
  user_AuthSource :: string
  user_ExternalID :: string
  user_Disabled :: bool
  user_CreatedAt :: time
  user_UpdatedAt :: time

record Session =
  sess_ID :: string
  sess_TokenHash :: string
  sess_UserID :: string
  sess_ExpiresAt :: time
  sess_CreatedAt :: time

record APIKey =
  key_ID :: string
  key_UserID :: string
  key_Name :: string
  key_Prefix :: string
  key_TokenHash :: string
  key_ExpiresAt :: "time option"
  key_LastUsedAt :: "time option"
  key_RevokedAt :: "time option"
  key_CreatedAt :: time

record WorkerCredential =
  cred_ID :: string
  cred_WorkerID :: string
  cred_PublicKey :: string
  cred_Name :: string
  cred_EnrolledAt :: time
  cred_LastSeenAt :: "time option"
  cred_RevokedAt :: "time option"

record WorkerJoinToken =
  tok_ID :: string
  tok_TokenHash :: string
  tok_Prefix :: string
  tok_Name :: string
  tok_ExpiresAt :: time
  tok_UsedAt :: "time option"
  tok_CreatedBy :: string
  tok_CreatedAt :: time

section \<open>Requests and results\<close>

datatype lease_outcome =
    LeaseLeased
  | LeaseLost
  | LeaseQueueFull
  | LeaseFarmFull
  | LeasePoolFull

record LeaseRequest =
  req_TaskID :: string
  req_WorkerID :: string
  req_AttemptID :: string
  req_Now :: time
  req_Claims :: "UsagePoolClaim list"

text \<open>A lease result carries the attempt only when the task was leased and the pool's name only
  when a pool was full; elsewhere Go leaves the zero value, here \<open>None\<close> and the empty string.\<close>

record LeaseResult =
  res_Outcome :: lease_outcome
  res_Attempt :: "TaskAttempt option"
  res_FullPool :: string

record AttemptCompletion =
  ac_AttemptID :: string
  ac_TaskID :: string
  ac_TaskStatus :: task_status
  ac_AttemptStatus :: attempt_status
  ac_ExitCode :: "int option"
  ac_SessionID :: string
  ac_Message :: string
  ac_FailureReason :: string
  ac_EndedAt :: time

record CompletionResult =
  cr_Applied :: bool
  cr_Rejected :: bool

record AttemptProgress =
  ap_AttemptID :: string
  ap_TaskID :: string
  ap_Progress :: "int option"
  ap_StatusText :: string
  ap_At :: time

datatype progress_outcome =
    ProgressRecorded
  | ProgressOutOfOrder
  | ProgressNotLive
  | ProgressTaskAssigned

record JobSubmission =
  sub_Job :: Job
  sub_DependsOn :: "string list"
  sub_Steps :: "Step list"
  sub_Tasks :: "Task list"

section \<open>The store\<close>

record leadershipState =
  lead_holder :: string
  lead_epoch :: int
  lead_expiresUS :: int
  lead_members :: "ServerMember table"

record store =
  st_lastStamp :: time
  st_farms :: "Farm table"
  st_queues :: "Queue table"
  st_usagePools :: "UsagePool table"
  st_usageClaims :: "UsageClaim table"
  st_workers :: "Worker table"
  st_jobs :: "Job table"
  st_jobDependencies :: "string list table"
  st_steps :: "Step table"
  st_tasks :: "Task table"
  st_taskAttempts :: "TaskAttempt table"
  st_taskLogs :: "TaskLog list"
  st_leadership :: leadershipState
  st_storageLocations :: "StorageLocation table"
  st_computeLocations :: "ComputeLocation table"
  st_products :: "Product table"
  st_auditEntries :: "AuditEntry list"
  st_users :: "User table"
  st_sessions :: "Session table"
  st_apiKeys :: "APIKey table"
  st_workerCredentials :: "WorkerCredential table"
  st_workerJoinTokens :: "WorkerJoinToken table"
  st_brokerIdentity :: string

definition New :: store where
  "New = \<lparr> st_lastStamp = 0, st_farms = [], st_queues = [], st_usagePools = [],
     st_usageClaims = [], st_workers = [], st_jobs = [], st_jobDependencies = [], st_steps = [],
     st_tasks = [], st_taskAttempts = [], st_taskLogs = [],
     st_leadership = \<lparr> lead_holder = [], lead_epoch = 0, lead_expiresUS = 0, lead_members = [] \<rparr>,
     st_storageLocations = [], st_computeLocations = [], st_products = [], st_auditEntries = [],
     st_users = [], st_sessions = [], st_apiKeys = [], st_workerCredentials = [],
     st_workerJoinTokens = [], st_brokerIdentity = [] \<rparr>"

text \<open>\<^verbatim>\<open>stampLocked\<close>: a time stamp strictly after every earlier one, whatever the clock says.\<close>

definition stampLocked :: "time \<Rightarrow> store \<Rightarrow> time \<times> store" where
  "stampLocked clock s =
     (let now = (if \<not> st_lastStamp s < clock then st_lastStamp s + 1 else clock)
      in (now, s\<lparr>st_lastStamp := now\<rparr>))"

lemma stampLocked_increases:
  "stampLocked clock s = (now, s') \<Longrightarrow> st_lastStamp s < now \<and> st_lastStamp s' = now"
  by (auto simp: stampLocked_def Let_def split: if_splits)

text \<open>\<^verbatim>\<open>fenceLocked\<close>: a context that carries a leader epoch may write only while that epoch is the
  lease's.  The context of the code is here its epoch, \<open>None\<close> when it carries none.\<close>

type_synonym ctx = "int option"

definition fenceLocked :: "ctx \<Rightarrow> store \<Rightarrow> store_error option" where
  "fenceLocked ctx s =
     (case ctx of
        None \<Rightarrow> None
      | Some epoch \<Rightarrow> if epoch = lead_epoch (st_leadership s) then None else Some ErrFenced)"

lemma fenceLocked_None_ctx [simp]: "fenceLocked None s = None"
  by (simp add: fenceLocked_def)

lemma fenceLocked_cases: "fenceLocked ctx s = None \<or> fenceLocked ctx s = Some ErrFenced"
  by (simp add: fenceLocked_def split: option.split)

text \<open>The result of a fenced write: nothing is written when the fence refuses it.\<close>

definition fenced :: "ctx \<Rightarrow> store \<Rightarrow> store \<times> 'a sres \<Rightarrow> store \<times> 'a sres" where
  "fenced ctx s r = (case fenceLocked ctx s of Some e \<Rightarrow> (s, Inl e) | None \<Rightarrow> r)"

lemma fenced_refuses [simp]: "fenceLocked ctx s = Some e \<Longrightarrow> fenced ctx s r = (s, Inl e)"
  by (simp add: fenced_def)

lemma fenced_admits [simp]: "fenceLocked ctx s = None \<Longrightarrow> fenced ctx s r = r"
  by (simp add: fenced_def)

lemma fenced_inv:
  "P s \<Longrightarrow> (fenceLocked ctx s = None \<Longrightarrow> P (fst r)) \<Longrightarrow> P (fst (fenced ctx s r))"
  by (simp add: fenced_def split: option.split)

section \<open>State machines\<close>

definition validTaskTransitions :: "task_status \<Rightarrow> task_status list option" where
  "validTaskTransitions src =
     (case src of
        TaskStatusPending \<Rightarrow> Some [TaskStatusReady, TaskStatusCanceled]
      | TaskStatusReady \<Rightarrow> Some [TaskStatusAssigned, TaskStatusCanceled]
      | TaskStatusAssigned \<Rightarrow>
          Some [TaskStatusRunning, TaskStatusReady, TaskStatusCanceled, TaskStatusSucceeded,
                TaskStatusFailed]
      | TaskStatusRunning \<Rightarrow>
          Some [TaskStatusSucceeded, TaskStatusFailed, TaskStatusReady, TaskStatusCanceled]
      | TaskStatusSucceeded \<Rightarrow> Some []
      | TaskStatusFailed \<Rightarrow> Some []
      | TaskStatusCanceled \<Rightarrow> Some []
      | TaskStatusOther _ \<Rightarrow> None)"

definition ValidateTaskTransition :: "task_status \<Rightarrow> task_status \<Rightarrow> store_error option" where
  "ValidateTaskTransition src to =
     (case validTaskTransitions src of
        None \<Rightarrow> Some ErrInvalidTransition
      | Some targets \<Rightarrow> if to \<in> set targets then None else Some ErrInvalidTransition)"

definition JobTransitions :: "job_status \<Rightarrow> job_status list" where
  "JobTransitions src =
     (case src of
        JobStatusPending \<Rightarrow>
          [JobStatusRunning, JobStatusPaused, JobStatusCompleted, JobStatusFailed, JobStatusCanceled]
      | JobStatusRunning \<Rightarrow>
          [JobStatusPending, JobStatusPaused, JobStatusCompleted, JobStatusFailed, JobStatusCanceled]
      | JobStatusPaused \<Rightarrow>
          [JobStatusPending, JobStatusCompleted, JobStatusFailed, JobStatusCanceled]
      | JobStatusBlocked \<Rightarrow> [JobStatusPending, JobStatusPaused, JobStatusCanceled]
      | JobStatusCompleted \<Rightarrow> []
      | JobStatusFailed \<Rightarrow> [JobStatusPending]
      | JobStatusCanceled \<Rightarrow> [JobStatusPending])"

definition validStepTransitions :: "step_status \<Rightarrow> step_status list option" where
  "validStepTransitions src =
     (case src of
        StepStatusPending \<Rightarrow> Some [StepStatusReady, StepStatusCanceled]
      | StepStatusReady \<Rightarrow> Some [StepStatusCompleted, StepStatusFailed, StepStatusCanceled]
      | StepStatusRunning \<Rightarrow> Some [StepStatusCompleted, StepStatusFailed, StepStatusCanceled]
      | StepStatusCompleted \<Rightarrow> Some []
      | StepStatusFailed \<Rightarrow> Some [StepStatusPending]
      | StepStatusCanceled \<Rightarrow> Some [StepStatusPending]
      | StepStatusOther _ \<Rightarrow> None)"

definition ValidateStepTransition :: "step_status \<Rightarrow> step_status \<Rightarrow> store_error option" where
  "ValidateStepTransition src to =
     (case validStepTransitions src of
        None \<Rightarrow> Some ErrInvalidTransition
      | Some targets \<Rightarrow> if to \<in> set targets then None else Some ErrInvalidTransition)"

lemma ValidateTaskTransition_into_assigned:
  "ValidateTaskTransition src TaskStatusAssigned = None \<longleftrightarrow> src = TaskStatusReady"
  by (cases src) (simp_all add: ValidateTaskTransition_def validTaskTransitions_def)

lemma ValidateTaskTransition_cancel:
  "ValidateTaskTransition src TaskStatusCanceled = None \<longleftrightarrow>
     \<not> terminalTask src \<and> validTaskTransitions src \<noteq> None"
  by (cases src) (simp_all add: ValidateTaskTransition_def validTaskTransitions_def)

lemma ValidateTaskTransition_ready:
  "ValidateTaskTransition src TaskStatusReady = None \<longleftrightarrow>
     src = TaskStatusPending \<or> inFlightTask src"
  by (cases src) (simp_all add: ValidateTaskTransition_def validTaskTransitions_def)

lemma ValidateTaskTransition_irrefl: "ValidateTaskTransition src src \<noteq> None"
  by (cases src) (simp_all add: ValidateTaskTransition_def validTaskTransitions_def)

lemma ValidateTaskTransition_terminal:
  "terminalTask src \<Longrightarrow> ValidateTaskTransition src to = Some ErrInvalidTransition"
  by (cases src) (simp_all add: ValidateTaskTransition_def validTaskTransitions_def)

end
