(* ===== verification/StoreAttempts.thy ===== *)
theory StoreAttempts
  imports StoreTypes
begin

text \<open>
  Attempts and their usage claims in the in-memory store: which attempt of a task is the latest
  (\<^verbatim>\<open>fake/task_attempt.go\<close>), how an attempt closes and what that releases
  (\<^verbatim>\<open>fake/attemptclose.go\<close>), what a worker's reports do to it (\<^verbatim>\<open>fake/attemptreport.go\<close>), and the
  retry bookkeeping of \<^verbatim>\<open>fake/task.go\<close>.

  Every writer takes the leader epoch of its context and returns the store and its result.  Where
  the code reads the wall clock itself, the operation takes the reading as an argument
  \<open>clock\<close>, one reading where the code takes two in the same call.
\<close>

section \<open>Zero values\<close>

text \<open>What a Go map of rows yields for a missing key.\<close>

definition zero_Task :: Task where
  "zero_Task = \<lparr> task_ID = [], task_JobID = [], task_StepID = [], task_Name = [],
     task_Parameters = [], task_Status = TaskStatusOther [], task_AssignedWorkerID = [],
     task_AssignedAt = None, task_CreatedAt = 0, task_UpdatedAt = 0, task_RequiredCores = None,
     task_UnschedulableReason = [], task_FailureReason = [], task_FailedAttempts = 0,
     task_RetryAfter = None \<rparr>"

section \<open>The latest attempt of a task\<close>

text \<open>\<^verbatim>\<open>latestAttemptLocked\<close>: the scan keeps the first attempt with the highest number.\<close>

fun latestAttempt_scan :: "string \<Rightarrow> TaskAttempt option \<Rightarrow> TaskAttempt list \<Rightarrow> TaskAttempt option"
where
  "latestAttempt_scan taskID found [] = found"
| "latestAttempt_scan taskID found (a # as) =
     (if att_TaskID a \<noteq> taskID then latestAttempt_scan taskID found as
      else (case found of
              None \<Rightarrow> latestAttempt_scan taskID (Some a) as
            | Some b \<Rightarrow>
                if att_AttemptNumber b < att_AttemptNumber a
                then latestAttempt_scan taskID (Some a) as
                else latestAttempt_scan taskID found as))"

definition latestAttemptLocked :: "store \<Rightarrow> string \<Rightarrow> TaskAttempt option" where
  "latestAttemptLocked s taskID = latestAttempt_scan taskID None (trows (st_taskAttempts s))"

definition isLatestAttemptLocked :: "store \<Rightarrow> string \<Rightarrow> string \<Rightarrow> bool" where
  "isLatestAttemptLocked s taskID attemptID =
     (case tget (st_taskAttempts s) attemptID of
        None \<Rightarrow> False
      | Some a \<Rightarrow>
          att_TaskID a = taskID \<and>
          (case latestAttemptLocked s taskID of
             None \<Rightarrow> False
           | Some latest \<Rightarrow> att_AttemptNumber a = att_AttemptNumber latest))"

definition liveAttemptLocked :: "store \<Rightarrow> string \<Rightarrow> Task \<Rightarrow> bool" where
  "liveAttemptLocked s attemptID t \<longleftrightarrow>
     inFlightTask (task_Status t) \<and> isLatestAttemptLocked s (task_ID t) attemptID \<and>
     (case tget (st_taskAttempts s) attemptID of
        None \<Rightarrow> False
      | Some a \<Rightarrow> att_Status a = AttemptStatusRunning)"

section \<open>Closing an attempt\<close>

definition releaseClaim :: "time \<Rightarrow> UsageClaim \<Rightarrow> UsageClaim" where
  "releaseClaim at c = c\<lparr>claim_ReleasedAt := Some at\<rparr>"

definition releaseAttemptClaimsLocked :: "string \<Rightarrow> time \<Rightarrow> store \<Rightarrow> store \<times> nat" where
  "releaseAttemptClaimsLocked attemptID at s =
     (let hit = (\<lambda>c. claim_TaskAttemptID c = attemptID \<and> claim_ReleasedAt c = None)
      in (s\<lparr>st_usageClaims :=
             tsweep (\<lambda>id c. if hit c then releaseClaim at c else c) (st_usageClaims s)\<rparr>,
          tcount hit (st_usageClaims s)))"

definition closeAttemptRow :: "AttemptCompletion \<Rightarrow> TaskAttempt \<Rightarrow> TaskAttempt" where
  "closeAttemptRow c a =
     (let a = a\<lparr>att_Status := ac_AttemptStatus c, att_EndedAt := Some (ac_EndedAt c),
                att_ExitCode := None\<rparr>;
          a = (case ac_ExitCode c of Some code \<Rightarrow> a\<lparr>att_ExitCode := Some code\<rparr> | None \<Rightarrow> a);
          a = (if ac_SessionID c \<noteq> [] then a\<lparr>att_SessionID := ac_SessionID c\<rparr> else a)
      in (if ac_Message c \<noteq> [] then a\<lparr>att_Message := ac_Message c\<rparr> else a))"

definition closeRunningAttemptLocked :: "AttemptCompletion \<Rightarrow> time \<Rightarrow> store \<Rightarrow> store" where
  "closeRunningAttemptLocked c clock s =
     (let s = (case tget (st_taskAttempts s) (ac_AttemptID c) of
                 Some a \<Rightarrow>
                   if att_Status a = AttemptStatusRunning
                   then s\<lparr>st_taskAttempts :=
                          tput (ac_AttemptID c) (closeAttemptRow c a) (st_taskAttempts s)\<rparr>
                   else s
               | None \<Rightarrow> s)
      in fst (releaseAttemptClaimsLocked (ac_AttemptID c) clock s))"

text \<open>\<^verbatim>\<open>CompleteTaskAttempt\<close>: a report is rejected when its attempt is not the task's latest, and,
  when it would move the task, unless the task is in flight and the move is legal.  A rejected
  report still closes its own attempt and releases its claims.\<close>

definition completion_rejected :: "store \<Rightarrow> Task \<Rightarrow> AttemptCompletion \<Rightarrow> bool" where
  "completion_rejected s t c \<longleftrightarrow>
     \<not> isLatestAttemptLocked s (ac_TaskID c) (ac_AttemptID c) \<or>
     task_Status t \<noteq> ac_TaskStatus c \<and>
     (\<not> inFlightTask (task_Status t) \<or>
      ValidateTaskTransition (task_Status t) (ac_TaskStatus c) \<noteq> None)"

definition completeTaskRow :: "AttemptCompletion \<Rightarrow> time \<Rightarrow> Task \<Rightarrow> Task" where
  "completeTaskRow c now t =
     (let t = (if task_Status t \<noteq> ac_TaskStatus c
               then t\<lparr>task_Status := ac_TaskStatus c, task_UnschedulableReason := [],
                      task_UpdatedAt := now\<rparr>
               else t)
      in (if ac_FailureReason c \<noteq> []
          then t\<lparr>task_FailureReason := ac_FailureReason c, task_UpdatedAt := now\<rparr>
          else t))"

definition CompleteTaskAttempt ::
  "ctx \<Rightarrow> AttemptCompletion \<Rightarrow> time \<Rightarrow> store \<Rightarrow> store \<times> CompletionResult sres" where
  "CompleteTaskAttempt ctx c clock s = fenced ctx s
     (case tget (st_tasks s) (ac_TaskID c) of
        None \<Rightarrow> (s, Inl ErrNotFound)
      | Some t \<Rightarrow>
          let s' = closeRunningAttemptLocked c clock s
          in if completion_rejected s t c
             then (s', Inr \<lparr>cr_Applied = False, cr_Rejected = True\<rparr>)
             else (s'\<lparr>st_tasks := tput (ac_TaskID c) (completeTaskRow c clock t) (st_tasks s')\<rparr>,
                   Inr \<lparr>cr_Applied = True, cr_Rejected = False\<rparr>))"

section \<open>Closing many attempts\<close>

definition closeSweepRow ::
  "(string \<Rightarrow> bool) \<Rightarrow> attempt_status \<Rightarrow> string \<Rightarrow> time \<Rightarrow> TaskAttempt \<Rightarrow> TaskAttempt" where
  "closeSweepRow matches status message now a =
     (if \<not> matches (att_TaskID a) \<or> att_Status a \<noteq> AttemptStatusRunning then a
      else let a = a\<lparr>att_Status := status, att_EndedAt := Some now\<rparr>
           in if message \<noteq> [] then a\<lparr>att_Message := message\<rparr> else a)"

definition releaseClosed :: "(string \<Rightarrow> bool) \<Rightarrow> time \<Rightarrow> string \<times> TaskAttempt \<Rightarrow> store \<Rightarrow> store" where
  "releaseClosed matches now = (\<lambda>(id, a) s.
     if matches (att_TaskID a) \<and> att_Status a \<noteq> AttemptStatusRunning
     then fst (releaseAttemptClaimsLocked id now s) else s)"

definition closeAttemptsAndReleaseClaimsLocked ::
  "(string \<Rightarrow> bool) \<Rightarrow> attempt_status \<Rightarrow> string \<Rightarrow> time \<Rightarrow> store \<Rightarrow> store" where
  "closeAttemptsAndReleaseClaimsLocked matches status message now s =
     (let s = s\<lparr>st_taskAttempts :=
                tsweep (\<lambda>id a. closeSweepRow matches status message now a) (st_taskAttempts s)\<rparr>
      in fold (releaseClosed matches now) (st_taskAttempts s) s)"

definition cancelTaskRow :: "string \<Rightarrow> time \<Rightarrow> bool \<Rightarrow> Task \<Rightarrow> Task" where
  "cancelTaskRow reason now clearAssignment t =
     (let t = t\<lparr>task_Status := TaskStatusCanceled, task_UnschedulableReason := [],
                task_UpdatedAt := now\<rparr>;
          t = (if clearAssignment
               then t\<lparr>task_AssignedWorkerID := [], task_AssignedAt := None\<rparr> else t)
      in (if reason \<noteq> [] \<and> task_FailureReason t = []
          then t\<lparr>task_FailureReason := reason\<rparr> else t))"

definition cancelTaskRowLocked :: "string \<Rightarrow> string \<Rightarrow> time \<Rightarrow> bool \<Rightarrow> store \<Rightarrow> store" where
  "cancelTaskRowLocked taskID reason now clearAssignment s =
     s\<lparr>st_tasks :=
        tput taskID (cancelTaskRow reason now clearAssignment (tgetz zero_Task (st_tasks s) taskID))
          (st_tasks s)\<rparr>"

definition CancelTaskExecution ::
  "ctx \<Rightarrow> string \<Rightarrow> string \<Rightarrow> time \<Rightarrow> store \<Rightarrow> store \<times> (Task \<times> bool) sres" where
  "CancelTaskExecution ctx taskID reason now s = fenced ctx s
     (case tget (st_tasks s) taskID of
        None \<Rightarrow> (s, Inl ErrNotFound)
      | Some prior \<Rightarrow>
          if terminalTask (task_Status prior) then (s, Inr (prior, False))
          else (closeAttemptsAndReleaseClaimsLocked (\<lambda>id. id = taskID) AttemptStatusCanceled [] now
                  (cancelTaskRowLocked taskID reason now False s),
                Inr (prior, True)))"

section \<open>Reclaiming tasks from a worker\<close>

definition reclaimTaskRow :: "time \<Rightarrow> Task \<Rightarrow> Task" where
  "reclaimTaskRow now t =
     t\<lparr>task_Status := TaskStatusReady, task_AssignedWorkerID := [], task_AssignedAt := None,
       task_UnschedulableReason := [], task_UpdatedAt := now\<rparr>"

definition reclaimToReadyLocked ::
  "(Task \<Rightarrow> bool) \<Rightarrow> string \<Rightarrow> time \<Rightarrow> store \<Rightarrow> store \<times> Task list" where
  "reclaimToReadyLocked match message now s =
     (let reclaimed = (\<lambda>id. case tget (st_tasks s) id of Some t \<Rightarrow> match t | None \<Rightarrow> False);
          out = map (reclaimTaskRow now) (filter match (trows (st_tasks s)));
          s' = s\<lparr>st_tasks :=
                 tsweep (\<lambda>id t. if match t then reclaimTaskRow now t else t) (st_tasks s)\<rparr>
      in if out = [] then (s', [])
         else (closeAttemptsAndReleaseClaimsLocked reclaimed AttemptStatusFailed message now s', out))"

definition inFlightOn :: "string \<Rightarrow> Task \<Rightarrow> bool" where
  "inFlightOn workerID t \<longleftrightarrow> task_AssignedWorkerID t = workerID \<and> inFlightTask (task_Status t)"

definition reclaimWorkerTasksLocked ::
  "string \<Rightarrow> string \<Rightarrow> time \<Rightarrow> store \<Rightarrow> store \<times> Task list" where
  "reclaimWorkerTasksLocked workerID message now s =
     reclaimToReadyLocked (inFlightOn workerID) message now s"

definition ReclaimStaleAssignedTasks ::
  "ctx \<Rightarrow> time \<Rightarrow> time \<Rightarrow> store \<Rightarrow> store \<times> Task list sres" where
  "ReclaimStaleAssignedTasks ctx cutoff clock s = fenced ctx s
     (let (s', out) = reclaimToReadyLocked
            (\<lambda>t. task_Status t = TaskStatusAssigned \<and>
                 (case task_AssignedAt t of Some at \<Rightarrow> at < cutoff | None \<Rightarrow> False)) [] clock s
      in (s', Inr out))"

section \<open>Reports of a live attempt\<close>

definition StartTaskAttempt ::
  "ctx \<Rightarrow> string \<Rightarrow> string \<Rightarrow> string \<Rightarrow> time \<Rightarrow> store \<Rightarrow> store \<times> bool sres" where
  "StartTaskAttempt ctx attemptID taskID sessionID now s = fenced ctx s
     (case tget (st_tasks s) taskID of
        None \<Rightarrow> (s, Inl ErrNotFound)
      | Some t \<Rightarrow>
          if \<not> liveAttemptLocked s attemptID t then (s, Inr False)
          else
            let s1 = (if task_Status t = TaskStatusAssigned
                      then s\<lparr>st_tasks := tput taskID
                             (t\<lparr>task_Status := TaskStatusRunning, task_UnschedulableReason := [],
                                task_UpdatedAt := now\<rparr>) (st_tasks s)\<rparr>
                      else s);
                s2 = (case tget (st_taskAttempts s1) attemptID of
                        Some a \<Rightarrow>
                          if sessionID \<noteq> []
                          then s1\<lparr>st_taskAttempts :=
                                 tput attemptID (a\<lparr>att_SessionID := sessionID\<rparr>)
                                   (st_taskAttempts s1)\<rparr>
                          else s1
                      | None \<Rightarrow> s1)
            in (s2, Inr True))"

definition RecordAttemptProgress ::
  "ctx \<Rightarrow> AttemptProgress \<Rightarrow> store \<Rightarrow> store \<times> (progress_outcome \<times> string) sres" where
  "RecordAttemptProgress ctx p s = fenced ctx s
     (case tget (st_tasks s) (ap_TaskID p) of
        None \<Rightarrow> (s, Inl ErrNotFound)
      | Some t \<Rightarrow>
          if \<not> liveAttemptLocked s (ap_AttemptID p) t then (s, Inr (ProgressNotLive, task_JobID t))
          else if task_Status t = TaskStatusAssigned
          then (s, Inr (ProgressTaskAssigned, task_JobID t))
          else (case tget (st_taskAttempts s) (ap_AttemptID p) of
                  None \<Rightarrow> (s, Inr (ProgressNotLive, task_JobID t))
                | Some a \<Rightarrow>
                    if (case att_ProgressAt a of Some at \<Rightarrow> \<not> at < ap_At p | None \<Rightarrow> False)
                    then (s, Inr (ProgressOutOfOrder, task_JobID t))
                    else (s\<lparr>st_taskAttempts := tput (ap_AttemptID p)
                             (a\<lparr>att_Progress := ap_Progress p, att_StatusText := ap_StatusText p,
                                att_ProgressAt := Some (ap_At p)\<rparr>) (st_taskAttempts s)\<rparr>,
                          Inr (ProgressRecorded, task_JobID t))))"

definition ReclaimTaskAttempt ::
  "ctx \<Rightarrow> string \<Rightarrow> string \<Rightarrow> time \<Rightarrow> store \<Rightarrow> store \<times> bool sres" where
  "ReclaimTaskAttempt ctx attemptID taskID now s = fenced ctx s
     (case tget (st_tasks s) taskID of
        None \<Rightarrow> (s, Inl ErrNotFound)
      | Some t \<Rightarrow>
          if \<not> liveAttemptLocked s attemptID t then (s, Inr False)
          else (fst (reclaimToReadyLocked (\<lambda>c. task_ID c = taskID) FailureReasonWorkerShutdown now s),
                Inr True))"

section \<open>Failures and retries\<close>

definition failAttemptRow ::
  "int option \<Rightarrow> string \<Rightarrow> string \<Rightarrow> time \<Rightarrow> TaskAttempt \<Rightarrow> TaskAttempt" where
  "failAttemptRow exitCode sessionID message now a =
     (let a = a\<lparr>att_Status := AttemptStatusFailed, att_EndedAt := Some now\<rparr>;
          a = (case exitCode of Some code \<Rightarrow> a\<lparr>att_ExitCode := Some code\<rparr> | None \<Rightarrow> a);
          a = (if sessionID \<noteq> [] then a\<lparr>att_SessionID := sessionID\<rparr> else a)
      in (if message \<noteq> [] then a\<lparr>att_Message := message\<rparr> else a))"

text \<open>\<^verbatim>\<open>RecordTaskFailure\<close>: the failure is counted only by the call that closes the attempt, so a
  redelivered report counts nothing.\<close>

definition RecordTaskFailure ::
  "ctx \<Rightarrow> string \<Rightarrow> string \<Rightarrow> int option \<Rightarrow> string \<Rightarrow> string \<Rightarrow> time \<Rightarrow> time \<Rightarrow> store
     \<Rightarrow> store \<times> (int \<times> int \<times> bool) sres" where
  "RecordTaskFailure ctx attemptID taskID exitCode sessionID message now clock s = fenced ctx s
     (case tget (st_tasks s) taskID of
        None \<Rightarrow> (s, Inl ErrNotFound)
      | Some t \<Rightarrow>
          (case tget (st_jobs s) (task_JobID t) of
             None \<Rightarrow> (s, Inl ErrNotFound)
           | Some j \<Rightarrow>
               let running = (case tget (st_taskAttempts s) attemptID of
                                Some a \<Rightarrow> att_Status a = AttemptStatusRunning
                              | None \<Rightarrow> False);
                   t' = (if running
                         then t\<lparr>task_FailedAttempts := task_FailedAttempts t + 1,
                                task_UpdatedAt := now\<rparr> else t);
                   j' = (if running
                         then j\<lparr>job_FailedAttempts := job_FailedAttempts j + 1,
                                job_UpdatedAt := now\<rparr> else j);
                   s' = (case tget (st_taskAttempts s) attemptID of
                           Some a \<Rightarrow>
                             if running
                             then s\<lparr>st_taskAttempts := tput attemptID
                                      (failAttemptRow exitCode sessionID message now a)
                                      (st_taskAttempts s),
                                    st_tasks := tput taskID t' (st_tasks s),
                                    st_jobs := tput (task_JobID t) j' (st_jobs s)\<rparr>
                             else s
                         | None \<Rightarrow> s)
               in (fst (releaseAttemptClaimsLocked attemptID clock s'),
                   Inr (task_FailedAttempts t', job_FailedAttempts j', running))))"

definition requeueTaskRow :: "time \<Rightarrow> time \<Rightarrow> Task \<Rightarrow> Task" where
  "requeueTaskRow retryAfter now t =
     t\<lparr>task_Status := TaskStatusReady, task_AssignedWorkerID := [], task_AssignedAt := None,
       task_RetryAfter := Some retryAfter, task_FailureReason := [], task_UpdatedAt := now\<rparr>"

definition RequeueTaskForRetry ::
  "ctx \<Rightarrow> string \<Rightarrow> string \<Rightarrow> time \<Rightarrow> time \<Rightarrow> store \<Rightarrow> store \<times> bool sres" where
  "RequeueTaskForRetry ctx taskID attemptID retryAfter now s = fenced ctx s
     (case tget (st_tasks s) taskID of
        None \<Rightarrow> (s, Inr False)
      | Some t \<Rightarrow>
          if \<not> inFlightTask (task_Status t) \<or> \<not> isLatestAttemptLocked s taskID attemptID
          then (s, Inr False)
          else (s\<lparr>st_tasks := tput taskID (requeueTaskRow retryAfter now t) (st_tasks s)\<rparr>, Inr True))"

section \<open>The claim invariant\<close>

text \<open>\<^verbatim>\<open>ClaimInvariantViolations\<close> (\<^verbatim>\<open>fake/invariants.go\<close>): the active claims whose attempt is missing or
  closed or whose task is over.\<close>

definition claimViolates :: "store \<Rightarrow> UsageClaim \<Rightarrow> bool" where
  "claimViolates s c =
     (if claim_ReleasedAt c \<noteq> None then False
      else (case tget (st_taskAttempts s) (claim_TaskAttemptID c) of
              None \<Rightarrow> True
            | Some a \<Rightarrow>
                if att_Status a \<noteq> AttemptStatusRunning then True
                else (case tget (st_tasks s) (att_TaskID a) of
                        None \<Rightarrow> False
                      | Some t \<Rightarrow>
                          task_Status t = TaskStatusSucceeded \<or> task_Status t = TaskStatusFailed \<or>
                          task_Status t = TaskStatusCanceled)))"

definition ClaimInvariantViolations :: "store \<Rightarrow> string list" where
  "ClaimInvariantViolations s = sort (map fst (filter (\<lambda>(id, c). claimViolates s c) (st_usageClaims s)))"

section \<open>Facts about the latest attempt\<close>

lemma latestAttempt_scan_iff:
  "latestAttempt_scan tid found as = Some a \<Longrightarrow>
     (found = Some a \<or> (a \<in> set as \<and> att_TaskID a = tid)) \<and>
     (\<forall>b \<in> set as. att_TaskID b = tid \<longrightarrow> att_AttemptNumber b \<le> att_AttemptNumber a) \<and>
     (\<forall>b. found = Some b \<longrightarrow> att_AttemptNumber b \<le> att_AttemptNumber a)"
  by (induction tid found as rule: latestAttempt_scan.induct)
    (auto split: if_splits option.splits)

lemma latestAttempt_scan_None:
  "latestAttempt_scan tid found as = None \<longleftrightarrow>
     found = None \<and> (\<forall>b \<in> set as. att_TaskID b \<noteq> tid)"
  by (induction tid found as rule: latestAttempt_scan.induct)
    (auto split: if_splits option.splits)

lemma latestAttemptLocked_Some:
  "latestAttemptLocked s tid = Some a \<Longrightarrow>
     a \<in> set (trows (st_taskAttempts s)) \<and> att_TaskID a = tid \<and>
     (\<forall>b \<in> set (trows (st_taskAttempts s)). att_TaskID b = tid \<longrightarrow>
        att_AttemptNumber b \<le> att_AttemptNumber a)"
  unfolding latestAttemptLocked_def by (auto dest: latestAttempt_scan_iff)

lemma latestAttemptLocked_None:
  "latestAttemptLocked s tid = None \<longleftrightarrow>
     (\<forall>b \<in> set (trows (st_taskAttempts s)). att_TaskID b \<noteq> tid)"
  unfolding latestAttemptLocked_def by (simp add: latestAttempt_scan_None)

definition top_attempt :: "TaskAttempt table \<Rightarrow> TaskAttempt \<Rightarrow> bool" where
  "top_attempt A a \<longleftrightarrow>
     (\<forall>b \<in> set (trows A). att_TaskID b = att_TaskID a \<longrightarrow> att_AttemptNumber b \<le> att_AttemptNumber a)"

lemma isLatestAttemptLocked_iff:
  "isLatestAttemptLocked s tid aid \<longleftrightarrow>
     (\<exists>a. tget (st_taskAttempts s) aid = Some a \<and> att_TaskID a = tid \<and>
          top_attempt (st_taskAttempts s) a)"
proof (cases "tget (st_taskAttempts s) aid")
  case None
  then show ?thesis by (simp add: isLatestAttemptLocked_def)
next
  case (Some a)
  then have mem: "a \<in> set (trows (st_taskAttempts s))" by (rule tget_trows)
  show ?thesis
  proof (cases "latestAttemptLocked s tid")
    case None
    then show ?thesis
      using mem Some by (auto simp: isLatestAttemptLocked_def latestAttemptLocked_None)
  next
    case (Some l)
    from latestAttemptLocked_Some [OF this]
    have l: "l \<in> set (trows (st_taskAttempts s))" "att_TaskID l = tid"
      and max: "\<And>b. b \<in> set (trows (st_taskAttempts s)) \<Longrightarrow> att_TaskID b = tid \<Longrightarrow>
        att_AttemptNumber b \<le> att_AttemptNumber l"
      by auto
    show ?thesis
      using Some \<open>tget (st_taskAttempts s) aid = Some a\<close> mem l max [OF mem]
      by (auto simp: isLatestAttemptLocked_def top_attempt_def dest: max intro: order.antisym)
  qed
qed

section \<open>What a release and a close change\<close>

definition attempt_key :: "TaskAttempt \<Rightarrow> string \<times> string \<times> int" where
  "attempt_key a = (att_ID a, att_TaskID a, att_AttemptNumber a)"

lemma attempt_key_closeAttemptRow [simp]: "attempt_key (closeAttemptRow c a) = attempt_key a"
  by (simp add: attempt_key_def closeAttemptRow_def Let_def split: option.split)

lemma status_closeAttemptRow [simp]: "att_Status (closeAttemptRow c a) = ac_AttemptStatus c"
  by (simp add: closeAttemptRow_def Let_def split: option.split)

lemma attempt_key_failAttemptRow [simp]: "attempt_key (failAttemptRow e i m n a) = attempt_key a"
  by (simp add: attempt_key_def failAttemptRow_def Let_def split: option.split)

lemma status_failAttemptRow [simp]: "att_Status (failAttemptRow e i m n a) = AttemptStatusFailed"
  by (simp add: failAttemptRow_def Let_def split: option.split)

lemma attempt_key_closeSweepRow [simp]: "attempt_key (closeSweepRow p st m n a) = attempt_key a"
  by (simp add: attempt_key_def closeSweepRow_def Let_def)

lemma attempt_keyD:
  "attempt_key a = attempt_key b \<Longrightarrow>
     att_ID a = att_ID b \<and> att_TaskID a = att_TaskID b \<and> att_AttemptNumber a = att_AttemptNumber b"
  by (simp add: attempt_key_def)

lemma status_closeSweepRow:
  "att_Status (closeSweepRow p st m n a) =
     (if p (att_TaskID a) \<and> att_Status a = AttemptStatusRunning then st else att_Status a)"
  by (simp add: closeSweepRow_def Let_def)

lemma status_cancelTaskRow [simp]: "task_Status (cancelTaskRow r n b t) = TaskStatusCanceled"
  and ids_cancelTaskRow [simp]:
    "task_ID (cancelTaskRow r n b t) = task_ID t"
    "task_JobID (cancelTaskRow r n b t) = task_JobID t"
    "task_StepID (cancelTaskRow r n b t) = task_StepID t"
  by (simp_all add: cancelTaskRow_def Let_def)

lemma status_completeTaskRow [simp]: "task_Status (completeTaskRow c n t) = ac_TaskStatus c"
  and ids_completeTaskRow [simp]:
    "task_ID (completeTaskRow c n t) = task_ID t"
    "task_JobID (completeTaskRow c n t) = task_JobID t"
    "task_StepID (completeTaskRow c n t) = task_StepID t"
  by (simp_all add: completeTaskRow_def Let_def)

lemma fields_reclaimTaskRow [simp]:
  "task_Status (reclaimTaskRow n t) = TaskStatusReady"
  "task_ID (reclaimTaskRow n t) = task_ID t"
  "task_JobID (reclaimTaskRow n t) = task_JobID t"
  "task_StepID (reclaimTaskRow n t) = task_StepID t"
  by (simp_all add: reclaimTaskRow_def)

lemma fields_requeueTaskRow [simp]:
  "task_Status (requeueTaskRow r n t) = TaskStatusReady"
  "task_ID (requeueTaskRow r n t) = task_ID t"
  "task_JobID (requeueTaskRow r n t) = task_JobID t"
  "task_StepID (requeueTaskRow r n t) = task_StepID t"
  by (simp_all add: requeueTaskRow_def)

lemma releaseClaim_simps [simp]:
  "claim_ReleasedAt (releaseClaim at c) = Some at"
  "claim_ID (releaseClaim at c) = claim_ID c"
  "claim_PoolID (releaseClaim at c) = claim_PoolID c"
  "claim_TaskAttemptID (releaseClaim at c) = claim_TaskAttemptID c"
  by (simp_all add: releaseClaim_def)

text \<open>The claims a release sweep touches: those of the attempts in \<open>K\<close>, unless released before.\<close>

definition releaseWhere :: "(string \<Rightarrow> bool) \<Rightarrow> time \<Rightarrow> UsageClaim table \<Rightarrow> UsageClaim table" where
  "releaseWhere K at C =
     tsweep (\<lambda>id c. if K (claim_TaskAttemptID c) \<and> claim_ReleasedAt c = None
                   then releaseClaim at c else c) C"

lemma releaseWhere_none [simp]: "releaseWhere (\<lambda>_. False) at C = C"
  by (simp add: releaseWhere_def)

lemma releaseWhere_releaseWhere:
  "releaseWhere K at (releaseWhere L at C) = releaseWhere (\<lambda>i. K i \<or> L i) at C"
  unfolding releaseWhere_def tsweep_tsweep by (rule tsweep_cong) auto

lemma releaseAttemptClaimsLocked_eq:
  "fst (releaseAttemptClaimsLocked aid at s) =
     s\<lparr>st_usageClaims := releaseWhere (\<lambda>i. i = aid) at (st_usageClaims s)\<rparr>"
  by (simp add: releaseAttemptClaimsLocked_def releaseWhere_def Let_def)

lemma fold_releaseClosed:
  "fold (releaseClosed p at) A s =
     s\<lparr>st_usageClaims :=
        releaseWhere (\<lambda>i. \<exists>a. (i, a) \<in> set A \<and> p (att_TaskID a) \<and> att_Status a \<noteq> AttemptStatusRunning)
          at (st_usageClaims s)\<rparr>"
proof (induction A arbitrary: s)
  case Nil
  then show ?case by simp
next
  case (Cons x A)
  obtain i a where x: "x = (i, a)" by (cases x)
  let ?hit = "p (att_TaskID a) \<and> att_Status a \<noteq> AttemptStatusRunning"
  let ?K = "\<lambda>A i. \<exists>a. (i, a) \<in> set A \<and> p (att_TaskID a) \<and> att_Status a \<noteq> AttemptStatusRunning"
  have step: "releaseClosed p at x s =
      s\<lparr>st_usageClaims := releaseWhere (\<lambda>j. j = i \<and> ?hit) at (st_usageClaims s)\<rparr>"
    by (auto simp: x releaseClosed_def releaseAttemptClaimsLocked_eq)
  have "(\<lambda>j. ?K A j \<or> j = i \<and> ?hit) = ?K (x # A)"
    by (auto simp: x fun_eq_iff)
  then show ?case
    by (simp only: fold_Cons comp_apply step Cons.IH)
      (simp add: releaseWhere_releaseWhere)
qed

text \<open>The state after a sweep that closes the open attempts of the tasks \<open>p\<close> matches: their claims
  are released, and nothing but attempts and claims changes.\<close>

lemma closeAttemptsAndReleaseClaimsLocked_eq:
  "closeAttemptsAndReleaseClaimsLocked p st m at s =
     s\<lparr>st_taskAttempts := tsweep (\<lambda>id a. closeSweepRow p st m at a) (st_taskAttempts s),
       st_usageClaims :=
         releaseWhere
           (\<lambda>i. \<exists>a. (i, a) \<in> set (tsweep (\<lambda>id a. closeSweepRow p st m at a) (st_taskAttempts s)) \<and>
                p (att_TaskID a) \<and> att_Status a \<noteq> AttemptStatusRunning) at (st_usageClaims s)\<rparr>"
  by (simp add: closeAttemptsAndReleaseClaimsLocked_def fold_releaseClosed Let_def)

lemma closeRunningAttemptLocked_eq:
  "closeRunningAttemptLocked c clock s =
     s\<lparr>st_taskAttempts :=
         (case tget (st_taskAttempts s) (ac_AttemptID c) of
            Some a \<Rightarrow> if att_Status a = AttemptStatusRunning
                      then tput (ac_AttemptID c) (closeAttemptRow c a) (st_taskAttempts s)
                      else st_taskAttempts s
          | None \<Rightarrow> st_taskAttempts s),
       st_usageClaims :=
         releaseWhere (\<lambda>i. i = ac_AttemptID c) clock (st_usageClaims s)\<rparr>"
  by (simp add: closeRunningAttemptLocked_def releaseAttemptClaimsLocked_eq Let_def
      split: option.split)

end
