(* ===== verification/StoreLease.thy ===== *)
theory StoreLease
  imports StoreAttempts "HOL-Library.Product_Lexorder"
begin

text \<open>
  Leasing a task to a worker in the in-memory store (\<^verbatim>\<open>fake/lease.go\<close>), with the eligibility
  predicate and the counts it decides by (\<^verbatim>\<open>fake/task.go\<close>, \<^verbatim>\<open>fake/usage.go\<close>) and the listing of ready
  tasks by the same predicate.
\<close>

section \<open>Eligibility and counts\<close>

definition isReadyInFarm ::
  "Task \<Rightarrow> string \<Rightarrow> time \<Rightarrow> Job table \<Rightarrow> bool table \<Rightarrow> bool" where
  "isReadyInFarm t farmID now jobs queuePaused =
     (if task_Status t \<noteq> TaskStatusReady then False
      else (case tget jobs (task_JobID t) of
              None \<Rightarrow> False
            | Some job \<Rightarrow>
                if farmID \<noteq> [] \<and> job_FarmID job \<noteq> farmID then False
                else if tgetz False queuePaused (job_QueueID job) then False
                else if job_Status job = JobStatusPaused \<or> JobStatus_IsTerminal (job_Status job)
                then False
                else if (case task_RetryAfter t of Some at \<Rightarrow> now < at | None \<Rightarrow> False) then False
                else True))"

definition activeTask :: "Task \<Rightarrow> bool" where
  "activeTask t \<longleftrightarrow> \<not> (task_Status t \<noteq> TaskStatusAssigned \<and> task_Status t \<noteq> TaskStatusRunning)"

definition activeTasksLocked :: "(Job \<Rightarrow> bool) \<Rightarrow> store \<Rightarrow> nat" where
  "activeTasksLocked inScope s =
     tcount (\<lambda>t. activeTask t \<and>
        (case tget (st_jobs s) (task_JobID t) of Some job \<Rightarrow> inScope job | None \<Rightarrow> False))
       (st_tasks s)"

definition CountActiveTasksInQueue :: "string \<Rightarrow> store \<Rightarrow> nat" where
  "CountActiveTasksInQueue queueID s = activeTasksLocked (\<lambda>j. job_QueueID j = queueID) s"

definition CountActiveTasksInFarm :: "string \<Rightarrow> store \<Rightarrow> nat" where
  "CountActiveTasksInFarm farmID s = activeTasksLocked (\<lambda>j. job_FarmID j = farmID) s"

definition activeClaimsLocked :: "string \<Rightarrow> store \<Rightarrow> nat" where
  "activeClaimsLocked poolID s =
     tcount (\<lambda>c. claim_PoolID c = poolID \<and> claim_ReleasedAt c = None) (st_usageClaims s)"

section \<open>The lease\<close>

definition leasableLocked :: "store \<Rightarrow> Task \<Rightarrow> LeaseRequest \<Rightarrow> bool" where
  "leasableLocked s t req =
     (case tget (st_jobs s) (task_JobID t) of
        None \<Rightarrow> False
      | Some j \<Rightarrow>
          (case tget (st_queues s) (job_QueueID j) of
             None \<Rightarrow> False
           | Some q \<Rightarrow>
               if tget (st_farms s) (job_FarmID j) = None then False
               else isReadyInFarm t [] (req_Now req) (st_jobs s) [(queue_ID q, queue_Paused q)]))"

text \<open>\<^verbatim>\<open>leaseCapsFullLocked\<close>: a missing queue or farm row reads as one without a cap.\<close>

definition leaseCapsFullLocked :: "store \<Rightarrow> Job \<Rightarrow> lease_outcome option" where
  "leaseCapsFullLocked s j =
     (let qcap = (case tget (st_queues s) (job_QueueID j) of
                    Some q \<Rightarrow> queue_MaxConcurrentTasks q | None \<Rightarrow> 0);
          fcap = (case tget (st_farms s) (job_FarmID j) of
                    Some f \<Rightarrow> farm_MaxConcurrentTasks f | None \<Rightarrow> 0)
      in if 0 < qcap \<and> qcap \<le> int (activeTasksLocked (\<lambda>x. job_QueueID x = job_QueueID j) s)
         then Some LeaseQueueFull
         else if 0 < fcap \<and> fcap \<le> int (activeTasksLocked (\<lambda>x. job_FarmID x = job_FarmID j) s)
         then Some LeaseFarmFull
         else None)"

fun leasePoolsScan ::
  "store \<Rightarrow> (string \<Rightarrow> nat) \<Rightarrow> UsagePoolClaim list \<Rightarrow> LeaseResult option sres" where
  "leasePoolsScan s accepted [] = Inr None"
| "leasePoolsScan s accepted (c # cs) =
     (case tget (st_usagePools s) (upc_PoolID c) of
        None \<Rightarrow>
          Inr (Some \<lparr>res_Outcome = LeasePoolFull, res_Attempt = None, res_FullPool = upc_PoolName c\<rparr>)
      | Some p \<Rightarrow>
          if 0 < pool_MaxConcurrent p \<and>
             pool_MaxConcurrent p \<le>
               int (activeClaimsLocked (upc_PoolID c) s + accepted (upc_PoolID c))
          then Inr (Some \<lparr>res_Outcome = LeasePoolFull, res_Attempt = None, res_FullPool = pool_Name p\<rparr>)
          else if 0 < accepted (upc_PoolID c) then Inl ErrConflict
          else leasePoolsScan s (accepted(upc_PoolID c := accepted (upc_PoolID c) + 1)) cs)"

definition leasePoolsFullLocked :: "store \<Rightarrow> UsagePoolClaim list \<Rightarrow> LeaseResult option sres" where
  "leasePoolsFullLocked s claims = leasePoolsScan s (\<lambda>_. 0) claims"

definition leaseTaskRow :: "LeaseRequest \<Rightarrow> Task \<Rightarrow> Task" where
  "leaseTaskRow req t =
     t\<lparr>task_Status := TaskStatusAssigned, task_AssignedWorkerID := req_WorkerID req,
       task_AssignedAt := Some (req_Now req), task_UnschedulableReason := [],
       task_UpdatedAt := req_Now req\<rparr>"

definition leaseAttempt :: "LeaseRequest \<Rightarrow> string \<Rightarrow> int \<Rightarrow> TaskAttempt" where
  "leaseAttempt req taskID num =
     \<lparr>att_ID = req_AttemptID req, att_TaskID = taskID, att_WorkerID = req_WorkerID req,
      att_SessionID = [], att_AttemptNumber = num, att_Status = AttemptStatusRunning,
      att_ExitCode = None, att_Message = [], att_StartedAt = req_Now req, att_EndedAt = None,
      att_CreatedAt = req_Now req, att_Progress = None, att_StatusText = [], att_ProgressAt = None\<rparr>"

definition leaseClaim :: "LeaseRequest \<Rightarrow> UsagePoolClaim \<Rightarrow> UsageClaim" where
  "leaseClaim req c =
     \<lparr>claim_ID = upc_ClaimID c, claim_PoolID = upc_PoolID c,
      claim_TaskAttemptID = req_AttemptID req, claim_ClaimedAt = req_Now req,
      claim_ReleasedAt = None\<rparr>"

definition nextAttemptNumber :: "store \<Rightarrow> string \<Rightarrow> int" where
  "nextAttemptNumber s taskID =
     (case latestAttemptLocked s taskID of Some latest \<Rightarrow> att_AttemptNumber latest + 1 | None \<Rightarrow> 1)"

definition leaseWrite :: "LeaseRequest \<Rightarrow> Task \<Rightarrow> UsagePoolClaim list \<Rightarrow> store \<Rightarrow> store \<times> TaskAttempt" where
  "leaseWrite req t claims s =
     (let attempt = leaseAttempt req (task_ID t) (nextAttemptNumber s (task_ID t))
      in (s\<lparr>st_tasks := tput (task_ID t) (leaseTaskRow req t) (st_tasks s),
            st_taskAttempts := tput (req_AttemptID req) attempt (st_taskAttempts s),
            st_usageClaims :=
              fold (\<lambda>c. tput (upc_ClaimID c) (leaseClaim req c)) claims (st_usageClaims s)\<rparr>,
          attempt))"

definition lease_result :: "lease_outcome \<Rightarrow> LeaseResult" where
  "lease_result out = \<lparr>res_Outcome = out, res_Attempt = None, res_FullPool = []\<rparr>"

definition LeaseTask :: "ctx \<Rightarrow> LeaseRequest \<Rightarrow> store \<Rightarrow> store \<times> LeaseResult sres" where
  "LeaseTask ctx req s = fenced ctx s
     (case tget (st_tasks s) (req_TaskID req) of
        None \<Rightarrow> (s, Inr (lease_result LeaseLost))
      | Some t \<Rightarrow>
          if \<not> leasableLocked s t req then (s, Inr (lease_result LeaseLost))
          else if (case tget (st_workers s) (req_WorkerID req) of
                     Some w \<Rightarrow> worker_Disabled w | None \<Rightarrow> False)
          then (s, Inr (lease_result LeaseLost))
          else
            (case tget (st_jobs s) (task_JobID t) of
               None \<Rightarrow> (s, Inr (lease_result LeaseLost))
             | Some j \<Rightarrow>
                 (case leaseCapsFullLocked s j of
                    Some full \<Rightarrow> (s, Inr (lease_result full))
                  | None \<Rightarrow>
                      let claims = sort_key upc_PoolID (req_Claims req)
                      in (case leasePoolsFullLocked s claims of
                            Inl e \<Rightarrow> (s, Inl e)
                          | Inr (Some res) \<Rightarrow> (s, Inr res)
                          | Inr None \<Rightarrow>
                              let (s', attempt) = leaseWrite req t claims s
                              in (s', Inr \<lparr>res_Outcome = LeaseLeased, res_Attempt = Some attempt,
                                           res_FullPool = []\<rparr>)))))"

section \<open>Listing ready tasks\<close>

definition queuePausedIn :: "string \<Rightarrow> store \<Rightarrow> bool table" where
  "queuePausedIn farmID s =
     fold (\<lambda>q m. if farmID = [] \<or> queue_FarmID q = farmID then tput (queue_ID q) (queue_Paused q) m
                 else m) (trows (st_queues s)) []"

definition jobPriorityIn :: "string \<Rightarrow> store \<Rightarrow> int table" where
  "jobPriorityIn farmID s =
     fold (\<lambda>j m. if farmID = [] \<or> job_FarmID j = farmID then tput (job_ID j) (job_Priority j) m
                 else m) (trows (st_jobs s)) []"

text \<open>\<^verbatim>\<open>cmpReadyTask\<close> orders by descending priority of the job and then by ascending creation time;
  the order of equal tasks is the stable sort's.\<close>

definition readyKey :: "int table \<Rightarrow> Task \<Rightarrow> int \<times> int" where
  "readyKey prio t = (- tgetz 0 prio (task_JobID t), task_CreatedAt t)"

definition ListReadyTasks :: "string \<Rightarrow> time \<Rightarrow> nat \<Rightarrow> store \<Rightarrow> Task list" where
  "ListReadyTasks farmID now limit s =
     take limit
       (sort_key (readyKey (jobPriorityIn farmID s))
         (filter (\<lambda>t. isReadyInFarm t farmID now (st_jobs s) (queuePausedIn farmID s))
           (trows (st_tasks s))))"

text \<open>\<^verbatim>\<open>SetTaskUnschedulableReason\<close>: the note is written only while the task is ready.\<close>

definition SetTaskUnschedulableReason ::
  "ctx \<Rightarrow> string \<Rightarrow> string \<Rightarrow> time \<Rightarrow> store \<Rightarrow> store \<times> bool sres" where
  "SetTaskUnschedulableReason ctx taskID reason clock s = fenced ctx s
     (case tget (st_tasks s) taskID of
        None \<Rightarrow> (s, Inl ErrNotFound)
      | Some task \<Rightarrow>
          if task_Status task \<noteq> TaskStatusReady then (s, Inr False)
          else (s\<lparr>st_tasks := tput taskID
                   (task\<lparr>task_UnschedulableReason := reason, task_UpdatedAt := clock\<rparr>) (st_tasks s)\<rparr>,
                Inr True))"

section \<open>Facts about the lease\<close>

lemma activeTask_iff: "activeTask t \<longleftrightarrow> inFlightTask (task_Status t)"
  by (auto simp: activeTask_def inFlightTask_iff)

lemma isReadyInFarm_Ready:
  "isReadyInFarm t f now jobs qp \<Longrightarrow> task_Status t = TaskStatusReady"
  by (auto simp: isReadyInFarm_def split: if_splits)

lemma leasableLocked_Ready: "leasableLocked s t req \<Longrightarrow> task_Status t = TaskStatusReady"
  by (auto simp: leasableLocked_def split: option.splits if_splits dest: isReadyInFarm_Ready)

lemma fields_leaseTaskRow [simp]:
  "task_Status (leaseTaskRow req t) = TaskStatusAssigned"
  "task_ID (leaseTaskRow req t) = task_ID t"
  "task_JobID (leaseTaskRow req t) = task_JobID t"
  "task_StepID (leaseTaskRow req t) = task_StepID t"
  by (simp_all add: leaseTaskRow_def)

lemma fields_leaseAttempt [simp]:
  "att_ID (leaseAttempt req tid n) = req_AttemptID req"
  "att_TaskID (leaseAttempt req tid n) = tid"
  "att_AttemptNumber (leaseAttempt req tid n) = n"
  "att_Status (leaseAttempt req tid n) = AttemptStatusRunning"
  by (simp_all add: leaseAttempt_def)

lemma fields_leaseClaim [simp]:
  "claim_ID (leaseClaim req c) = upc_ClaimID c"
  "claim_PoolID (leaseClaim req c) = upc_PoolID c"
  "claim_TaskAttemptID (leaseClaim req c) = req_AttemptID req"
  "claim_ReleasedAt (leaseClaim req c) = None"
  by (simp_all add: leaseClaim_def)

text \<open>What a lease that succeeded decided, and what it wrote.\<close>

definition lease_granted :: "LeaseRequest \<Rightarrow> store \<Rightarrow> Task \<Rightarrow> Job \<Rightarrow> bool" where
  "lease_granted req s t j \<longleftrightarrow>
     tget (st_tasks s) (req_TaskID req) = Some t \<and>
     tget (st_jobs s) (task_JobID t) = Some j \<and>
     leasableLocked s t req \<and>
     (\<forall>w. tget (st_workers s) (req_WorkerID req) = Some w \<longrightarrow> \<not> worker_Disabled w) \<and>
     leaseCapsFullLocked s j = None \<and>
     leasePoolsFullLocked s (sort_key upc_PoolID (req_Claims req)) = Inr None"

lemma leaseCapsFullLocked_not_leased:
  "leaseCapsFullLocked s j = Some out \<Longrightarrow> out \<noteq> LeaseLeased"
  by (auto simp: leaseCapsFullLocked_def Let_def split: if_splits)

lemma leasePoolsScan_not_leased:
  "leasePoolsScan s acc cs = Inr (Some res) \<Longrightarrow> res_Outcome res = LeasePoolFull"
  by (induction s acc cs rule: leasePoolsScan.induct) (auto split: option.splits if_splits)

lemma LeaseTask_leased:
  assumes "LeaseTask ctx req s = (s', Inr res)" "res_Outcome res = LeaseLeased"
  obtains t j where "fenceLocked ctx s = None" "lease_granted req s t j"
    "s' = fst (leaseWrite req t (sort_key upc_PoolID (req_Claims req)) s)"
    "res_Attempt res = Some (snd (leaseWrite req t (sort_key upc_PoolID (req_Claims req)) s))"
proof -
  from fenceLocked_cases have fence: "fenceLocked ctx s = None"
    using assms(1) by (cases "fenceLocked ctx s") (auto simp: LeaseTask_def fenced_def)
  show thesis
    using assms fence
    by (auto simp: LeaseTask_def lease_result_def lease_granted_def Let_def leasePoolsFullLocked_def
        split: option.splits if_splits sum.splits prod.splits
        dest: leaseCapsFullLocked_not_leased leasePoolsScan_not_leased
        intro!: that)
qed

text \<open>A call that does not lease leaves the store as it was.\<close>

lemma LeaseTask_not_leased:
  "LeaseTask ctx req s = (s', r) \<Longrightarrow>
     (\<And>res. r = Inr res \<Longrightarrow> res_Outcome res \<noteq> LeaseLeased) \<Longrightarrow> s' = s"
  by (auto simp: LeaseTask_def fenced_def lease_result_def Let_def
      split: option.splits if_splits sum.splits prod.splits)

end
