(* ===== verification/StoreFinalize.thy ===== *)
theory StoreFinalize
  imports StoreLease
begin

text \<open>
  Steps and jobs reaching an outcome in the in-memory store (\<^verbatim>\<open>fake/finalize.go\<close>): the outcome a
  step's tasks and a job's steps determine, the release and cancellation of pending steps and
  blocked jobs, and the operations that cancel a whole job or retry its tasks
  (\<^verbatim>\<open>fake/attemptclose.go\<close>, \<^verbatim>\<open>fake/task.go\<close>).
\<close>

section \<open>Outcomes\<close>

text \<open>The scan of \<^verbatim>\<open>stepOutcomeLocked\<close>: \<open>None\<close> is the code's empty status.\<close>

fun stepOutcome_scan :: "string \<Rightarrow> bool \<Rightarrow> bool \<Rightarrow> Task list \<Rightarrow> step_status option" where
  "stepOutcome_scan stepID failed canceled [] =
     (if failed then Some StepStatusFailed
      else if canceled then Some StepStatusCanceled
      else Some StepStatusCompleted)"
| "stepOutcome_scan stepID failed canceled (t # ts) =
     (if task_StepID t \<noteq> stepID then stepOutcome_scan stepID failed canceled ts
      else if \<not> terminalTask (task_Status t) then None
      else if task_Status t = TaskStatusFailed then stepOutcome_scan stepID True canceled ts
      else if task_Status t = TaskStatusCanceled then stepOutcome_scan stepID failed True ts
      else stepOutcome_scan stepID failed canceled ts)"

definition stepOutcomeLocked :: "store \<Rightarrow> string \<Rightarrow> step_status option" where
  "stepOutcomeLocked s stepID = stepOutcome_scan stepID False False (trows (st_tasks s))"

definition stepsWithTasksLocked :: "store \<Rightarrow> string \<Rightarrow> bool" where
  "stepsWithTasksLocked s stepID \<longleftrightarrow> (\<exists>t \<in> set (trows (st_tasks s)). task_StepID t = stepID)"

definition FinalizeStep ::
  "ctx \<Rightarrow> string \<Rightarrow> time \<Rightarrow> store \<Rightarrow> store \<times> (step_status option \<times> bool) sres" where
  "FinalizeStep ctx stepID now s = fenced ctx s
     (case tget (st_steps s) stepID of
        None \<Rightarrow> (s, Inl ErrNotFound)
      | Some st \<Rightarrow>
          if StepStatus_IsTerminal (step_Status st) then (s, Inr (Some (step_Status st), False))
          else (case stepOutcomeLocked s stepID of
                  None \<Rightarrow> (s, Inr (None, False))
                | Some out \<Rightarrow>
                    (s\<lparr>st_steps := tput stepID (st\<lparr>step_Status := out, step_UpdatedAt := now\<rparr>) (st_steps s)\<rparr>,
                     Inr (Some out, True))))"

fun jobOutcome_scan :: "string \<Rightarrow> bool \<Rightarrow> bool \<Rightarrow> Step list \<Rightarrow> job_status option" where
  "jobOutcome_scan jobID failed canceled [] =
     (if failed then Some JobStatusFailed
      else if canceled then Some JobStatusCanceled
      else Some JobStatusCompleted)"
| "jobOutcome_scan jobID failed canceled (st # sts) =
     (if step_JobID st \<noteq> jobID then jobOutcome_scan jobID failed canceled sts
      else if \<not> StepStatus_IsTerminal (step_Status st) then None
      else if step_Status st = StepStatusFailed then jobOutcome_scan jobID True canceled sts
      else if step_Status st = StepStatusCanceled then jobOutcome_scan jobID failed True sts
      else jobOutcome_scan jobID failed canceled sts)"

definition FinalizeJob ::
  "ctx \<Rightarrow> string \<Rightarrow> time \<Rightarrow> store \<Rightarrow> store \<times> (job_status option \<times> bool) sres" where
  "FinalizeJob ctx jobID now s = fenced ctx s
     (case tget (st_jobs s) jobID of
        None \<Rightarrow> (s, Inl ErrNotFound)
      | Some j \<Rightarrow>
          if JobStatus_IsTerminal (job_Status j) then (s, Inr (Some (job_Status j), False))
          else (case jobOutcome_scan jobID False False (trows (st_steps s)) of
                  None \<Rightarrow> (s, Inr (None, False))
                | Some out \<Rightarrow>
                    (s\<lparr>st_jobs := tput jobID (j\<lparr>job_Status := out, job_CompletedAt := Some now,
                                           job_UpdatedAt := now\<rparr>) (st_jobs s)\<rparr>,
                     Inr (Some out, True))))"

definition ListStuckSteps :: "store \<Rightarrow> Step list" where
  "ListStuckSteps s =
     sort_key (\<lambda>st. (step_JobID st, step_StepOrder st))
       (map snd (filter (\<lambda>(id, st).
          \<not> (StepStatus_IsTerminal (step_Status st) \<or> \<not> stepsWithTasksLocked s id \<or>
             stepOutcomeLocked s id = None) \<and>
          (case tget (st_jobs s) (step_JobID st) of
             None \<Rightarrow> False | Some j \<Rightarrow> \<not> JobStatus_IsTerminal (job_Status j))) (st_steps s)))"

definition ListJobIDsWithPendingSteps :: "store \<Rightarrow> string list" where
  "ListJobIDsWithPendingSteps s =
     sort (remdups (map step_JobID (filter (\<lambda>st.
          step_Status st = StepStatusPending \<and>
          (case tget (st_jobs s) (step_JobID st) of
             None \<Rightarrow> False
           | Some j \<Rightarrow> \<not> JobStatus_IsTerminal (job_Status j) \<and> job_Status j \<noteq> JobStatusBlocked))
        (trows (st_steps s)))))"

section \<open>Pending steps and blocked jobs\<close>

definition transitionTaskRow :: "task_status \<Rightarrow> string \<Rightarrow> time \<Rightarrow> Task \<Rightarrow> Task" where
  "transitionTaskRow to failureReason updatedAt t =
     (let t = t\<lparr>task_Status := to, task_UnschedulableReason := []\<rparr>;
          t = (if failureReason \<noteq> [] \<and> task_FailureReason t = []
               then t\<lparr>task_FailureReason := failureReason\<rparr> else t)
      in t\<lparr>task_UpdatedAt := updatedAt\<rparr>)"

definition transitionPendingTasksWhereLocked ::
  "(Task \<Rightarrow> bool) \<Rightarrow> task_status \<Rightarrow> string \<Rightarrow> time \<Rightarrow> store \<Rightarrow> store \<times> Task list" where
  "transitionPendingTasksWhereLocked match to failureReason updatedAt s =
     (let hit = (\<lambda>t. \<not> (task_Status t \<noteq> TaskStatusPending \<or> \<not> match t));
          move = transitionTaskRow to failureReason updatedAt
      in (s\<lparr>st_tasks := tsweep (\<lambda>id t. if hit t then move t else t) (st_tasks s)\<rparr>,
          map move (filter hit (trows (st_tasks s)))))"

definition transitionPendingTasksLocked ::
  "string \<Rightarrow> task_status \<Rightarrow> string \<Rightarrow> time \<Rightarrow> store \<Rightarrow> store \<times> Task list" where
  "transitionPendingTasksLocked stepID to failureReason updatedAt s =
     transitionPendingTasksWhereLocked (\<lambda>t. task_StepID t = stepID) to failureReason updatedAt s"

definition anyUpstreamUnsuccessfulLocked :: "store \<Rightarrow> Step \<Rightarrow> bool" where
  "anyUpstreamUnsuccessfulLocked s st \<longleftrightarrow>
     (\<exists>other \<in> set (trows (st_steps s)).
        step_JobID other = step_JobID st \<and> step_Name other \<in> set (step_DependsOn st) \<and>
        (step_Status other = StepStatusFailed \<or> step_Status other = StepStatusCanceled))"

definition movePendingStep ::
  "ctx \<Rightarrow> string \<Rightarrow> step_status \<Rightarrow> task_status \<Rightarrow> string \<Rightarrow> time \<Rightarrow> store
     \<Rightarrow> store \<times> (bool \<times> Task list) sres" where
  "movePendingStep ctx stepID stepTo taskTo reason now s = fenced ctx s
     (case tget (st_steps s) stepID of
        None \<Rightarrow> (s, Inl ErrNotFound)
      | Some st \<Rightarrow>
          if stepTo = StepStatusCanceled \<and> \<not> anyUpstreamUnsuccessfulLocked s st
          then (s, Inr (False, []))
          else if step_Status st \<noteq> StepStatusPending then (s, Inr (False, []))
          else
            let s1 = s\<lparr>st_steps :=
                       tput stepID (st\<lparr>step_Status := stepTo, step_UpdatedAt := now\<rparr>) (st_steps s)\<rparr>;
                (s2, ts) = transitionPendingTasksLocked stepID taskTo reason now s1
            in (s2, Inr (True, ts)))"

definition ReleaseStep ::
  "ctx \<Rightarrow> string \<Rightarrow> time \<Rightarrow> store \<Rightarrow> store \<times> (bool \<times> Task list) sres" where
  "ReleaseStep ctx stepID now s = movePendingStep ctx stepID StepStatusReady TaskStatusReady [] now s"

definition CancelPendingStep ::
  "ctx \<Rightarrow> string \<Rightarrow> string \<Rightarrow> time \<Rightarrow> store \<Rightarrow> store \<times> (bool \<times> Task list) sres" where
  "CancelPendingStep ctx stepID reason now s =
     movePendingStep ctx stepID StepStatusCanceled TaskStatusCanceled reason now s"

definition ReleaseBlockedJob :: "ctx \<Rightarrow> string \<Rightarrow> time \<Rightarrow> store \<Rightarrow> store \<times> bool sres" where
  "ReleaseBlockedJob ctx jobID now s = fenced ctx s
     (case tget (st_jobs s) jobID of
        None \<Rightarrow> (s, Inl ErrNotFound)
      | Some j \<Rightarrow>
          if job_Status j \<noteq> JobStatusBlocked then (s, Inr False)
          else if \<exists>up \<in> set (tgetz [] (st_jobDependencies s) jobID).
                    (case tget (st_jobs s) up of
                       None \<Rightarrow> True | Some u \<Rightarrow> job_Status u \<noteq> JobStatusCompleted)
          then (s, Inr False)
          else (s\<lparr>st_jobs := tput jobID (j\<lparr>job_Status := JobStatusPending, job_UpdatedAt := now\<rparr>)
                             (st_jobs s)\<rparr>, Inr True))"

definition CancelBlockedJob ::
  "ctx \<Rightarrow> string \<Rightarrow> string \<Rightarrow> time \<Rightarrow> store \<Rightarrow> store \<times> (bool \<times> Task list) sres" where
  "CancelBlockedJob ctx jobID reason now s = fenced ctx s
     (case tget (st_jobs s) jobID of
        None \<Rightarrow> (s, Inl ErrNotFound)
      | Some j \<Rightarrow>
          if job_Status j \<noteq> JobStatusBlocked then (s, Inr (False, []))
          else
            let s1 = s\<lparr>st_jobs := tput jobID (j\<lparr>job_Status := JobStatusCanceled,
                         job_CompletedAt := Some now, job_UpdatedAt := now\<rparr>) (st_jobs s),
                       st_steps := tsweep (\<lambda>sid st.
                         if step_JobID st = jobID \<and> \<not> StepStatus_IsTerminal (step_Status st)
                         then st\<lparr>step_Status := StepStatusCanceled, step_UpdatedAt := now\<rparr>
                         else st) (st_steps s)\<rparr>;
                (s2, ts) = transitionPendingTasksWhereLocked (\<lambda>t. task_JobID t = jobID)
                             TaskStatusCanceled reason now s1
            in (s2, Inr (True, ts)))"

section \<open>Running, pausing and cancelling a job\<close>

definition PromoteJobRunning :: "ctx \<Rightarrow> string \<Rightarrow> time \<Rightarrow> store \<Rightarrow> store \<times> bool sres" where
  "PromoteJobRunning ctx jobID now s = fenced ctx s
     (case tget (st_jobs s) jobID of
        None \<Rightarrow> (s, Inr False)
      | Some j \<Rightarrow>
          if job_Status j \<noteq> JobStatusPending then (s, Inr False)
          else
            let j1 = (if job_StartedAt j = None then j\<lparr>job_StartedAt := Some now\<rparr> else j)
            in (s\<lparr>st_jobs := tput jobID (j1\<lparr>job_Status := JobStatusRunning, job_UpdatedAt := now\<rparr>)
                             (st_jobs s)\<rparr>, Inr True))"

definition PauseJob :: "ctx \<Rightarrow> string \<Rightarrow> time \<Rightarrow> store \<Rightarrow> store \<times> unit sres" where
  "PauseJob ctx jobID now s = fenced ctx s
     (case tget (st_jobs s) jobID of
        None \<Rightarrow> (s, Inl ErrNotFound)
      | Some j \<Rightarrow>
          if job_Status j \<noteq> JobStatusPending \<and> job_Status j \<noteq> JobStatusRunning
          then (s, Inl ErrConflict)
          else (s\<lparr>st_jobs := tput jobID (j\<lparr>job_Status := JobStatusPaused, job_UpdatedAt := now\<rparr>)
                             (st_jobs s)\<rparr>, Inr ()))"

definition cancelJobRowLocked :: "string \<Rightarrow> time \<Rightarrow> store \<Rightarrow> store" where
  "cancelJobRowLocked jobID now s =
     (case tget (st_jobs s) jobID of
        None \<Rightarrow> s
      | Some j \<Rightarrow>
          if JobStatus_IsTerminal (job_Status j) then s
          else s\<lparr>st_jobs := tput jobID (j\<lparr>job_Status := JobStatusCanceled,
                   job_CompletedAt := Some now, job_UpdatedAt := now\<rparr>) (st_jobs s)\<rparr>)"

definition cancelStepRow :: "store \<Rightarrow> string \<Rightarrow> time \<Rightarrow> string \<Rightarrow> Step \<Rightarrow> Step" where
  "cancelStepRow s jobID now stepID st =
     (if step_JobID st \<noteq> jobID \<or> StepStatus_IsTerminal (step_Status st) then st
      else (case stepOutcomeLocked s stepID of
              None \<Rightarrow> st
            | Some out \<Rightarrow>
                st\<lparr>step_Status := (if step_Status st = StepStatusPending \<or> \<not> stepsWithTasksLocked s stepID
                                   then StepStatusCanceled else out),
                   step_UpdatedAt := now\<rparr>))"

definition cancelJobFinalizeStepsLocked :: "string \<Rightarrow> time \<Rightarrow> store \<Rightarrow> store" where
  "cancelJobFinalizeStepsLocked jobID now s =
     s\<lparr>st_steps := tsweep (cancelStepRow s jobID now) (st_steps s)\<rparr>"

definition CancelJobExecution ::
  "ctx \<Rightarrow> string \<Rightarrow> string \<Rightarrow> time \<Rightarrow> store \<Rightarrow> store \<times> Task list sres" where
  "CancelJobExecution ctx jobID reason now s = fenced ctx s
     (let hit = (\<lambda>t. \<not> (task_JobID t \<noteq> jobID \<or> terminalTask (task_Status t)));
          active = filter (\<lambda>t. hit t \<and> inFlightTask (task_Status t)) (trows (st_tasks s));
          s1 = s\<lparr>st_tasks :=
                 tsweep (\<lambda>id t. if hit t then cancelTaskRow reason now True t else t) (st_tasks s)\<rparr>;
          s2 = closeAttemptsAndReleaseClaimsLocked
                 (\<lambda>taskID. task_JobID (tgetz zero_Task (st_tasks s1) taskID) = jobID)
                 AttemptStatusCanceled [] now s1
      in (cancelJobRowLocked jobID now (cancelJobFinalizeStepsLocked jobID now s2), Inr active))"

section \<open>Retrying failed and canceled tasks\<close>

definition revivedStatusLocked :: "store \<Rightarrow> string \<Rightarrow> task_status" where
  "revivedStatusLocked s stepID =
     (case tget (st_steps s) stepID of
        Some st \<Rightarrow>
          if step_Status st = StepStatusReady \<or> step_Status st = StepStatusRunning
          then TaskStatusReady else TaskStatusPending
      | None \<Rightarrow> TaskStatusPending)"

definition retryResetJobLocked :: "string \<Rightarrow> time \<Rightarrow> store \<Rightarrow> store" where
  "retryResetJobLocked jobID now s =
     (case tget (st_jobs s) jobID of
        None \<Rightarrow> s
      | Some job \<Rightarrow>
          let terminal = (job_Status job = JobStatusFailed \<or> job_Status job = JobStatusCanceled);
              autoParked = (job_Status job = JobStatusPaused \<and> job_ParkReason job \<noteq> [])
          in if \<not> terminal \<and> \<not> autoParked then s
             else s\<lparr>st_jobs := tput jobID (job\<lparr>job_Status := JobStatusPending,
                      job_CompletedAt := None, job_FailedAttempts := 0, job_ParkReason := [],
                      job_UpdatedAt := now\<rparr>) (st_jobs s)\<rparr>)"

definition reviveTaskRow :: "store \<Rightarrow> time \<Rightarrow> Task \<Rightarrow> Task" where
  "reviveTaskRow s now t =
     t\<lparr>task_Status := revivedStatusLocked s (task_StepID t), task_UnschedulableReason := [],
       task_FailedAttempts := 0, task_RetryAfter := None, task_FailureReason := [],
       task_UpdatedAt := now\<rparr>"

definition retryHit :: "string \<Rightarrow> string list option \<Rightarrow> string \<Rightarrow> Task \<Rightarrow> bool" where
  "retryHit jobID taskIDs tid t \<longleftrightarrow>
     task_JobID t = jobID \<and>
     (task_Status t = TaskStatusFailed \<or> task_Status t = TaskStatusCanceled) \<and>
     (case taskIDs of None \<Rightarrow> True | Some ids \<Rightarrow> tid \<in> set ids)"

definition reviveStepRow :: "time \<Rightarrow> Step \<Rightarrow> Step" where
  "reviveStepRow now st =
     (if step_Status st = StepStatusFailed \<or> step_Status st = StepStatusCanceled
      then st\<lparr>step_Status := StepStatusPending, step_UpdatedAt := now\<rparr> else st)"

definition RetryTasks ::
  "ctx \<Rightarrow> string \<Rightarrow> string list option \<Rightarrow> time \<Rightarrow> store \<Rightarrow> store \<times> Task list sres" where
  "RetryTasks ctx jobID taskIDs now s = fenced ctx s
     (let hit = retryHit jobID taskIDs;
          hits = map snd (filter (\<lambda>(id, t). hit id t) (st_tasks s));
          revived = map (reviveTaskRow s now) hits;
          affectedSteps = map task_StepID hits;
          s1 = s\<lparr>st_tasks :=
                 tsweep (\<lambda>id t. if hit id t then reviveTaskRow s now t else t) (st_tasks s)\<rparr>
      in if revived = [] then (s1, Inr [])
         else
           let s2 = s1\<lparr>st_steps :=
                      tsweep (\<lambda>id st. if id \<in> set affectedSteps then reviveStepRow now st else st)
                        (st_steps s1)\<rparr>
           in (retryResetJobLocked jobID now s2, Inr revived))"

section \<open>What the outcomes say\<close>

lemma stepOutcome_scan_eq:
  "stepOutcome_scan sid f c ts =
     (if list_ex (\<lambda>t. task_StepID t = sid \<and> \<not> terminalTask (task_Status t)) ts then None
      else if f \<or> list_ex (\<lambda>t. task_StepID t = sid \<and> task_Status t = TaskStatusFailed) ts
      then Some StepStatusFailed
      else if c \<or> list_ex (\<lambda>t. task_StepID t = sid \<and> task_Status t = TaskStatusCanceled) ts
      then Some StepStatusCanceled
      else Some StepStatusCompleted)"
proof (induction ts arbitrary: f c)
  case Nil
  then show ?case by simp
next
  case (Cons t ts)
  show ?case
    by (cases "task_Status t") (simp_all add: Cons.IH)
qed

lemma stepOutcomeLocked_None:
  "stepOutcomeLocked s sid = None \<longleftrightarrow>
     (\<exists>t \<in> set (trows (st_tasks s)). task_StepID t = sid \<and> \<not> terminalTask (task_Status t))"
  by (simp add: stepOutcomeLocked_def stepOutcome_scan_eq list_ex_iff)

lemma stepOutcomeLocked_terminal:
  "stepOutcomeLocked s sid = Some out \<Longrightarrow> StepStatus_IsTerminal out"
  by (auto simp: stepOutcomeLocked_def stepOutcome_scan_eq split: if_splits)

lemma jobOutcome_scan_eq:
  "jobOutcome_scan jid f c sts =
     (if list_ex (\<lambda>st. step_JobID st = jid \<and> \<not> StepStatus_IsTerminal (step_Status st)) sts then None
      else if f \<or> list_ex (\<lambda>st. step_JobID st = jid \<and> step_Status st = StepStatusFailed) sts
      then Some JobStatusFailed
      else if c \<or> list_ex (\<lambda>st. step_JobID st = jid \<and> step_Status st = StepStatusCanceled) sts
      then Some JobStatusCanceled
      else Some JobStatusCompleted)"
proof (induction sts arbitrary: f c)
  case Nil
  then show ?case by simp
next
  case (Cons st sts)
  show ?case
    by (cases "step_Status st") (simp_all add: Cons.IH)
qed

lemma jobOutcome_scan_terminal:
  "jobOutcome_scan jid f c sts = Some out \<Longrightarrow> JobStatus_IsTerminal out"
  by (auto simp: jobOutcome_scan_eq split: if_splits)

lemma fields_transitionTaskRow [simp]:
  "task_Status (transitionTaskRow to r n t) = to"
  "task_ID (transitionTaskRow to r n t) = task_ID t"
  "task_JobID (transitionTaskRow to r n t) = task_JobID t"
  "task_StepID (transitionTaskRow to r n t) = task_StepID t"
  by (simp_all add: transitionTaskRow_def Let_def)

lemma fields_reviveTaskRow [simp]:
  "task_Status (reviveTaskRow s n t) = revivedStatusLocked s (task_StepID t)"
  "task_ID (reviveTaskRow s n t) = task_ID t"
  "task_JobID (reviveTaskRow s n t) = task_JobID t"
  "task_StepID (reviveTaskRow s n t) = task_StepID t"
  by (simp_all add: reviveTaskRow_def)

lemma revivedStatusLocked_cases:
  "revivedStatusLocked s sid = TaskStatusReady \<or> revivedStatusLocked s sid = TaskStatusPending"
  by (simp add: revivedStatusLocked_def split: option.split)

end
