(* ===== verification/StoreJobs.thy ===== *)
theory StoreJobs
  imports StoreFinalize
begin

text \<open>
  The job table of the in-memory store (\<^verbatim>\<open>fake/job.go\<close>): submission of a job with its dependency
  edges, steps and tasks, the operator's updates, parking and resuming, demotion of stalled jobs,
  and deletion with everything that hangs off a job.
\<close>

section \<open>Submission\<close>

definition normalizeDeclaredExtensions :: "Job \<Rightarrow> Job" where
  "normalizeDeclaredExtensions job =
     (if \<not> job_ExtensionsRecorded job then job\<lparr>job_DeclaredExtensions := []\<rparr> else job)"

fun checkUpstreams_scan :: "store \<Rightarrow> Job \<Rightarrow> string list \<Rightarrow> store_error option" where
  "checkUpstreams_scan s job [] = None"
| "checkUpstreams_scan s job (up # ups) =
     (let status = (if up = job_ID job then Some (job_Status job)
                    else map_option job_Status (tget (st_jobs s) up))
      in (case status of
            None \<Rightarrow> Some (DependencyUnsatisfiable up None)
          | Some st \<Rightarrow>
              if st = JobStatusFailed \<or> st = JobStatusCanceled
              then Some (DependencyUnsatisfiable up (Some st))
              else checkUpstreams_scan s job ups))"

definition checkUpstreamsLocked :: "store \<Rightarrow> JobSubmission \<Rightarrow> store_error option" where
  "checkUpstreamsLocked s sub =
     checkUpstreams_scan s (sub_Job sub) (remdups_adj (sort (sub_DependsOn sub)))"

fun validateSubmissionTasks :: "store \<Rightarrow> string list \<Rightarrow> Task list \<Rightarrow> store_error option" where
  "validateSubmissionTasks s ids [] = None"
| "validateSubmissionTasks s ids (t # ts) =
     (if task_ID t \<in> set ids then Some ErrConflict
      else if tget (st_tasks s) (task_ID t) \<noteq> None then Some ErrConflict
      else validateSubmissionTasks s (task_ID t # ids) ts)"

definition stepNameKey :: "Step \<Rightarrow> string" where
  "stepNameKey st = step_JobID st @ [CHR 0x00] @ step_Name st"

fun validateSubmissionSteps ::
  "store \<Rightarrow> string list \<Rightarrow> string list \<Rightarrow> Step list \<Rightarrow> store_error option" where
  "validateSubmissionSteps s ids names [] = None"
| "validateSubmissionSteps s ids names (st # sts) =
     (if step_ID st \<in> set ids then Some ErrConflict
      else if tget (st_steps s) (step_ID st) \<noteq> None then Some ErrConflict
      else if stepNameKey st \<in> set names then Some ErrConflict
      else if \<exists>e \<in> set (trows (st_steps s)). step_JobID e = step_JobID st \<and> step_Name e = step_Name st
      then Some ErrConflict
      else validateSubmissionSteps s (step_ID st # ids) (stepNameKey st # names) sts)"

definition validateSubmission :: "store \<Rightarrow> JobSubmission \<Rightarrow> store_error option" where
  "validateSubmission s sub =
     (if tget (st_jobs s) (job_ID (sub_Job sub)) \<noteq> None then Some ErrConflict
      else (case checkUpstreamsLocked s sub of
              Some e \<Rightarrow> Some e
            | None \<Rightarrow>
                (case validateSubmissionSteps s [] [] (sub_Steps sub) of
                   Some e \<Rightarrow> Some e
                 | None \<Rightarrow> validateSubmissionTasks s [] (sub_Tasks sub))))"

text \<open>The edges in the order given, each once.  The code reads the clock once for the
  job and once per row; one reading stands for them all, and the rows get strictly increasing
  stamps from it.\<close>

definition addEdges :: "string list \<Rightarrow> string list \<Rightarrow> string list" where
  "addEdges existing ups = foldl (\<lambda>es up. if up \<in> set es then es else es @ [up]) existing ups"

fun insertSteps :: "time \<Rightarrow> Step list \<Rightarrow> store \<Rightarrow> store \<times> Step list" where
  "insertSteps clock [] s = (s, [])"
| "insertSteps clock (st # sts) s =
     (let (rowNow, s1) = stampLocked clock s;
          st1 = st\<lparr>step_CreatedAt := rowNow, step_UpdatedAt := rowNow\<rparr>;
          s2 = s1\<lparr>st_steps := tput (step_ID st1) st1 (st_steps s1)\<rparr>;
          (s3, out) = insertSteps clock sts s2
      in (s3, st1 # out))"

fun insertTasks :: "time \<Rightarrow> Task list \<Rightarrow> store \<Rightarrow> store \<times> Task list" where
  "insertTasks clock [] s = (s, [])"
| "insertTasks clock (t # ts) s =
     (let (rowNow, s1) = stampLocked clock s;
          t1 = t\<lparr>task_CreatedAt := rowNow, task_UpdatedAt := rowNow\<rparr>;
          s2 = s1\<lparr>st_tasks := tput (task_ID t1) t1 (st_tasks s1)\<rparr>;
          (s3, out) = insertTasks clock ts s2
      in (s3, t1 # out))"

definition submittedJob :: "JobSubmission \<Rightarrow> time \<Rightarrow> Job" where
  "submittedJob sub clock =
     (normalizeDeclaredExtensions (sub_Job sub))\<lparr>job_CreatedAt := clock, job_UpdatedAt := clock\<rparr>"

definition insertJob :: "JobSubmission \<Rightarrow> time \<Rightarrow> store \<Rightarrow> store" where
  "insertJob sub clock s =
     (let job = submittedJob sub clock;
          s1 = s\<lparr>st_jobs := tput (job_ID job) job (st_jobs s)\<rparr>;
          edges = addEdges (tgetz [] (st_jobDependencies s1) (job_ID job)) (sub_DependsOn sub)
      in if edges \<noteq> []
         then s1\<lparr>st_jobDependencies := tput (job_ID job) edges (st_jobDependencies s1)\<rparr>
         else s1)"

definition CreateJobSubmission ::
  "ctx \<Rightarrow> JobSubmission \<Rightarrow> time \<Rightarrow> store \<Rightarrow> store \<times> JobSubmission sres" where
  "CreateJobSubmission ctx sub clock s = fenced ctx s
     (case validateSubmission s sub of
        Some e \<Rightarrow> (s, Inl e)
      | None \<Rightarrow>
          let (s3, steps) = insertSteps clock (sub_Steps sub) (insertJob sub clock s);
              (s4, tasks) = insertTasks clock (sub_Tasks sub) s3
          in (s4, Inr \<lparr>sub_Job = submittedJob sub clock, sub_DependsOn = sub_DependsOn sub,
                       sub_Steps = steps, sub_Tasks = tasks\<rparr>))"

section \<open>Reading jobs and edges\<close>

definition GetJob :: "string \<Rightarrow> store \<Rightarrow> Job sres" where
  "GetJob jobID s =
     (case tget (st_jobs s) jobID of
        None \<Rightarrow> Inl ErrNotFound
      | Some job \<Rightarrow> Inr (job\<lparr>job_DependsOn := tgetz [] (st_jobDependencies s) jobID\<rparr>))"

definition ListJobDependencyIDs :: "string \<Rightarrow> store \<Rightarrow> string list" where
  "ListJobDependencyIDs jobID s = sort (tgetz [] (st_jobDependencies s) jobID)"

definition ListDependents :: "string \<Rightarrow> store \<Rightarrow> string list" where
  "ListDependents upstreamJobID s =
     sort (map fst (filter (\<lambda>(jobID, ups). upstreamJobID \<in> set ups) (st_jobDependencies s)))"

definition ListBlockedJobs :: "store \<Rightarrow> Job list" where
  "ListBlockedJobs s =
     sort_key job_ID (filter (\<lambda>j. job_Status j = JobStatusBlocked) (trows (st_jobs s)))"

definition ListSteps :: "string \<Rightarrow> store \<Rightarrow> Step list" where
  "ListSteps jobID s =
     sort_key step_StepOrder (filter (\<lambda>st. step_JobID st = jobID) (trows (st_steps s)))"

section \<open>Updates\<close>

definition UpdateJob :: "ctx \<Rightarrow> Job \<Rightarrow> time \<Rightarrow> store \<Rightarrow> store \<times> Job sres" where
  "UpdateJob ctx job clock s = fenced ctx s
     (case tget (st_jobs s) (job_ID job) of
        None \<Rightarrow> (s, Inl ErrNotFound)
      | Some existing \<Rightarrow>
          let job' = job\<lparr>job_Status := job_Status existing, job_StartedAt := job_StartedAt existing,
                job_CompletedAt := job_CompletedAt existing, job_CreatedAt := job_CreatedAt existing,
                job_Parameters := job_Parameters existing,
                job_DeclaredExtensions := job_DeclaredExtensions existing,
                job_ExtensionsRecorded := job_ExtensionsRecorded existing,
                job_FailedAttempts := job_FailedAttempts existing,
                job_ParkReason := job_ParkReason existing, job_UpdatedAt := clock\<rparr>
          in (s\<lparr>st_jobs := tput (job_ID job) job' (st_jobs s)\<rparr>, Inr job'))"

text \<open>\<^verbatim>\<open>DemoteStalledJobs\<close>: a running job with nothing in flight and something still to schedule
  goes back to pending.\<close>

definition stalled :: "store \<Rightarrow> string \<Rightarrow> Job \<Rightarrow> bool" where
  "stalled s jobID job \<longleftrightarrow>
     job_Status job = JobStatusRunning \<and>
     tcount (\<lambda>t. task_JobID t = jobID \<and>
        (task_Status t = TaskStatusAssigned \<or> task_Status t = TaskStatusRunning)) (st_tasks s) = 0 \<and>
     tcount (\<lambda>t. task_JobID t = jobID \<and>
        (task_Status t = TaskStatusReady \<or> task_Status t = TaskStatusPending)) (st_tasks s) \<noteq> 0"

definition DemoteStalledJobs :: "ctx \<Rightarrow> time \<Rightarrow> store \<Rightarrow> store \<times> string list sres" where
  "DemoteStalledJobs ctx now s = fenced ctx s
     (s\<lparr>st_jobs := tsweep (\<lambda>jobID job.
          if stalled s jobID job
          then job\<lparr>job_Status := JobStatusPending, job_UpdatedAt := now\<rparr> else job) (st_jobs s)\<rparr>,
      Inr (map fst (filter (\<lambda>(jobID, job). stalled s jobID job) (st_jobs s))))"

definition CancelJobStatus :: "ctx \<Rightarrow> string \<Rightarrow> time \<Rightarrow> store \<Rightarrow> store \<times> unit sres" where
  "CancelJobStatus ctx jobID clock s = fenced ctx s
     (case tget (st_jobs s) jobID of
        None \<Rightarrow> (s, Inl ErrNotFound)
      | Some job \<Rightarrow>
          if job_Status job = JobStatusCanceled then (s, Inr ())
          else if job_Status job = JobStatusCompleted \<or> job_Status job = JobStatusFailed
          then (s, Inl ErrConflict)
          else (cancelJobRowLocked jobID clock s, Inr ()))"

definition ParkJob :: "ctx \<Rightarrow> string \<Rightarrow> string \<Rightarrow> time \<Rightarrow> store \<Rightarrow> store \<times> unit sres" where
  "ParkJob ctx jobID reason now s = fenced ctx s
     (case tget (st_jobs s) jobID of
        None \<Rightarrow> (s, Inl ErrNotFound)
      | Some j \<Rightarrow>
          if job_Status j = JobStatusCompleted \<or> job_Status j = JobStatusFailed \<or>
             job_Status j = JobStatusCanceled
          then (s, Inr ())
          else (s\<lparr>st_jobs := tput jobID (j\<lparr>job_Status := JobStatusPaused, job_ParkReason := reason,
                   job_UpdatedAt := now\<rparr>) (st_jobs s)\<rparr>, Inr ()))"

definition ResumeJob :: "ctx \<Rightarrow> string \<Rightarrow> time \<Rightarrow> store \<Rightarrow> store \<times> unit sres" where
  "ResumeJob ctx jobID now s = fenced ctx s
     (case tget (st_jobs s) jobID of
        None \<Rightarrow> (s, Inl ErrNotFound)
      | Some j \<Rightarrow>
          if job_Status j \<noteq> JobStatusPaused then (s, Inr ())
          else
            let j1 = j\<lparr>job_Status := JobStatusPending\<rparr>;
                j2 = (if job_ParkReason j1 \<noteq> [] then j1\<lparr>job_FailedAttempts := 0\<rparr> else j1)
            in (s\<lparr>st_jobs := tput jobID (j2\<lparr>job_ParkReason := [], job_UpdatedAt := now\<rparr>)
                             (st_jobs s)\<rparr>, Inr ()))"

section \<open>Deletion\<close>

definition deleteJobLocked :: "string \<Rightarrow> store \<Rightarrow> store" where
  "deleteJobLocked jobID s =
     (let taskIDs = map fst (filter (\<lambda>(tid, t). task_JobID t = jobID) (st_tasks s));
          attemptIDs = map fst (filter (\<lambda>(aid, a). att_TaskID a \<in> set taskIDs) (st_taskAttempts s))
      in s\<lparr>st_usageClaims :=
             tkeep (\<lambda>cid c. claim_TaskAttemptID c \<notin> set attemptIDs) (st_usageClaims s),
           st_taskLogs := filter (\<lambda>l. log_TaskID l \<notin> set taskIDs) (st_taskLogs s),
           st_taskAttempts := tkeep (\<lambda>aid a. aid \<notin> set attemptIDs) (st_taskAttempts s),
           st_tasks := tkeep (\<lambda>tid t. tid \<notin> set taskIDs) (st_tasks s),
           st_steps := tkeep (\<lambda>sid st. step_JobID st \<noteq> jobID) (st_steps s),
           st_jobDependencies := tdel jobID (st_jobDependencies s),
           st_jobs := tdel jobID (st_jobs s)\<rparr>)"

definition DeleteJob :: "ctx \<Rightarrow> string \<Rightarrow> store \<Rightarrow> store \<times> unit sres" where
  "DeleteJob ctx jobID s = fenced ctx s
     (case tget (st_jobs s) jobID of
        None \<Rightarrow> (s, Inl ErrNotFound)
      | Some _ \<Rightarrow> (deleteJobLocked jobID s, Inr ()))"

definition neededByNonTerminalDependentLocked :: "store \<Rightarrow> string \<Rightarrow> bool" where
  "neededByNonTerminalDependentLocked s candidateID \<longleftrightarrow>
     (\<exists>(dependentID, ups) \<in> set (st_jobDependencies s).
        candidateID \<in> set ups \<and>
        (case tget (st_jobs s) dependentID of
           Some dep \<Rightarrow> \<not> JobStatus_IsTerminal (job_Status dep) | None \<Rightarrow> False))"

fun terminalJobEligible :: "job_status \<Rightarrow> bool \<Rightarrow> bool" where
  "terminalJobEligible JobStatusCompleted includeFailed = True"
| "terminalJobEligible JobStatusCanceled includeFailed = True"
| "terminalJobEligible JobStatusFailed includeFailed = includeFailed"
| "terminalJobEligible _ includeFailed = False"

definition expiredJobLocked :: "store \<Rightarrow> Job \<Rightarrow> time \<Rightarrow> bool \<Rightarrow> bool" where
  "expiredJobLocked s j cutoff includeFailed =
     (if \<not> terminalJobEligible (job_Status j) includeFailed then False
      else
        let completed = (case job_CompletedAt j of Some at \<Rightarrow> at | None \<Rightarrow> job_UpdatedAt j)
        in completed < cutoff \<and> \<not> neededByNonTerminalDependentLocked s (job_ID j))"

text \<open>A \<^verbatim>\<open>DeletedJob\<close>: the ID, name, farm and queue of a job that is gone.\<close>

type_synonym DeletedJob = "string \<times> string \<times> string \<times> string"

fun deleteExpired :: "time \<Rightarrow> bool \<Rightarrow> string list \<Rightarrow> store \<Rightarrow> store \<times> DeletedJob list" where
  "deleteExpired cutoff includeFailed [] s = (s, [])"
| "deleteExpired cutoff includeFailed (jobID # ids) s =
     (case tget (st_jobs s) jobID of
        None \<Rightarrow> deleteExpired cutoff includeFailed ids s
      | Some j \<Rightarrow>
          if \<not> expiredJobLocked s j cutoff includeFailed
          then deleteExpired cutoff includeFailed ids s
          else
            let (s', out) = deleteExpired cutoff includeFailed ids (deleteJobLocked jobID s)
            in (s', (job_ID j, job_Name j, job_FarmID j, job_QueueID j) # out))"

definition DeleteTerminalJobsBefore ::
  "ctx \<Rightarrow> time \<Rightarrow> bool \<Rightarrow> store \<Rightarrow> store \<times> DeletedJob list sres" where
  "DeleteTerminalJobsBefore ctx cutoff includeFailed s = fenced ctx s
     (let ids = map fst (filter (\<lambda>(jobID, j). expiredJobLocked s j cutoff includeFailed) (st_jobs s));
          (s', deleted) = deleteExpired cutoff includeFailed ids s
      in (s', Inr deleted))"

text \<open>Retention is a sequence of deletions, each of a job that is expired when its turn comes.\<close>

lemma deleteExpired_steps:
  assumes "I s"
    and "\<And>s jid j. I s \<Longrightarrow> tget (st_jobs s) jid = Some j \<Longrightarrow> expiredJobLocked s j cutoff b \<Longrightarrow>
      I (deleteJobLocked jid s)"
  shows "I (fst (deleteExpired cutoff b ids s))"
  using assms(1)
proof (induction ids arbitrary: s)
  case (Cons jid ids)
  show ?case
  proof (cases "tget (st_jobs s) jid")
    case None
    then show ?thesis using Cons by simp
  next
    case (Some j)
    then show ?thesis
      using Cons.IH [OF Cons.prems] Cons.IH [OF assms(2) [OF Cons.prems Some]]
      by (simp add: case_prod_unfold Let_def)
  qed
qed simp

end
