(* ===== verification/GoUnicode.thy ===== *)
theory GoUnicode
  imports Prelude
begin

text \<open>
  Runes of Go strings.  A Go string is a list of bytes that is read rune by rune as UTF-8: \<open>DecodeRune\<close> and
  \<open>EncodeRune\<close> are \<^verbatim>\<open>utf8.DecodeRuneInString\<close> and \<^verbatim>\<open>utf8.AppendRune\<close>, and \<open>runes\<close> is what a loop over a string
  visits.  White space, lower case and case folding are those of the Unicode character database.
\<close>

section \<open>UTF-8\<close>

definition byteOf :: "char \<Rightarrow> nat" where "byteOf c = of_char c"
definition byteChar :: "nat \<Rightarrow> char" where "byteChar n = char_of n"

lemma byteOf_byteChar [simp]: "n < 256 \<Longrightarrow> byteOf (byteChar n) = n"
  by (simp add: byteOf_def byteChar_def)

definition RuneError :: nat where "RuneError = 65533"

definition cont :: "nat \<Rightarrow> bool" where "cont b \<longleftrightarrow> 128 \<le> b \<and> b \<le> 191"

text \<open>The rune at the front and its length in bytes; an invalid byte is \<open>RuneError\<close> of length 1.\<close>

definition DecodeRune :: "string \<Rightarrow> nat \<times> nat" where
  "DecodeRune s =
     (case map byteOf (take 4 s) of
        [] \<Rightarrow> (RuneError, 0)
      | b0 # bs \<Rightarrow>
          if b0 < 128 then (b0, 1)
          else if 194 \<le> b0 \<and> b0 \<le> 223 then
            (case bs of
               b1 # _ \<Rightarrow> if cont b1 then ((b0 - 192) * 64 + (b1 - 128), 2) else (RuneError, 1)
             | [] \<Rightarrow> (RuneError, 1))
          else if 224 \<le> b0 \<and> b0 \<le> 239 then
            (case bs of
               b1 # b2 # _ \<Rightarrow>
                 if cont b1 \<and> cont b2 \<and> (b0 = 224 \<longrightarrow> 160 \<le> b1) \<and> (b0 = 237 \<longrightarrow> b1 \<le> 159)
                 then ((b0 - 224) * 4096 + (b1 - 128) * 64 + (b2 - 128), 3) else (RuneError, 1)
             | _ \<Rightarrow> (RuneError, 1))
          else if 240 \<le> b0 \<and> b0 \<le> 244 then
            (case bs of
               b1 # b2 # b3 # _ \<Rightarrow>
                 if cont b1 \<and> cont b2 \<and> cont b3 \<and> (b0 = 240 \<longrightarrow> 144 \<le> b1) \<and> (b0 = 244 \<longrightarrow> b1 \<le> 143)
                 then ((b0 - 240) * 262144 + (b1 - 128) * 4096 + (b2 - 128) * 64 + (b3 - 128), 4)
                 else (RuneError, 1)
             | _ \<Rightarrow> (RuneError, 1))
          else (RuneError, 1))"

definition validRune :: "nat \<Rightarrow> bool" where
  "validRune r \<longleftrightarrow> r < 55296 \<or> (57344 \<le> r \<and> r < 1114112)"

definition RuneLen :: "nat \<Rightarrow> nat" where
  "RuneLen r = (if r < 128 then 1 else if r < 2048 then 2 else if r < 65536 then 3 else 4)"

definition EncodeRune :: "nat \<Rightarrow> string" where
  "EncodeRune r = map byteChar
     (if r < 128 then [r]
      else if r < 2048 then [192 + r div 64, 128 + r mod 64]
      else if r < 65536 then [224 + r div 4096, 128 + r div 64 mod 64, 128 + r mod 64]
      else [240 + r div 262144, 128 + r div 4096 mod 64, 128 + r div 64 mod 64, 128 + r mod 64])"

lemma length_EncodeRune [simp]: "length (EncodeRune r) = RuneLen r"
  by (simp add: EncodeRune_def RuneLen_def)

lemma DecodeRune_size: "s \<noteq> [] \<Longrightarrow> 0 < snd (DecodeRune s)"
  by (cases s) (auto simp: DecodeRune_def split: list.split)

lemma rune_digits3: "(r div 4096) * 4096 + (r div 64 mod 64) * 64 + r mod 64 = (r :: nat)"
proof -
  have "r div 4096 = r div 64 div 64" by (simp add: div_mult2_eq [symmetric])
  then show ?thesis using div_mult_mod_eq [of "r div 64" 64] div_mult_mod_eq [of r 64] by linarith
qed

lemma rune_digits4:
  "(r div 262144) * 262144 + (r div 4096 mod 64) * 4096 + (r div 64 mod 64) * 64 + r mod 64 = (r :: nat)"
proof -
  have "r div 262144 = r div 4096 div 64" by (simp add: div_mult2_eq [symmetric])
  then show ?thesis using div_mult_mod_eq [of "r div 4096" 64] rune_digits3 [of r] by linarith
qed

lemma DecodeRune3:
  assumes "a \<le> 15" "b < 64" "c < 64" "a = 0 \<Longrightarrow> 32 \<le> b" "a = 13 \<Longrightarrow> b \<le> 31"
  shows "DecodeRune (map byteChar [224 + a, 128 + b, 128 + c] @ s) = (a * 4096 + b * 64 + c, 3)"
  using assms by (auto simp: DecodeRune_def cont_def)

lemma DecodeRune4:
  assumes "a \<le> 4" "b < 64" "c < 64" "d < 64" "a = 0 \<Longrightarrow> 16 \<le> b" "a = 4 \<Longrightarrow> b \<le> 15"
  shows "DecodeRune (map byteChar [240 + a, 128 + b, 128 + c, 128 + d] @ s) =
    (a * 262144 + b * 4096 + c * 64 + d, 4)"
  using assms by (auto simp: DecodeRune_def cont_def)

lemma Decode_Encode:
  assumes "validRune r"
  shows "DecodeRune (EncodeRune r @ s) = (r, RuneLen r)"
proof -
  have m: "r div 4096 mod 64 < 64" "r div 64 mod 64 < 64" "r mod 64 < 64" by simp_all
  consider "r < 128" | "128 \<le> r" "r < 2048" | "2048 \<le> r" "r < 65536" | "65536 \<le> r" by linarith
  then show ?thesis
  proof cases
    case 1
    then show ?thesis by (simp add: DecodeRune_def EncodeRune_def RuneLen_def)
  next
    case 2
    then have "194 \<le> 192 + r div 64" "192 + r div 64 \<le> 223" by auto
    then show ?thesis using 2 m by (simp add: DecodeRune_def EncodeRune_def RuneLen_def cont_def)
  next
    case 3
    have "r div 4096 \<le> 15" using 3 by auto
    moreover have "32 \<le> r div 64 mod 64" if "r div 4096 = 0"
      using 3 rune_digits3 [of r] m that by linarith
    moreover have "r div 64 mod 64 \<le> 31" if "r div 4096 = 13"
      using assms rune_digits3 [of r] m that unfolding validRune_def by linarith
    ultimately show ?thesis
      using 3 DecodeRune3 [OF _ m(2,3), of "r div 4096" s] rune_digits3 [of r]
      by (auto simp: EncodeRune_def RuneLen_def)
  next
    case 4
    have "r div 262144 \<le> 4" using assms by (auto simp: validRune_def)
    moreover have "16 \<le> r div 4096 mod 64" if "r div 262144 = 0"
      using 4 rune_digits4 [of r] m that by linarith
    moreover have "r div 4096 mod 64 \<le> 15" if "r div 262144 = 4"
      using assms 4 rune_digits4 [of r] m that unfolding validRune_def by linarith
    ultimately show ?thesis
      using 4 DecodeRune4 [OF _ m, of "r div 262144" s] rune_digits4 [of r]
      by (auto simp: EncodeRune_def RuneLen_def)
  qed
qed

lemma rune2_valid: "194 \<le> a \<Longrightarrow> a \<le> 223 \<Longrightarrow> cont b \<Longrightarrow> validRune ((a - 192) * 64 + (b - 128))"
  unfolding validRune_def cont_def by linarith

lemma rune3_valid:
  assumes "224 \<le> a" "a \<le> 239" "cont b" "cont c" "a = 237 \<longrightarrow> b \<le> 159"
  shows "validRune ((a - 224) * 4096 + (b - 128) * 64 + (c - 128))"
proof -
  consider "a \<le> 236" | "a = 237" | "238 \<le> a" by linarith
  then show ?thesis using assms unfolding validRune_def cont_def by cases linarith+
qed

lemma rune4_valid:
  assumes "240 \<le> a" "a \<le> 244" "cont b" "cont c" "cont d" "a = 240 \<longrightarrow> 144 \<le> b" "a = 244 \<longrightarrow> b \<le> 143"
  shows "validRune ((a - 240) * 262144 + (b - 128) * 4096 + (c - 128) * 64 + (d - 128))"
proof -
  consider "a = 240" | "241 \<le> a" "a \<le> 243" | "a = 244" using assms by linarith
  then show ?thesis using assms unfolding validRune_def cont_def by cases linarith+
qed

lemma DecodeRune_valid: "DecodeRune s = (r, n) \<Longrightarrow> validRune r"
proof -
  have "validRune RuneError" by (simp add: validRune_def RuneError_def)
  moreover have "b < 128 \<Longrightarrow> validRune b" for b by (simp add: validRune_def)
  ultimately show "DecodeRune s = (r, n) \<Longrightarrow> validRune r"
    by (auto simp: DecodeRune_def intro: rune2_valid rune3_valid rune4_valid split: list.splits if_splits)
qed

function runes :: "string \<Rightarrow> nat list" where
  "runes s = (if s = [] then [] else fst (DecodeRune s) # runes (drop (snd (DecodeRune s)) s))"
  by pat_completeness auto
termination by (relation "measure length") (use DecodeRune_size in auto)

declare runes.simps [simp del]

definition ascii :: "string \<Rightarrow> bool" where
  "ascii s \<longleftrightarrow> list_all (\<lambda>c. byteOf c < 128) s"

section \<open>Character classes\<close>

text \<open>\<^verbatim>\<open>unicode.IsSpace\<close>.\<close>

definition IsSpace :: "nat \<Rightarrow> bool" where
  "IsSpace r \<longleftrightarrow> (9 \<le> r \<and> r \<le> 13) \<or> (8192 \<le> r \<and> r \<le> 8202) \<or>
     r \<in> {32, 133, 160, 5760, 8232, 8233, 8239, 8287, 12288}"

section \<open>Case\<close>

text \<open>A row \<open>(lo, hi, stride, delta)\<close> maps every \<open>stride\<close>-th rune from \<open>lo\<close> to \<open>hi\<close> to the rune \<open>delta\<close> further on.  The
  first row that holds a rune counts.\<close>

type_synonym case_rows = "(nat \<times> nat \<times> nat \<times> int) list"

fun caseRow :: "case_rows \<Rightarrow> nat \<Rightarrow> nat option" where
  "caseRow [] r = None"
| "caseRow ((lo, hi, stride, delta) # rows) r =
     (if lo \<le> r \<and> r \<le> hi \<and> (r - lo) mod stride = 0 then Some (nat (int r + delta)) else caseRow rows r)"

text \<open>The simple lower-case mappings.\<close>

definition lowerRows :: case_rows where
  "lowerRows = [
    (65, 90, 1, 32), (192, 214, 1, 32), (216, 222, 1, 32), (256, 302, 2, 1), (304, 304, 1, - 199), (306, 310, 2, 1),
     (313, 327, 2, 1), (330, 374, 2, 1), (376, 376, 1, - 121), (377, 381, 2, 1), (385, 385, 1, 210),
     (386, 388, 2, 1), (390, 390, 1, 206), (391, 391, 1, 1), (393, 394, 1, 205), (395, 395, 1, 1), (398, 398, 1, 79),
     (399, 399, 1, 202), (400, 400, 1, 203), (401, 401, 1, 1), (403, 403, 1, 205), (404, 404, 1, 207),
     (406, 406, 1, 211), (407, 407, 1, 209), (408, 408, 1, 1), (412, 412, 1, 211), (413, 413, 1, 213),
     (415, 415, 1, 214), (416, 420, 2, 1), (422, 422, 1, 218), (423, 423, 1, 1), (425, 425, 1, 218),
     (428, 428, 1, 1), (430, 430, 1, 218), (431, 431, 1, 1), (433, 434, 1, 217), (435, 437, 2, 1),
     (439, 439, 1, 219), (440, 440, 1, 1), (444, 444, 1, 1), (452, 452, 1, 2), (453, 453, 1, 1), (455, 455, 1, 2),
     (456, 456, 1, 1), (458, 458, 1, 2), (459, 475, 2, 1), (478, 494, 2, 1), (497, 497, 1, 2), (498, 500, 2, 1),
     (502, 502, 1, - 97), (503, 503, 1, - 56), (504, 542, 2, 1), (544, 544, 1, - 130), (546, 562, 2, 1),
     (570, 570, 1, 10795), (571, 571, 1, 1), (573, 573, 1, - 163), (574, 574, 1, 10792), (577, 577, 1, 1),
     (579, 579, 1, - 195), (580, 580, 1, 69), (581, 581, 1, 71), (582, 590, 2, 1), (880, 882, 2, 1),
     (886, 886, 1, 1), (895, 895, 1, 116), (902, 902, 1, 38), (904, 906, 1, 37), (908, 908, 1, 64),
     (910, 911, 1, 63), (913, 929, 1, 32), (931, 939, 1, 32), (975, 975, 1, 8), (984, 1006, 2, 1),
     (1012, 1012, 1, - 60), (1015, 1015, 1, 1), (1017, 1017, 1, - 7), (1018, 1018, 1, 1), (1021, 1023, 1, - 130),
     (1024, 1039, 1, 80), (1040, 1071, 1, 32), (1120, 1152, 2, 1), (1162, 1214, 2, 1), (1216, 1216, 1, 15),
     (1217, 1229, 2, 1), (1232, 1326, 2, 1), (1329, 1366, 1, 48), (4256, 4293, 1, 7264), (4295, 4295, 1, 7264),
     (4301, 4301, 1, 7264), (5024, 5103, 1, 38864), (5104, 5109, 1, 8), (7312, 7354, 1, - 3008),
     (7357, 7359, 1, - 3008), (7680, 7828, 2, 1), (7838, 7838, 1, - 7615), (7840, 7934, 2, 1), (7944, 7951, 1, - 8),
     (7960, 7965, 1, - 8), (7976, 7983, 1, - 8), (7992, 7999, 1, - 8), (8008, 8013, 1, - 8), (8025, 8031, 2, - 8),
     (8040, 8047, 1, - 8), (8072, 8079, 1, - 8), (8088, 8095, 1, - 8), (8104, 8111, 1, - 8), (8120, 8121, 1, - 8),
     (8122, 8123, 1, - 74), (8124, 8124, 1, - 9), (8136, 8139, 1, - 86), (8140, 8140, 1, - 9), (8152, 8153, 1, - 8),
     (8154, 8155, 1, - 100), (8168, 8169, 1, - 8), (8170, 8171, 1, - 112), (8172, 8172, 1, - 7),
     (8184, 8185, 1, - 128), (8186, 8187, 1, - 126), (8188, 8188, 1, - 9), (8486, 8486, 1, - 7517),
     (8490, 8490, 1, - 8383), (8491, 8491, 1, - 8262), (8498, 8498, 1, 28), (8544, 8559, 1, 16), (8579, 8579, 1, 1),
     (9398, 9423, 1, 26), (11264, 11311, 1, 48), (11360, 11360, 1, 1), (11362, 11362, 1, - 10743),
     (11363, 11363, 1, - 3814), (11364, 11364, 1, - 10727), (11367, 11371, 2, 1), (11373, 11373, 1, - 10780),
     (11374, 11374, 1, - 10749), (11375, 11375, 1, - 10783), (11376, 11376, 1, - 10782), (11378, 11378, 1, 1),
     (11381, 11381, 1, 1), (11390, 11391, 1, - 10815), (11392, 11490, 2, 1), (11499, 11501, 2, 1),
     (11506, 11506, 1, 1), (42560, 42604, 2, 1), (42624, 42650, 2, 1), (42786, 42798, 2, 1), (42802, 42862, 2, 1),
     (42873, 42875, 2, 1), (42877, 42877, 1, - 35332), (42878, 42886, 2, 1), (42891, 42891, 1, 1),
     (42893, 42893, 1, - 42280), (42896, 42898, 2, 1), (42902, 42920, 2, 1), (42922, 42922, 1, - 42308),
     (42923, 42923, 1, - 42319), (42924, 42924, 1, - 42315), (42925, 42925, 1, - 42305), (42926, 42926, 1, - 42308),
     (42928, 42928, 1, - 42258), (42929, 42929, 1, - 42282), (42930, 42930, 1, - 42261), (42931, 42931, 1, 928),
     (42932, 42946, 2, 1), (42948, 42948, 1, - 48), (42949, 42949, 1, - 42307), (42950, 42950, 1, - 35384),
     (42951, 42953, 2, 1), (42960, 42960, 1, 1), (42966, 42968, 2, 1), (42997, 42997, 1, 1), (65313, 65338, 1, 32),
     (66560, 66599, 1, 40), (66736, 66771, 1, 40), (66928, 66938, 1, 39), (66940, 66954, 1, 39),
     (66956, 66962, 1, 39), (66964, 66965, 1, 39), (68736, 68786, 1, 64), (71840, 71871, 1, 32),
     (93760, 93791, 1, 32), (125184, 125217, 1, 34)
    ]"

text \<open>The simple case foldings that are not the lower-case mapping: several letters with one folding, the dotted capital I
  without one, and Cherokee, which folds to upper case.\<close>

definition foldRows :: case_rows where
  "foldRows = [
    (181, 181, 1, 775), (304, 304, 1, 0), (383, 383, 1, - 268), (837, 837, 1, 116), (962, 962, 1, 1),
     (976, 976, 1, - 30), (977, 977, 1, - 25), (981, 981, 1, - 15), (982, 982, 1, - 22), (1008, 1008, 1, - 54),
     (1009, 1009, 1, - 48), (1013, 1013, 1, - 64), (5024, 5109, 1, 0), (5112, 5117, 1, - 8), (7296, 7296, 1, - 6222),
     (7297, 7297, 1, - 6221), (7298, 7298, 1, - 6212), (7299, 7300, 1, - 6210), (7301, 7301, 1, - 6211),
     (7302, 7302, 1, - 6204), (7303, 7303, 1, - 6180), (7304, 7304, 1, 35267), (7835, 7835, 1, - 58),
     (8126, 8126, 1, - 7173), (43888, 43967, 1, - 38864)
    ]"

text \<open>\<^verbatim>\<open>unicode.ToLower\<close>, and the simple case folding that \<^verbatim>\<open>strings.EqualFold\<close> compares by.  For ASCII both are the ASCII
  letters' own.\<close>

definition lowerRune :: "nat \<Rightarrow> nat" where
  "lowerRune r =
     (if r < 128 then (if 65 \<le> r \<and> r \<le> 90 then r + 32 else r)
      else (case caseRow lowerRows r of Some r' \<Rightarrow> r' | None \<Rightarrow> r))"

definition foldRune :: "nat \<Rightarrow> nat" where
  "foldRune r =
     (if r < 128 then lowerRune r else (case caseRow foldRows r of Some r' \<Rightarrow> r' | None \<Rightarrow> lowerRune r))"

end
