(* ===== verification/GoStrings.thy ===== *)
theory GoStrings
  imports GoUnicode
begin

text \<open>
  The parts of Go's standard library the modelled code calls on strings and integers.  A Go string is
  a list of bytes.  \<open>Itoa\<close> is \<^verbatim>\<open>strconv.Itoa\<close> and the \<^verbatim>\<open>%d\<close> verb of
  \<^verbatim>\<open>fmt.Sprintf\<close>.  \<open>sortFunc\<close> is \<^verbatim>\<open>slices.SortStableFunc\<close>.
\<close>

section \<open>Case\<close>

definition asciiLower :: "char \<Rightarrow> char" where
  "asciiLower c =
     (if 65 \<le> (of_char c :: nat) \<and> (of_char c :: nat) \<le> 90 then char_of ((of_char c :: nat) + 32) else c)"

text \<open>\<^verbatim>\<open>strings.ToLower\<close>: byte by byte for ASCII, otherwise rune by rune, where an invalid byte becomes the replacement
  character.\<close>

definition ToLower :: "string \<Rightarrow> string" where
  "ToLower s = (if ascii s then map asciiLower s else concat (map (EncodeRune \<circ> lowerRune) (runes s)))"

text \<open>\<^verbatim>\<open>strings.EqualFold\<close>: equality under simple Unicode case folding.\<close>

definition EqualFold :: "string \<Rightarrow> string \<Rightarrow> bool" where
  "EqualFold a b \<longleftrightarrow> map foldRune (runes a) = map foldRune (runes b)"

section \<open>Searching\<close>

definition HasPrefix :: "string \<Rightarrow> string \<Rightarrow> bool" where
  "HasPrefix s p \<longleftrightarrow> take (length p) s = p"

definition HasSuffix :: "string \<Rightarrow> string \<Rightarrow> bool" where
  "HasSuffix s p \<longleftrightarrow> length p \<le> length s \<and> drop (length s - length p) s = p"

definition TrimPrefix :: "string \<Rightarrow> string \<Rightarrow> string" where
  "TrimPrefix s p = (if HasPrefix s p then drop (length p) s else s)"

definition TrimSuffix :: "string \<Rightarrow> string \<Rightarrow> string" where
  "TrimSuffix s p = (if HasSuffix s p then take (length s - length p) s else s)"

text \<open>\<^verbatim>\<open>strings.Index\<close>, \<open>None\<close> for its -1.\<close>

fun Index :: "string \<Rightarrow> string \<Rightarrow> nat option" where
  "Index [] t = (if t = [] then Some 0 else None)"
| "Index (c # s) t = (if HasPrefix (c # s) t then Some 0 else map_option Suc (Index s t))"

definition Contains :: "string \<Rightarrow> string \<Rightarrow> bool" where
  "Contains s t \<longleftrightarrow> Index s t \<noteq> None"

text \<open>\<^verbatim>\<open>strings.Cut\<close>: the parts around the first separator.\<close>

definition Cut :: "string \<Rightarrow> string \<Rightarrow> (string \<times> string) option" where
  "Cut s sep = (case Index s sep of None \<Rightarrow> None | Some i \<Rightarrow> Some (take i s, drop (i + length sep) s))"

lemma HasPrefix_iff: "HasPrefix s p \<longleftrightarrow> (\<exists>r. s = p @ r)"
proof
  assume "HasPrefix s p"
  then have "s = p @ drop (length p) s" unfolding HasPrefix_def by (metis append_take_drop_id)
  then show "\<exists>r. s = p @ r" ..
qed (auto simp: HasPrefix_def)

lemma HasPrefix_append [simp]: "HasPrefix (p @ s) p"
  by (simp add: HasPrefix_def)

lemma TrimPrefix_append [simp]: "TrimPrefix (p @ s) p = s"
  by (simp add: TrimPrefix_def)

lemma HasSuffix_iff: "HasSuffix s p \<longleftrightarrow> (\<exists>r. s = r @ p)"
proof
  assume "HasSuffix s p"
  then have "s = take (length s - length p) s @ p" unfolding HasSuffix_def by (metis append_take_drop_id)
  then show "\<exists>r. s = r @ p" ..
qed (auto simp: HasSuffix_def)

lemma Index_Some: "Index s t = Some i \<Longrightarrow> s = take i s @ t @ drop (i + length t) s"
proof (induction s arbitrary: i)
  case (Cons c s)
  show ?case
  proof (cases "HasPrefix (c # s) t")
    case True
    then obtain r where "c # s = t @ r" by (auto simp: HasPrefix_iff)
    moreover have "i = 0" using Cons.prems True by simp
    ultimately show ?thesis by simp
  next
    case False
    then show ?thesis using Cons by (auto split: if_splits)
  qed
qed (auto split: if_splits)

lemma Index_None: "Index s t = None \<Longrightarrow> s \<noteq> u @ t @ v"
proof (induction s arbitrary: u)
  case (Cons c s)
  then show ?case by (cases u) (auto split: if_splits simp: HasPrefix_iff)
qed (auto split: if_splits)

lemma Contains_iff: "Contains s t \<longleftrightarrow> (\<exists>u v. s = u @ t @ v)"
  using Index_Some [of s t] Index_None [of s t] by (auto simp: Contains_def)

section \<open>Splitting\<close>

text \<open>\<^verbatim>\<open>strings.Fields\<close>: the maximal runs of bytes whose runes are not space.\<close>

function fieldsFrom :: "string \<Rightarrow> string \<Rightarrow> string list" where
  "fieldsFrom cur s =
     (if s = [] then (if cur = [] then [] else [cur])
      else
        let (r, n) = DecodeRune s; rest = drop n s
        in if IsSpace r then (if cur = [] then fieldsFrom [] rest else cur # fieldsFrom [] rest)
           else fieldsFrom (cur @ take n s) rest)"
  by pat_completeness auto
termination by (relation "measure (\<lambda>(cur, s). length s)") (use DecodeRune_size in \<open>force simp: prod_eq_iff\<close>)+

declare fieldsFrom.simps [simp del]

definition Fields :: "string \<Rightarrow> string list" where
  "Fields s = fieldsFrom [] s"

text \<open>\<^verbatim>\<open>strings.Split\<close> at a single byte.\<close>

fun splitFrom :: "char \<Rightarrow> string \<Rightarrow> string \<Rightarrow> string list" where
  "splitFrom sep cur [] = [rev cur]"
| "splitFrom sep cur (c # s) =
     (if c = sep then rev cur # splitFrom sep [] s else splitFrom sep (c # cur) s)"

definition Split :: "string \<Rightarrow> char \<Rightarrow> string list" where
  "Split s sep = splitFrom sep [] s"

fun Join :: "string list \<Rightarrow> string \<Rightarrow> string" where
  "Join [] sep = []"
| "Join [s] sep = s"
| "Join (s # t # ss) sep = s @ sep @ Join (t # ss) sep"

lemma splitFrom_Nil [simp]: "splitFrom sep cur s \<noteq> []"
  by (induction s arbitrary: cur) auto

lemma Join_splitFrom: "Join (splitFrom sep cur s) [sep] = rev cur @ s"
proof (induction s arbitrary: cur)
  case (Cons c s)
  obtain x xs where "splitFrom sep [] s = x # xs" by (cases "splitFrom sep [] s") auto
  then show ?case using Cons.IH [of "[]"] Cons.IH [of "c # cur"] by simp
qed simp

lemma Join_Split: "Join (Split s sep) [sep] = s"
  by (simp add: Split_def Join_splitFrom)

lemma splitFrom_no_sep: "sep \<notin> set cur \<Longrightarrow> x \<in> set (splitFrom sep cur s) \<Longrightarrow> sep \<notin> set x"
proof (induction s arbitrary: cur)
  case (Cons c s)
  then show ?case using Cons.IH [of "[]"] Cons.IH [of "c # cur"] by (auto split: if_splits)
qed simp

section \<open>Integers\<close>

definition digitChar :: "nat \<Rightarrow> char" where
  "digitChar d = char_of (48 + d)"

fun natDigits :: "nat \<Rightarrow> string" where
  "natDigits n = (if n < 10 then [digitChar n] else natDigits (n div 10) @ [digitChar (n mod 10)])"

definition Itoa :: "int \<Rightarrow> string" where
  "Itoa i = (if i < 0 then ''-'' @ natDigits (nat (- i)) else natDigits (nat i))"

declare natDigits.simps [simp del]

section \<open>Sorting\<close>

fun insertFunc :: "('a \<Rightarrow> 'a \<Rightarrow> int) \<Rightarrow> 'a \<Rightarrow> 'a list \<Rightarrow> 'a list" where
  "insertFunc f x [] = [x]"
| "insertFunc f x (y # ys) = (if f x y \<le> 0 then x # y # ys else y # insertFunc f x ys)"

definition sortFunc :: "('a \<Rightarrow> 'a \<Rightarrow> int) \<Rightarrow> 'a list \<Rightarrow> 'a list" where
  "sortFunc f xs = foldr (insertFunc f) xs []"

text \<open>\<^verbatim>\<open>cmp.Compare\<close> on ordered values.\<close>

definition Compare :: "'a::linorder \<Rightarrow> 'a \<Rightarrow> int" where
  "Compare a b = (if a < b then - 1 else if b < a then 1 else 0)"

lemma set_insertFunc [simp]: "set (insertFunc f x xs) = insert x (set xs)"
  by (induction xs) auto

lemma set_sortFunc [simp]: "set (sortFunc f xs) = set xs"
  unfolding sortFunc_def by (induction xs) simp_all

lemma length_insertFunc [simp]: "length (insertFunc f x xs) = Suc (length xs)"
  by (induction xs) auto

lemma length_sortFunc [simp]: "length (sortFunc f xs) = length xs"
  unfolding sortFunc_def by (induction xs) simp_all

lemma distinct_insertFunc: "distinct (x # xs) \<Longrightarrow> distinct (insertFunc f x xs)"
  by (induction xs) auto

lemma distinct_sortFunc: "distinct xs \<Longrightarrow> distinct (sortFunc f xs)"
  unfolding sortFunc_def
proof (induction xs)
  case (Cons x xs)
  then have "distinct (x # foldr (insertFunc f) xs [])"
    using set_sortFunc [of f xs] by (simp add: sortFunc_def)
  then show ?case by (simp add: distinct_insertFunc)
qed simp

text \<open>A comparison that is transitive and total sorts.\<close>

locale comparison =
  fixes f :: "'a \<Rightarrow> 'a \<Rightarrow> int"
  assumes cmp_total: "\<not> f x y \<le> 0 \<Longrightarrow> f y x \<le> 0"
    and cmp_trans: "f x y \<le> 0 \<Longrightarrow> f y z \<le> 0 \<Longrightarrow> f x z \<le> 0"
begin

lemma sorted_insertFunc:
  "sorted_wrt (\<lambda>a b. f a b \<le> 0) xs \<Longrightarrow> sorted_wrt (\<lambda>a b. f a b \<le> 0) (insertFunc f x xs)"
  by (induction xs) (auto intro: cmp_total cmp_trans)

lemma sorted_sortFunc: "sorted_wrt (\<lambda>a b. f a b \<le> 0) (sortFunc f xs)"
  unfolding sortFunc_def by (induction xs) (simp_all add: sorted_insertFunc)

end

end
