(* ===== verification/StoreWorkers.thy ===== *)
theory StoreWorkers
  imports StoreJobs GoStrings
begin

text \<open>
  Workers, farms, queues, usage pools, task logs and the leader lease of the in-memory store
  (\<^verbatim>\<open>fake/worker.go\<close>, \<^verbatim>\<open>fake/attemptclose.go\<close>, \<^verbatim>\<open>fake/farm.go\<close>, \<^verbatim>\<open>fake/queue.go\<close>, \<^verbatim>\<open>fake/usage.go\<close>,
  \<^verbatim>\<open>fake/task_log.go\<close>, \<^verbatim>\<open>fake/leadership.go\<close>).
\<close>

section \<open>Workers\<close>

definition StaleRegistration :: "Worker \<Rightarrow> Worker \<Rightarrow> bool" where
  "StaleRegistration stored incoming =
     (case (worker_RegistrationBrokerAt stored, worker_RegistrationBrokerAt incoming) of
        (Some old, Some new) \<Rightarrow> new < old
      | _ \<Rightarrow> False)"

definition EffectiveStatus :: "Worker \<Rightarrow> worker_status" where
  "EffectiveStatus w = (if worker_Disabled w then WorkerStatusDisabled else worker_Status w)"

definition Removable :: "Worker \<Rightarrow> bool" where
  "Removable w \<longleftrightarrow> worker_Status w = WorkerStatusOffline"

definition heartbeatBefore :: "Worker \<Rightarrow> time \<Rightarrow> bool" where
  "heartbeatBefore w cutoff =
     (case worker_LastHeartbeatAt w of Some at \<Rightarrow> at < cutoff | None \<Rightarrow> False)"

text \<open>\<^verbatim>\<open>RegisterWorker\<close>: a stale registration changes nothing (the code returns the stored row
  beside the error).  A new worker is enabled and has no heartbeat; a
  known one keeps its disabled flag, and a new process of it gives back the tasks of the old
  one.\<close>

definition RegisterWorker ::
  "ctx \<Rightarrow> Worker \<Rightarrow> time \<Rightarrow> store \<Rightarrow> store \<times> (Worker \<times> Task list) sres" where
  "RegisterWorker ctx worker clock s = fenced ctx s
     (case tget (st_workers s) (worker_ID worker) of
        None \<Rightarrow>
          let w = worker\<lparr>worker_Disabled := False, worker_HeartbeatBrokerAt := None\<rparr>
          in (s\<lparr>st_workers := tput (worker_ID w) w (st_workers s)\<rparr>, Inr (w, []))
      | Some existing \<Rightarrow>
          if StaleRegistration existing worker then (s, Inl ErrStaleRegistration)
          else
            let w1 = worker\<lparr>worker_Disabled := worker_Disabled existing,
                       worker_HeartbeatBrokerAt := worker_HeartbeatBrokerAt existing,
                       worker_RegisteredAt := worker_RegisteredAt existing\<rparr>;
                w2 = (if worker_RegistrationBrokerAt w1 = None
                      then w1\<lparr>worker_RegistrationBrokerAt := worker_RegistrationBrokerAt existing\<rparr>
                      else w1);
                w3 = (if worker_InstanceID w2 = []
                      then w2\<lparr>worker_InstanceID := worker_InstanceID existing\<rparr> else w2);
                (s1, reclaimed) =
                  (if worker_InstanceID w2 \<noteq> [] \<and> worker_InstanceID existing \<noteq> [] \<and>
                      worker_InstanceID existing \<noteq> worker_InstanceID w2
                   then reclaimWorkerTasksLocked (worker_ID w2) FailureReasonWorkerRestarted clock s
                   else (s, []))
            in (s1\<lparr>st_workers := tput (worker_ID w3) w3 (st_workers s1)\<rparr>, Inr (w3, reclaimed)))"

definition SetWorkerDisabled :: "ctx \<Rightarrow> string \<Rightarrow> bool \<Rightarrow> time \<Rightarrow> store \<Rightarrow> store \<times> Worker sres" where
  "SetWorkerDisabled ctx workerID disabled clock s = fenced ctx s
     (case tget (st_workers s) workerID of
        None \<Rightarrow> (s, Inl ErrNotFound)
      | Some w \<Rightarrow>
          let w' = w\<lparr>worker_Disabled := disabled, worker_UpdatedAt := clock\<rparr>
          in (s\<lparr>st_workers := tput workerID w' (st_workers s)\<rparr>, Inr w'))"

definition UpdateWorkerHeartbeat ::
  "ctx \<Rightarrow> string \<Rightarrow> time \<Rightarrow> time option \<Rightarrow> time \<Rightarrow> store \<Rightarrow> store \<times> unit sres" where
  "UpdateWorkerHeartbeat ctx workerID at brokerAt clock s = fenced ctx s
     (case tget (st_workers s) workerID of
        None \<Rightarrow> (s, Inl ErrNotFound)
      | Some w \<Rightarrow>
          if (case (brokerAt, worker_HeartbeatBrokerAt w) of
                (Some new, Some old) \<Rightarrow> new < old | _ \<Rightarrow> False)
          then (s, Inr ())
          else
            let w1 = (case brokerAt of
                        Some stamp \<Rightarrow> w\<lparr>worker_HeartbeatBrokerAt := Some stamp\<rparr> | None \<Rightarrow> w);
                w2 = w1\<lparr>worker_LastHeartbeatAt := Some at, worker_UpdatedAt := clock\<rparr>
            in (s\<lparr>st_workers := tput workerID w2 (st_workers s)\<rparr>, Inr ()))"

text \<open>\<^verbatim>\<open>offlineWorkerLocked\<close>; both callers have read the worker's row.\<close>

definition offlineWorkerLocked :: "string \<Rightarrow> Worker \<Rightarrow> time \<Rightarrow> store \<Rightarrow> store \<times> Task list" where
  "offlineWorkerLocked workerID w now s =
     (let s1 = s\<lparr>st_workers := tput workerID
                  (w\<lparr>worker_Status := WorkerStatusOffline, worker_UpdatedAt := now\<rparr>) (st_workers s)\<rparr>
      in reclaimWorkerTasksLocked workerID FailureReasonWorkerOffline now s1)"

definition OfflineStaleWorker ::
  "ctx \<Rightarrow> string \<Rightarrow> time \<Rightarrow> time \<Rightarrow> store \<Rightarrow> store \<times> (Task list \<times> bool) sres" where
  "OfflineStaleWorker ctx workerID cutoff now s = fenced ctx s
     (case tget (st_workers s) workerID of
        None \<Rightarrow> (s, Inr ([], False))
      | Some w \<Rightarrow>
          if worker_Status w \<noteq> WorkerStatusOnline \<or> \<not> heartbeatBefore w cutoff
          then (s, Inr ([], False))
          else let (s', ts) = offlineWorkerLocked workerID w now s in (s', Inr (ts, True)))"

definition OfflineWorker ::
  "ctx \<Rightarrow> string \<Rightarrow> string \<Rightarrow> time \<Rightarrow> store \<Rightarrow> store \<times> (Task list \<times> bool) sres" where
  "OfflineWorker ctx workerID instanceID now s = fenced ctx s
     (case tget (st_workers s) workerID of
        None \<Rightarrow> (s, Inl ErrNotFound)
      | Some w \<Rightarrow>
          if instanceID \<noteq> [] \<and> worker_InstanceID w \<noteq> [] \<and> worker_InstanceID w \<noteq> instanceID
          then (s, Inr ([], False))
          else let (s', ts) = offlineWorkerLocked workerID w now s in (s', Inr (ts, True)))"

definition ListStaleWorkers :: "time \<Rightarrow> store \<Rightarrow> Worker list" where
  "ListStaleWorkers before s =
     filter (\<lambda>w. worker_Status w = WorkerStatusOnline \<and> heartbeatBefore w before)
       (trows (st_workers s))"

definition CountIdleWorkers :: "string \<Rightarrow> store \<Rightarrow> nat" where
  "CountIdleWorkers farmID s =
     tcount (\<lambda>w. \<not> (worker_Status w \<noteq> WorkerStatusOnline \<or> worker_Disabled w) \<and>
        \<not> (farmID \<noteq> [] \<and> worker_FarmID w \<noteq> farmID) \<and>
        \<not> (\<exists>t \<in> set (trows (st_tasks s)).
             inFlightTask (task_Status t) \<and> task_AssignedWorkerID t = worker_ID w)) (st_workers s)"

definition hasWorkInFlightLocked :: "store \<Rightarrow> string \<Rightarrow> bool" where
  "hasWorkInFlightLocked s workerID \<longleftrightarrow> (\<exists>t \<in> set (trows (st_tasks s)). inFlightOn workerID t)"

definition DeleteWorkerIfRemovable :: "ctx \<Rightarrow> string \<Rightarrow> store \<Rightarrow> store \<times> unit sres" where
  "DeleteWorkerIfRemovable ctx workerID s = fenced ctx s
     (case tget (st_workers s) workerID of
        None \<Rightarrow> (s, Inl ErrNotFound)
      | Some w \<Rightarrow>
          if \<not> Removable w \<or> hasWorkInFlightLocked s workerID then (s, Inl ErrConflict)
          else (s\<lparr>st_workers := tdel workerID (st_workers s)\<rparr>, Inr ()))"

definition DeleteOfflineWorkersBefore :: "ctx \<Rightarrow> time \<Rightarrow> store \<Rightarrow> store \<times> Worker list sres" where
  "DeleteOfflineWorkersBefore ctx cutoff s = fenced ctx s
     (let gone = (\<lambda>w. \<not> (worker_Status w \<noteq> WorkerStatusOffline \<or> worker_Disabled w) \<and>
                      heartbeatBefore w cutoff)
      in (s\<lparr>st_workers := tkeep (\<lambda>workerID w. \<not> gone w) (st_workers s)\<rparr>,
          Inr (filter gone (trows (st_workers s)))))"

section \<open>Farms\<close>

definition CreateFarm :: "ctx \<Rightarrow> Farm \<Rightarrow> time \<Rightarrow> store \<Rightarrow> store \<times> Farm sres" where
  "CreateFarm ctx farm clock s = fenced ctx s
     (if \<exists>e \<in> set (trows (st_farms s)). farm_Name e = farm_Name farm then (s, Inl ErrConflict)
      else
        let (now, s1) = stampLocked clock s;
            f = farm\<lparr>farm_CreatedAt := now, farm_UpdatedAt := now\<rparr>
        in (s1\<lparr>st_farms := tput (farm_ID f) f (st_farms s1)\<rparr>, Inr f))"

definition UpdateFarm :: "ctx \<Rightarrow> Farm \<Rightarrow> time \<Rightarrow> store \<Rightarrow> store \<times> Farm sres" where
  "UpdateFarm ctx farm clock s = fenced ctx s
     (case tget (st_farms s) (farm_ID farm) of
        None \<Rightarrow> (s, Inl ErrNotFound)
      | Some existing \<Rightarrow>
          if farm_Name farm \<noteq> farm_Name existing \<and>
             (\<exists>f \<in> set (trows (st_farms s)). farm_Name f = farm_Name farm)
          then (s, Inl ErrConflict)
          else
            let (now, s1) = stampLocked clock s;
                f = farm\<lparr>farm_CreatedAt := farm_CreatedAt existing, farm_UpdatedAt := now\<rparr>
            in (s1\<lparr>st_farms := tput (farm_ID f) f (st_farms s1)\<rparr>, Inr f))"

definition DeleteFarm :: "ctx \<Rightarrow> string \<Rightarrow> store \<Rightarrow> store \<times> unit sres" where
  "DeleteFarm ctx farmID s = fenced ctx s
     (case tget (st_farms s) farmID of
        None \<Rightarrow> (s, Inl ErrNotFound)
      | Some _ \<Rightarrow>
          if (\<exists>q \<in> set (trows (st_queues s)). queue_FarmID q = farmID) \<or>
             (\<exists>j \<in> set (trows (st_jobs s)). job_FarmID j = farmID) \<or>
             (\<exists>w \<in> set (trows (st_workers s)). worker_FarmID w = farmID)
          then (s, Inl ErrConflict)
          else (s\<lparr>st_farms := tdel farmID (st_farms s)\<rparr>, Inr ()))"

section \<open>Queues\<close>

definition RunAsComboValid :: "string option \<Rightarrow> string option \<Rightarrow> bool" where
  "RunAsComboValid user grp =
     (let hasGroup = (grp \<noteq> None \<and> grp \<noteq> Some []);
          hasUser = (user \<noteq> None \<and> user \<noteq> Some [])
      in \<not> hasGroup \<or> hasUser)"

definition CreateQueue :: "ctx \<Rightarrow> Queue \<Rightarrow> time \<Rightarrow> store \<Rightarrow> store \<times> Queue sres" where
  "CreateQueue ctx queue clock s = fenced ctx s
     (if \<not> RunAsComboValid (queue_RunAsUser queue) (queue_RunAsGroup queue)
      then (s, Inl ErrRunAsGroupWithoutUser)
      else if \<exists>e \<in> set (trows (st_queues s)).
                queue_FarmID e = queue_FarmID queue \<and> queue_Name e = queue_Name queue
      then (s, Inl ErrConflict)
      else
        let (now, s1) = stampLocked clock s;
            q = queue\<lparr>queue_CreatedAt := now, queue_UpdatedAt := now\<rparr>
        in (s1\<lparr>st_queues := tput (queue_ID q) q (st_queues s1)\<rparr>, Inr q))"

definition UpdateQueue :: "ctx \<Rightarrow> Queue \<Rightarrow> time \<Rightarrow> store \<Rightarrow> store \<times> Queue sres" where
  "UpdateQueue ctx queue clock s = fenced ctx s
     (case tget (st_queues s) (queue_ID queue) of
        None \<Rightarrow> (s, Inl ErrNotFound)
      | Some existing \<Rightarrow>
          if (queue_Name queue \<noteq> queue_Name existing \<or> queue_FarmID queue \<noteq> queue_FarmID existing) \<and>
             (\<exists>q \<in> set (trows (st_queues s)). queue_ID q \<noteq> queue_ID queue \<and>
                queue_FarmID q = queue_FarmID queue \<and> queue_Name q = queue_Name queue)
          then (s, Inl ErrConflict)
          else
            let (now, s1) = stampLocked clock s;
                q1 = queue\<lparr>queue_CreatedAt := queue_CreatedAt existing, queue_UpdatedAt := now\<rparr>;
                q2 = (if queue_PreserveRunAsUser q1
                      then q1\<lparr>queue_RunAsUser := queue_RunAsUser existing\<rparr> else q1);
                q3 = (if queue_PreserveRunAsGroup q2
                      then q2\<lparr>queue_RunAsGroup := queue_RunAsGroup existing\<rparr> else q2);
                q4 = q3\<lparr>queue_PreserveRunAsUser := False, queue_PreserveRunAsGroup := False\<rparr>
            in if \<not> RunAsComboValid (queue_RunAsUser q4) (queue_RunAsGroup q4)
               then (s1, Inl ErrRunAsGroupWithoutUser)
               else (s1\<lparr>st_queues := tput (queue_ID q4) q4 (st_queues s1)\<rparr>, Inr q4))"

definition DeleteQueue :: "ctx \<Rightarrow> string \<Rightarrow> store \<Rightarrow> store \<times> unit sres" where
  "DeleteQueue ctx queueID s = fenced ctx s
     (case tget (st_queues s) queueID of
        None \<Rightarrow> (s, Inl ErrNotFound)
      | Some _ \<Rightarrow> (s\<lparr>st_queues := tdel queueID (st_queues s)\<rparr>, Inr ()))"

section \<open>Usage pools\<close>

definition CreateUsagePool :: "ctx \<Rightarrow> UsagePool \<Rightarrow> time \<Rightarrow> store \<Rightarrow> store \<times> UsagePool sres" where
  "CreateUsagePool ctx pool clock s = fenced ctx s
     (if \<exists>e \<in> set (trows (st_usagePools s)). EqualFold (pool_Name e) (pool_Name pool)
      then (s, Inl ErrConflict)
      else
        let (now, s1) = stampLocked clock s;
            p = pool\<lparr>pool_CreatedAt := now, pool_UpdatedAt := now\<rparr>
        in (s1\<lparr>st_usagePools := tput (pool_ID p) p (st_usagePools s1)\<rparr>, Inr p))"

definition UpdateUsagePool :: "ctx \<Rightarrow> UsagePool \<Rightarrow> time \<Rightarrow> store \<Rightarrow> store \<times> UsagePool sres" where
  "UpdateUsagePool ctx pool clock s = fenced ctx s
     (case tget (st_usagePools s) (pool_ID pool) of
        None \<Rightarrow> (s, Inl ErrNotFound)
      | Some existing \<Rightarrow>
          if \<not> EqualFold (pool_Name pool) (pool_Name existing) \<and>
             (\<exists>(pid, p) \<in> set (st_usagePools s).
                pid \<noteq> pool_ID pool \<and> EqualFold (pool_Name p) (pool_Name pool))
          then (s, Inl ErrConflict)
          else
            let (now, s1) = stampLocked clock s;
                p = pool\<lparr>pool_CreatedAt := pool_CreatedAt existing, pool_UpdatedAt := now\<rparr>
            in (s1\<lparr>st_usagePools := tput (pool_ID p) p (st_usagePools s1)\<rparr>, Inr p))"

definition DeleteUsagePool :: "ctx \<Rightarrow> string \<Rightarrow> store \<Rightarrow> store \<times> unit sres" where
  "DeleteUsagePool ctx poolID s = fenced ctx s
     (case tget (st_usagePools s) poolID of
        None \<Rightarrow> (s, Inl ErrNotFound)
      | Some _ \<Rightarrow>
          if \<exists>c \<in> set (trows (st_usageClaims s)). claim_PoolID c = poolID then (s, Inl ErrConflict)
          else (s\<lparr>st_usagePools := tdel poolID (st_usagePools s)\<rparr>, Inr ()))"

definition ListUsagePoolUtilization :: "store \<Rightarrow> (UsagePool \<times> nat) list" where
  "ListUsagePoolUtilization s =
     sort_key (\<lambda>(p, n). pool_Name p)
       (map (\<lambda>p. (p, tcount (\<lambda>c. claim_ReleasedAt c = None \<and> claim_PoolID c = pool_ID p)
                        (st_usageClaims s))) (trows (st_usagePools s)))"

section \<open>Task logs\<close>

definition CreateTaskLog :: "ctx \<Rightarrow> TaskLog \<Rightarrow> store \<Rightarrow> store \<times> TaskLog sres" where
  "CreateTaskLog ctx log s = fenced ctx s
     (if \<exists>l \<in> set (st_taskLogs s). log_AttemptID l = log_AttemptID log \<and> log_SeqNum l = log_SeqNum log
      then (s, Inl ErrConflict)
      else (s\<lparr>st_taskLogs := st_taskLogs s @ [log]\<rparr>, Inr log))"

definition DefaultLimit :: int where
  "DefaultLimit = 50"

definition ListTaskLogs :: "string \<Rightarrow> int \<Rightarrow> int \<Rightarrow> store \<Rightarrow> TaskLog list" where
  "ListTaskLogs attemptID afterNATSSeq limit s =
     (let limit = (if limit \<le> 0 then DefaultLimit else limit)
      in take (nat limit)
           (sort_key log_NATSSeq
             (filter (\<lambda>l. log_AttemptID l = attemptID \<and> afterNATSSeq < log_NATSSeq l) (st_taskLogs s))))"

section \<open>The leader lease\<close>

definition Microseconds :: "int \<Rightarrow> int" where
  "Microseconds d = sgn d * (\<bar>d\<bar> div 1000)"

definition LeaseTTLMicros :: "int \<Rightarrow> int sres" where
  "LeaseTTLMicros ttl =
     (let us = Microseconds ttl
      in if us \<le> 0 then Inl (ErrOther ''store: lease ttl must be at least 1us'') else Inr us)"

definition Held :: "string \<Rightarrow> int \<Rightarrow> int \<Rightarrow> bool" where
  "Held holder expiresUS nowUS \<longleftrightarrow> holder \<noteq> [] \<and> nowUS \<le> expiresUS"

definition AcquireLeadership ::
  "string \<Rightarrow> int \<Rightarrow> int \<Rightarrow> store \<Rightarrow> store \<times> (int \<times> bool) sres" where
  "AcquireLeadership holder ttl nowUS s =
     (case LeaseTTLMicros ttl of
        Inl e \<Rightarrow> (s, Inl e)
      | Inr ttlUS \<Rightarrow>
          let l = st_leadership s
          in if Held (lead_holder l) (lead_expiresUS l) nowUS then (s, Inr (0, False))
             else (s\<lparr>st_leadership := l\<lparr>lead_holder := holder, lead_epoch := lead_epoch l + 1,
                       lead_expiresUS := nowUS + ttlUS\<rparr>\<rparr>,
                   Inr (lead_epoch l + 1, True)))"

definition RenewLeadership ::
  "string \<Rightarrow> int \<Rightarrow> int \<Rightarrow> int \<Rightarrow> store \<Rightarrow> store \<times> bool sres" where
  "RenewLeadership holder epoch ttl nowUS s =
     (case LeaseTTLMicros ttl of
        Inl e \<Rightarrow> (s, Inl e)
      | Inr ttlUS \<Rightarrow>
          let l = st_leadership s
          in if lead_holder l \<noteq> holder \<or> lead_epoch l \<noteq> epoch then (s, Inr False)
             else (s\<lparr>st_leadership := l\<lparr>lead_expiresUS := nowUS + ttlUS\<rparr>\<rparr>, Inr True))"

definition ReleaseLeadership :: "string \<Rightarrow> int \<Rightarrow> store \<Rightarrow> store \<times> unit sres" where
  "ReleaseLeadership holder epoch s =
     (let l = st_leadership s
      in (if lead_holder l = holder \<and> lead_epoch l = epoch
          then s\<lparr>st_leadership := l\<lparr>lead_holder := []\<rparr>\<rparr> else s, Inr ()))"

definition UpsertServerMember :: "ServerMember \<Rightarrow> int \<Rightarrow> store \<Rightarrow> store \<times> unit sres" where
  "UpsertServerMember m nowUS s =
     (let l = st_leadership s;
          prev = (case tget (lead_members l) (mem_InstanceID m) of
                    Some p \<Rightarrow> mem_BrokerOKUS p | None \<Rightarrow> None);
          m' = m\<lparr>mem_LastSeenUS := nowUS,
                 mem_BrokerOKUS := (if mem_BrokerOK m then Some nowUS else prev),
                 mem_BrokerOK := False\<rparr>
      in (s\<lparr>st_leadership := l\<lparr>lead_members := tput (mem_InstanceID m) m' (lead_members l)\<rparr>\<rparr>, Inr ()))"

definition BrokerSeenWithin :: "ServerMember \<Rightarrow> int \<Rightarrow> int \<Rightarrow> bool" where
  "BrokerSeenWithin m nowUS ttl =
     (case mem_BrokerOKUS m of Some us \<Rightarrow> nowUS - us \<le> Microseconds ttl | None \<Rightarrow> False)"

definition ListServerMembers :: "store \<Rightarrow> ServerMember list" where
  "ListServerMembers s =
     sort_key (\<lambda>m. (mem_Name m, mem_InstanceID m)) (trows (lead_members (st_leadership s)))"

definition DeleteServerMembersUnseenFor :: "int \<Rightarrow> int \<Rightarrow> store \<Rightarrow> store \<times> nat sres" where
  "DeleteServerMembersUnseenFor d nowUS s =
     (let l = st_leadership s;
          cutoff = nowUS - Microseconds d
      in (s\<lparr>st_leadership := l\<lparr>lead_members :=
              tkeep (\<lambda>mid m. \<not> mem_LastSeenUS m < cutoff) (lead_members l)\<rparr>\<rparr>,
          Inr (tcount (\<lambda>m. mem_LastSeenUS m < cutoff) (lead_members l))))"

end
