(* ===== verification/StoreCatalog.thy ===== *)
theory StoreCatalog
  imports StoreWorkers
begin

text \<open>
  Storage locations, compute locations, products, the audit trail and the broker identity of the
  in-memory store (\<^verbatim>\<open>fake/storage_location.go\<close>, \<^verbatim>\<open>fake/compute_location.go\<close>, \<^verbatim>\<open>fake/product.go\<close>,
  \<^verbatim>\<open>fake/audit.go\<close>, \<^verbatim>\<open>fake/brokerstate.go\<close>).  A lookup by name takes the first row its loop meets.
\<close>

section \<open>Storage locations\<close>

definition CreateStorageLocation ::
  "ctx \<Rightarrow> StorageLocation \<Rightarrow> time \<Rightarrow> store \<Rightarrow> store \<times> StorageLocation sres" where
  "CreateStorageLocation ctx loc clock s = fenced ctx s
     (if \<exists>existing \<in> set (trows (st_storageLocations s)). sl_Name existing = sl_Name loc
      then (s, Inl ErrConflict)
      else
        let (now, s1) = stampLocked clock s;
            l = loc\<lparr>sl_CreatedAt := now, sl_UpdatedAt := now\<rparr>
        in (s1\<lparr>st_storageLocations := tput (sl_ID l) l (st_storageLocations s1)\<rparr>, Inr l))"

definition GetStorageLocation :: "string \<Rightarrow> store \<Rightarrow> StorageLocation sres" where
  "GetStorageLocation i s =
     (case tget (st_storageLocations s) i of None \<Rightarrow> Inl ErrNotFound | Some l \<Rightarrow> Inr l)"

definition GetStorageLocationByName :: "string \<Rightarrow> store \<Rightarrow> StorageLocation sres" where
  "GetStorageLocationByName name s =
     (case tfirst (\<lambda>l. sl_Name l = name) (st_storageLocations s) of
        None \<Rightarrow> Inl ErrNotFound | Some (_, l) \<Rightarrow> Inr l)"

definition ListStorageLocations :: "store \<Rightarrow> StorageLocation list" where
  "ListStorageLocations s = sort_key sl_Name (trows (st_storageLocations s))"

definition UpdateStorageLocation ::
  "ctx \<Rightarrow> StorageLocation \<Rightarrow> time \<Rightarrow> store \<Rightarrow> store \<times> StorageLocation sres" where
  "UpdateStorageLocation ctx loc clock s = fenced ctx s
     (case tget (st_storageLocations s) (sl_ID loc) of
        None \<Rightarrow> (s, Inl ErrNotFound)
      | Some existing \<Rightarrow>
          if sl_Name loc \<noteq> sl_Name existing \<and>
             (\<exists>l \<in> set (trows (st_storageLocations s)). sl_Name l = sl_Name loc)
          then (s, Inl ErrConflict)
          else
            let (now, s1) = stampLocked clock s;
                l = loc\<lparr>sl_CreatedAt := sl_CreatedAt existing, sl_UpdatedAt := now\<rparr>
            in (s1\<lparr>st_storageLocations := tput (sl_ID l) l (st_storageLocations s1)\<rparr>, Inr l))"

definition DeleteStorageLocation :: "ctx \<Rightarrow> string \<Rightarrow> store \<Rightarrow> store \<times> unit sres" where
  "DeleteStorageLocation ctx i s = fenced ctx s
     (case tget (st_storageLocations s) i of
        None \<Rightarrow> (s, Inl ErrNotFound)
      | Some _ \<Rightarrow> (s\<lparr>st_storageLocations := tdel i (st_storageLocations s)\<rparr>, Inr ()))"

section \<open>Compute locations\<close>

definition CreateComputeLocation ::
  "ctx \<Rightarrow> ComputeLocation \<Rightarrow> time \<Rightarrow> store \<Rightarrow> store \<times> ComputeLocation sres" where
  "CreateComputeLocation ctx loc clock s = fenced ctx s
     (if \<exists>existing \<in> set (trows (st_computeLocations s)). cl_Name existing = cl_Name loc
      then (s, Inl ErrConflict)
      else
        let (now, s1) = stampLocked clock s;
            l = loc\<lparr>cl_CreatedAt := now, cl_UpdatedAt := now\<rparr>
        in (s1\<lparr>st_computeLocations := tput (cl_ID l) l (st_computeLocations s1)\<rparr>, Inr l))"

definition GetComputeLocation :: "string \<Rightarrow> store \<Rightarrow> ComputeLocation sres" where
  "GetComputeLocation i s =
     (case tget (st_computeLocations s) i of None \<Rightarrow> Inl ErrNotFound | Some l \<Rightarrow> Inr l)"

definition GetComputeLocationByName :: "string \<Rightarrow> store \<Rightarrow> ComputeLocation sres" where
  "GetComputeLocationByName name s =
     (case tfirst (\<lambda>l. cl_Name l = name) (st_computeLocations s) of
        None \<Rightarrow> Inl ErrNotFound | Some (_, l) \<Rightarrow> Inr l)"

definition ListComputeLocations :: "store \<Rightarrow> ComputeLocation list" where
  "ListComputeLocations s = sort_key cl_Name (trows (st_computeLocations s))"

definition UpdateComputeLocation ::
  "ctx \<Rightarrow> ComputeLocation \<Rightarrow> time \<Rightarrow> store \<Rightarrow> store \<times> ComputeLocation sres" where
  "UpdateComputeLocation ctx loc clock s = fenced ctx s
     (case tget (st_computeLocations s) (cl_ID loc) of
        None \<Rightarrow> (s, Inl ErrNotFound)
      | Some existing \<Rightarrow>
          if cl_Name loc \<noteq> cl_Name existing \<and>
             (\<exists>l \<in> set (trows (st_computeLocations s)). cl_Name l = cl_Name loc)
          then (s, Inl ErrConflict)
          else
            let (now, s1) = stampLocked clock s;
                l = loc\<lparr>cl_CreatedAt := cl_CreatedAt existing, cl_UpdatedAt := now\<rparr>
            in (s1\<lparr>st_computeLocations := tput (cl_ID l) l (st_computeLocations s1)\<rparr>, Inr l))"

definition DeleteComputeLocation :: "ctx \<Rightarrow> string \<Rightarrow> store \<Rightarrow> store \<times> unit sres" where
  "DeleteComputeLocation ctx i s = fenced ctx s
     (case tget (st_computeLocations s) i of
        None \<Rightarrow> (s, Inl ErrNotFound)
      | Some _ \<Rightarrow> (s\<lparr>st_computeLocations := tdel i (st_computeLocations s)\<rparr>, Inr ()))"

section \<open>Products\<close>

definition CreateProduct :: "ctx \<Rightarrow> Product \<Rightarrow> time \<Rightarrow> store \<Rightarrow> store \<times> Product sres" where
  "CreateProduct ctx pr clock s = fenced ctx s
     (if \<exists>existing \<in> set (trows (st_products s)). EqualFold (prod_Name existing) (prod_Name pr)
      then (s, Inl ErrConflict)
      else
        let (now, s1) = stampLocked clock s;
            p = pr\<lparr>prod_CreatedAt := now, prod_UpdatedAt := now\<rparr>
        in (s1\<lparr>st_products := tput (prod_ID p) p (st_products s1)\<rparr>, Inr p))"

definition GetProductByName :: "string \<Rightarrow> store \<Rightarrow> Product sres" where
  "GetProductByName name s =
     (case tfirst (\<lambda>p. EqualFold (prod_Name p) name) (st_products s) of
        None \<Rightarrow> Inl ErrNotFound | Some (_, p) \<Rightarrow> Inr p)"

definition ListProducts :: "store \<Rightarrow> Product list" where
  "ListProducts s = sort_key (\<lambda>p. ToLower (prod_Name p)) (trows (st_products s))"

definition UpdateProduct :: "ctx \<Rightarrow> Product \<Rightarrow> store \<Rightarrow> store \<times> Product sres" where
  "UpdateProduct ctx pr s = fenced ctx s
     (case tfirst (\<lambda>p. EqualFold (prod_Name p) (prod_Name pr)) (st_products s) of
        None \<Rightarrow> (s, Inl ErrNotFound)
      | Some (i, existing) \<Rightarrow>
          let p = pr\<lparr>prod_ID := prod_ID existing, prod_Name := prod_Name existing,
                       prod_CreatedAt := prod_CreatedAt existing, prod_Source := prod_Source existing\<rparr>
          in (s\<lparr>st_products := tput i p (st_products s)\<rparr>, Inr p))"

definition DeleteProduct :: "ctx \<Rightarrow> string \<Rightarrow> store \<Rightarrow> store \<times> unit sres" where
  "DeleteProduct ctx name s = fenced ctx s
     (case tfirst (\<lambda>p. EqualFold (prod_Name p) name) (st_products s) of
        None \<Rightarrow> (s, Inl ErrNotFound)
      | Some (i, _) \<Rightarrow> (s\<lparr>st_products := tdel i (st_products s)\<rparr>, Inr ()))"

section \<open>Audit trail and broker identity\<close>

definition AppendAuditEntry :: "ctx \<Rightarrow> AuditEntry \<Rightarrow> store \<Rightarrow> store \<times> unit sres" where
  "AppendAuditEntry ctx entry s = fenced ctx s
     (s\<lparr>st_auditEntries := st_auditEntries s @ [entry]\<rparr>, Inr ())"

definition ListAuditEntries :: "string \<Rightarrow> string \<Rightarrow> store \<Rightarrow> AuditEntry list" where
  "ListAuditEntries entityType entityID s =
     sort_key audit_CreatedAt (filter (\<lambda>e. \<not> (entityType \<noteq> [] \<and> audit_EntityType e \<noteq> entityType) \<and>
                                       \<not> (entityID \<noteq> [] \<and> audit_EntityID e \<noteq> entityID)) (st_auditEntries s))"

definition GetBrokerIdentity :: "store \<Rightarrow> string" where
  "GetBrokerIdentity s = st_brokerIdentity s"

definition SetBrokerIdentity :: "ctx \<Rightarrow> string \<Rightarrow> store \<Rightarrow> store \<times> unit sres" where
  "SetBrokerIdentity ctx identity s = fenced ctx s (s\<lparr>st_brokerIdentity := identity\<rparr>, Inr ())"

end
