(* ===== verification/StoreAccounts.thy ===== *)
theory StoreAccounts
  imports StoreCatalog
begin

text \<open>
  Users, sessions, API keys, worker credentials and join tokens of the in-memory store
  (\<^verbatim>\<open>fake/user.go\<close>, \<^verbatim>\<open>fake/session.go\<close>, \<^verbatim>\<open>fake/apikey.go\<close>, \<^verbatim>\<open>fake/workercredential.go\<close>).  Passwords and tokens
  are stored and compared as hashes computed by the callers.
\<close>

section \<open>Users\<close>

definition asciiEqFold :: "string \<Rightarrow> string \<Rightarrow> bool" where
  "asciiEqFold a b \<longleftrightarrow> map asciiLower a = map asciiLower b"

definition AuthSourceLocal :: string where "AuthSourceLocal = ''local''"

definition CreateUser :: "ctx \<Rightarrow> User \<Rightarrow> time \<Rightarrow> store \<Rightarrow> store \<times> User sres" where
  "CreateUser ctx u clock s = fenced ctx s
     (if tget (st_users s) (user_ID u) \<noteq> None then (s, Inl ErrConflict)
      else if \<exists>ex \<in> set (trows (st_users s)). asciiEqFold (user_Username ex) (user_Username u)
      then (s, Inl ErrConflict)
      else if user_ExternalID u \<noteq> [] \<and>
              (\<exists>ex \<in> set (trows (st_users s)). user_AuthSource ex = user_AuthSource u \<and>
                 user_ExternalID ex = user_ExternalID u)
      then (s, Inl ErrConflict)
      else
        let u1 = (if user_AuthSource u = [] then u\<lparr>user_AuthSource := AuthSourceLocal\<rparr> else u);
            u2 = u1\<lparr>user_CreatedAt := clock, user_UpdatedAt := clock\<rparr>
        in (s\<lparr>st_users := tput (user_ID u2) u2 (st_users s)\<rparr>, Inr u2))"

definition GetUser :: "string \<Rightarrow> store \<Rightarrow> User sres" where
  "GetUser i s = (case tget (st_users s) i of None \<Rightarrow> Inl ErrNotFound | Some u \<Rightarrow> Inr u)"

definition GetUserByUsername :: "string \<Rightarrow> store \<Rightarrow> User sres" where
  "GetUserByUsername username s =
     (case tfirst (\<lambda>u. asciiEqFold (user_Username u) username) (st_users s) of
        None \<Rightarrow> Inl ErrNotFound | Some (_, u) \<Rightarrow> Inr u)"

definition GetUserByExternalID :: "string \<Rightarrow> string \<Rightarrow> store \<Rightarrow> User sres" where
  "GetUserByExternalID authSource externalID s =
     (if externalID = [] then Inl ErrNotFound
      else (case tfirst (\<lambda>u. user_AuthSource u = authSource \<and> user_ExternalID u = externalID) (st_users s) of
              None \<Rightarrow> Inl ErrNotFound | Some (_, u) \<Rightarrow> Inr u))"

definition ListUsers :: "store \<Rightarrow> User list" where
  "ListUsers s = sort_key (\<lambda>u. map asciiLower (user_Username u)) (trows (st_users s))"

definition liveAdmin :: "User \<Rightarrow> bool" where
  "liveAdmin u \<longleftrightarrow> user_Role u = ''admin'' \<and> \<not> user_Disabled u"

definition lastLiveAdminLocked :: "store \<Rightarrow> string \<Rightarrow> bool" where
  "lastLiveAdminLocked s i =
     (case tget (st_users s) i of
        None \<Rightarrow> False
      | Some u \<Rightarrow>
          if \<not> liveAdmin u then False
          else \<not> (\<exists>(oid, oth) \<in> set (st_users s). oid \<noteq> i \<and> liveAdmin oth))"

definition updateUserLocked :: "User \<Rightarrow> time \<Rightarrow> store \<Rightarrow> store \<times> User sres" where
  "updateUserLocked u clock s =
     (case tget (st_users s) (user_ID u) of
        None \<Rightarrow> (s, Inl ErrNotFound)
      | Some ex \<Rightarrow>
          let ex1 = ex\<lparr>user_DisplayName := user_DisplayName u, user_Role := user_Role u,
                       user_Disabled := user_Disabled u, user_UpdatedAt := clock\<rparr>
          in (s\<lparr>st_users := tput (user_ID u) ex1 (st_users s)\<rparr>, Inr ex1))"

definition UpdateUser :: "ctx \<Rightarrow> User \<Rightarrow> time \<Rightarrow> store \<Rightarrow> store \<times> User sres" where
  "UpdateUser ctx u clock s = fenced ctx s (updateUserLocked u clock s)"

definition UpdateUserKeepingAdmin :: "ctx \<Rightarrow> User \<Rightarrow> time \<Rightarrow> store \<Rightarrow> store \<times> User sres" where
  "UpdateUserKeepingAdmin ctx u clock s = fenced ctx s
     (if tget (st_users s) (user_ID u) = None then (s, Inl ErrNotFound)
      else if lastLiveAdminLocked s (user_ID u) \<and> (user_Role u \<noteq> ''admin'' \<or> user_Disabled u)
      then (s, Inl ErrLastAdmin)
      else updateUserLocked u clock s)"

definition SetUserPassword :: "ctx \<Rightarrow> string \<Rightarrow> string \<Rightarrow> time \<Rightarrow> store \<Rightarrow> store \<times> unit sres" where
  "SetUserPassword ctx i passwordHash clock s = fenced ctx s
     (case tget (st_users s) i of
        None \<Rightarrow> (s, Inl ErrNotFound)
      | Some u \<Rightarrow>
          (s\<lparr>st_users := tput i (u\<lparr>user_PasswordHash := passwordHash, user_UpdatedAt := clock\<rparr>) (st_users s)\<rparr>, Inr ()))"

definition SetUserPasswordAndEvictSessions ::
  "ctx \<Rightarrow> string \<Rightarrow> string \<Rightarrow> time \<Rightarrow> store \<Rightarrow> store \<times> unit sres" where
  "SetUserPasswordAndEvictSessions ctx i passwordHash clock s = fenced ctx s
     (case tget (st_users s) i of
        None \<Rightarrow> (s, Inl ErrNotFound)
      | Some u \<Rightarrow>
          (s\<lparr>st_users := tput i (u\<lparr>user_PasswordHash := passwordHash, user_UpdatedAt := clock\<rparr>) (st_users s),
             st_sessions := tkeep (\<lambda>sid sess. sess_UserID sess \<noteq> i) (st_sessions s)\<rparr>, Inr ()))"

definition SetUserDisplayName :: "ctx \<Rightarrow> string \<Rightarrow> string \<Rightarrow> time \<Rightarrow> store \<Rightarrow> store \<times> User sres" where
  "SetUserDisplayName ctx i displayName clock s = fenced ctx s
     (case tget (st_users s) i of
        None \<Rightarrow> (s, Inl ErrNotFound)
      | Some u \<Rightarrow>
          let u1 = u\<lparr>user_DisplayName := displayName, user_UpdatedAt := clock\<rparr>
          in (s\<lparr>st_users := tput i u1 (st_users s)\<rparr>, Inr u1))"

definition DeleteUser :: "ctx \<Rightarrow> string \<Rightarrow> store \<Rightarrow> store \<times> unit sres" where
  "DeleteUser ctx i s = fenced ctx s
     (if tget (st_users s) i = None then (s, Inl ErrNotFound)
      else if lastLiveAdminLocked s i then (s, Inl ErrLastAdmin)
      else (s\<lparr>st_users := tdel i (st_users s),
              st_sessions := tkeep (\<lambda>sid sess. sess_UserID sess \<noteq> i) (st_sessions s)\<rparr>, Inr ()))"

definition CountUsers :: "store \<Rightarrow> nat" where
  "CountUsers s = length (st_users s)"

section \<open>Sessions\<close>

definition CreateSession :: "ctx \<Rightarrow> Session \<Rightarrow> store \<Rightarrow> store \<times> Session sres" where
  "CreateSession ctx sess s = fenced ctx s
     (if tget (st_sessions s) (sess_ID sess) \<noteq> None then (s, Inl ErrConflict)
      else if tget (st_users s) (sess_UserID sess) = None then (s, Inl ErrConflict)
      else if \<exists>ex \<in> set (trows (st_sessions s)). sess_TokenHash ex = sess_TokenHash sess
      then (s, Inl ErrConflict)
      else (s\<lparr>st_sessions := tput (sess_ID sess) sess (st_sessions s)\<rparr>, Inr sess))"

definition GetSessionByTokenHash :: "string \<Rightarrow> time \<Rightarrow> store \<Rightarrow> Session sres" where
  "GetSessionByTokenHash tokenHash now s =
     (case tfirst (\<lambda>sess. sess_TokenHash sess = tokenHash \<and> now < sess_ExpiresAt sess) (st_sessions s) of
        None \<Rightarrow> Inl ErrNotFound | Some (_, sess) \<Rightarrow> Inr sess)"

definition GetSessionUserByTokenHash :: "string \<Rightarrow> time \<Rightarrow> store \<Rightarrow> User sres" where
  "GetSessionUserByTokenHash tokenHash now s =
     (case tfirst (\<lambda>sess. \<not> (sess_TokenHash sess \<noteq> tokenHash \<or> \<not> now < sess_ExpiresAt sess)) (st_sessions s) of
        None \<Rightarrow> Inl ErrNotFound
      | Some (_, sess) \<Rightarrow>
          (case tget (st_users s) (sess_UserID sess) of None \<Rightarrow> Inl ErrNotFound | Some u \<Rightarrow> Inr u))"

definition DeleteSession :: "ctx \<Rightarrow> string \<Rightarrow> store \<Rightarrow> store \<times> unit sres" where
  "DeleteSession ctx i s = fenced ctx s
     (if tget (st_sessions s) i = None then (s, Inl ErrNotFound)
      else (s\<lparr>st_sessions := tdel i (st_sessions s)\<rparr>, Inr ()))"

definition DeleteExpiredSessions :: "ctx \<Rightarrow> time \<Rightarrow> store \<Rightarrow> store \<times> nat sres" where
  "DeleteExpiredSessions ctx now s = fenced ctx s
     (s\<lparr>st_sessions := tkeep (\<lambda>i sess. now < sess_ExpiresAt sess) (st_sessions s)\<rparr>,
      Inr (tcount (\<lambda>sess. \<not> now < sess_ExpiresAt sess) (st_sessions s)))"

section \<open>API keys\<close>

definition CreateAPIKey :: "ctx \<Rightarrow> APIKey \<Rightarrow> store \<Rightarrow> store \<times> APIKey sres" where
  "CreateAPIKey ctx k s = fenced ctx s
     (if tget (st_apiKeys s) (key_ID k) \<noteq> None then (s, Inl ErrConflict)
      else if tget (st_users s) (key_UserID k) = None then (s, Inl ErrConflict)
      else if \<exists>ex \<in> set (trows (st_apiKeys s)). key_TokenHash ex = key_TokenHash k
      then (s, Inl ErrConflict)
      else (s\<lparr>st_apiKeys := tput (key_ID k) k (st_apiKeys s)\<rparr>, Inr k))"

definition activeAPIKeyLocked :: "store \<Rightarrow> string \<Rightarrow> time \<Rightarrow> APIKey sres" where
  "activeAPIKeyLocked s tokenHash now =
     (case tfirst (\<lambda>k. key_TokenHash k = tokenHash) (st_apiKeys s) of
        None \<Rightarrow> Inl ErrNotFound
      | Some (_, k) \<Rightarrow>
          if key_RevokedAt k \<noteq> None then Inl ErrNotFound
          else if (case key_ExpiresAt k of Some at \<Rightarrow> \<not> now < at | None \<Rightarrow> False) then Inl ErrNotFound
          else Inr k)"

definition GetAPIKeyUserByTokenHash :: "string \<Rightarrow> time \<Rightarrow> store \<Rightarrow> (APIKey \<times> User) sres" where
  "GetAPIKeyUserByTokenHash tokenHash now s =
     (case activeAPIKeyLocked s tokenHash now of
        Inl e \<Rightarrow> Inl e
      | Inr k \<Rightarrow>
          (case tget (st_users s) (key_UserID k) of None \<Rightarrow> Inl ErrNotFound | Some u \<Rightarrow> Inr (k, u)))"

definition ListAPIKeysForUser :: "string \<Rightarrow> store \<Rightarrow> APIKey list" where
  "ListAPIKeysForUser userID s =
     sort_key (\<lambda>k. - key_CreatedAt k) (filter (\<lambda>k. key_UserID k = userID \<and> key_RevokedAt k = None) (trows (st_apiKeys s)))"

definition RevokeAPIKey :: "ctx \<Rightarrow> string \<Rightarrow> string \<Rightarrow> time \<Rightarrow> store \<Rightarrow> store \<times> unit sres" where
  "RevokeAPIKey ctx i userID now s = fenced ctx s
     (case tget (st_apiKeys s) i of
        None \<Rightarrow> (s, Inl ErrNotFound)
      | Some k \<Rightarrow>
          if key_UserID k \<noteq> userID \<or> key_RevokedAt k \<noteq> None then (s, Inl ErrNotFound)
          else (s\<lparr>st_apiKeys := tput i (k\<lparr>key_RevokedAt := Some now\<rparr>) (st_apiKeys s)\<rparr>, Inr ()))"

definition TouchAPIKeyLastUsed :: "ctx \<Rightarrow> string \<Rightarrow> time \<Rightarrow> store \<Rightarrow> store \<times> unit sres" where
  "TouchAPIKeyLastUsed ctx i now s = fenced ctx s
     (case tget (st_apiKeys s) i of
        None \<Rightarrow> (s, Inl ErrNotFound)
      | Some k \<Rightarrow> (s\<lparr>st_apiKeys := tput i (k\<lparr>key_LastUsedAt := Some now\<rparr>) (st_apiKeys s)\<rparr>, Inr ()))"

section \<open>Worker credentials and join tokens\<close>

definition credentialConflict :: "store \<Rightarrow> WorkerCredential \<Rightarrow> bool" where
  "credentialConflict s c \<longleftrightarrow>
     tget (st_workerCredentials s) (cred_ID c) \<noteq> None \<or>
     (\<exists>ex \<in> set (trows (st_workerCredentials s)). cred_PublicKey ex = cred_PublicKey c \<or>
        cred_WorkerID ex = cred_WorkerID c \<and> cred_RevokedAt ex = None)"

definition CreateWorkerCredential ::
  "ctx \<Rightarrow> WorkerCredential \<Rightarrow> store \<Rightarrow> store \<times> WorkerCredential sres" where
  "CreateWorkerCredential ctx c s = fenced ctx s
     (if credentialConflict s c then (s, Inl ErrConflict)
      else (s\<lparr>st_workerCredentials := tput (cred_ID c) c (st_workerCredentials s)\<rparr>, Inr c))"

definition ListActiveWorkerCredentials :: "store \<Rightarrow> WorkerCredential list" where
  "ListActiveWorkerCredentials s =
     sort_key cred_EnrolledAt (filter (\<lambda>c. cred_RevokedAt c = None) (trows (st_workerCredentials s)))"

definition GetActiveWorkerCredentialByPublicKey :: "string \<Rightarrow> store \<Rightarrow> WorkerCredential sres" where
  "GetActiveWorkerCredentialByPublicKey publicKey s =
     (case tfirst (\<lambda>c. cred_PublicKey c = publicKey \<and> cred_RevokedAt c = None) (st_workerCredentials s) of
        None \<Rightarrow> Inl ErrNotFound | Some (_, c) \<Rightarrow> Inr c)"

definition RevokeWorkerCredential :: "ctx \<Rightarrow> string \<Rightarrow> time \<Rightarrow> store \<Rightarrow> store \<times> unit sres" where
  "RevokeWorkerCredential ctx workerID at s = fenced ctx s
     (case tfirst (\<lambda>c. \<not> (cred_WorkerID c \<noteq> workerID \<or> cred_RevokedAt c \<noteq> None)) (st_workerCredentials s) of
        None \<Rightarrow> (s, Inl ErrNotFound)
      | Some (i, c) \<Rightarrow>
          (s\<lparr>st_workerCredentials := tput i (c\<lparr>cred_RevokedAt := Some at\<rparr>) (st_workerCredentials s)\<rparr>, Inr ()))"

definition TouchWorkerCredential :: "ctx \<Rightarrow> string \<Rightarrow> time \<Rightarrow> store \<Rightarrow> store \<times> unit sres" where
  "TouchWorkerCredential ctx workerID at s = fenced ctx s
     (case tfirst (\<lambda>c. \<not> (cred_WorkerID c \<noteq> workerID \<or> cred_RevokedAt c \<noteq> None)) (st_workerCredentials s) of
        None \<Rightarrow> (s, Inl ErrNotFound)
      | Some (i, c) \<Rightarrow>
          (s\<lparr>st_workerCredentials := tput i (c\<lparr>cred_LastSeenAt := Some at\<rparr>) (st_workerCredentials s)\<rparr>, Inr ()))"

definition CreateWorkerJoinToken :: "ctx \<Rightarrow> WorkerJoinToken \<Rightarrow> store \<Rightarrow> store \<times> WorkerJoinToken sres" where
  "CreateWorkerJoinToken ctx t s = fenced ctx s
     (if tget (st_workerJoinTokens s) (tok_ID t) \<noteq> None then (s, Inl ErrConflict)
      else if \<exists>ex \<in> set (trows (st_workerJoinTokens s)). tok_TokenHash ex = tok_TokenHash t
      then (s, Inl ErrConflict)
      else (s\<lparr>st_workerJoinTokens := tput (tok_ID t) t (st_workerJoinTokens s)\<rparr>, Inr t))"

definition GetWorkerJoinTokenByHash :: "string \<Rightarrow> store \<Rightarrow> WorkerJoinToken sres" where
  "GetWorkerJoinTokenByHash h s =
     (case tfirst (\<lambda>t. tok_TokenHash t = h) (st_workerJoinTokens s) of
        None \<Rightarrow> Inl ErrNotFound | Some (_, t) \<Rightarrow> Inr t)"

definition MarkWorkerJoinTokenUsed :: "ctx \<Rightarrow> string \<Rightarrow> time \<Rightarrow> store \<Rightarrow> store \<times> unit sres" where
  "MarkWorkerJoinTokenUsed ctx i at s = fenced ctx s
     (case tget (st_workerJoinTokens s) i of
        None \<Rightarrow> (s, Inl ErrNotFound)
      | Some t \<Rightarrow> (s\<lparr>st_workerJoinTokens := tput i (t\<lparr>tok_UsedAt := Some at\<rparr>) (st_workerJoinTokens s)\<rparr>, Inr ()))"

definition RedeemWorkerJoinToken ::
  "ctx \<Rightarrow> string \<Rightarrow> time \<Rightarrow> WorkerCredential \<Rightarrow> store \<Rightarrow> store \<times> WorkerCredential sres" where
  "RedeemWorkerJoinToken ctx h now cred s = fenced ctx s
     (case tfirst (\<lambda>t. \<not> (tok_TokenHash t \<noteq> h \<or> tok_UsedAt t \<noteq> None) \<and> now < tok_ExpiresAt t)
             (st_workerJoinTokens s) of
        None \<Rightarrow> (s, Inl ErrNotFound)
      | Some (tokID, tok) \<Rightarrow>
          if credentialConflict s cred then (s, Inl ErrConflict)
          else (s\<lparr>st_workerJoinTokens := tput tokID (tok\<lparr>tok_UsedAt := Some now\<rparr>) (st_workerJoinTokens s),
                  st_workerCredentials := tput (cred_ID cred) cred (st_workerCredentials s)\<rparr>, Inr cred))"

end
