(* ===== verification/StoreMoves.thy ===== *)
theory StoreMoves
  imports StoreAccounts
begin

text \<open>
  How an operation may change the rows of the store, and the invariant that rests on it.

  \<open>task_moves R\<close>, \<open>attempt_moves\<close>, \<open>claim_moves\<close>, \<open>step_moves R\<close> and \<open>job_moves R\<close> relate a table
  before and after an operation that adds and deletes no row: identities (and a job's queue and farm) stay, a closed attempt
  stays closed, a released claim stays released, and a status changes only along \<open>R\<close>.  An
  operation is described once by these relations; the invariant and the transition properties
  follow from the description.
\<close>

section \<open>Moves of rows\<close>

lemma rel_option_SomeD: "rel_option P x y \<Longrightarrow> x = Some a \<Longrightarrow> \<exists>b. y = Some b \<and> P a b"
  by (cases y) auto

lemma rel_option_SomeD': "rel_option P x y \<Longrightarrow> y = Some b \<Longrightarrow> \<exists>a. x = Some a \<and> P a b"
  by (cases x) auto

definition task_moves :: "(task_status \<Rightarrow> task_status \<Rightarrow> bool) \<Rightarrow> Task table \<Rightarrow> Task table \<Rightarrow> bool" where
  "task_moves R T T' \<longleftrightarrow> (table_ok T \<longrightarrow> table_ok T') \<and>
     (\<forall>k. rel_option (\<lambda>t t'. task_ID t' = task_ID t \<and> task_JobID t' = task_JobID t \<and>
            task_StepID t' = task_StepID t \<and>
            (task_Status t' = task_Status t \<or> R (task_Status t) (task_Status t')))
          (tget T k) (tget T' k))"

definition attempt_moves :: "TaskAttempt table \<Rightarrow> TaskAttempt table \<Rightarrow> bool" where
  "attempt_moves A A' \<longleftrightarrow> (table_ok A \<longrightarrow> table_ok A') \<and>
     (\<forall>k. rel_option (\<lambda>a a'. attempt_key a' = attempt_key a \<and>
            (att_Status a' = AttemptStatusRunning \<longrightarrow> att_Status a = AttemptStatusRunning))
          (tget A k) (tget A' k))"

definition claim_moves :: "UsageClaim table \<Rightarrow> UsageClaim table \<Rightarrow> bool" where
  "claim_moves C C' \<longleftrightarrow> (table_ok C \<longrightarrow> table_ok C') \<and>
     (\<forall>k. rel_option (\<lambda>c c'. claim_PoolID c' = claim_PoolID c \<and>
            claim_TaskAttemptID c' = claim_TaskAttemptID c \<and>
            (claim_ReleasedAt c' = None \<longrightarrow> claim_ReleasedAt c = None))
          (tget C k) (tget C' k))"

definition step_moves :: "(step_status \<Rightarrow> step_status \<Rightarrow> bool) \<Rightarrow> Step table \<Rightarrow> Step table \<Rightarrow> bool" where
  "step_moves R S S' \<longleftrightarrow> (table_ok S \<longrightarrow> table_ok S') \<and>
     (\<forall>k. rel_option (\<lambda>s s'. step_ID s' = step_ID s \<and> step_JobID s' = step_JobID s \<and>
            step_Name s' = step_Name s \<and> step_DependsOn s' = step_DependsOn s \<and>
            (step_Status s' = step_Status s \<or> R (step_Status s) (step_Status s')))
          (tget S k) (tget S' k))"

definition job_moves :: "(job_status \<Rightarrow> job_status \<Rightarrow> bool) \<Rightarrow> Job table \<Rightarrow> Job table \<Rightarrow> bool" where
  "job_moves R J J' \<longleftrightarrow> (table_ok J \<longrightarrow> table_ok J') \<and>
     (\<forall>k. rel_option (\<lambda>j j'. job_ID j' = job_ID j \<and> job_QueueID j' = job_QueueID j \<and>
            job_FarmID j' = job_FarmID j \<and>
            (job_Status j' = job_Status j \<or> R (job_Status j) (job_Status j')))
          (tget J k) (tget J' k))"

lemma moves_refl [simp, intro]:
  "task_moves R T T" "attempt_moves A A" "claim_moves C C" "step_moves R2 S S" "job_moves R3 J J"
  by (simp_all add: task_moves_def attempt_moves_def claim_moves_def step_moves_def job_moves_def
      rel_option_iff split: option.split)

subsection \<open>Single rows and sweeps\<close>

lemma task_moves_tput:
  assumes "tget T k = Some t" "task_ID t' = task_ID t" "task_JobID t' = task_JobID t"
    "task_StepID t' = task_StepID t" "task_Status t' = task_Status t \<or> R (task_Status t) (task_Status t')"
  shows "task_moves R T (tput k t' T)"
  using assms by (auto simp: task_moves_def rel_option_iff split: option.split)

lemma task_moves_tsweep:
  assumes "\<And>k t. tget T k = Some t \<Longrightarrow> task_ID (f k t) = task_ID t \<and> task_JobID (f k t) = task_JobID t \<and>
      task_StepID (f k t) = task_StepID t \<and>
      (task_Status (f k t) = task_Status t \<or> R (task_Status t) (task_Status (f k t)))"
  shows "task_moves R T (tsweep f T)"
  using assms by (auto simp: task_moves_def rel_option_iff split: option.split)

lemma attempt_moves_tput:
  assumes "tget A k = Some a" "attempt_key a' = attempt_key a"
    "att_Status a' = AttemptStatusRunning \<Longrightarrow> att_Status a = AttemptStatusRunning"
  shows "attempt_moves A (tput k a' A)"
  using assms by (auto simp: attempt_moves_def rel_option_iff split: option.split)

lemma attempt_moves_closeSweep:
  "st \<noteq> AttemptStatusRunning \<Longrightarrow>
     attempt_moves A (tsweep (\<lambda>i a. closeSweepRow p st m n a) A)"
  by (auto simp: attempt_moves_def rel_option_iff status_closeSweepRow split: option.split if_splits)

lemma claim_moves_releaseWhere: "claim_moves C (releaseWhere K at C)"
  by (auto simp: claim_moves_def releaseWhere_def rel_option_iff split: option.split)

lemma step_moves_tput:
  assumes "tget S k = Some s" "step_ID s' = step_ID s" "step_JobID s' = step_JobID s"
    "step_Name s' = step_Name s" "step_DependsOn s' = step_DependsOn s"
    "step_Status s' = step_Status s \<or> R (step_Status s) (step_Status s')"
  shows "step_moves R S (tput k s' S)"
  using assms by (auto simp: step_moves_def rel_option_iff split: option.split)

lemma step_moves_tsweep:
  assumes "\<And>k s. tget S k = Some s \<Longrightarrow> step_ID (f k s) = step_ID s \<and> step_JobID (f k s) = step_JobID s \<and>
      step_Name (f k s) = step_Name s \<and> step_DependsOn (f k s) = step_DependsOn s \<and>
      (step_Status (f k s) = step_Status s \<or> R (step_Status s) (step_Status (f k s)))"
  shows "step_moves R S (tsweep f S)"
  using assms by (auto simp: step_moves_def rel_option_iff split: option.split)

lemma job_moves_tput:
  assumes "tget J k = Some j" "job_ID j' = job_ID j" "job_QueueID j' = job_QueueID j"
    "job_FarmID j' = job_FarmID j" "job_Status j' = job_Status j \<or> R (job_Status j) (job_Status j')"
  shows "job_moves R J (tput k j' J)"
  using assms by (auto simp: job_moves_def rel_option_iff split: option.split)

lemma job_moves_tsweep:
  assumes "\<And>k j. tget J k = Some j \<Longrightarrow> job_ID (f k j) = job_ID j \<and>
      job_QueueID (f k j) = job_QueueID j \<and> job_FarmID (f k j) = job_FarmID j \<and>
      (job_Status (f k j) = job_Status j \<or> R (job_Status j) (job_Status (f k j)))"
  shows "job_moves R J (tsweep f J)"
  using assms by (auto simp: job_moves_def rel_option_iff split: option.split)

subsection \<open>Using a move\<close>

lemma task_movesD:
  assumes "task_moves R T T'" "tget T k = Some t"
  obtains t' where "tget T' k = Some t'" "task_ID t' = task_ID t" "task_JobID t' = task_JobID t"
    "task_StepID t' = task_StepID t" "task_Status t' = task_Status t \<or> R (task_Status t) (task_Status t')"
  using rel_option_SomeD [OF spec [OF conjunct2 [OF assms(1) [unfolded task_moves_def]], of k] assms(2)]
  by (elim exE conjE) (rule that, assumption+)

lemma task_movesD':
  assumes "task_moves R T T'" "tget T' k = Some t'"
  obtains t where "tget T k = Some t" "task_ID t' = task_ID t" "task_JobID t' = task_JobID t"
    "task_StepID t' = task_StepID t" "task_Status t' = task_Status t \<or> R (task_Status t) (task_Status t')"
  using rel_option_SomeD' [OF spec [OF conjunct2 [OF assms(1) [unfolded task_moves_def]], of k] assms(2)]
  by (elim exE conjE) (rule that, assumption+)

lemma attempt_movesD':
  assumes "attempt_moves A A'" "tget A' k = Some a'"
  obtains a where "tget A k = Some a" "attempt_key a' = attempt_key a"
    "att_Status a' = AttemptStatusRunning \<longrightarrow> att_Status a = AttemptStatusRunning"
  using rel_option_SomeD' [OF spec [OF conjunct2 [OF assms(1) [unfolded attempt_moves_def]], of k] assms(2)]
  by (elim exE conjE) (rule that, assumption+)

lemma attempt_movesD:
  assumes "attempt_moves A A'" "tget A k = Some a"
  obtains a' where "tget A' k = Some a'" "attempt_key a' = attempt_key a"
    "att_Status a' = AttemptStatusRunning \<longrightarrow> att_Status a = AttemptStatusRunning"
  using rel_option_SomeD [OF spec [OF conjunct2 [OF assms(1) [unfolded attempt_moves_def]], of k] assms(2)]
  by (elim exE conjE) (rule that, assumption+)

lemma claim_movesD':
  assumes "claim_moves C C'" "tget C' k = Some c'"
  obtains c where "tget C k = Some c" "claim_PoolID c' = claim_PoolID c"
    "claim_TaskAttemptID c' = claim_TaskAttemptID c"
    "claim_ReleasedAt c' = None \<longrightarrow> claim_ReleasedAt c = None"
  using rel_option_SomeD' [OF spec [OF conjunct2 [OF assms(1) [unfolded claim_moves_def]], of k] assms(2)]
  by (elim exE conjE) (rule that, assumption+)

lemma step_movesD:
  assumes "step_moves R S S'" "tget S k = Some s"
  obtains s' where "tget S' k = Some s'" "step_ID s' = step_ID s" "step_JobID s' = step_JobID s"
    "step_Status s' = step_Status s \<or> R (step_Status s) (step_Status s')"
  using rel_option_SomeD [OF spec [OF conjunct2 [OF assms(1) [unfolded step_moves_def]], of k] assms(2)]
  by (elim exE conjE) (rule that, assumption+)

lemma step_movesD':
  assumes "step_moves R S S'" "tget S' k = Some s'"
  obtains s where "tget S k = Some s" "step_ID s' = step_ID s" "step_JobID s' = step_JobID s"
    "step_Status s' = step_Status s \<or> R (step_Status s) (step_Status s')"
  using rel_option_SomeD' [OF spec [OF conjunct2 [OF assms(1) [unfolded step_moves_def]], of k] assms(2)]
  by (elim exE conjE) (rule that, assumption+)

lemma job_movesD:
  assumes "job_moves R J J'" "tget J k = Some j"
  obtains j' where "tget J' k = Some j'" "job_ID j' = job_ID j" "job_QueueID j' = job_QueueID j"
    "job_FarmID j' = job_FarmID j"
    "job_Status j' = job_Status j \<or> R (job_Status j) (job_Status j')"
  using rel_option_SomeD [OF spec [OF conjunct2 [OF assms(1) [unfolded job_moves_def]], of k] assms(2)]
  by (elim exE conjE) (rule that, assumption+)

lemma job_movesD':
  assumes "job_moves R J J'" "tget J' k = Some j'"
  obtains j where "tget J k = Some j" "job_ID j' = job_ID j" "job_QueueID j' = job_QueueID j"
    "job_FarmID j' = job_FarmID j"
    "job_Status j' = job_Status j \<or> R (job_Status j) (job_Status j')"
  using rel_option_SomeD' [OF spec [OF conjunct2 [OF assms(1) [unfolded job_moves_def]], of k] assms(2)]
  by (elim exE conjE) (rule that, assumption+)

section \<open>The invariant of the execution tables\<close>

text \<open>
  An attempt belongs to a task; while it is running, its task is in flight and it is the task's
  latest; no task has two attempts with one number.  A claim that is not released belongs to a
  running attempt.  Tasks belong to a step of their job, steps to a job.
\<close>

definition tables_wf :: "store \<Rightarrow> bool" where
  "tables_wf s \<longleftrightarrow>
     table_ok (st_tasks s) \<and> table_ok (st_taskAttempts s) \<and> table_ok (st_usageClaims s) \<and>
     table_ok (st_steps s) \<and> table_ok (st_jobs s) \<and>
     (\<forall>k t. tget (st_tasks s) k = Some t \<longrightarrow>
        task_ID t = k \<and> validTaskTransitions (task_Status t) \<noteq> None) \<and>
     (\<forall>k a. tget (st_taskAttempts s) k = Some a \<longrightarrow> att_ID a = k) \<and>
     (\<forall>k st. tget (st_steps s) k = Some st \<longrightarrow> step_ID st = k) \<and>
     (\<forall>k j. tget (st_jobs s) k = Some j \<longrightarrow> job_ID j = k)"

definition refs_ok :: "store \<Rightarrow> bool" where
  "refs_ok s \<longleftrightarrow>
     (\<forall>k t. tget (st_tasks s) k = Some t \<longrightarrow>
        (\<exists>st. tget (st_steps s) (task_StepID t) = Some st \<and> step_JobID st = task_JobID t)) \<and>
     (\<forall>k st. tget (st_steps s) k = Some st \<longrightarrow> (\<exists>j. tget (st_jobs s) (step_JobID st) = Some j)) \<and>
     (\<forall>k a. tget (st_taskAttempts s) k = Some a \<longrightarrow>
        (\<exists>t. tget (st_tasks s) (att_TaskID a) = Some t)) \<and>
     (\<forall>k c. tget (st_usageClaims s) k = Some c \<longrightarrow>
        (\<exists>a. tget (st_taskAttempts s) (claim_TaskAttemptID c) = Some a))"

definition attempts_ok :: "store \<Rightarrow> bool" where
  "attempts_ok s \<longleftrightarrow>
     (\<forall>k a. tget (st_taskAttempts s) k = Some a \<and> att_Status a = AttemptStatusRunning \<longrightarrow>
        (\<forall>t. tget (st_tasks s) (att_TaskID a) = Some t \<longrightarrow> inFlightTask (task_Status t)) \<and>
        (\<forall>k' b. tget (st_taskAttempts s) k' = Some b \<and> att_TaskID b = att_TaskID a \<longrightarrow>
           att_AttemptNumber b \<le> att_AttemptNumber a)) \<and>
     (\<forall>k k' a b. tget (st_taskAttempts s) k = Some a \<and> tget (st_taskAttempts s) k' = Some b \<and>
        att_TaskID a = att_TaskID b \<and> att_AttemptNumber a = att_AttemptNumber b \<longrightarrow> k = k')"

definition claims_ok :: "store \<Rightarrow> bool" where
  "claims_ok s \<longleftrightarrow>
     (\<forall>k c. tget (st_usageClaims s) k = Some c \<and> claim_ReleasedAt c = None \<longrightarrow>
        (\<exists>a. tget (st_taskAttempts s) (claim_TaskAttemptID c) = Some a \<and>
             att_Status a = AttemptStatusRunning))"

definition exec_inv :: "store \<Rightarrow> bool" where
  "exec_inv s \<longleftrightarrow> tables_wf s \<and> refs_ok s \<and> attempts_ok s \<and> claims_ok s"

lemma exec_inv_New: "exec_inv New"
  by (simp add: exec_inv_def tables_wf_def refs_ok_def attempts_ok_def claims_ok_def New_def)

lemma exec_inv_taskID: "exec_inv s \<Longrightarrow> tget (st_tasks s) k = Some t \<Longrightarrow> task_ID t = k"
  by (simp add: exec_inv_def tables_wf_def)

lemma exec_inv_known:
  "exec_inv s \<Longrightarrow> tget (st_tasks s) k = Some t \<Longrightarrow> validTaskTransitions (task_Status t) \<noteq> None"
  by (simp add: exec_inv_def tables_wf_def)

lemma exec_inv_table_ok:
  "exec_inv s \<Longrightarrow> table_ok (st_tasks s) \<and> table_ok (st_taskAttempts s) \<and>
     table_ok (st_usageClaims s) \<and> table_ok (st_steps s) \<and> table_ok (st_jobs s)"
  by (simp add: exec_inv_def tables_wf_def)

lemma exec_inv_attID: "exec_inv s \<Longrightarrow> tget (st_taskAttempts s) k = Some a \<Longrightarrow> att_ID a = k"
  by (simp add: exec_inv_def tables_wf_def)

lemma exec_inv_stepID: "exec_inv s \<Longrightarrow> tget (st_steps s) k = Some st \<Longrightarrow> step_ID st = k"
  by (simp add: exec_inv_def tables_wf_def)

lemma exec_inv_flight:
  "exec_inv s \<Longrightarrow> tget (st_taskAttempts s) k = Some a \<Longrightarrow> att_Status a = AttemptStatusRunning \<Longrightarrow>
     tget (st_tasks s) (att_TaskID a) = Some t \<Longrightarrow> inFlightTask (task_Status t)"
  unfolding exec_inv_def attempts_ok_def by blast

lemma exec_inv_top:
  "exec_inv s \<Longrightarrow> tget (st_taskAttempts s) k = Some a \<Longrightarrow> att_Status a = AttemptStatusRunning \<Longrightarrow>
     tget (st_taskAttempts s) k' = Some b \<Longrightarrow> att_TaskID b = att_TaskID a \<Longrightarrow>
     att_AttemptNumber b \<le> att_AttemptNumber a"
  unfolding exec_inv_def attempts_ok_def by blast

lemma exec_inv_unique:
  "exec_inv s \<Longrightarrow> tget (st_taskAttempts s) k = Some a \<Longrightarrow> tget (st_taskAttempts s) k' = Some b \<Longrightarrow>
     att_TaskID a = att_TaskID b \<Longrightarrow> att_AttemptNumber a = att_AttemptNumber b \<Longrightarrow> k = k'"
  unfolding exec_inv_def attempts_ok_def by blast

lemma exec_inv_claim:
  "exec_inv s \<Longrightarrow> tget (st_usageClaims s) k = Some c \<Longrightarrow> claim_ReleasedAt c = None \<Longrightarrow>
     \<exists>a. tget (st_taskAttempts s) (claim_TaskAttemptID c) = Some a \<and> att_Status a = AttemptStatusRunning"
  unfolding exec_inv_def claims_ok_def by blast

lemma exec_inv_task_step:
  "exec_inv s \<Longrightarrow> tget (st_tasks s) k = Some t \<Longrightarrow>
     \<exists>st. tget (st_steps s) (task_StepID t) = Some st \<and> step_JobID st = task_JobID t"
  unfolding exec_inv_def refs_ok_def by blast

lemma exec_inv_step_job:
  "exec_inv s \<Longrightarrow> tget (st_steps s) k = Some st \<Longrightarrow> \<exists>j. tget (st_jobs s) (step_JobID st) = Some j"
  unfolding exec_inv_def refs_ok_def by blast

lemma exec_inv_attempt_task:
  "exec_inv s \<Longrightarrow> tget (st_taskAttempts s) k = Some a \<Longrightarrow> \<exists>t. tget (st_tasks s) (att_TaskID a) = Some t"
  unfolding exec_inv_def refs_ok_def by blast

lemma exec_inv_jobID: "exec_inv s \<Longrightarrow> tget (st_jobs s) k = Some j \<Longrightarrow> job_ID j = k"
  by (simp add: exec_inv_def tables_wf_def)

subsection \<open>Preservation by moves\<close>

definition moved ::
  "(task_status \<Rightarrow> task_status \<Rightarrow> bool) \<Rightarrow> (step_status \<Rightarrow> step_status \<Rightarrow> bool) \<Rightarrow>
   (job_status \<Rightarrow> job_status \<Rightarrow> bool) \<Rightarrow> store \<Rightarrow> store \<Rightarrow> bool" where
  "moved R Q P s s' \<longleftrightarrow>
     task_moves R (st_tasks s) (st_tasks s') \<and> attempt_moves (st_taskAttempts s) (st_taskAttempts s') \<and>
     claim_moves (st_usageClaims s) (st_usageClaims s') \<and> step_moves Q (st_steps s) (st_steps s') \<and>
     job_moves P (st_jobs s) (st_jobs s')"

definition settled :: "store \<Rightarrow> bool" where
  "settled s \<longleftrightarrow>
     (\<forall>k a t. tget (st_taskAttempts s) k = Some a \<and> att_Status a = AttemptStatusRunning \<and>
        tget (st_tasks s) (att_TaskID a) = Some t \<longrightarrow> inFlightTask (task_Status t)) \<and>
     claims_ok s"

lemma moved_refl [simp, intro]: "moved R Q P s s"
  by (simp add: moved_def)

lemma settled_inv: "exec_inv s \<Longrightarrow> settled s"
  unfolding exec_inv_def settled_def attempts_ok_def by blast

lemma moves_table_ok:
  "task_moves R T T' \<Longrightarrow> table_ok T \<Longrightarrow> table_ok T'"
  "attempt_moves A A' \<Longrightarrow> table_ok A \<Longrightarrow> table_ok A'"
  "claim_moves C C' \<Longrightarrow> table_ok C \<Longrightarrow> table_ok C'"
  "step_moves Q S S' \<Longrightarrow> table_ok S \<Longrightarrow> table_ok S'"
  "job_moves P J J' \<Longrightarrow> table_ok J \<Longrightarrow> table_ok J'"
  by (simp_all add: task_moves_def attempt_moves_def claim_moves_def step_moves_def job_moves_def)

text \<open>The status relations moves are taken along: the task table of the code, the same with the two
  arrows of a retry, and the job table.\<close>

definition into_known :: "(task_status \<Rightarrow> task_status \<Rightarrow> bool) \<Rightarrow> bool" where
  "into_known R \<longleftrightarrow> (\<forall>a b. R a b \<longrightarrow> validTaskTransitions b \<noteq> None)"

definition task_legal :: "task_status \<Rightarrow> task_status \<Rightarrow> bool" where
  "task_legal src to \<longleftrightarrow> ValidateTaskTransition src to = None"

definition retry_arrow :: "task_status \<Rightarrow> task_status \<Rightarrow> bool" where
  "retry_arrow src to \<longleftrightarrow>
     (src = TaskStatusFailed \<or> src = TaskStatusCanceled) \<and> (to = TaskStatusReady \<or> to = TaskStatusPending)"

definition job_legal :: "job_status \<Rightarrow> job_status \<Rightarrow> bool" where
  "job_legal src to \<longleftrightarrow> to \<in> set (JobTransitions src)"

lemma into_known_task_legal [simp]: "into_known task_legal"
  unfolding into_known_def
proof (intro allI impI)
  fix a b assume "task_legal a b"
  then show "validTaskTransitions b \<noteq> None"
    by (cases a; cases b)
      (simp_all add: task_legal_def ValidateTaskTransition_def validTaskTransitions_def)
qed

lemma into_known_retry_arrow [simp]: "into_known retry_arrow"
  by (auto simp: into_known_def retry_arrow_def validTaskTransitions_def)

lemma tables_wf_moved:
  assumes m: "moved R Q P s s'" and wf: "tables_wf s" and R: "into_known R"
  shows "tables_wf s'"
proof -
  from m have mv: "task_moves R (st_tasks s) (st_tasks s')"
    "attempt_moves (st_taskAttempts s) (st_taskAttempts s')"
    "claim_moves (st_usageClaims s) (st_usageClaims s')"
    "step_moves Q (st_steps s) (st_steps s')" "job_moves P (st_jobs s) (st_jobs s')"
    by (simp_all add: moved_def)
  from wf have ok: "table_ok (st_tasks s)" "table_ok (st_taskAttempts s)"
    "table_ok (st_usageClaims s)" "table_ok (st_steps s)" "table_ok (st_jobs s)"
    by (simp_all add: tables_wf_def)
  have "task_ID t = k \<and> validTaskTransitions (task_Status t) \<noteq> None"
    if "tget (st_tasks s') k = Some t" for k t
    by (rule task_movesD' [OF mv(1) that]) (use wf R in \<open>auto simp: tables_wf_def into_known_def\<close>)
  moreover have "att_ID a = k" if "tget (st_taskAttempts s') k = Some a" for k a
    by (rule attempt_movesD' [OF mv(2) that])
      (use wf in \<open>auto simp: tables_wf_def dest: attempt_keyD\<close>)
  moreover have "step_ID st = k" if "tget (st_steps s') k = Some st" for k st
    by (rule step_movesD' [OF mv(4) that]) (use wf in \<open>simp add: tables_wf_def\<close>)
  moreover have "job_ID j = k" if "tget (st_jobs s') k = Some j" for k j
    by (rule job_movesD' [OF mv(5) that]) (use wf in \<open>simp add: tables_wf_def\<close>)
  ultimately show ?thesis
    using mv ok by (auto simp: tables_wf_def dest: moves_table_ok)
qed

lemma refs_ok_moved:
  assumes m: "moved R Q P s s'" and r: "refs_ok s"
  shows "refs_ok s'"
proof -
  from m have mv: "task_moves R (st_tasks s) (st_tasks s')"
    "attempt_moves (st_taskAttempts s) (st_taskAttempts s')"
    "claim_moves (st_usageClaims s) (st_usageClaims s')"
    "step_moves Q (st_steps s) (st_steps s')" "job_moves P (st_jobs s) (st_jobs s')"
    by (simp_all add: moved_def)
  have "\<exists>st. tget (st_steps s') (task_StepID t) = Some st \<and> step_JobID st = task_JobID t"
    if t: "tget (st_tasks s') k = Some t" for k t
  proof -
    obtain u where u: "tget (st_tasks s) k = Some u" "task_StepID t = task_StepID u"
      "task_JobID t = task_JobID u"
      using task_movesD' [OF mv(1) t] by metis
    with r obtain st where "tget (st_steps s) (task_StepID t) = Some st" "step_JobID st = task_JobID t"
      unfolding refs_ok_def by metis
    then show ?thesis using step_movesD [OF mv(4)] by metis
  qed
  moreover have "\<exists>j. tget (st_jobs s') (step_JobID st) = Some j"
    if st: "tget (st_steps s') k = Some st" for k st
  proof -
    obtain u where u: "tget (st_steps s) k = Some u" "step_JobID st = step_JobID u"
      using step_movesD' [OF mv(4) st] by metis
    with r obtain j where "tget (st_jobs s) (step_JobID st) = Some j"
      unfolding refs_ok_def by metis
    then show ?thesis using job_movesD [OF mv(5)] by metis
  qed
  moreover have "\<exists>t. tget (st_tasks s') (att_TaskID a) = Some t"
    if a: "tget (st_taskAttempts s') k = Some a" for k a
  proof -
    obtain b where b: "tget (st_taskAttempts s) k = Some b" "att_TaskID a = att_TaskID b"
      using attempt_movesD' [OF mv(2) a] attempt_keyD by metis
    with r obtain t where "tget (st_tasks s) (att_TaskID a) = Some t"
      unfolding refs_ok_def by metis
    then show ?thesis using task_movesD [OF mv(1)] by metis
  qed
  moreover have "\<exists>a. tget (st_taskAttempts s') (claim_TaskAttemptID c) = Some a"
    if c: "tget (st_usageClaims s') k = Some c" for k c
  proof -
    obtain d where d: "tget (st_usageClaims s) k = Some d" "claim_TaskAttemptID c = claim_TaskAttemptID d"
      using claim_movesD' [OF mv(3) c] by metis
    with r obtain a where "tget (st_taskAttempts s) (claim_TaskAttemptID c) = Some a"
      unfolding refs_ok_def by metis
    then show ?thesis using attempt_movesD [OF mv(2)] by metis
  qed
  ultimately show ?thesis unfolding refs_ok_def by blast
qed

lemma attempts_ok_moved:
  assumes m: "attempt_moves (st_taskAttempts s) (st_taskAttempts s')"
    and a: "attempts_ok s" and st: "settled s'"
  shows "attempts_ok s'"
proof -
  have was: "\<exists>b. tget (st_taskAttempts s) k = Some b \<and> att_TaskID a = att_TaskID b \<and>
      att_AttemptNumber a = att_AttemptNumber b \<and>
      (att_Status a = AttemptStatusRunning \<longrightarrow> att_Status b = AttemptStatusRunning)"
    if "tget (st_taskAttempts s') k = Some a" for k a
    using attempt_movesD' [OF m that] attempt_keyD by metis
  have "att_AttemptNumber b \<le> att_AttemptNumber a"
    if "tget (st_taskAttempts s') k = Some a" "att_Status a = AttemptStatusRunning"
      "tget (st_taskAttempts s') k' = Some b" "att_TaskID b = att_TaskID a" for k k' a b
    using was [OF that(1)] was [OF that(3)] that a unfolding attempts_ok_def by metis
  moreover have "k = k'"
    if "tget (st_taskAttempts s') k = Some a" "tget (st_taskAttempts s') k' = Some b"
      "att_TaskID a = att_TaskID b" "att_AttemptNumber a = att_AttemptNumber b" for k k' a b
    using was [OF that(1)] was [OF that(2)] that a unfolding attempts_ok_def by metis
  ultimately show ?thesis
    using st unfolding attempts_ok_def settled_def by (intro conjI allI impI) blast+
qed

text \<open>An operation that only moves rows keeps the invariant when what it leaves is settled: no
  open attempt on a task out of flight, no open claim on a closed attempt.\<close>

lemma exec_inv_moved:
  "exec_inv s \<Longrightarrow> moved R Q P s s' \<Longrightarrow> settled s' \<Longrightarrow> into_known R \<Longrightarrow> exec_inv s'"
  unfolding exec_inv_def
  using tables_wf_moved refs_ok_moved attempts_ok_moved
  by (metis moved_def settled_def)

lemma settled_frame:
  "st_tasks s' = st_tasks s \<Longrightarrow> st_taskAttempts s' = st_taskAttempts s \<Longrightarrow>
     st_usageClaims s' = st_usageClaims s \<Longrightarrow> settled s' = settled s"
  by (simp add: settled_def claims_ok_def)

section \<open>Operations that move rows\<close>

lemma tget_releaseWhere_open:
  assumes "tget (releaseWhere K at C) k = Some c" "claim_ReleasedAt c = None"
  shows "tget C k = Some c \<and> \<not> K (claim_TaskAttemptID c)"
proof -
  obtain d where d: "tget C k = Some d"
    "c = (if K (claim_TaskAttemptID d) \<and> claim_ReleasedAt d = None then releaseClaim at d else d)"
    using assms(1) by (auto simp: releaseWhere_def)
  then have "\<not> (K (claim_TaskAttemptID d) \<and> claim_ReleasedAt d = None)"
    using assms(2) by (cases "K (claim_TaskAttemptID d) \<and> claim_ReleasedAt d = None") auto
  with d assms(2) show ?thesis by auto
qed

lemma close_moved:
  assumes "task_moves R (st_tasks s) T'" "status \<noteq> AttemptStatusRunning"
  shows "moved R Q P s (closeAttemptsAndReleaseClaimsLocked p status m now (s\<lparr>st_tasks := T'\<rparr>))"
  using assms
  by (simp add: moved_def closeAttemptsAndReleaseClaimsLocked_eq attempt_moves_closeSweep
      claim_moves_releaseWhere)

lemma close_settled:
  assumes inv: "exec_inv s" and st: "status \<noteq> AttemptStatusRunning"
    and T: "task_moves R (st_tasks s) T'"
    and keep: "\<And>k t t'. tget (st_tasks s) k = Some t \<Longrightarrow> tget T' k = Some t' \<Longrightarrow> \<not> p k \<Longrightarrow>
      inFlightTask (task_Status t) \<Longrightarrow> inFlightTask (task_Status t')"
  shows "settled (closeAttemptsAndReleaseClaimsLocked p status m now (s\<lparr>st_tasks := T'\<rparr>))"
    (is "settled ?s'")
proof -
  let ?row = "closeSweepRow p status m now"
  have A: "st_taskAttempts ?s' = tsweep (\<lambda>i a. ?row a) (st_taskAttempts s)"
    and T': "st_tasks ?s' = T'"
    by (simp_all add: closeAttemptsAndReleaseClaimsLocked_eq)
  have open_task: "inFlightTask (task_Status t)"
    if a': "tget (st_taskAttempts ?s') k = Some a'" "att_Status a' = AttemptStatusRunning"
      and t: "tget T' (att_TaskID a') = Some t" for k a' t
  proof -
    obtain a where a: "tget (st_taskAttempts s) k = Some a" "a' = ?row a"
      using a'(1) by (auto simp: A)
    have tid: "att_TaskID a' = att_TaskID a"
      using a(2) attempt_keyD [OF attempt_key_closeSweepRow] by metis
    have run: "att_Status a = AttemptStatusRunning" "\<not> p (att_TaskID a)"
      using a'(2) a(2) st by (auto simp: status_closeSweepRow split: if_splits)
    obtain u where "tget (st_tasks s) (att_TaskID a) = Some u"
      using task_movesD' [OF T t] tid by metis
    moreover from this have "inFlightTask (task_Status u)"
      using settled_inv [OF inv] a(1) run(1) unfolding settled_def by blast
    ultimately show ?thesis using keep t tid run(2) by metis
  qed
  have "\<exists>a. tget (st_taskAttempts ?s') (claim_TaskAttemptID c) = Some a \<and>
      att_Status a = AttemptStatusRunning"
    if c: "tget (st_usageClaims ?s') k = Some c" "claim_ReleasedAt c = None" for k c
  proof -
    let ?hit = "\<lambda>i. \<exists>a. (i, a) \<in> set (st_taskAttempts ?s') \<and> p (att_TaskID a) \<and>
      att_Status a \<noteq> AttemptStatusRunning"
    have C: "st_usageClaims ?s' = releaseWhere ?hit now (st_usageClaims s)"
      by (simp add: closeAttemptsAndReleaseClaimsLocked_eq)
    have old: "tget (st_usageClaims s) k = Some c" and nohit: "\<not> ?hit (claim_TaskAttemptID c)"
      using tget_releaseWhere_open [OF c(1) [unfolded C] c(2)] by simp_all
    obtain a where a: "tget (st_taskAttempts s) (claim_TaskAttemptID c) = Some a"
      "att_Status a = AttemptStatusRunning"
      using inv old c(2) unfolding exec_inv_def claims_ok_def by blast
    have a': "tget (st_taskAttempts ?s') (claim_TaskAttemptID c) = Some (?row a)"
      by (simp add: A a)
    have "\<not> p (att_TaskID (?row a)) \<or> att_Status (?row a) = AttemptStatusRunning"
      using nohit tget_in_set [OF a'] by blast
    moreover have "att_TaskID (?row a) = att_TaskID a"
      using attempt_keyD [OF attempt_key_closeSweepRow] by metis
    ultimately have "att_Status (?row a) = AttemptStatusRunning"
      using a(2) by (auto simp: status_closeSweepRow)
    with a' show ?thesis by blast
  qed
  then show ?thesis
    using open_task unfolding settled_def claims_ok_def T' by blast
qed

end
