(* ===== verification/StoreOps.thy ===== *)
theory StoreOps
  imports StoreMoves
begin

text \<open>
  Every operation of the in-memory store that adds and deletes no task, step, job, attempt or
  claim, described by how it moves their rows: along which arrows statuses change, and that
  what it leaves is settled.
\<close>

definition step_arrow :: "step_status \<Rightarrow> step_status \<Rightarrow> bool" where
  "step_arrow src to \<longleftrightarrow>
     \<not> StepStatus_IsTerminal src \<and> StepStatus_IsTerminal to \<or>
     src = StepStatusPending \<and> to = StepStatusReady \<or>
     (src = StepStatusFailed \<or> src = StepStatusCanceled) \<and> to = StepStatusPending"

text \<open>The arrows of jobs: the code's table, and the two more that \<^verbatim>\<open>FinalizeJob\<close>'s own guard admits.\<close>

definition job_arrow :: "job_status \<Rightarrow> job_status \<Rightarrow> bool" where
  "job_arrow src to \<longleftrightarrow>
     job_legal src to \<or> src = JobStatusBlocked \<and> (to = JobStatusCompleted \<or> to = JobStatusFailed)"

text \<open>\<open>task_unleased\<close>: the arrows that take no task into flight.  \<open>task_gated\<close> and \<open>step_gated\<close>:
  of these, all but the ones that open a pending step and its tasks; from pending, a task or step
  only goes to canceled.\<close>

definition task_unleased :: "task_status \<Rightarrow> task_status \<Rightarrow> bool" where
  "task_unleased src to \<longleftrightarrow> task_legal src to \<and> (inFlightTask to \<longrightarrow> inFlightTask src)"

definition task_gated :: "task_status \<Rightarrow> task_status \<Rightarrow> bool" where
  "task_gated src to \<longleftrightarrow> task_unleased src to \<and> (src = TaskStatusPending \<longrightarrow> to = TaskStatusCanceled)"

definition step_gated :: "step_status \<Rightarrow> step_status \<Rightarrow> bool" where
  "step_gated src to \<longleftrightarrow> step_arrow src to \<and> (src = StepStatusPending \<longrightarrow> to = StepStatusCanceled)"

lemma into_known_task_gated [simp]: "into_known task_gated"
  using into_known_task_legal unfolding into_known_def task_gated_def task_unleased_def by blast

definition sound_move ::
  "(task_status \<Rightarrow> task_status \<Rightarrow> bool) \<Rightarrow> (step_status \<Rightarrow> step_status \<Rightarrow> bool) \<Rightarrow>
   (job_status \<Rightarrow> job_status \<Rightarrow> bool) \<Rightarrow> store \<Rightarrow> store \<Rightarrow> bool"
where
  "sound_move R Q P s s' \<longleftrightarrow> moved R Q P s s' \<and> settled s'"

lemma sound_move_refl: "exec_inv s \<Longrightarrow> sound_move R Q P s s"
  by (simp add: sound_move_def settled_inv)

lemma sound_move_inv: "exec_inv s \<Longrightarrow> sound_move R Q P s s' \<Longrightarrow> into_known R \<Longrightarrow> exec_inv s'"
  unfolding sound_move_def using exec_inv_moved by blast

lemma sound_move_fenced:
  "exec_inv s \<Longrightarrow> (fenceLocked ctx s = None \<Longrightarrow> sound_move R Q P s (fst r)) \<Longrightarrow>
     sound_move R Q P s (fst (fenced ctx s r))"
  by (simp add: fenced_def sound_move_refl split: option.split)

lemma task_moves_mono:
  "task_moves R T T' \<Longrightarrow> (\<And>a b. R a b \<Longrightarrow> R' a b) \<Longrightarrow> task_moves R' T T'"
  unfolding task_moves_def by (fastforce elim: option.rel_mono_strong)

lemma step_moves_mono:
  "step_moves Q S S' \<Longrightarrow> (\<And>a b. Q a b \<Longrightarrow> Q' a b) \<Longrightarrow> step_moves Q' S S'"
  unfolding step_moves_def by (fastforce elim: option.rel_mono_strong)

lemma job_moves_mono:
  "job_moves P J J' \<Longrightarrow> (\<And>a b. P a b \<Longrightarrow> P' a b) \<Longrightarrow> job_moves P' J J'"
  unfolding job_moves_def by (fastforce elim: option.rel_mono_strong)

lemma sound_move_mono:
  assumes "sound_move R Q P s s'" "\<And>a b. R a b \<Longrightarrow> R' a b" "\<And>a b. Q a b \<Longrightarrow> Q' a b"
    "\<And>a b. P a b \<Longrightarrow> P' a b"
  shows "sound_move R' Q' P' s s'"
proof -
  from assms(1) have m: "task_moves R (st_tasks s) (st_tasks s')" "step_moves Q (st_steps s) (st_steps s')"
    "job_moves P (st_jobs s) (st_jobs s')"
    by (simp_all add: sound_move_def moved_def)
  show ?thesis
    using assms(1) task_moves_mono [OF m(1) assms(2)] step_moves_mono [OF m(2) assms(3)]
      job_moves_mono [OF m(3) assms(4)]
    by (simp add: sound_move_def moved_def)
qed

text \<open>An operation on steps, jobs and other tables alone leaves the store settled.\<close>

lemma sound_move_frame:
  assumes "exec_inv s" "st_tasks s' = st_tasks s" "st_taskAttempts s' = st_taskAttempts s"
    "st_usageClaims s' = st_usageClaims s" "step_moves Q (st_steps s) (st_steps s')"
    "job_moves P (st_jobs s) (st_jobs s')"
  shows "sound_move R Q P s s'"
  using assms settled_inv [OF assms(1)] settled_frame [of s' s]
  by (simp add: sound_move_def moved_def)

lemma job_legal_cases:
  "job_legal JobStatusPending b \<longleftrightarrow> b \<notin> {JobStatusPending, JobStatusBlocked}"
  "job_legal JobStatusRunning b \<longleftrightarrow> b \<notin> {JobStatusRunning, JobStatusBlocked}"
  "job_legal JobStatusPaused b \<longleftrightarrow> b \<notin> {JobStatusPaused, JobStatusBlocked, JobStatusRunning}"
  "job_legal JobStatusBlocked b \<longleftrightarrow> b \<in> {JobStatusPending, JobStatusPaused, JobStatusCanceled}"
  "job_legal JobStatusCompleted b \<longleftrightarrow> False"
  "job_legal JobStatusFailed b \<longleftrightarrow> b = JobStatusPending"
  "job_legal JobStatusCanceled b \<longleftrightarrow> b = JobStatusPending"
  by (cases b; simp add: job_legal_def JobTransitions_def)+

lemma job_cancel_legal: "\<not> JobStatus_IsTerminal a \<Longrightarrow> job_legal a JobStatusCanceled"
  by (cases a) (simp_all add: job_legal_cases)

lemma task_cancel_gated:
  "\<not> terminalTask a \<Longrightarrow> validTaskTransitions a \<noteq> None \<Longrightarrow> task_gated a TaskStatusCanceled"
  by (simp add: task_gated_def task_unleased_def task_legal_def ValidateTaskTransition_cancel)

lemma task_gated_flight: "inFlightTask a \<Longrightarrow> task_gated a b \<longleftrightarrow> ValidateTaskTransition a b = None"
  by (auto simp: task_gated_def task_unleased_def task_legal_def)

section \<open>Attempts\<close>

lemma settled_release:
  assumes inv: "exec_inv s"
    and C: "st_usageClaims s' = releaseWhere (\<lambda>i. i = aid) at (st_usageClaims s)"
    and TT: "task_moves R (st_tasks s) (st_tasks s')"
    and A: "\<And>i a. tget (st_taskAttempts s') i = Some a \<Longrightarrow> att_Status a = AttemptStatusRunning \<Longrightarrow>
      i \<noteq> aid \<and> tget (st_taskAttempts s) i = Some a"
    and keepA: "\<And>i. i \<noteq> aid \<Longrightarrow> tget (st_taskAttempts s') i = tget (st_taskAttempts s) i"
    and T: "\<And>k t t'. tget (st_tasks s) k = Some t \<Longrightarrow> tget (st_tasks s') k = Some t' \<Longrightarrow>
      (\<exists>i a. i \<noteq> aid \<and> tget (st_taskAttempts s) i = Some a \<and> att_TaskID a = k \<and>
             att_Status a = AttemptStatusRunning) \<Longrightarrow>
      inFlightTask (task_Status t) \<Longrightarrow> inFlightTask (task_Status t')"
  shows "settled s'"
proof -
  have "inFlightTask (task_Status t)"
    if r: "tget (st_taskAttempts s') k = Some a" "att_Status a = AttemptStatusRunning"
      "tget (st_tasks s') (att_TaskID a) = Some t" for k a t
  proof -
    obtain u where u: "tget (st_tasks s) (att_TaskID a) = Some u"
      using task_movesD' [OF TT r(3)] by metis
    have a: "k \<noteq> aid" "tget (st_taskAttempts s) k = Some a"
      using A r by blast+
    then have "inFlightTask (task_Status u)"
      using settled_inv [OF inv] u r(2) unfolding settled_def by blast
    then show ?thesis using T u r a by blast
  qed
  moreover have "\<exists>a. tget (st_taskAttempts s') (claim_TaskAttemptID c) = Some a \<and>
      att_Status a = AttemptStatusRunning"
    if c: "tget (st_usageClaims s') k = Some c" "claim_ReleasedAt c = None" for k c
  proof -
    have "tget (st_usageClaims s) k = Some c" "claim_TaskAttemptID c \<noteq> aid"
      using tget_releaseWhere_open [OF c(1) [unfolded C] c(2)] by simp_all
    then show ?thesis
      using inv c(2) keepA unfolding exec_inv_def claims_ok_def by metis
  qed
  ultimately show ?thesis unfolding settled_def claims_ok_def by blast
qed

text \<open>The running attempt of a task is its latest, so no other attempt of the task runs.\<close>

lemma running_is_latest:
  assumes inv: "exec_inv s" and l: "isLatestAttemptLocked s tid aid"
    and a: "tget (st_taskAttempts s) i = Some a" "att_TaskID a = tid" "att_Status a = AttemptStatusRunning"
  shows "i = aid"
proof -
  obtain b where b: "tget (st_taskAttempts s) aid = Some b" "att_TaskID b = tid"
    "top_attempt (st_taskAttempts s) b"
    using l by (auto simp: isLatestAttemptLocked_iff)
  have "att_AttemptNumber a \<le> att_AttemptNumber b"
    using b(3) tget_trows [OF a(1)] a(2) b(2) by (simp add: top_attempt_def)
  moreover have "att_AttemptNumber b \<le> att_AttemptNumber a"
    using inv a b unfolding exec_inv_def attempts_ok_def by metis
  ultimately show ?thesis
    using inv a b unfolding exec_inv_def attempts_ok_def by (metis order.antisym)
qed

lemma closeRunningAttemptLocked_attempts:
  assumes "ac_AttemptStatus c \<noteq> AttemptStatusRunning"
  shows "attempt_moves (st_taskAttempts s) (st_taskAttempts (closeRunningAttemptLocked c clock s))"
    and "tget (st_taskAttempts (closeRunningAttemptLocked c clock s)) i = Some a \<Longrightarrow>
      att_Status a = AttemptStatusRunning \<Longrightarrow>
      i \<noteq> ac_AttemptID c \<and> tget (st_taskAttempts s) i = Some a"
    and "i \<noteq> ac_AttemptID c \<Longrightarrow>
      tget (st_taskAttempts (closeRunningAttemptLocked c clock s)) i = tget (st_taskAttempts s) i"
  using assms unfolding closeRunningAttemptLocked_eq
  by (auto intro!: attempt_moves_tput split: option.splits if_splits)

lemma closeRunningAttemptLocked_frame [simp]:
  "st_tasks (closeRunningAttemptLocked c clock s) = st_tasks s"
  "st_steps (closeRunningAttemptLocked c clock s) = st_steps s"
  "st_jobs (closeRunningAttemptLocked c clock s) = st_jobs s"
  "st_usageClaims (closeRunningAttemptLocked c clock s) =
     releaseWhere (\<lambda>i. i = ac_AttemptID c) clock (st_usageClaims s)"
  by (simp_all add: closeRunningAttemptLocked_eq)

text \<open>Closing an attempt and moving its task: what both completion and rejection do.\<close>

lemma close_one_move:
  assumes inv: "exec_inv s" and st: "ac_AttemptStatus c \<noteq> AttemptStatusRunning"
    and T: "task_moves R (st_tasks s) T'"
    and keep: "\<And>k t t'. tget (st_tasks s) k = Some t \<Longrightarrow> tget T' k = Some t' \<Longrightarrow>
      (\<exists>i a. i \<noteq> ac_AttemptID c \<and> tget (st_taskAttempts s) i = Some a \<and> att_TaskID a = k \<and>
             att_Status a = AttemptStatusRunning) \<Longrightarrow>
      inFlightTask (task_Status t) \<Longrightarrow> inFlightTask (task_Status t')"
  shows "sound_move R Q P s ((closeRunningAttemptLocked c clock s)\<lparr>st_tasks := T'\<rparr>)"
proof -
  have "settled ((closeRunningAttemptLocked c clock s)\<lparr>st_tasks := T'\<rparr>)" (is "settled ?s'")
  proof (rule settled_release [OF inv, where aid = "ac_AttemptID c" and at = clock and R = R])
    show "st_usageClaims ?s' = releaseWhere (\<lambda>i. i = ac_AttemptID c) clock (st_usageClaims s)"
      by simp
    show "task_moves R (st_tasks s) (st_tasks ?s')"
      using T by simp
    show "i \<noteq> ac_AttemptID c \<and> tget (st_taskAttempts s) i = Some a"
      if "tget (st_taskAttempts ?s') i = Some a" "att_Status a = AttemptStatusRunning" for i a
      by (rule closeRunningAttemptLocked_attempts(2) [OF st]) (use that in simp_all)
    show "tget (st_taskAttempts ?s') i = tget (st_taskAttempts s) i" if "i \<noteq> ac_AttemptID c" for i
      using closeRunningAttemptLocked_attempts(3) [OF st that] by simp
  qed (use keep in simp)
  then show ?thesis
    using T closeRunningAttemptLocked_attempts(1) [OF st]
    by (simp add: sound_move_def moved_def claim_moves_releaseWhere)
qed

lemma CompleteTaskAttempt_move:
  assumes inv: "exec_inv s" and st: "ac_AttemptStatus c \<noteq> AttemptStatusRunning"
  shows "sound_move task_gated step_gated job_legal s (fst (CompleteTaskAttempt ctx c clock s))"
proof (cases "fenceLocked ctx s = None \<and> tget (st_tasks s) (ac_TaskID c) \<noteq> None")
  case False
  then show ?thesis
    using inv by (auto simp: CompleteTaskAttempt_def fenced_def sound_move_refl split: option.split)
next
  case True
  then obtain t where t: "tget (st_tasks s) (ac_TaskID c) = Some t" and f: "fenceLocked ctx s = None"
    by auto
  show ?thesis
  proof (cases "completion_rejected s t c")
    case True
    have "sound_move task_gated step_gated job_legal s ((closeRunningAttemptLocked c clock s)\<lparr>st_tasks := st_tasks s\<rparr>)"
      by (rule close_one_move [OF inv st]) auto
    then show ?thesis
      using True t f by (simp add: CompleteTaskAttempt_def closeRunningAttemptLocked_eq)
  next
    case False
    then have l: "isLatestAttemptLocked s (ac_TaskID c) (ac_AttemptID c)"
      and leg: "task_Status t = ac_TaskStatus c \<or> task_gated (task_Status t) (ac_TaskStatus c)"
      by (auto simp: completion_rejected_def task_gated_flight)
    have "sound_move task_gated step_gated job_legal s ((closeRunningAttemptLocked c clock s)
        \<lparr>st_tasks := tput (ac_TaskID c) (completeTaskRow c clock t) (st_tasks s)\<rparr>)"
    proof (rule close_one_move [OF inv st])
      show "task_moves task_gated (st_tasks s)
          (tput (ac_TaskID c) (completeTaskRow c clock t) (st_tasks s))"
        using t leg by (auto intro!: task_moves_tput)
    qed (use running_is_latest [OF inv l] in \<open>auto split: if_splits\<close>)
    then show ?thesis using False t f by (simp add: CompleteTaskAttempt_def)
  qed
qed

lemma CancelTaskExecution_move:
  assumes inv: "exec_inv s"
  shows "sound_move task_gated step_gated job_legal s (fst (CancelTaskExecution ctx tid reason now s))"
proof -
  have "sound_move task_gated step_gated job_legal s
      (closeAttemptsAndReleaseClaimsLocked (\<lambda>i. i = tid) AttemptStatusCanceled [] now
        (cancelTaskRowLocked tid reason now False s))"
    if t: "tget (st_tasks s) tid = Some t" and nt: "\<not> terminalTask (task_Status t)" for t
  proof -
    have T: "task_moves task_gated (st_tasks s)
        (tput tid (cancelTaskRow reason now False t) (st_tasks s))"
      using t nt exec_inv_known [OF inv t]
      by (auto intro!: task_moves_tput task_cancel_gated)
    have "sound_move task_gated step_gated job_legal s
        (closeAttemptsAndReleaseClaimsLocked (\<lambda>i. i = tid) AttemptStatusCanceled [] now
          (s\<lparr>st_tasks := tput tid (cancelTaskRow reason now False t) (st_tasks s)\<rparr>))"
      unfolding sound_move_def
      by (intro conjI close_moved [OF T] close_settled [OF inv _ T]) (auto split: if_splits)
    then show ?thesis using t by (simp add: cancelTaskRowLocked_def)
  qed
  then show ?thesis
    using inv by (simp add: CancelTaskExecution_def fenced_def sound_move_refl split: option.split)
qed

lemma reclaimToReadyLocked_move:
  assumes inv: "exec_inv s"
    and match: "\<And>k t. tget (st_tasks s) k = Some t \<Longrightarrow> match t \<Longrightarrow> inFlightTask (task_Status t)"
  shows "sound_move task_gated step_gated job_legal s (fst (reclaimToReadyLocked match m now s))"
proof -
  let ?T = "tsweep (\<lambda>i t. if match t then reclaimTaskRow now t else t) (st_tasks s)"
  let ?p = "\<lambda>i. case tget (st_tasks s) i of Some t \<Rightarrow> match t | None \<Rightarrow> False"
  have T: "task_moves task_gated (st_tasks s) ?T"
    by (rule task_moves_tsweep)
      (use match in \<open>auto simp: task_gated_flight ValidateTaskTransition_ready\<close>)
  have "sound_move task_gated step_gated job_legal s
      (closeAttemptsAndReleaseClaimsLocked ?p AttemptStatusFailed m now (s\<lparr>st_tasks := ?T\<rparr>))"
    unfolding sound_move_def
    by (intro conjI close_moved [OF T] close_settled [OF inv _ T]) (auto split: if_splits)
  moreover have "?T = st_tasks s" if "filter match (trows (st_tasks s)) = []"
  proof -
    have "tsweep (\<lambda>i t. if match t then reclaimTaskRow now t else t) (st_tasks s) =
        tsweep (\<lambda>i t. t) (st_tasks s)"
      by (rule tsweep_cong) (use that in \<open>auto simp: filter_empty_conv trows_def\<close>)
    then show ?thesis by simp
  qed
  ultimately show ?thesis
    using inv by (auto simp: reclaimToReadyLocked_def Let_def sound_move_refl)
qed

lemma ReclaimStaleAssignedTasks_move:
  assumes "exec_inv s"
  shows "sound_move task_gated step_gated job_legal s (fst (ReclaimStaleAssignedTasks ctx cutoff clock s))"
  unfolding ReclaimStaleAssignedTasks_def
  by (rule sound_move_fenced [OF assms])
    (auto simp: case_prod_unfold Let_def intro!: reclaimToReadyLocked_move [OF assms])

lemma reclaimWorkerTasksLocked_move:
  assumes "exec_inv s"
  shows "sound_move task_gated step_gated job_legal s (fst (reclaimWorkerTasksLocked w m now s))"
  unfolding reclaimWorkerTasksLocked_def
  by (rule reclaimToReadyLocked_move [OF assms]) (simp add: inFlightOn_def)

lemma live_inFlight: "liveAttemptLocked s aid t \<Longrightarrow> inFlightTask (task_Status t)"
  by (simp add: liveAttemptLocked_def)

lemma ReclaimTaskAttempt_move:
  assumes inv: "exec_inv s"
  shows "sound_move task_gated step_gated job_legal s (fst (ReclaimTaskAttempt ctx aid tid now s))"
proof -
  have "sound_move task_gated step_gated job_legal s
      (fst (reclaimToReadyLocked (\<lambda>c. task_ID c = tid) FailureReasonWorkerShutdown now s))"
    if t: "tget (st_tasks s) tid = Some t" "liveAttemptLocked s aid t" for t
  proof (rule reclaimToReadyLocked_move [OF inv])
    fix k u assume "tget (st_tasks s) k = Some u" "task_ID u = tid"
    then show "inFlightTask (task_Status u)"
      using exec_inv_taskID [OF inv] t live_inFlight [OF t(2)] by auto
  qed
  then show ?thesis
    using inv by (simp add: ReclaimTaskAttempt_def fenced_def sound_move_refl split: option.split)
qed

text \<open>An operation that rewrites open rows in place: attempts keep their status, claims are not
  touched, and a task in flight stays in flight.\<close>

lemma sound_move_in_place:
  assumes inv: "exec_inv s" and C: "st_usageClaims s' = st_usageClaims s"
    and S: "st_steps s' = st_steps s" and J: "st_jobs s' = st_jobs s"
    and T: "task_moves R (st_tasks s) (st_tasks s')"
    and keep: "\<And>k t t'. tget (st_tasks s) k = Some t \<Longrightarrow> tget (st_tasks s') k = Some t' \<Longrightarrow>
      inFlightTask (task_Status t) \<Longrightarrow> inFlightTask (task_Status t')"
    and A: "attempt_moves (st_taskAttempts s) (st_taskAttempts s')"
    and A': "\<And>k a. tget (st_taskAttempts s) k = Some a \<Longrightarrow> att_Status a = AttemptStatusRunning \<Longrightarrow>
      \<exists>a'. tget (st_taskAttempts s') k = Some a' \<and> att_Status a' = AttemptStatusRunning"
  shows "sound_move R Q P s s'"
proof -
  have "inFlightTask (task_Status t)"
    if r: "tget (st_taskAttempts s') k = Some a" "att_Status a = AttemptStatusRunning"
      "tget (st_tasks s') (att_TaskID a) = Some t" for k a t
  proof -
    obtain b where b: "tget (st_taskAttempts s) k = Some b" "att_TaskID a = att_TaskID b"
      "att_Status b = AttemptStatusRunning"
      using attempt_movesD' [OF A r(1)] attempt_keyD r(2) by metis
    obtain u where u: "tget (st_tasks s) (att_TaskID a) = Some u"
      using task_movesD' [OF T r(3)] by metis
    have "inFlightTask (task_Status u)"
      using settled_inv [OF inv] u b unfolding settled_def by metis
    then show ?thesis using keep u r(3) by blast
  qed
  moreover have "claims_ok s'"
    using inv A' unfolding exec_inv_def claims_ok_def C by blast
  ultimately have "settled s'" unfolding settled_def by blast
  then show ?thesis using T A C S J by (simp add: sound_move_def moved_def)
qed

lemma StartTaskAttempt_move:
  assumes inv: "exec_inv s"
  shows "sound_move task_gated step_gated job_legal s (fst (StartTaskAttempt ctx aid tid sess now s))"
proof (cases "fenceLocked ctx s = None \<and>
    (\<exists>t. tget (st_tasks s) tid = Some t \<and> liveAttemptLocked s aid t)")
  case False
  then show ?thesis
    using inv by (auto simp: StartTaskAttempt_def fenced_def sound_move_refl split: option.split)
next
  case True
  then obtain t a where t: "tget (st_tasks s) tid = Some t" "liveAttemptLocked s aid t"
    and f: "fenceLocked ctx s = None" and a: "tget (st_taskAttempts s) aid = Some a"
    "att_Status a = AttemptStatusRunning"
    by (auto simp: liveAttemptLocked_def split: option.splits)
  let ?T = "if task_Status t = TaskStatusAssigned
    then tput tid (t\<lparr>task_Status := TaskStatusRunning, task_UnschedulableReason := [],
      task_UpdatedAt := now\<rparr>) (st_tasks s) else st_tasks s"
  let ?A = "if sess \<noteq> [] then tput aid (a\<lparr>att_SessionID := sess\<rparr>) (st_taskAttempts s)
    else st_taskAttempts s"
  have "fst (StartTaskAttempt ctx aid tid sess now s) = s\<lparr>st_tasks := ?T, st_taskAttempts := ?A\<rparr>"
    using t f a by (simp add: StartTaskAttempt_def)
  moreover have "sound_move task_gated step_gated job_legal s (s\<lparr>st_tasks := ?T, st_taskAttempts := ?A\<rparr>)"
  proof (rule sound_move_in_place [OF inv])
    show "task_moves task_gated (st_tasks s) (st_tasks (s\<lparr>st_tasks := ?T, st_taskAttempts := ?A\<rparr>))"
      using t by (auto intro!: task_moves_tput
          simp: task_gated_def task_unleased_def task_legal_def ValidateTaskTransition_def
            validTaskTransitions_def)
    show "attempt_moves (st_taskAttempts s)
        (st_taskAttempts (s\<lparr>st_tasks := ?T, st_taskAttempts := ?A\<rparr>))"
      using a by (auto intro!: attempt_moves_tput simp: attempt_key_def)
  qed (use a in \<open>auto split: if_splits\<close>)
  ultimately show ?thesis by simp
qed

lemma RecordAttemptProgress_move:
  assumes inv: "exec_inv s"
  shows "sound_move task_gated step_gated job_legal s (fst (RecordAttemptProgress ctx p s))"
proof -
  have "sound_move task_gated step_gated job_legal s (s\<lparr>st_taskAttempts := tput (ap_AttemptID p)
      (a\<lparr>att_Progress := ap_Progress p, att_StatusText := ap_StatusText p,
         att_ProgressAt := Some (ap_At p)\<rparr>) (st_taskAttempts s)\<rparr>)"
    if "tget (st_taskAttempts s) (ap_AttemptID p) = Some a" for a
    by (rule sound_move_in_place [OF inv])
      (use that in \<open>auto intro!: attempt_moves_tput simp: attempt_key_def\<close>)
  then show ?thesis
    using inv
    by (auto simp: RecordAttemptProgress_def fenced_def sound_move_refl split: option.split)
qed

lemma SetTaskUnschedulableReason_move:
  assumes inv: "exec_inv s"
  shows "sound_move task_gated step_gated job_legal s (fst (SetTaskUnschedulableReason ctx tid reason clock s))"
proof -
  have "sound_move task_gated step_gated job_legal s (s\<lparr>st_tasks := tput tid
      (t\<lparr>task_UnschedulableReason := reason, task_UpdatedAt := clock\<rparr>) (st_tasks s)\<rparr>)"
    if "tget (st_tasks s) tid = Some t" for t
    by (rule sound_move_in_place [OF inv])
      (use that in \<open>auto intro!: task_moves_tput split: if_splits\<close>)
  then show ?thesis
    using inv
    by (auto simp: SetTaskUnschedulableReason_def fenced_def sound_move_refl split: option.split)
qed

section \<open>Failures and retries\<close>

lemma RecordTaskFailure_move:
  assumes inv: "exec_inv s"
  shows "sound_move task_gated step_gated job_legal s (fst (RecordTaskFailure ctx aid tid ec sess msg now clock s))"
proof (cases "fenceLocked ctx s = None \<and> (\<exists>t j. tget (st_tasks s) tid = Some t \<and>
    tget (st_jobs s) (task_JobID t) = Some j)")
  case False
  then show ?thesis
    using inv by (auto simp: RecordTaskFailure_def fenced_def sound_move_refl split: option.split)
next
  case True
  then obtain t j where t: "tget (st_tasks s) tid = Some t"
    and j: "tget (st_jobs s) (task_JobID t) = Some j" and f: "fenceLocked ctx s = None"
    by auto
  let ?C = "releaseWhere (\<lambda>i. i = aid) clock (st_usageClaims s)"
  let ?t = "t\<lparr>task_FailedAttempts := task_FailedAttempts t + 1, task_UpdatedAt := now\<rparr>"
  let ?j = "j\<lparr>job_FailedAttempts := job_FailedAttempts j + 1, job_UpdatedAt := now\<rparr>"
  have T: "task_moves task_gated (st_tasks s) (tput tid ?t (st_tasks s))"
    using t by (auto intro!: task_moves_tput)
  have J: "job_moves job_legal (st_jobs s) (tput (task_JobID t) ?j (st_jobs s))"
    using j by (auto intro!: job_moves_tput)
  have first: "sound_move task_gated step_gated job_legal s (s\<lparr>st_taskAttempts :=
        tput aid (failAttemptRow ec sess msg now a) (st_taskAttempts s),
        st_tasks := tput tid ?t (st_tasks s), st_jobs := tput (task_JobID t) ?j (st_jobs s),
        st_usageClaims := ?C\<rparr>)" (is "sound_move _ _ _ _ ?s'")
    if a: "tget (st_taskAttempts s) aid = Some a" "att_Status a = AttemptStatusRunning" for a
  proof -
    have "settled ?s'"
      by (rule settled_release [OF inv, where aid = aid and at = clock and R = task_gated])
        (use t T in \<open>auto split: if_splits\<close>)
    moreover have "attempt_moves (st_taskAttempts s)
        (tput aid (failAttemptRow ec sess msg now a) (st_taskAttempts s))"
      using a by (auto intro!: attempt_moves_tput)
    ultimately show ?thesis
      using T J by (simp add: sound_move_def moved_def claim_moves_releaseWhere)
  qed
  have again: "sound_move task_gated step_gated job_legal s (s\<lparr>st_usageClaims := ?C\<rparr>)" (is "sound_move _ _ _ _ ?s'")
    if "\<And>a. tget (st_taskAttempts s) aid = Some a \<Longrightarrow> att_Status a \<noteq> AttemptStatusRunning"
  proof -
    have "settled ?s'"
      by (rule settled_release [OF inv, where aid = aid and at = clock and R = task_gated])
        (use that in auto)
    then show ?thesis by (simp add: sound_move_def moved_def claim_moves_releaseWhere)
  qed
  show ?thesis
    using f t j first again
    by (auto simp: RecordTaskFailure_def releaseAttemptClaimsLocked_eq Let_def split: option.split)
qed

text \<open>A task is requeued only after its attempt was closed; the failed-attempt path records the
  failure, which closes it, first.\<close>

lemma RequeueTaskForRetry_move:
  assumes inv: "exec_inv s"
    and closed: "\<And>a. tget (st_taskAttempts s) aid = Some a \<Longrightarrow> att_Status a \<noteq> AttemptStatusRunning"
  shows "sound_move task_gated step_gated job_legal s (fst (RequeueTaskForRetry ctx tid aid retryAfter now s))"
proof (cases "fenceLocked ctx s = None \<and> (\<exists>t. tget (st_tasks s) tid = Some t \<and>
    inFlightTask (task_Status t) \<and> isLatestAttemptLocked s tid aid)")
  case False
  then show ?thesis
    using inv by (auto simp: RequeueTaskForRetry_def fenced_def sound_move_refl split: option.split)
next
  case True
  then obtain t where t: "tget (st_tasks s) tid = Some t" "inFlightTask (task_Status t)"
    and l: "isLatestAttemptLocked s tid aid" and f: "fenceLocked ctx s = None"
    by auto
  have none: "\<not> (\<exists>i a. tget (st_taskAttempts s) i = Some a \<and> att_TaskID a = tid \<and>
      att_Status a = AttemptStatusRunning)"
    using running_is_latest [OF inv l] closed by metis
  let ?s' = "s\<lparr>st_tasks := tput tid (requeueTaskRow retryAfter now t) (st_tasks s)\<rparr>"
  have T: "task_moves task_gated (st_tasks s) (st_tasks ?s')"
    using t by (auto intro!: task_moves_tput simp: task_gated_flight ValidateTaskTransition_ready)
  have "settled ?s'"
    using settled_inv [OF inv] none unfolding settled_def claims_ok_def
    by (auto split: if_splits)
  then show ?thesis
    using T t l f by (simp add: RequeueTaskForRetry_def sound_move_def moved_def)
qed

text \<open>\<^verbatim>\<open>RetryTasks\<close> is the one operation that takes a task out of a terminal status.\<close>

lemma RetryTasks_move:
  assumes inv: "exec_inv s"
  shows "sound_move retry_arrow step_gated job_legal s (fst (RetryTasks ctx jid ids now s))"
  unfolding RetryTasks_def
proof (rule sound_move_fenced [OF inv])
  let ?T = "tsweep (\<lambda>i t. if retryHit jid ids i t then reviveTaskRow s now t else t) (st_tasks s)"
  let ?hits = "map snd (filter (\<lambda>(i, t). retryHit jid ids i t) (st_tasks s))"
  let ?S = "tsweep (\<lambda>i st. if i \<in> set (map task_StepID ?hits) then reviveStepRow now st else st) (st_steps s)"
  have T: "task_moves retry_arrow (st_tasks s) ?T"
    by (rule task_moves_tsweep)
      (use revivedStatusLocked_cases in \<open>auto simp: retry_arrow_def retryHit_def\<close>)
  have fl: "\<not> retryHit jid ids k t" if "inFlightTask (task_Status t)" for k t
    using that by (auto simp: retryHit_def)
  have settled: "settled s'"
    if "st_tasks s' = ?T" "st_taskAttempts s' = st_taskAttempts s" "st_usageClaims s' = st_usageClaims s"
    for s'
    using settled_inv [OF inv] that fl by (auto simp: settled_def claims_ok_def)
  have S: "step_moves step_gated (st_steps s) ?S"
    by (rule step_moves_tsweep) (simp add: reviveStepRow_def step_gated_def step_arrow_def)
  have J: "job_moves job_legal (st_jobs s) (st_jobs (retryResetJobLocked jid now
      (s\<lparr>st_tasks := ?T, st_steps := ?S\<rparr>)))"
    by (auto simp: retryResetJobLocked_def Let_def job_legal_cases intro!: job_moves_tput
        split: option.split)
  have frame: "st_tasks (retryResetJobLocked jid now s1) = st_tasks s1"
    "st_steps (retryResetJobLocked jid now s1) = st_steps s1"
    "st_taskAttempts (retryResetJobLocked jid now s1) = st_taskAttempts s1"
    "st_usageClaims (retryResetJobLocked jid now s1) = st_usageClaims s1" for s1
    by (simp_all add: retryResetJobLocked_def Let_def split: option.split)
  have full: "sound_move retry_arrow step_gated job_legal s (retryResetJobLocked jid now (s\<lparr>st_tasks := ?T, st_steps := ?S\<rparr>))"
    using T S J settled by (simp add: sound_move_def moved_def frame)
  have none: "sound_move retry_arrow step_gated job_legal s (s\<lparr>st_tasks := ?T\<rparr>)"
    using T settled by (simp add: sound_move_def moved_def)
  show "sound_move retry_arrow step_gated job_legal s (fst (let hit = retryHit jid ids;
          hits = map snd (filter (\<lambda>(id, t). hit id t) (st_tasks s));
          revived = map (reviveTaskRow s now) hits;
          affectedSteps = map task_StepID hits;
          s1 = s\<lparr>st_tasks :=
                 tsweep (\<lambda>id t. if hit id t then reviveTaskRow s now t else t) (st_tasks s)\<rparr>
      in if revived = [] then (s1, Inr [])
         else
           let s2 = s1\<lparr>st_steps :=
                      tsweep (\<lambda>id st. if id \<in> set affectedSteps then reviveStepRow now st else st)
                        (st_steps s1)\<rparr>
           in (retryResetJobLocked jid now s2, Inr revived)))"
    using full none by (simp add: Let_def)
qed

section \<open>Steps and jobs\<close>

lemma FinalizeStep_move:
  assumes inv: "exec_inv s"
  shows "sound_move task_gated step_arrow job_legal s (fst (FinalizeStep ctx sid now s))"
proof -
  have "sound_move task_gated step_arrow job_legal s
      (s\<lparr>st_steps := tput sid (st\<lparr>step_Status := out, step_UpdatedAt := now\<rparr>) (st_steps s)\<rparr>)"
    if "tget (st_steps s) sid = Some st" "\<not> StepStatus_IsTerminal (step_Status st)"
      "stepOutcomeLocked s sid = Some out" for st out
    by (rule sound_move_frame [OF inv])
      (use that stepOutcomeLocked_terminal in \<open>auto intro!: step_moves_tput simp: step_arrow_def\<close>)
  then show ?thesis
    using inv by (auto simp: FinalizeStep_def fenced_def sound_move_refl split: option.split)
qed

lemma FinalizeJob_move:
  assumes inv: "exec_inv s"
  shows "sound_move task_gated step_gated job_arrow s (fst (FinalizeJob ctx jid now s))"
proof -
  have "sound_move task_gated step_gated job_arrow s (s\<lparr>st_jobs := tput jid (j\<lparr>job_Status := out,
      job_CompletedAt := Some now, job_UpdatedAt := now\<rparr>) (st_jobs s)\<rparr>)"
    if "tget (st_jobs s) jid = Some j" "\<not> JobStatus_IsTerminal (job_Status j)"
      "JobStatus_IsTerminal out" for j out
  proof (rule sound_move_frame [OF inv])
    have "job_arrow (job_Status j) out"
      using that(2,3)
      by (cases "job_Status j"; cases out; simp add: job_arrow_def job_legal_def JobTransitions_def)
    then show "job_moves job_arrow (st_jobs s) (st_jobs (s\<lparr>st_jobs := tput jid (j\<lparr>job_Status := out,
        job_CompletedAt := Some now, job_UpdatedAt := now\<rparr>) (st_jobs s)\<rparr>))"
      using that(1) by (auto intro!: job_moves_tput)
  qed auto
  then show ?thesis
    using inv jobOutcome_scan_terminal
    by (auto simp: FinalizeJob_def fenced_def sound_move_refl split: option.split)
qed

lemma transitionPending_settled:
  assumes inv: "exec_inv s" and "st_taskAttempts s1 = st_taskAttempts s"
    "st_usageClaims s1 = st_usageClaims s" "st_tasks s1 = st_tasks s"
  shows "settled (fst (transitionPendingTasksWhereLocked match to r now s1))"
  using settled_inv [OF inv] assms(2,3,4)
  by (fastforce simp: settled_def claims_ok_def transitionPendingTasksWhereLocked_def Let_def)

lemma transitionPending_moves:
  assumes "R TaskStatusPending to"
  shows "task_moves R (st_tasks s1) (st_tasks (fst (transitionPendingTasksWhereLocked match to r now s1)))"
  by (auto simp: transitionPendingTasksWhereLocked_def Let_def assms intro!: task_moves_tsweep)

lemma transitionPending_frame [simp]:
  "st_steps (fst (transitionPendingTasksWhereLocked match to r now s)) = st_steps s"
  "st_jobs (fst (transitionPendingTasksWhereLocked match to r now s)) = st_jobs s"
  "st_taskAttempts (fst (transitionPendingTasksWhereLocked match to r now s)) = st_taskAttempts s"
  "st_usageClaims (fst (transitionPendingTasksWhereLocked match to r now s)) = st_usageClaims s"
  by (simp_all add: transitionPendingTasksWhereLocked_def Let_def)

lemma movePendingStep_move:
  assumes inv: "exec_inv s" and leg: "R TaskStatusPending taskTo"
    "Q StepStatusPending stepTo"
  shows "sound_move R Q P s (fst (movePendingStep ctx sid stepTo taskTo r now s))"
proof -
  have "sound_move R Q P s (fst (transitionPendingTasksWhereLocked (\<lambda>t. task_StepID t = sid) taskTo r now
      (s\<lparr>st_steps := tput sid (st\<lparr>step_Status := stepTo, step_UpdatedAt := now\<rparr>) (st_steps s)\<rparr>)))"
    (is "sound_move _ _ _ _ ?s'")
    if st: "tget (st_steps s) sid = Some st" "step_Status st = StepStatusPending" for st
  proof -
    have "settled ?s'" by (rule transitionPending_settled [OF inv]) simp_all
    moreover have "task_moves R (st_tasks s) (st_tasks ?s')"
      using transitionPending_moves [of R, OF leg(1), of "s\<lparr>st_steps := _\<rparr>"] by simp
    moreover have "step_moves Q (st_steps s) (st_steps ?s')"
      using st leg(2) by (auto intro!: step_moves_tput)
    ultimately show ?thesis by (simp add: sound_move_def moved_def)
  qed
  then show ?thesis
    using inv
    by (auto simp: movePendingStep_def transitionPendingTasksLocked_def fenced_def sound_move_refl Let_def
        case_prod_unfold split: option.split)
qed

lemma ReleaseStep_move:
  "exec_inv s \<Longrightarrow> sound_move task_unleased step_arrow job_legal s (fst (ReleaseStep ctx sid now s))"
  unfolding ReleaseStep_def
  by (rule movePendingStep_move)
    (simp_all add: task_unleased_def task_legal_def ValidateTaskTransition_ready step_arrow_def)

lemma CancelPendingStep_move:
  "exec_inv s \<Longrightarrow> sound_move task_gated step_gated job_legal s (fst (CancelPendingStep ctx sid r now s))"
  unfolding CancelPendingStep_def
  by (rule movePendingStep_move)
    (simp_all add: task_cancel_gated validTaskTransitions_def step_gated_def step_arrow_def)

lemma ReleaseBlockedJob_move:
  assumes inv: "exec_inv s"
  shows "sound_move task_gated step_gated job_legal s (fst (ReleaseBlockedJob ctx jid now s))"
proof -
  have "sound_move task_gated step_gated job_legal s
      (s\<lparr>st_jobs := tput jid (j\<lparr>job_Status := JobStatusPending, job_UpdatedAt := now\<rparr>) (st_jobs s)\<rparr>)"
    if "tget (st_jobs s) jid = Some j" "job_Status j = JobStatusBlocked" for j
    by (rule sound_move_frame [OF inv]) (use that in \<open>auto intro!: job_moves_tput simp: job_legal_cases\<close>)
  then show ?thesis
    using inv by (auto simp: ReleaseBlockedJob_def fenced_def sound_move_refl split: option.split)
qed

lemma CancelBlockedJob_move:
  assumes inv: "exec_inv s"
  shows "sound_move task_gated step_gated job_legal s (fst (CancelBlockedJob ctx jid r now s))"
proof -
  let ?S = "tsweep (\<lambda>sid st. if step_JobID st = jid \<and> \<not> StepStatus_IsTerminal (step_Status st)
      then st\<lparr>step_Status := StepStatusCanceled, step_UpdatedAt := now\<rparr> else st) (st_steps s)"
  have "sound_move task_gated step_gated job_legal s (fst (transitionPendingTasksWhereLocked (\<lambda>t. task_JobID t = jid)
      TaskStatusCanceled r now (s\<lparr>st_jobs := tput jid (j\<lparr>job_Status := JobStatusCanceled,
        job_CompletedAt := Some now, job_UpdatedAt := now\<rparr>) (st_jobs s), st_steps := ?S\<rparr>)))"
    (is "sound_move _ _ _ _ ?s'")
    if j: "tget (st_jobs s) jid = Some j" "job_Status j = JobStatusBlocked" for j
  proof -
    have leg: "task_gated TaskStatusPending TaskStatusCanceled"
      by (simp add: task_cancel_gated validTaskTransitions_def)
    have "settled ?s'" by (rule transitionPending_settled [OF inv]) simp_all
    moreover have "task_moves task_gated (st_tasks s) (st_tasks ?s')"
      using transitionPending_moves [of task_gated, OF leg, of "s\<lparr>st_jobs := _, st_steps := ?S\<rparr>"] by simp
    moreover have "step_moves step_gated (st_steps s) (st_steps ?s')"
      by (auto intro!: step_moves_tsweep simp: step_gated_def step_arrow_def)
    moreover have "job_moves job_legal (st_jobs s) (st_jobs ?s')"
      using j by (auto intro!: job_moves_tput simp: job_legal_cases)
    ultimately show ?thesis by (simp add: sound_move_def moved_def)
  qed
  then show ?thesis
    using inv by (auto simp: CancelBlockedJob_def fenced_def sound_move_refl Let_def case_prod_unfold
        split: option.split)
qed

text \<open>An operation that rewrites one job's row along an arrow.\<close>

lemma job_row_move:
  assumes "exec_inv s" "tget (st_jobs s) jid = Some j" "job_ID j' = job_ID j"
    "job_QueueID j' = job_QueueID j" "job_FarmID j' = job_FarmID j"
    "job_Status j' = job_Status j \<or> job_legal (job_Status j) (job_Status j')"
  shows "sound_move task_gated step_gated job_legal s (s\<lparr>st_jobs := tput jid j' (st_jobs s)\<rparr>)"
  by (rule sound_move_frame) (use assms in \<open>auto intro!: job_moves_tput\<close>)

lemma PromoteJobRunning_move:
  "exec_inv s \<Longrightarrow> sound_move task_gated step_gated job_legal s (fst (PromoteJobRunning ctx jid now s))"
  by (auto simp: PromoteJobRunning_def fenced_def sound_move_refl Let_def job_legal_cases
      intro!: job_row_move split: option.split)

lemma PauseJob_move:
  "exec_inv s \<Longrightarrow> sound_move task_gated step_gated job_legal s (fst (PauseJob ctx jid now s))"
  by (auto simp: PauseJob_def fenced_def sound_move_refl job_legal_cases
      intro!: job_row_move split: option.split)

lemma cancelJobRowLocked_move:
  "exec_inv s \<Longrightarrow> sound_move task_gated step_gated job_legal s (cancelJobRowLocked jid now s)"
  by (auto simp: cancelJobRowLocked_def sound_move_refl job_cancel_legal
      intro!: job_row_move split: option.split)

lemma CancelJobStatus_move:
  "exec_inv s \<Longrightarrow> sound_move task_gated step_gated job_legal s (fst (CancelJobStatus ctx jid clock s))"
  by (auto simp: CancelJobStatus_def fenced_def sound_move_refl cancelJobRowLocked_move split: option.split)

lemma job_park_legal:
  "a \<noteq> JobStatusCompleted \<Longrightarrow> a \<noteq> JobStatusFailed \<Longrightarrow> a \<noteq> JobStatusCanceled \<Longrightarrow>
     \<not> job_legal a JobStatusPaused \<Longrightarrow> JobStatusPaused = a"
  by (cases a) (simp_all add: job_legal_cases)

lemma ParkJob_move:
  "exec_inv s \<Longrightarrow> sound_move task_gated step_gated job_legal s (fst (ParkJob ctx jid r now s))"
  by (auto simp: ParkJob_def fenced_def sound_move_refl intro!: job_row_move job_park_legal
      split: option.split)

lemma ResumeJob_move:
  "exec_inv s \<Longrightarrow> sound_move task_gated step_gated job_legal s (fst (ResumeJob ctx jid now s))"
  by (auto simp: ResumeJob_def fenced_def sound_move_refl Let_def job_legal_cases
      intro!: job_row_move split: option.split)

lemma stalled_running: "stalled s jid j \<Longrightarrow> job_Status j = JobStatusRunning"
  by (simp add: stalled_def)

lemma DemoteStalledJobs_move:
  assumes inv: "exec_inv s"
  shows "sound_move task_gated step_gated job_legal s (fst (DemoteStalledJobs ctx now s))"
  unfolding DemoteStalledJobs_def
proof (rule sound_move_fenced [OF inv])
  show "sound_move task_gated step_gated job_legal s (fst (s\<lparr>st_jobs := tsweep (\<lambda>jobID job.
          if stalled s jobID job
          then job\<lparr>job_Status := JobStatusPending, job_UpdatedAt := now\<rparr> else job) (st_jobs s)\<rparr>,
      Inr (map fst (filter (\<lambda>(jobID, job). stalled s jobID job) (st_jobs s)))))"
    by (rule sound_move_frame [OF inv])
      (auto intro!: job_moves_tsweep simp: job_legal_cases stalled_running)
qed

section \<open>Cancelling a whole job\<close>

lemma cancelStepRow_gated:
  "step_ID (cancelStepRow s jid now k st) = step_ID st \<and>
   step_JobID (cancelStepRow s jid now k st) = step_JobID st \<and>
   step_Name (cancelStepRow s jid now k st) = step_Name st \<and>
   step_DependsOn (cancelStepRow s jid now k st) = step_DependsOn st \<and>
   (step_Status (cancelStepRow s jid now k st) = step_Status st \<or>
    step_gated (step_Status st) (step_Status (cancelStepRow s jid now k st)))"
  by (auto simp: cancelStepRow_def step_gated_def step_arrow_def dest: stepOutcomeLocked_terminal split: option.split)

lemma cancelJobRowLocked_frame [simp]:
  "st_tasks (cancelJobRowLocked jid now s) = st_tasks s"
  "st_steps (cancelJobRowLocked jid now s) = st_steps s"
  "st_taskAttempts (cancelJobRowLocked jid now s) = st_taskAttempts s"
  "st_usageClaims (cancelJobRowLocked jid now s) = st_usageClaims s"
  by (simp_all add: cancelJobRowLocked_def split: option.split)

lemma cancelJobRowLocked_jobs:
  "job_moves job_legal (st_jobs s) (st_jobs (cancelJobRowLocked jid now s))"
  by (auto simp: cancelJobRowLocked_def job_cancel_legal intro!: job_moves_tput split: option.split)

definition cancelSweep :: "string \<Rightarrow> string \<Rightarrow> time \<Rightarrow> Task table \<Rightarrow> Task table" where
  "cancelSweep jobID reason now T =
     tsweep (\<lambda>id t. if \<not> (task_JobID t \<noteq> jobID \<or> terminalTask (task_Status t))
                   then cancelTaskRow reason now True t else t) T"

lemma cancelSweep_moves:
  assumes inv: "exec_inv s"
  shows "task_moves task_gated (st_tasks s) (cancelSweep jid r now (st_tasks s))"
  unfolding cancelSweep_def
  by (rule task_moves_tsweep)
    (use exec_inv_known [OF inv] in \<open>auto intro!: task_cancel_gated\<close>)

lemma CancelJobExecution_move:
  assumes inv: "exec_inv s"
  shows "sound_move task_gated step_gated job_legal s (fst (CancelJobExecution ctx jid r now s))"
proof -
  let ?T = "cancelSweep jid r now (st_tasks s)"
  let ?s2 = "closeAttemptsAndReleaseClaimsLocked
    (\<lambda>tid. task_JobID (tgetz zero_Task ?T tid) = jid) AttemptStatusCanceled [] now (s\<lparr>st_tasks := ?T\<rparr>)"
  let ?s3 = "cancelJobFinalizeStepsLocked jid now ?s2"
  have T: "task_moves task_gated (st_tasks s) ?T"
    by (rule cancelSweep_moves [OF inv])
  have m2: "moved task_gated step_gated job_legal s ?s2"
    by (rule close_moved [OF T]) simp
  have s2: "settled ?s2"
  proof (rule close_settled [OF inv _ T])
    fix k t t'
    assume "tget (st_tasks s) k = Some t" "tget ?T k = Some t'"
      "task_JobID (tgetz zero_Task ?T k) \<noteq> jid" "inFlightTask (task_Status t)"
    then show "inFlightTask (task_Status t')"
      by (auto simp: cancelSweep_def split: if_splits)
  qed simp
  have "step_moves step_gated (st_steps s) (st_steps ?s3)"
    by (simp add: cancelJobFinalizeStepsLocked_def closeAttemptsAndReleaseClaimsLocked_eq
        step_moves_tsweep cancelStepRow_gated)
  then have "sound_move task_gated step_gated job_legal s (cancelJobRowLocked jid now ?s3)"
    using m2 s2 settled_frame [of "cancelJobRowLocked jid now ?s3" ?s2] cancelJobRowLocked_jobs [of ?s3]
    by (simp add: sound_move_def moved_def cancelJobFinalizeStepsLocked_def
        closeAttemptsAndReleaseClaimsLocked_eq)
  then show ?thesis
    using inv
    by (simp add: CancelJobExecution_def fenced_def sound_move_refl Let_def cancelSweep_def
        split: option.split)
qed

section \<open>Workers\<close>

lemma sound_move_workers [simp]:
  "sound_move R Q P s (s'\<lparr>st_workers := W\<rparr>) = sound_move R Q P s s'"
  by (simp add: sound_move_def moved_def settled_def claims_ok_def)

lemma exec_inv_workers [simp]: "exec_inv (s\<lparr>st_workers := W\<rparr>) = exec_inv s"
  by (simp add: exec_inv_def tables_wf_def refs_ok_def attempts_ok_def claims_ok_def)

lemma sound_move_workers_source [simp]:
  "sound_move R Q P (s\<lparr>st_workers := W\<rparr>) s' = sound_move R Q P s s'"
  by (simp add: sound_move_def moved_def)

lemma RegisterWorker_move:
  assumes "exec_inv s"
  shows "sound_move task_gated step_gated job_legal s (fst (RegisterWorker ctx w clock s))"
  using assms reclaimWorkerTasksLocked_move [OF assms]
  by (auto simp: RegisterWorker_def fenced_def sound_move_refl Let_def case_prod_unfold
      split: option.split)

lemma offlineWorkerLocked_move:
  assumes "exec_inv s"
  shows "sound_move task_gated step_gated job_legal s (fst (offlineWorkerLocked wid w now s))"
  using reclaimWorkerTasksLocked_move [of "s\<lparr>st_workers := _\<rparr>"] assms
  by (simp add: offlineWorkerLocked_def Let_def)

lemma OfflineStaleWorker_move:
  "exec_inv s \<Longrightarrow> sound_move task_gated step_gated job_legal s (fst (OfflineStaleWorker ctx wid cutoff now s))"
  by (auto simp: OfflineStaleWorker_def fenced_def sound_move_refl offlineWorkerLocked_move
      case_prod_unfold Let_def split: option.split)

lemma OfflineWorker_move:
  "exec_inv s \<Longrightarrow> sound_move task_gated step_gated job_legal s (fst (OfflineWorker ctx wid inst now s))"
  by (auto simp: OfflineWorker_def fenced_def sound_move_refl offlineWorkerLocked_move
      case_prod_unfold Let_def split: option.split)

section \<open>Operations on the other tables\<close>

definition same_exec :: "store \<Rightarrow> store \<Rightarrow> bool" where
  "same_exec s s' \<longleftrightarrow> st_tasks s' = st_tasks s \<and> st_taskAttempts s' = st_taskAttempts s \<and>
     st_usageClaims s' = st_usageClaims s \<and> st_steps s' = st_steps s \<and> st_jobs s' = st_jobs s"

lemma same_exec_move: "exec_inv s \<Longrightarrow> same_exec s s' \<Longrightarrow> sound_move R Q P s s'"
  by (rule sound_move_frame) (simp_all add: same_exec_def)

lemma same_exec_refl [simp]: "same_exec s s"
  by (simp add: same_exec_def)

lemma stampLocked_same_exec: "same_exec s (snd (stampLocked clock s))"
  by (simp add: same_exec_def stampLocked_def Let_def)

lemmas admin_defs = fenced_def Let_def case_prod_unfold same_exec_def stampLocked_def

lemma admin_same_exec:
  "same_exec s (fst (SetWorkerDisabled ctx wid b clock s))"
  "same_exec s (fst (UpdateWorkerHeartbeat ctx wid at bat clock s))"
  "same_exec s (fst (DeleteWorkerIfRemovable ctx wid s))"
  "same_exec s (fst (DeleteOfflineWorkersBefore ctx cutoff s))"
  "same_exec s (fst (CreateFarm ctx farm clock s))"
  "same_exec s (fst (UpdateFarm ctx farm clock s))"
  "same_exec s (fst (DeleteFarm ctx fid s))"
  "same_exec s (fst (CreateQueue ctx queue clock s))"
  "same_exec s (fst (UpdateQueue ctx queue clock s))"
  "same_exec s (fst (DeleteQueue ctx qid s))"
  "same_exec s (fst (CreateUsagePool ctx pool clock s))"
  "same_exec s (fst (UpdateUsagePool ctx pool clock s))"
  "same_exec s (fst (DeleteUsagePool ctx pid s))"
  "same_exec s (fst (CreateTaskLog ctx log s))"
  "same_exec s (fst (AcquireLeadership holder ttl us s))"
  "same_exec s (fst (RenewLeadership holder epoch ttl us s))"
  "same_exec s (fst (ReleaseLeadership holder epoch s))"
  "same_exec s (fst (UpsertServerMember m us s))"
  "same_exec s (fst (DeleteServerMembersUnseenFor d us s))"
  unfolding SetWorkerDisabled_def UpdateWorkerHeartbeat_def DeleteWorkerIfRemovable_def
    DeleteOfflineWorkersBefore_def CreateFarm_def UpdateFarm_def DeleteFarm_def CreateQueue_def
    UpdateQueue_def DeleteQueue_def CreateUsagePool_def UpdateUsagePool_def DeleteUsagePool_def
    CreateTaskLog_def AcquireLeadership_def RenewLeadership_def ReleaseLeadership_def
    UpsertServerMember_def DeleteServerMembersUnseenFor_def
  by (simp_all add: admin_defs split: option.split sum.split)

end
