(* ===== verification/StoreInv.thy ===== *)
theory StoreInv
  imports StoreOps
begin

text \<open>
  The operations that add or delete rows (lease, submission, deletion of jobs), the in-memory
  store as a transition system over all its operations, and the invariant of every reachable
  store.
\<close>

section \<open>Inserting many rows\<close>

lemma tget_fold_tput_cases:
  "tget (fold (\<lambda>c. tput (k c) (v c)) cs m) x = Some y \<Longrightarrow>
     tget m x = Some y \<or> (\<exists>c \<in> set cs. k c = x \<and> y = v c)"
  by (induction cs arbitrary: m) (fastforce split: if_splits)+

lemma tget_fold_tput_other:
  "x \<notin> k ` set cs \<Longrightarrow> tget (fold (\<lambda>c. tput (k c) (v c)) cs m) x = tget m x"
  by (induction cs arbitrary: m) auto

lemma tget_fold_tput_in:
  "distinct (map k cs) \<Longrightarrow> c \<in> set cs \<Longrightarrow> tget (fold (\<lambda>c. tput (k c) (v c)) cs m) (k c) = Some (v c)"
proof (induction cs arbitrary: m)
  case (Cons d cs)
  then show ?case
    using tget_fold_tput_other [of "k d" k cs v] by (cases "c = d") auto
qed simp

lemma tget_fold_tput_mono:
  "tget m x \<noteq> None \<Longrightarrow> tget (fold (\<lambda>c. tput (k c) (v c)) cs m) x \<noteq> None"
  by (induction cs arbitrary: m) auto

lemma table_ok_fold_tput [simp]:
  "table_ok m \<Longrightarrow> table_ok (fold (\<lambda>c. tput (k c) (v c)) cs m)"
  by (induction cs arbitrary: m) auto

section \<open>Leases\<close>

lemma nextAttemptNumber_greater:
  "tget (st_taskAttempts s) k = Some a \<Longrightarrow> att_TaskID a = tid \<Longrightarrow>
     att_AttemptNumber a < nextAttemptNumber s tid"
  using tget_trows [of "st_taskAttempts s" k a] latestAttemptLocked_Some [of s tid]
    latestAttemptLocked_None [of s tid]
  by (force simp: nextAttemptNumber_def split: option.split)

lemma exec_inv_leaseWrite:
  assumes inv: "exec_inv s" and t: "tget (st_tasks s) (task_ID t) = Some t"
    and ready: "task_Status t = TaskStatusReady"
    and fresh: "tget (st_taskAttempts s) (req_AttemptID req) = None"
  shows "exec_inv (fst (leaseWrite req t claims s))" (is "exec_inv ?s'")
proof -
  let ?tid = "task_ID t" and ?aid = "req_AttemptID req"
  let ?a = "leaseAttempt req ?tid (nextAttemptNumber s ?tid)"
  have T: "st_tasks ?s' = tput ?tid (leaseTaskRow req t) (st_tasks s)"
    and A: "st_taskAttempts ?s' = tput ?aid ?a (st_taskAttempts s)"
    and C: "st_usageClaims ?s' =
      fold (\<lambda>c. tput (upc_ClaimID c) (leaseClaim req c)) claims (st_usageClaims s)"
    and SJ: "st_steps ?s' = st_steps s" "st_jobs ?s' = st_jobs s"
    by (simp_all add: leaseWrite_def Let_def)
  have claim: "(tget (st_usageClaims s) k = Some c) \<or> claim_TaskAttemptID c = ?aid"
    if "tget (st_usageClaims ?s') k = Some c" for k c
    using tget_fold_tput_cases [OF that [unfolded C]] by auto
  have idle: "\<not> (tget (st_taskAttempts s) k = Some a \<and> att_TaskID a = ?tid \<and>
      att_Status a = AttemptStatusRunning)" for k a
    using settled_inv [OF inv] t ready unfolding settled_def by fastforce
  have "tables_wf ?s'"
  proof -
    have "task_ID u = k \<and> validTaskTransitions (task_Status u) \<noteq> None"
      if "tget (st_tasks ?s') k = Some u" for k u
      using that exec_inv_taskID [OF inv, of k u] exec_inv_known [OF inv, of k u]
      by (auto simp: T validTaskTransitions_def split: if_splits)
    moreover have "att_ID b = k" if "tget (st_taskAttempts ?s') k = Some b" for k b
      using that exec_inv_attID [OF inv, of k b] by (auto simp: A split: if_splits)
    moreover have "table_ok (st_tasks ?s')" "table_ok (st_taskAttempts ?s')" "table_ok (st_usageClaims ?s')"
      using exec_inv_table_ok [OF inv] by (simp_all add: T A C)
    ultimately show ?thesis
      using inv unfolding exec_inv_def tables_wf_def SJ by blast
  qed
  moreover have "refs_ok ?s'"
    using inv t claim unfolding exec_inv_def refs_ok_def T A SJ by (fastforce split: if_splits)
  moreover have "claims_ok ?s'"
  proof -
    have "\<exists>a. tget (st_taskAttempts ?s') (claim_TaskAttemptID c) = Some a \<and>
        att_Status a = AttemptStatusRunning"
      if c: "tget (st_usageClaims ?s') k = Some c" "claim_ReleasedAt c = None" for k c
    proof (cases "claim_TaskAttemptID c = ?aid")
      case False
      with claim [OF c(1)] have "tget (st_usageClaims s) k = Some c" by simp
      then obtain a where "tget (st_taskAttempts s) (claim_TaskAttemptID c) = Some a"
        "att_Status a = AttemptStatusRunning"
        using inv c(2) unfolding exec_inv_def claims_ok_def by blast
      with False show ?thesis by (simp add: A)
    qed (simp add: A)
    then show ?thesis unfolding claims_ok_def by blast
  qed
  moreover have "attempts_ok ?s'"
    unfolding attempts_ok_def
  proof (intro conjI allI impI)
    fix k a u
    assume a: "tget (st_taskAttempts ?s') k = Some a \<and> att_Status a = AttemptStatusRunning"
      and u: "tget (st_tasks ?s') (att_TaskID a) = Some u"
    show "inFlightTask (task_Status u)"
    proof (cases "att_TaskID a = ?tid")
      case True
      then have "u = leaseTaskRow req t" using u by (simp add: T)
      then show ?thesis by simp
    next
      case False
      then have "tget (st_taskAttempts s) k = Some a" "tget (st_tasks s) (att_TaskID a) = Some u"
        using a u by (auto simp: A T split: if_splits)
      then show ?thesis using settled_inv [OF inv] a unfolding settled_def by blast
    qed
  next
    fix k a k' b
    assume a: "tget (st_taskAttempts ?s') k = Some a \<and> att_Status a = AttemptStatusRunning"
      and b: "tget (st_taskAttempts ?s') k' = Some b \<and> att_TaskID b = att_TaskID a"
    show "att_AttemptNumber b \<le> att_AttemptNumber a"
    proof (cases "k = ?aid")
      case True
      then have "a = ?a" using a by (simp add: A)
      then show ?thesis
        using b nextAttemptNumber_greater [of s k' b ?tid] by (auto simp: A split: if_splits)
    next
      case False
      then have old: "tget (st_taskAttempts s) k = Some a" using a by (simp add: A)
      then have "att_TaskID a \<noteq> ?tid" using idle a by blast
      then have "tget (st_taskAttempts s) k' = Some b" using b by (auto simp: A split: if_splits)
      then show ?thesis using exec_inv_top [OF inv old] a b by blast
    qed
  next
    fix k k' a b
    assume *: "tget (st_taskAttempts ?s') k = Some a \<and> tget (st_taskAttempts ?s') k' = Some b \<and>
      att_TaskID a = att_TaskID b \<and> att_AttemptNumber a = att_AttemptNumber b"
    show "k = k'"
    proof (cases "k = ?aid \<or> k' = ?aid")
      case True
      then show ?thesis
        using * nextAttemptNumber_greater [of s k a ?tid] nextAttemptNumber_greater [of s k' b ?tid]
        by (auto simp: A split: if_splits)
    next
      case False
      then show ?thesis using * exec_inv_unique [OF inv, of k a k' b] by (simp add: A)
    qed
  qed
  ultimately show ?thesis by (simp add: exec_inv_def)
qed

lemma exec_inv_LeaseTask:
  assumes inv: "exec_inv s" and fresh: "tget (st_taskAttempts s) (req_AttemptID req) = None"
  shows "exec_inv (fst (LeaseTask ctx req s))"
proof (cases "\<exists>s' res. LeaseTask ctx req s = (s', Inr res) \<and> res_Outcome res = LeaseLeased")
  case True
  then obtain s' res where l: "LeaseTask ctx req s = (s', Inr res)" "res_Outcome res = LeaseLeased"
    by blast
  obtain t j where g: "lease_granted req s t j"
    and s': "s' = fst (leaseWrite req t (sort_key upc_PoolID (req_Claims req)) s)"
    by (rule LeaseTask_leased [OF l])
  then have t: "tget (st_tasks s) (req_TaskID req) = Some t" and r: "task_Status t = TaskStatusReady"
    using leasableLocked_Ready by (auto simp: lease_granted_def)
  show ?thesis
    using exec_inv_leaseWrite [OF inv _ r fresh] t exec_inv_taskID [OF inv t] l s' by simp
next
  case False
  then have "fst (LeaseTask ctx req s) = s"
    using LeaseTask_not_leased [of ctx req s "fst (LeaseTask ctx req s)" "snd (LeaseTask ctx req s)"]
    by (metis prod.collapse)
  then show ?thesis using inv by simp
qed

section \<open>Submissions\<close>

text \<open>What the submitter (\<^verbatim>\<open>internal/openjd/submit.go\<close>) hands to the store: rows of one new job, with
  at least one step, the tasks of each step in its status, and everything pending in a blocked
  job.\<close>

definition submission_ok :: "JobSubmission \<Rightarrow> bool" where
  "submission_ok sub \<longleftrightarrow>
     (job_Status (sub_Job sub) = JobStatusPending \<or> job_Status (sub_Job sub) = JobStatusBlocked) \<and>
     sub_Steps sub \<noteq> [] \<and>
     (\<forall>st \<in> set (sub_Steps sub). step_JobID st = job_ID (sub_Job sub) \<and>
        (step_Status st = StepStatusPending \<or>
         step_Status st = StepStatusReady \<and> job_Status (sub_Job sub) \<noteq> JobStatusBlocked)) \<and>
     (\<forall>t \<in> set (sub_Tasks sub). task_JobID t = job_ID (sub_Job sub) \<and>
        (\<exists>st \<in> set (sub_Steps sub). step_ID st = task_StepID t \<and>
           task_Status t = (if step_Status st = StepStatusReady then TaskStatusReady
                            else TaskStatusPending)))"

definition step_key :: "Step \<Rightarrow> string \<times> string \<times> string \<times> step_status" where
  "step_key st = (step_ID st, step_JobID st, step_Name st, step_Status st)"

definition task_key :: "Task \<Rightarrow> string \<times> string \<times> string \<times> task_status" where
  "task_key t = (task_ID t, task_JobID t, task_StepID t, task_Status t)"

lemma insertSteps_eq:
  "insertSteps clock sts s = (s', out) \<Longrightarrow>
     st_steps s' = fold (\<lambda>st. tput (step_ID st) st) out (st_steps s) \<and>
     map step_key out = map step_key sts \<and>
     st_tasks s' = st_tasks s \<and> st_jobs s' = st_jobs s \<and> st_taskAttempts s' = st_taskAttempts s \<and>
     st_usageClaims s' = st_usageClaims s \<and> st_jobDependencies s' = st_jobDependencies s"
proof (induction sts arbitrary: s s' out)
  case Nil
  then show ?case by auto
next
  case (Cons x xs)
  let ?x = "x\<lparr>step_CreatedAt := fst (stampLocked clock s), step_UpdatedAt := fst (stampLocked clock s)\<rparr>"
  let ?s = "(snd (stampLocked clock s))\<lparr>st_steps :=
    tput (step_ID x) ?x (st_steps (snd (stampLocked clock s)))\<rparr>"
  obtain out' where rec: "insertSteps clock xs ?s = (s', out')" and out: "out = ?x # out'"
    using Cons.prems by (simp add: case_prod_unfold Let_def) (metis prod.collapse)
  show ?case
    using Cons.IH [OF rec] by (simp add: out stampLocked_def Let_def step_key_def task_key_def)
qed

lemma insertTasks_eq:
  "insertTasks clock ts s = (s', out) \<Longrightarrow>
     st_tasks s' = fold (\<lambda>t. tput (task_ID t) t) out (st_tasks s) \<and>
     map task_key out = map task_key ts \<and>
     st_steps s' = st_steps s \<and> st_jobs s' = st_jobs s \<and> st_taskAttempts s' = st_taskAttempts s \<and>
     st_usageClaims s' = st_usageClaims s \<and> st_jobDependencies s' = st_jobDependencies s"
proof (induction ts arbitrary: s s' out)
  case Nil
  then show ?case by auto
next
  case (Cons x xs)
  let ?x = "x\<lparr>task_CreatedAt := fst (stampLocked clock s), task_UpdatedAt := fst (stampLocked clock s)\<rparr>"
  let ?s = "(snd (stampLocked clock s))\<lparr>st_tasks :=
    tput (task_ID x) ?x (st_tasks (snd (stampLocked clock s)))\<rparr>"
  obtain out' where rec: "insertTasks clock xs ?s = (s', out')" and out: "out = ?x # out'"
    using Cons.prems by (simp add: case_prod_unfold Let_def) (metis prod.collapse)
  show ?case
    using Cons.IH [OF rec] by (simp add: out stampLocked_def Let_def step_key_def task_key_def)
qed

lemma validateSubmissionSteps_fresh:
  "validateSubmissionSteps s ids names sts = None \<Longrightarrow>
     distinct (map step_ID sts) \<and> (\<forall>st \<in> set sts. step_ID st \<notin> set ids \<and> tget (st_steps s) (step_ID st) = None)"
  by (induction s ids names sts rule: validateSubmissionSteps.induct) (auto split: if_splits)

lemma validateSubmissionTasks_fresh:
  "validateSubmissionTasks s ids ts = None \<Longrightarrow>
     distinct (map task_ID ts) \<and> (\<forall>t \<in> set ts. task_ID t \<notin> set ids \<and> tget (st_tasks s) (task_ID t) = None)"
  by (induction s ids ts rule: validateSubmissionTasks.induct) (auto split: if_splits)

lemma normalizeDeclaredExtensions_frame [simp]:
  "job_ID (normalizeDeclaredExtensions j) = job_ID j"
  "job_Status (normalizeDeclaredExtensions j) = job_Status j"
  by (simp_all add: normalizeDeclaredExtensions_def)

lemma submittedJob_frame [simp]:
  "job_ID (submittedJob sub clock) = job_ID (sub_Job sub)"
  "job_Status (submittedJob sub clock) = job_Status (sub_Job sub)"
  by (simp_all add: submittedJob_def)

lemma insertJob_frame [simp]:
  "st_jobs (insertJob sub clock s) = tput (job_ID (sub_Job sub)) (submittedJob sub clock) (st_jobs s)"
  "st_steps (insertJob sub clock s) = st_steps s"
  "st_tasks (insertJob sub clock s) = st_tasks s"
  "st_taskAttempts (insertJob sub clock s) = st_taskAttempts s"
  "st_usageClaims (insertJob sub clock s) = st_usageClaims s"
  by (simp_all add: insertJob_def Let_def)

text \<open>The tables after an accepted submission.\<close>

lemma CreateJobSubmission_accepted:
  assumes "CreateJobSubmission ctx sub clock s = (s', Inr out)"
  obtains job' where
    "validateSubmission s sub = None" "job_ID job' = job_ID (sub_Job sub)"
    "job_Status job' = job_Status (sub_Job sub)"
    "st_jobs s' = tput (job_ID (sub_Job sub)) job' (st_jobs s)"
    "st_steps s' = fold (\<lambda>st. tput (step_ID st) st) (sub_Steps out) (st_steps s)"
    "st_tasks s' = fold (\<lambda>t. tput (task_ID t) t) (sub_Tasks out) (st_tasks s)"
    "map step_key (sub_Steps out) = map step_key (sub_Steps sub)"
    "map task_key (sub_Tasks out) = map task_key (sub_Tasks sub)"
    "st_taskAttempts s' = st_taskAttempts s" "st_usageClaims s' = st_usageClaims s"
proof -
  obtain s3 steps where i3: "insertSteps clock (sub_Steps sub) (insertJob sub clock s) = (s3, steps)"
    by (metis surj_pair)
  obtain s4 tasks where i4: "insertTasks clock (sub_Tasks sub) s3 = (s4, tasks)"
    by (metis surj_pair)
  have v: "validateSubmission s sub = None" and f: "fenceLocked ctx s = None"
    using assms by (auto simp: CreateJobSubmission_def fenced_def split: option.splits)
  have eq: "s' = s4" "sub_Steps out = steps" "sub_Tasks out = tasks"
    using assms v f i3 i4 by (auto simp: CreateJobSubmission_def)
  show thesis
    using that [of "submittedJob sub clock"] v insertSteps_eq [OF i3] insertTasks_eq [OF i4] eq
    by simp
qed

lemma CreateJobSubmission_refused:
  "CreateJobSubmission ctx sub clock s = (s', Inl e) \<Longrightarrow> s' = s"
  by (auto simp: CreateJobSubmission_def fenced_def Let_def split: option.splits prod.splits)

lemma map_eq_obtain:
  assumes "map f xs = map f ys" "x \<in> set xs"
  obtains y where "y \<in> set ys" "f y = f x"
proof -
  have "f x \<in> set (map f ys)" using assms by (metis image_eqI list.set_map)
  then show thesis using that by auto
qed

lemma tget_fold_tput_fresh:
  "tget m x = Some y \<Longrightarrow> (\<And>c. c \<in> set cs \<Longrightarrow> tget m (k c) = None) \<Longrightarrow>
     tget (fold (\<lambda>c. tput (k c) (v c)) cs m) x = Some y"
  by (subst tget_fold_tput_other) auto

lemma validateSubmission_fresh:
  assumes "validateSubmission s sub = None"
  shows "tget (st_jobs s) (job_ID (sub_Job sub)) = None"
    "distinct (map step_ID (sub_Steps sub))" "distinct (map task_ID (sub_Tasks sub))"
    "\<And>st. st \<in> set (sub_Steps sub) \<Longrightarrow> tget (st_steps s) (step_ID st) = None"
    "\<And>t. t \<in> set (sub_Tasks sub) \<Longrightarrow> tget (st_tasks s) (task_ID t) = None"
  using assms validateSubmissionSteps_fresh [of s "[]" "[]" "sub_Steps sub"]
    validateSubmissionTasks_fresh [of s "[]" "sub_Tasks sub"]
  by (auto simp: validateSubmission_def split: if_splits option.splits)

text \<open>What an accepted submission adds: rows under fresh keys, every old row as it was.\<close>

definition adds_rows :: "(string \<Rightarrow> 'v \<Rightarrow> bool) \<Rightarrow> 'v table \<Rightarrow> 'v table \<Rightarrow> bool" where
  "adds_rows new m m' \<longleftrightarrow>
     (\<forall>k v. tget m k = Some v \<longrightarrow> tget m' k = Some v) \<and>
     (\<forall>k v. tget m' k = Some v \<longrightarrow> tget m k = Some v \<or> new k v) \<and>
     (table_ok m \<longrightarrow> table_ok m')"

lemma adds_rowsD:
  "adds_rows new m m' \<Longrightarrow> tget m k = Some v \<Longrightarrow> tget m' k = Some v"
  "adds_rows new m m' \<Longrightarrow> tget m' k = Some v \<Longrightarrow> tget m k = Some v \<or> new k v"
  "adds_rows new m m' \<Longrightarrow> table_ok m \<Longrightarrow> table_ok m'"
  unfolding adds_rows_def by blast+

lemma adds_rows_weaken:
  "adds_rows new m m' \<Longrightarrow> (\<And>k v. new k v \<Longrightarrow> new' k v) \<Longrightarrow> adds_rows new' m m'"
  unfolding adds_rows_def by blast

lemma adds_rows_fold:
  assumes "\<And>c. c \<in> set cs \<Longrightarrow> tget m (key c) = None"
  shows "adds_rows (\<lambda>k c. key c = k \<and> c \<in> set cs) m (fold (\<lambda>c. tput (key c) c) cs m)"
  unfolding adds_rows_def
proof (intro conjI allI impI)
  fix k v assume "tget m k = Some v"
  then show "tget (fold (\<lambda>c. tput (key c) c) cs m) k = Some v"
    by (rule tget_fold_tput_fresh) (rule assms)
next
  fix k v assume "tget (fold (\<lambda>c. tput (key c) c) cs m) k = Some v"
  from tget_fold_tput_cases [OF this]
  show "tget m k = Some v \<or> key v = k \<and> v \<in> set cs" by blast
qed simp

definition new_task_row :: "store \<Rightarrow> string \<Rightarrow> string \<Rightarrow> Task \<Rightarrow> bool" where
  "new_task_row s' jid k t \<longleftrightarrow> task_ID t = k \<and> task_JobID t = jid \<and>
     (\<exists>st. tget (st_steps s') (task_StepID t) = Some st \<and> step_JobID st = jid \<and>
        task_Status t = (if step_Status st = StepStatusReady then TaskStatusReady else TaskStatusPending))"

definition new_step_row :: "store \<Rightarrow> string \<Rightarrow> string \<Rightarrow> Step \<Rightarrow> bool" where
  "new_step_row s' jid k st \<longleftrightarrow> step_ID st = k \<and> step_JobID st = jid \<and>
     (step_Status st = StepStatusPending \<or>
      step_Status st = StepStatusReady \<and>
        (\<forall>j. tget (st_jobs s') jid = Some j \<longrightarrow> job_Status j \<noteq> JobStatusBlocked))"

definition new_job_row :: "string \<Rightarrow> string \<Rightarrow> Job \<Rightarrow> bool" where
  "new_job_row jid k j \<longleftrightarrow> k = jid \<and> job_ID j = jid \<and>
     (job_Status j = JobStatusPending \<or> job_Status j = JobStatusBlocked)"

definition adds_job :: "string \<Rightarrow> store \<Rightarrow> store \<Rightarrow> bool" where
  "adds_job jid s s' \<longleftrightarrow>
     tget (st_jobs s) jid = None \<and>
     (\<exists>j. tget (st_jobs s') jid = Some j) \<and>
     (\<exists>k st. tget (st_steps s') k = Some st \<and> step_JobID st = jid) \<and>
     adds_rows (new_task_row s' jid) (st_tasks s) (st_tasks s') \<and>
     adds_rows (new_step_row s' jid) (st_steps s) (st_steps s') \<and>
     adds_rows (new_job_row jid) (st_jobs s) (st_jobs s') \<and>
     st_taskAttempts s' = st_taskAttempts s \<and> st_usageClaims s' = st_usageClaims s"

lemma CreateJobSubmission_adds:
  assumes c: "CreateJobSubmission ctx sub clock s = (s', Inr out)" and ok: "submission_ok sub"
  shows "adds_job (job_ID (sub_Job sub)) s s'"
proof -
  let ?jid = "job_ID (sub_Job sub)"
  from c obtain job' where v: "validateSubmission s sub = None" and job': "job_ID job' = ?jid"
      "job_Status job' = job_Status (sub_Job sub)"
    and J: "st_jobs s' = tput ?jid job' (st_jobs s)"
    and S: "st_steps s' = fold (\<lambda>st. tput (step_ID st) st) (sub_Steps out) (st_steps s)"
    and T: "st_tasks s' = fold (\<lambda>t. tput (task_ID t) t) (sub_Tasks out) (st_tasks s)"
    and sk: "map step_key (sub_Steps out) = map step_key (sub_Steps sub)"
    and tk: "map task_key (sub_Tasks out) = map task_key (sub_Tasks sub)"
    and AC: "st_taskAttempts s' = st_taskAttempts s" "st_usageClaims s' = st_usageClaims s"
    by (rule CreateJobSubmission_accepted)
  note fresh = validateSubmission_fresh [OF v]
  have new_step: "tget (st_steps s) (step_ID x) = None \<and> step_JobID x = ?jid \<and>
      (step_Status x = StepStatusPending \<or>
       step_Status x = StepStatusReady \<and> job_Status (sub_Job sub) \<noteq> JobStatusBlocked)"
    if xin: "x \<in> set (sub_Steps out)" for x
  proof -
    obtain y where "y \<in> set (sub_Steps sub)" "step_key y = step_key x"
      using map_eq_obtain [OF sk xin] by metis
    then show ?thesis
      using fresh(4) [of y] ok unfolding submission_ok_def step_key_def by auto
  qed
  have "map step_ID (sub_Steps out) = map fst (map step_key (sub_Steps out))"
    by (simp add: step_key_def comp_def)
  then have dist: "distinct (map step_ID (sub_Steps out))"
    using fresh(2) unfolding sk by (simp add: step_key_def comp_def)
  have lookup: "tget (st_steps s') (step_ID x) = Some x" if "x \<in> set (sub_Steps out)" for x
    unfolding S using tget_fold_tput_in [OF dist that, of "\<lambda>st. st"] .
  have new_task: "tget (st_tasks s) (task_ID t) = None \<and> task_JobID t = ?jid \<and>
      (\<exists>st. tget (st_steps s') (task_StepID t) = Some st \<and> step_JobID st = ?jid \<and>
         task_Status t = (if step_Status st = StepStatusReady then TaskStatusReady else TaskStatusPending))"
    if tin: "t \<in> set (sub_Tasks out)" for t
  proof -
    obtain u where u: "u \<in> set (sub_Tasks sub)" "task_key u = task_key t"
      using map_eq_obtain [OF tk tin] by metis
    obtain st where st: "st \<in> set (sub_Steps sub)" "step_ID st = task_StepID u"
      "task_Status u = (if step_Status st = StepStatusReady then TaskStatusReady else TaskStatusPending)"
      and uj: "task_JobID u = ?jid"
      using ok u(1) unfolding submission_ok_def by blast
    obtain x where x: "x \<in> set (sub_Steps out)" "step_key x = step_key st"
      using map_eq_obtain [OF sk [symmetric] st(1)] by metis
    then have "tget (st_steps s') (task_StepID t) = Some x" "step_Status x = step_Status st"
      using lookup [OF x(1)] st(2) u(2) by (simp_all add: step_key_def task_key_def)
    then show ?thesis
      using fresh(5) [OF u(1)] u(2) uj st(3) new_step [OF x(1)] by (auto simp: task_key_def)
  qed
  have ne: "sub_Steps out \<noteq> []"
    using ok sk by (auto simp: submission_ok_def)
  then obtain x where x: "x \<in> set (sub_Steps out)" by fastforce
  have jnew: "tget (st_jobs s') ?jid = Some job'" by (simp add: J)
  have jst: "job_Status job' = JobStatusPending \<or> job_Status job' = JobStatusBlocked"
    using ok job'(2) by (simp add: submission_ok_def)
  have "adds_rows (\<lambda>k t. task_ID t = k \<and> t \<in> set (sub_Tasks out)) (st_tasks s) (st_tasks s')"
    unfolding T by (rule adds_rows_fold) (use new_task in blast)
  then have "adds_rows (new_task_row s' ?jid) (st_tasks s) (st_tasks s')"
    by (rule adds_rows_weaken) (use new_task in \<open>unfold new_task_row_def, blast\<close>)
  moreover have "adds_rows (\<lambda>k st. step_ID st = k \<and> st \<in> set (sub_Steps out)) (st_steps s) (st_steps s')"
    unfolding S by (rule adds_rows_fold) (use new_step in blast)
  then have "adds_rows (new_step_row s' ?jid) (st_steps s) (st_steps s')"
    by (rule adds_rows_weaken) (use new_step job'(2) jnew in \<open>auto simp: new_step_row_def\<close>)
  moreover have "adds_rows (new_job_row ?jid) (st_jobs s) (st_jobs s')"
    using fresh(1) jst job'(1) by (auto simp: adds_rows_def J new_job_row_def split: if_splits)
  ultimately show ?thesis
    unfolding adds_job_def using fresh(1) AC jnew lookup [OF x] new_step [OF x] by blast
qed

lemma adds_jobD:
  assumes "adds_job jid s s'"
  shows "tget (st_jobs s) jid = None" "\<exists>j. tget (st_jobs s') jid = Some j"
    "\<exists>k st. tget (st_steps s') k = Some st \<and> step_JobID st = jid"
    "adds_rows (new_task_row s' jid) (st_tasks s) (st_tasks s')"
    "adds_rows (new_step_row s' jid) (st_steps s) (st_steps s')"
    "adds_rows (new_job_row jid) (st_jobs s) (st_jobs s')"
    "st_taskAttempts s' = st_taskAttempts s" "st_usageClaims s' = st_usageClaims s"
  using assms by (simp_all add: adds_job_def)

lemma new_task_row_wf:
  "new_task_row s' jid k t \<Longrightarrow> task_ID t = k \<and> validTaskTransitions (task_Status t) \<noteq> None \<and>
     (\<exists>st. tget (st_steps s') (task_StepID t) = Some st \<and> step_JobID st = task_JobID t)"
  by (auto simp: new_task_row_def validTaskTransitions_def split: if_splits)

lemma exec_inv_adds_job:
  assumes inv: "exec_inv s" and ad: "adds_job jid s s'"
  shows "exec_inv s'"
proof -
  note ad = adds_jobD [OF ad]
  note T = adds_rowsD [OF ad(4)] and S = adds_rowsD [OF ad(5)] and J = adds_rowsD [OF ad(6)]
  from inv have wf: "tables_wf s" and refs: "refs_ok s" and cl: "claims_ok s"
    by (simp_all add: exec_inv_def)
  have "tables_wf s'"
    unfolding tables_wf_def
  proof (intro conjI allI impI)
    fix k t assume "tget (st_tasks s') k = Some t"
    then show "task_ID t = k" "validTaskTransitions (task_Status t) \<noteq> None"
      using T(2) [of k t] new_task_row_wf exec_inv_taskID [OF inv] exec_inv_known [OF inv] by blast+
  next
    fix k st assume "tget (st_steps s') k = Some st"
    then show "step_ID st = k"
      using S(2) [of k st] exec_inv_stepID [OF inv] unfolding new_step_row_def by blast
  next
    fix k j assume "tget (st_jobs s') k = Some j"
    then show "job_ID j = k"
      using J(2) [of k j] exec_inv_jobID [OF inv] unfolding new_job_row_def by blast
  qed (use exec_inv_table_ok [OF inv] exec_inv_attID [OF inv] T(3) S(3) J(3) ad(7,8) in auto)
  moreover have "refs_ok s'"
    unfolding refs_ok_def
  proof (intro conjI allI impI)
    fix k t assume "tget (st_tasks s') k = Some t"
    then show "\<exists>st. tget (st_steps s') (task_StepID t) = Some st \<and> step_JobID st = task_JobID t"
      using T(2) [of k t] new_task_row_wf [of s' jid k t] exec_inv_task_step [OF inv, of k t] S(1)
      by metis
  next
    fix k st assume "tget (st_steps s') k = Some st"
    then show "\<exists>j. tget (st_jobs s') (step_JobID st) = Some j"
      using S(2) [of k st] exec_inv_step_job [OF inv, of k st] J(1) ad(2) unfolding new_step_row_def
      by metis
  next
    fix k a assume "tget (st_taskAttempts s') k = Some a"
    then show "\<exists>t. tget (st_tasks s') (att_TaskID a) = Some t"
      using T(1) refs ad(7) unfolding refs_ok_def by metis
  next
    fix k c assume "tget (st_usageClaims s') k = Some c"
    then show "\<exists>a. tget (st_taskAttempts s') (claim_TaskAttemptID c) = Some a"
      using refs ad(7,8) unfolding refs_ok_def by metis
  qed
  moreover have "settled s'"
    unfolding settled_def
  proof (intro conjI allI impI)
    fix k a t
    assume r: "tget (st_taskAttempts s') k = Some a \<and> att_Status a = AttemptStatusRunning \<and>
      tget (st_tasks s') (att_TaskID a) = Some t"
    then obtain u where u: "tget (st_tasks s) (att_TaskID a) = Some u"
      using refs ad(7) unfolding refs_ok_def by metis
    then have "u = t" using T(1) r by fastforce
    then show "inFlightTask (task_Status t)"
      using exec_inv_flight [OF inv] r u ad(7) by metis
  qed (use cl ad(7,8) in \<open>simp add: claims_ok_def\<close>)
  moreover have "attempt_moves (st_taskAttempts s) (st_taskAttempts s')"
    using ad(7) by simp
  ultimately show ?thesis
    using attempts_ok_moved inv by (simp add: exec_inv_def settled_def)
qed

lemma exec_inv_CreateJobSubmission:
  assumes inv: "exec_inv s" and ok: "submission_ok sub"
  shows "exec_inv (fst (CreateJobSubmission ctx sub clock s))"
proof (cases "CreateJobSubmission ctx sub clock s")
  case (Pair s' r)
  show ?thesis
  proof (cases r)
    case (Inl e)
    then show ?thesis using CreateJobSubmission_refused [of ctx sub clock s s' e] Pair inv by simp
  next
    case (Inr out)
    then show ?thesis
      using exec_inv_adds_job [OF inv CreateJobSubmission_adds [OF _ ok]] Pair by simp
  qed
qed

section \<open>Updates of jobs\<close>

text \<open>\<^verbatim>\<open>UpdateJob\<close> may move a job to another queue or farm; it keeps the job's status.\<close>

lemma UpdateJob_jobs:
  assumes inv: "exec_inv s"
  shows "\<exists>j'. fst (UpdateJob ctx job clock s) =
      s\<lparr>st_jobs := (case tget (st_jobs s) (job_ID job) of
          None \<Rightarrow> st_jobs s
        | Some j \<Rightarrow> if fenceLocked ctx s = None then tput (job_ID job) j' (st_jobs s) else st_jobs s)\<rparr> \<and>
    job_ID j' = job_ID job \<and>
    (\<forall>j. tget (st_jobs s) (job_ID job) = Some j \<longrightarrow> job_Status j' = job_Status j)"
proof (cases "fenceLocked ctx s = None \<and> tget (st_jobs s) (job_ID job) \<noteq> None")
  case False
  then show ?thesis
    by (intro exI [of _ "case tget (st_jobs s) (job_ID job) of Some j \<Rightarrow> j | None \<Rightarrow> job"])
      (auto simp: UpdateJob_def fenced_def exec_inv_jobID [OF inv] split: option.split)
qed (auto simp: UpdateJob_def Let_def)

lemma exec_inv_job_row:
  assumes inv: "exec_inv s" and "tget (st_jobs s) k = Some j" "job_ID j' = k"
  shows "exec_inv (s\<lparr>st_jobs := tput k j' (st_jobs s)\<rparr>)" (is "exec_inv ?s'")
proof -
  from inv have i: "tables_wf s" "refs_ok s" "attempts_ok s" "claims_ok s"
    by (simp_all add: exec_inv_def)
  have "tables_wf ?s'"
    using i(1) assms(3) unfolding tables_wf_def by (simp; blast?)
  moreover have "refs_ok ?s'"
    using i(2) unfolding refs_ok_def by simp
  moreover have "attempts_ok ?s' = attempts_ok s" "claims_ok ?s' = claims_ok s"
    by (simp_all add: attempts_ok_def claims_ok_def)
  ultimately show ?thesis using i(3,4) by (simp add: exec_inv_def)
qed

lemma exec_inv_UpdateJob:
  assumes inv: "exec_inv s"
  shows "exec_inv (fst (UpdateJob ctx job clock s))"
proof -
  obtain j' where u: "fst (UpdateJob ctx job clock s) =
      s\<lparr>st_jobs := (case tget (st_jobs s) (job_ID job) of
          None \<Rightarrow> st_jobs s
        | Some j \<Rightarrow> if fenceLocked ctx s = None then tput (job_ID job) j' (st_jobs s) else st_jobs s)\<rparr>"
    "job_ID j' = job_ID job"
    using UpdateJob_jobs [OF inv] by metis
  show ?thesis
  proof (cases "tget (st_jobs s) (job_ID job)")
    case (Some j)
    then show ?thesis using u exec_inv_job_row [OF inv Some u(2)] inv by simp
  qed (use u inv in simp)
qed

section \<open>Deletion of jobs\<close>

definition task_of :: "store \<Rightarrow> string \<Rightarrow> string \<Rightarrow> bool" where
  "task_of s jid tid \<longleftrightarrow> (\<exists>t. tget (st_tasks s) tid = Some t \<and> task_JobID t = jid)"

definition attempt_of :: "store \<Rightarrow> string \<Rightarrow> string \<Rightarrow> bool" where
  "attempt_of s jid aid \<longleftrightarrow> (\<exists>a. tget (st_taskAttempts s) aid = Some a \<and> task_of s jid (att_TaskID a))"

lemma set_filter_keys:
  "table_ok m \<Longrightarrow> set (map fst (filter (\<lambda>(k, v). p v) m)) = {k. \<exists>v. tget m k = Some v \<and> p v}"
  by (force simp: tget_iff)

lemma deleteJobLocked_get:
  assumes inv: "exec_inv s"
  shows "tget (st_tasks (deleteJobLocked jid s)) k = Some t \<longleftrightarrow>
      tget (st_tasks s) k = Some t \<and> \<not> task_of s jid k"
    and "tget (st_taskAttempts (deleteJobLocked jid s)) k = Some a \<longleftrightarrow>
      tget (st_taskAttempts s) k = Some a \<and> \<not> attempt_of s jid k"
    and "tget (st_usageClaims (deleteJobLocked jid s)) k = Some c \<longleftrightarrow>
      tget (st_usageClaims s) k = Some c \<and> \<not> attempt_of s jid (claim_TaskAttemptID c)"
    and "tget (st_steps (deleteJobLocked jid s)) k = Some st \<longleftrightarrow>
      tget (st_steps s) k = Some st \<and> step_JobID st \<noteq> jid"
    and "tget (st_jobs (deleteJobLocked jid s)) k = Some j \<longleftrightarrow> tget (st_jobs s) k = Some j \<and> k \<noteq> jid"
proof -
  note ok = exec_inv_table_ok [OF inv]
  let ?ts = "set (map fst (filter (\<lambda>(tid, t). task_JobID t = jid) (st_tasks s)))"
  let ?as = "set (map fst (filter (\<lambda>(aid, a). att_TaskID a \<in> ?ts) (st_taskAttempts s)))"
  have ts: "x \<in> ?ts \<longleftrightarrow> task_of s jid x" for x
    using ok unfolding task_of_def by (subst set_filter_keys) auto
  have as: "x \<in> ?as \<longleftrightarrow> attempt_of s jid x" for x
    using ok ts unfolding attempt_of_def by (subst set_filter_keys) auto
  have D: "st_tasks (deleteJobLocked jid s) = tkeep (\<lambda>tid t. tid \<notin> ?ts) (st_tasks s)"
    "st_taskAttempts (deleteJobLocked jid s) = tkeep (\<lambda>aid a. aid \<notin> ?as) (st_taskAttempts s)"
    "st_usageClaims (deleteJobLocked jid s) =
      tkeep (\<lambda>cid c. claim_TaskAttemptID c \<notin> ?as) (st_usageClaims s)"
    "st_steps (deleteJobLocked jid s) = tkeep (\<lambda>sid st. step_JobID st \<noteq> jid) (st_steps s)"
    "st_jobs (deleteJobLocked jid s) = tdel jid (st_jobs s)"
    unfolding deleteJobLocked_def Let_def by simp_all
  show "tget (st_tasks (deleteJobLocked jid s)) k = Some t \<longleftrightarrow>
      tget (st_tasks s) k = Some t \<and> \<not> task_of s jid k"
    unfolding D ts using ok by (auto simp: tget_tkeep split: option.splits)
  show "tget (st_taskAttempts (deleteJobLocked jid s)) k = Some a \<longleftrightarrow>
      tget (st_taskAttempts s) k = Some a \<and> \<not> attempt_of s jid k"
    unfolding D as using ok by (auto simp: tget_tkeep split: option.splits)
  show "tget (st_usageClaims (deleteJobLocked jid s)) k = Some c \<longleftrightarrow>
      tget (st_usageClaims s) k = Some c \<and> \<not> attempt_of s jid (claim_TaskAttemptID c)"
    unfolding D as using ok by (auto simp: tget_tkeep split: option.splits)
  show "tget (st_steps (deleteJobLocked jid s)) k = Some st \<longleftrightarrow>
      tget (st_steps s) k = Some st \<and> step_JobID st \<noteq> jid"
    unfolding D using ok by (auto simp: tget_tkeep split: option.splits)
  show "tget (st_jobs (deleteJobLocked jid s)) k = Some j \<longleftrightarrow> tget (st_jobs s) k = Some j \<and> k \<noteq> jid"
    unfolding D by simp
qed

lemma exec_inv_deleteJobLocked:
  assumes inv: "exec_inv s"
  shows "exec_inv (deleteJobLocked jid s)" (is "exec_inv ?s'")
proof -
  note get = deleteJobLocked_get [OF inv]
  from inv have refs: "refs_ok s" by (simp add: exec_inv_def)
  have "table_ok (st_tasks ?s')" "table_ok (st_taskAttempts ?s')" "table_ok (st_usageClaims ?s')"
    "table_ok (st_steps ?s')" "table_ok (st_jobs ?s')"
    using exec_inv_table_ok [OF inv] unfolding deleteJobLocked_def Let_def by simp_all
  then have "tables_wf ?s'"
    unfolding tables_wf_def get
    using exec_inv_taskID [OF inv] exec_inv_known [OF inv] exec_inv_attID [OF inv]
      exec_inv_stepID [OF inv] exec_inv_jobID [OF inv] by blast
  moreover have "refs_ok ?s'"
    unfolding refs_ok_def get
  proof (intro conjI allI impI)
    fix k t assume "tget (st_tasks s) k = Some t \<and> \<not> task_of s jid k"
    then show "\<exists>st. (tget (st_steps s) (task_StepID t) = Some st \<and> step_JobID st \<noteq> jid) \<and>
        step_JobID st = task_JobID t"
      using refs unfolding refs_ok_def task_of_def by metis
  next
    fix k a assume "tget (st_taskAttempts s) k = Some a \<and> \<not> attempt_of s jid k"
    then show "\<exists>t. tget (st_tasks s) (att_TaskID a) = Some t \<and> \<not> task_of s jid (att_TaskID a)"
      using refs unfolding refs_ok_def attempt_of_def by blast
  qed (use refs in \<open>unfold refs_ok_def, blast\<close>)+
  moreover have "attempts_ok ?s'"
    unfolding attempts_ok_def get
    using exec_inv_flight [OF inv] exec_inv_top [OF inv] exec_inv_unique [OF inv] by blast
  moreover have "claims_ok ?s'"
    unfolding claims_ok_def get using exec_inv_claim [OF inv] by blast
  ultimately show ?thesis by (simp add: exec_inv_def)
qed

lemma exec_inv_DeleteJob: "exec_inv s \<Longrightarrow> exec_inv (fst (DeleteJob ctx jid s))"
  by (auto simp: DeleteJob_def fenced_def exec_inv_deleteJobLocked split: option.split)

lemma exec_inv_deleteExpired: "exec_inv s \<Longrightarrow> exec_inv (fst (deleteExpired cutoff b ids s))"
  by (rule deleteExpired_steps) (simp_all add: exec_inv_deleteJobLocked)

lemma exec_inv_DeleteTerminalJobsBefore:
  "exec_inv s \<Longrightarrow> exec_inv (fst (DeleteTerminalJobsBefore ctx cutoff b s))"
  by (auto simp: DeleteTerminalJobsBefore_def fenced_def exec_inv_deleteExpired case_prod_unfold Let_def
      split: option.split)

end
