(* ===== verification/StoreSystem.thy ===== *)
theory StoreSystem
  imports StoreInv
begin

text \<open>
  The in-memory store as a transition system: one constructor per writing operation, grouped by
  component into \<open>store_op\<close>, \<open>exec\<close> the store after it, \<open>op_ok\<close> what the callers guarantee, and the stores
  reachable from the empty one.
\<close>

datatype attempt_op =
    OpLease ctx LeaseRequest
  | OpComplete ctx AttemptCompletion time
  | OpCancelTask ctx string string time
  | OpReclaimStale ctx time time
  | OpStart ctx string string string time
  | OpProgress ctx AttemptProgress
  | OpReclaim ctx string string time
  | OpFailure ctx string string "int option" string string time time
  | OpRequeue ctx string string time time
  | OpUnschedulable ctx string string time

datatype step_op =
    OpCancelJob ctx string string time
  | OpRetry ctx string "string list option" time
  | OpFinalizeStep ctx string time
  | OpFinalizeJob ctx string time
  | OpReleaseStep ctx string time
  | OpCancelPendingStep ctx string string time
  | OpReleaseBlocked ctx string time
  | OpCancelBlocked ctx string string time

datatype job_op =
    OpPromote ctx string time
  | OpPause ctx string time
  | OpPark ctx string string time
  | OpResume ctx string time
  | OpCancelJobStatus ctx string time
  | OpUpdateJob ctx Job time
  | OpDemote ctx time
  | OpSubmit ctx JobSubmission time
  | OpDeleteJob ctx string
  | OpExpireJobs ctx time bool

datatype worker_op =
    OpRegister ctx Worker time
  | OpOfflineStale ctx string time time
  | OpOffline ctx string string time
  | OpSetDisabled ctx string bool time
  | OpHeartbeat ctx string time "time option" time
  | OpDeleteWorker ctx string
  | OpExpireWorkers ctx time

datatype config_op =
    OpCreateFarm ctx Farm time
  | OpUpdateFarm ctx Farm time
  | OpDeleteFarm ctx string
  | OpCreateQueue ctx Queue time
  | OpUpdateQueue ctx Queue time
  | OpDeleteQueue ctx string
  | OpCreatePool ctx UsagePool time
  | OpUpdatePool ctx UsagePool time
  | OpDeletePool ctx string
  | OpLog ctx TaskLog

datatype leader_op =
    OpAcquire string int int
  | OpRenew string int int int
  | OpResign string int
  | OpMember ServerMember int
  | OpExpireMembers int int

datatype catalog_op =
    OpCreateStorage ctx StorageLocation time
  | OpUpdateStorage ctx StorageLocation time
  | OpDeleteStorage ctx string
  | OpCreateCompute ctx ComputeLocation time
  | OpUpdateCompute ctx ComputeLocation time
  | OpDeleteCompute ctx string
  | OpCreateProduct ctx Product time
  | OpUpdateProduct ctx Product
  | OpDeleteProduct ctx string
  | OpAudit ctx AuditEntry
  | OpBrokerIdentity ctx string

datatype account_op =
    OpCreateUser ctx User time
  | OpUpdateUser ctx User time
  | OpUpdateUserKeepingAdmin ctx User time
  | OpSetPassword ctx string string time
  | OpSetPasswordEvict ctx string string time
  | OpSetDisplayName ctx string string time
  | OpDeleteUser ctx string
  | OpCreateSession ctx Session
  | OpDeleteSession ctx string
  | OpExpireSessions ctx time
  | OpCreateKey ctx APIKey
  | OpRevokeKey ctx string string time
  | OpTouchKey ctx string time
  | OpCreateCredential ctx WorkerCredential
  | OpRevokeCredential ctx string time
  | OpTouchCredential ctx string time
  | OpCreateToken ctx WorkerJoinToken
  | OpUseToken ctx string time
  | OpRedeemToken ctx string time WorkerCredential

datatype store_op =
    AttemptOp attempt_op
  | StepOp step_op
  | JobOp job_op
  | WorkerOp worker_op
  | ConfigOp config_op
  | LeaderOp leader_op
  | CatalogOp catalog_op
  | AccountOp account_op

primrec exec_attempt :: "attempt_op \<Rightarrow> store \<Rightarrow> store" where
  "exec_attempt (OpLease c req) s = fst (LeaseTask c req s)"
| "exec_attempt (OpComplete c ac clock) s = fst (CompleteTaskAttempt c ac clock s)"
| "exec_attempt (OpCancelTask c tid r now) s = fst (CancelTaskExecution c tid r now s)"
| "exec_attempt (OpReclaimStale c cutoff clock) s = fst (ReclaimStaleAssignedTasks c cutoff clock s)"
| "exec_attempt (OpStart c aid tid sess now) s = fst (StartTaskAttempt c aid tid sess now s)"
| "exec_attempt (OpProgress c p) s = fst (RecordAttemptProgress c p s)"
| "exec_attempt (OpReclaim c aid tid now) s = fst (ReclaimTaskAttempt c aid tid now s)"
| "exec_attempt (OpFailure c aid tid ec sess msg now clock) s = fst (RecordTaskFailure c aid tid ec sess msg now clock s)"
| "exec_attempt (OpRequeue c tid aid after now) s = fst (RequeueTaskForRetry c tid aid after now s)"
| "exec_attempt (OpUnschedulable c tid r clock) s = fst (SetTaskUnschedulableReason c tid r clock s)"

primrec exec_step :: "step_op \<Rightarrow> store \<Rightarrow> store" where
  "exec_step (OpCancelJob c jid r now) s = fst (CancelJobExecution c jid r now s)"
| "exec_step (OpRetry c jid ids now) s = fst (RetryTasks c jid ids now s)"
| "exec_step (OpFinalizeStep c sid now) s = fst (FinalizeStep c sid now s)"
| "exec_step (OpFinalizeJob c jid now) s = fst (FinalizeJob c jid now s)"
| "exec_step (OpReleaseStep c sid now) s = fst (ReleaseStep c sid now s)"
| "exec_step (OpCancelPendingStep c sid r now) s = fst (CancelPendingStep c sid r now s)"
| "exec_step (OpReleaseBlocked c jid now) s = fst (ReleaseBlockedJob c jid now s)"
| "exec_step (OpCancelBlocked c jid r now) s = fst (CancelBlockedJob c jid r now s)"

primrec exec_job :: "job_op \<Rightarrow> store \<Rightarrow> store" where
  "exec_job (OpPromote c jid now) s = fst (PromoteJobRunning c jid now s)"
| "exec_job (OpPause c jid now) s = fst (PauseJob c jid now s)"
| "exec_job (OpPark c jid r now) s = fst (ParkJob c jid r now s)"
| "exec_job (OpResume c jid now) s = fst (ResumeJob c jid now s)"
| "exec_job (OpCancelJobStatus c jid clock) s = fst (CancelJobStatus c jid clock s)"
| "exec_job (OpUpdateJob c job clock) s = fst (UpdateJob c job clock s)"
| "exec_job (OpDemote c now) s = fst (DemoteStalledJobs c now s)"
| "exec_job (OpSubmit c sub clock) s = fst (CreateJobSubmission c sub clock s)"
| "exec_job (OpDeleteJob c jid) s = fst (DeleteJob c jid s)"
| "exec_job (OpExpireJobs c cutoff b) s = fst (DeleteTerminalJobsBefore c cutoff b s)"

primrec exec_worker :: "worker_op \<Rightarrow> store \<Rightarrow> store" where
  "exec_worker (OpRegister c w clock) s = fst (RegisterWorker c w clock s)"
| "exec_worker (OpOfflineStale c wid cutoff now) s = fst (OfflineStaleWorker c wid cutoff now s)"
| "exec_worker (OpOffline c wid inst now) s = fst (OfflineWorker c wid inst now s)"
| "exec_worker (OpSetDisabled c wid b clock) s = fst (SetWorkerDisabled c wid b clock s)"
| "exec_worker (OpHeartbeat c wid at bat clock) s = fst (UpdateWorkerHeartbeat c wid at bat clock s)"
| "exec_worker (OpDeleteWorker c wid) s = fst (DeleteWorkerIfRemovable c wid s)"
| "exec_worker (OpExpireWorkers c cutoff) s = fst (DeleteOfflineWorkersBefore c cutoff s)"

primrec exec_config :: "config_op \<Rightarrow> store \<Rightarrow> store" where
  "exec_config (OpCreateFarm c f clock) s = fst (CreateFarm c f clock s)"
| "exec_config (OpUpdateFarm c f clock) s = fst (UpdateFarm c f clock s)"
| "exec_config (OpDeleteFarm c fid) s = fst (DeleteFarm c fid s)"
| "exec_config (OpCreateQueue c q clock) s = fst (CreateQueue c q clock s)"
| "exec_config (OpUpdateQueue c q clock) s = fst (UpdateQueue c q clock s)"
| "exec_config (OpDeleteQueue c qid) s = fst (DeleteQueue c qid s)"
| "exec_config (OpCreatePool c p clock) s = fst (CreateUsagePool c p clock s)"
| "exec_config (OpUpdatePool c p clock) s = fst (UpdateUsagePool c p clock s)"
| "exec_config (OpDeletePool c pid) s = fst (DeleteUsagePool c pid s)"
| "exec_config (OpLog c l) s = fst (CreateTaskLog c l s)"

primrec exec_leader :: "leader_op \<Rightarrow> store \<Rightarrow> store" where
  "exec_leader (OpAcquire holder ttl us) s = fst (AcquireLeadership holder ttl us s)"
| "exec_leader (OpRenew holder epoch ttl us) s = fst (RenewLeadership holder epoch ttl us s)"
| "exec_leader (OpResign holder epoch) s = fst (ReleaseLeadership holder epoch s)"
| "exec_leader (OpMember m us) s = fst (UpsertServerMember m us s)"
| "exec_leader (OpExpireMembers d us) s = fst (DeleteServerMembersUnseenFor d us s)"

primrec exec_catalog :: "catalog_op \<Rightarrow> store \<Rightarrow> store" where
  "exec_catalog (OpCreateStorage c l clock) s = fst (CreateStorageLocation c l clock s)"
| "exec_catalog (OpUpdateStorage c l clock) s = fst (UpdateStorageLocation c l clock s)"
| "exec_catalog (OpDeleteStorage c i) s = fst (DeleteStorageLocation c i s)"
| "exec_catalog (OpCreateCompute c l clock) s = fst (CreateComputeLocation c l clock s)"
| "exec_catalog (OpUpdateCompute c l clock) s = fst (UpdateComputeLocation c l clock s)"
| "exec_catalog (OpDeleteCompute c i) s = fst (DeleteComputeLocation c i s)"
| "exec_catalog (OpCreateProduct c p clock) s = fst (CreateProduct c p clock s)"
| "exec_catalog (OpUpdateProduct c p) s = fst (UpdateProduct c p s)"
| "exec_catalog (OpDeleteProduct c name) s = fst (DeleteProduct c name s)"
| "exec_catalog (OpAudit c e) s = fst (AppendAuditEntry c e s)"
| "exec_catalog (OpBrokerIdentity c i) s = fst (SetBrokerIdentity c i s)"

primrec exec_account :: "account_op \<Rightarrow> store \<Rightarrow> store" where
  "exec_account (OpCreateUser c u clock) s = fst (CreateUser c u clock s)"
| "exec_account (OpUpdateUser c u clock) s = fst (UpdateUser c u clock s)"
| "exec_account (OpUpdateUserKeepingAdmin c u clock) s = fst (UpdateUserKeepingAdmin c u clock s)"
| "exec_account (OpSetPassword c i h clock) s = fst (SetUserPassword c i h clock s)"
| "exec_account (OpSetPasswordEvict c i h clock) s = fst (SetUserPasswordAndEvictSessions c i h clock s)"
| "exec_account (OpSetDisplayName c i n clock) s = fst (SetUserDisplayName c i n clock s)"
| "exec_account (OpDeleteUser c i) s = fst (DeleteUser c i s)"
| "exec_account (OpCreateSession c x) s = fst (CreateSession c x s)"
| "exec_account (OpDeleteSession c i) s = fst (DeleteSession c i s)"
| "exec_account (OpExpireSessions c now) s = fst (DeleteExpiredSessions c now s)"
| "exec_account (OpCreateKey c k) s = fst (CreateAPIKey c k s)"
| "exec_account (OpRevokeKey c i u now) s = fst (RevokeAPIKey c i u now s)"
| "exec_account (OpTouchKey c i now) s = fst (TouchAPIKeyLastUsed c i now s)"
| "exec_account (OpCreateCredential c x) s = fst (CreateWorkerCredential c x s)"
| "exec_account (OpRevokeCredential c w at) s = fst (RevokeWorkerCredential c w at s)"
| "exec_account (OpTouchCredential c w at) s = fst (TouchWorkerCredential c w at s)"
| "exec_account (OpCreateToken c x) s = fst (CreateWorkerJoinToken c x s)"
| "exec_account (OpUseToken c i at) s = fst (MarkWorkerJoinTokenUsed c i at s)"
| "exec_account (OpRedeemToken c h now x) s = fst (RedeemWorkerJoinToken c h now x s)"

primrec exec :: "store_op \<Rightarrow> store \<Rightarrow> store" where
  "exec (AttemptOp op) s = exec_attempt op s"
| "exec (StepOp op) s = exec_step op s"
| "exec (JobOp op) s = exec_job op s"
| "exec (WorkerOp op) s = exec_worker op s"
| "exec (ConfigOp op) s = exec_config op s"
| "exec (LeaderOp op) s = exec_leader op s"
| "exec (CatalogOp op) s = exec_catalog op s"
| "exec (AccountOp op) s = exec_account op s"

text \<open>
  What the callers of the store guarantee: a lease names a fresh attempt ID (the scheduler draws a
  random one), a completion carries a terminal attempt status, a task is requeued only once its
  attempt is closed (\<^verbatim>\<open>handleTaskFailure\<close> records the failure first), and a submission is the
  submitter's.  Nothing is asked of the other operations.
\<close>

definition op_ok :: "store_op \<Rightarrow> store \<Rightarrow> bool" where
  "op_ok op s \<longleftrightarrow>
     (case op of
        AttemptOp (OpLease c req) \<Rightarrow> tget (st_taskAttempts s) (req_AttemptID req) = None
      | AttemptOp (OpComplete c ac clock) \<Rightarrow> ac_AttemptStatus ac \<noteq> AttemptStatusRunning
      | AttemptOp (OpRequeue c tid aid after now) \<Rightarrow>
          (case tget (st_taskAttempts s) aid of
             Some a \<Rightarrow> att_Status a \<noteq> AttemptStatusRunning | None \<Rightarrow> True)
      | JobOp (OpSubmit c sub clock) \<Rightarrow> submission_ok sub
      | _ \<Rightarrow> True)"

abbreviation reachable :: "store \<Rightarrow> bool" where
  "reachable \<equiv> reach New exec op_ok"

text \<open>Every operation is a move of rows but those that insert or delete some or move a job to another
  queue.\<close>

definition restructures :: "store_op \<Rightarrow> bool" where
  "restructures op \<longleftrightarrow>
     (case op of
        AttemptOp (OpLease _ _) \<Rightarrow> True
      | JobOp (OpSubmit _ _ _) \<Rightarrow> True
      | JobOp (OpUpdateJob _ _ _) \<Rightarrow> True
      | JobOp (OpDeleteJob _ _) \<Rightarrow> True
      | JobOp (OpExpireJobs _ _ _) \<Rightarrow> True
      | _ \<Rightarrow> False)"

definition is_retry :: "store_op \<Rightarrow> bool" where
  "is_retry op \<longleftrightarrow> (case op of StepOp (OpRetry _ _ _ _) \<Rightarrow> True | _ \<Rightarrow> False)"

definition opens_step :: "store_op \<Rightarrow> bool" where
  "opens_step op \<longleftrightarrow>
     (case op of StepOp (OpReleaseStep _ _ _) \<Rightarrow> True | StepOp (OpFinalizeStep _ _ _) \<Rightarrow> True | _ \<Rightarrow> False)"

definition finalizes_job :: "store_op \<Rightarrow> bool" where
  "finalizes_job op \<longleftrightarrow> (case op of StepOp (OpFinalizeJob _ _ _) \<Rightarrow> True | _ \<Rightarrow> False)"

lemmas op_kind_defs = restructures_def is_retry_def opens_step_def finalizes_job_def op_ok_def

lemmas op_moves = CompleteTaskAttempt_move CancelTaskExecution_move CancelJobExecution_move
  ReclaimStaleAssignedTasks_move StartTaskAttempt_move RecordAttemptProgress_move
  ReclaimTaskAttempt_move RecordTaskFailure_move SetTaskUnschedulableReason_move FinalizeStep_move
  FinalizeJob_move ReleaseStep_move CancelPendingStep_move ReleaseBlockedJob_move
  CancelBlockedJob_move PromoteJobRunning_move PauseJob_move ParkJob_move ResumeJob_move
  CancelJobStatus_move DemoteStalledJobs_move RegisterWorker_move
  OfflineStaleWorker_move OfflineWorker_move

text \<open>The catalogue and the accounts are tables of their own: their operations leave every other table
  as it is.\<close>

definition core_part :: "store \<Rightarrow> store" where
  "core_part s = s\<lparr>st_lastStamp := 0, st_storageLocations := [], st_computeLocations := [], st_products := [],
     st_auditEntries := [], st_users := [], st_sessions := [], st_apiKeys := [], st_workerCredentials := [],
     st_workerJoinTokens := [], st_brokerIdentity := []\<rparr>"

lemmas catalog_defs = CreateStorageLocation_def UpdateStorageLocation_def DeleteStorageLocation_def
  CreateComputeLocation_def UpdateComputeLocation_def DeleteComputeLocation_def CreateProduct_def
  UpdateProduct_def DeleteProduct_def AppendAuditEntry_def SetBrokerIdentity_def

lemmas account_defs = CreateUser_def UpdateUser_def UpdateUserKeepingAdmin_def SetUserPassword_def
  SetUserPasswordAndEvictSessions_def SetUserDisplayName_def DeleteUser_def CreateSession_def
  DeleteSession_def DeleteExpiredSessions_def CreateAPIKey_def RevokeAPIKey_def
  TouchAPIKeyLastUsed_def CreateWorkerCredential_def RevokeWorkerCredential_def
  TouchWorkerCredential_def CreateWorkerJoinToken_def MarkWorkerJoinTokenUsed_def
  RedeemWorkerJoinToken_def updateUserLocked_def

lemma core_part_catalog: "core_part (exec_catalog op s) = core_part s"
  by (cases op) (simp_all, simp_all add: catalog_defs fenced_def stampLocked_def Let_def case_prod_unfold core_part_def
      split: option.split)

lemma core_part_account: "core_part (exec_account op s) = core_part s"
  by (cases op) (simp_all, simp_all add: account_defs fenced_def Let_def case_prod_unfold core_part_def
      split: option.split)

lemma core_part_fields:
  assumes "core_part s' = core_part s"
  shows "st_tasks s' = st_tasks s" "st_taskAttempts s' = st_taskAttempts s" "st_usageClaims s' = st_usageClaims s"
    "st_steps s' = st_steps s" "st_jobs s' = st_jobs s" "st_jobDependencies s' = st_jobDependencies s"
    "st_farms s' = st_farms s" "st_queues s' = st_queues s" "st_usagePools s' = st_usagePools s"
    "st_workers s' = st_workers s" "st_taskLogs s' = st_taskLogs s" "st_leadership s' = st_leadership s"
  using arg_cong [OF assms, of st_tasks] arg_cong [OF assms, of st_taskAttempts]
    arg_cong [OF assms, of st_usageClaims] arg_cong [OF assms, of st_steps] arg_cong [OF assms, of st_jobs]
    arg_cong [OF assms, of st_jobDependencies] arg_cong [OF assms, of st_farms] arg_cong [OF assms, of st_queues]
    arg_cong [OF assms, of st_usagePools] arg_cong [OF assms, of st_workers] arg_cong [OF assms, of st_taskLogs]
    arg_cong [OF assms, of st_leadership]
  by (simp_all add: core_part_def)

lemma core_part_same_exec: "core_part s' = core_part s \<Longrightarrow> same_exec s s'"
  unfolding same_exec_def by (intro conjI) (erule core_part_fields)+

lemma exec_attempt_moves:
  assumes inv: "exec_inv s" and ok: "op_ok (AttemptOp op) s" and "\<not> restructures (AttemptOp op)"
  shows "sound_move task_gated step_gated job_legal s (exec_attempt op s)"
proof (cases op)
  case (OpRequeue c tid aid after now)
  then show ?thesis
    using RequeueTaskForRetry_move [OF inv, of aid] ok by (auto simp: op_ok_def split: option.splits)
qed (use assms in \<open>simp_all add: op_kind_defs op_moves\<close>)

lemma exec_gated:
  assumes inv: "exec_inv s" and ok: "op_ok op s" and no: "\<not> restructures op" "\<not> is_retry op"
    "\<not> opens_step op" "\<not> finalizes_job op"
  shows "sound_move task_gated step_gated job_legal s (exec op s)"
proof (cases op)
  case (AttemptOp a)
  then show ?thesis using exec_attempt_moves [OF inv] ok no by simp
next
  case (StepOp a)
  then show ?thesis using inv no by (cases a) (simp_all add: op_kind_defs op_moves)
next
  case (JobOp a)
  then show ?thesis using inv no by (cases a) (simp_all add: op_kind_defs op_moves)
next
  case (WorkerOp a)
  then show ?thesis
    using inv by (cases a) (simp_all add: op_moves same_exec_move admin_same_exec)
next
  case (ConfigOp a)
  then show ?thesis using inv by (cases a) (simp_all add: same_exec_move admin_same_exec)
next
  case (LeaderOp a)
  then show ?thesis using inv by (cases a) (simp_all add: same_exec_move admin_same_exec)
qed (simp_all add: inv same_exec_move core_part_same_exec [OF core_part_catalog]
    core_part_same_exec [OF core_part_account])

lemma exec_opens:
  assumes "exec_inv s" "opens_step op"
  shows "sound_move task_unleased step_arrow job_legal s (exec op s)"
proof (cases op)
  case (StepOp a)
  then show ?thesis
    using assms sound_move_mono [OF FinalizeStep_move [OF assms(1)], where R' = task_unleased and
        Q' = step_arrow and P' = job_legal]
    by (cases a) (simp_all add: opens_step_def op_moves task_gated_def)
qed (use assms in \<open>simp_all add: opens_step_def\<close>)

lemma exec_finalizes:
  assumes "exec_inv s" "finalizes_job op"
  shows "sound_move task_gated step_gated job_arrow s (exec op s)"
proof (cases op)
  case (StepOp a)
  then show ?thesis using assms by (cases a) (simp_all add: finalizes_job_def op_moves)
qed (use assms in \<open>simp_all add: finalizes_job_def\<close>)

lemma exec_retry_moves:
  assumes "exec_inv s" "is_retry op"
  shows "sound_move retry_arrow step_gated job_legal s (exec op s)"
proof (cases op)
  case (StepOp a)
  then show ?thesis using assms by (cases a) (simp_all add: is_retry_def RetryTasks_move)
qed (use assms in \<open>simp_all add: is_retry_def\<close>)

lemma exec_moves:
  assumes inv: "exec_inv s" and ok: "op_ok op s" and no: "\<not> restructures op"
  shows "sound_move (\<lambda>a b. task_unleased a b \<or> is_retry op \<and> retry_arrow a b) step_arrow
    (\<lambda>a b. job_legal a b \<or> finalizes_job op \<and> job_arrow a b) s (exec op s)"
proof -
  consider "is_retry op" | "opens_step op" | "finalizes_job op" |
    "\<not> is_retry op" "\<not> opens_step op" "\<not> finalizes_job op" by blast
  then show ?thesis
  proof cases
    case 1
    then show ?thesis
      using sound_move_mono [OF exec_retry_moves [OF inv 1]] by (simp add: step_gated_def)
  next
    case 2
    then show ?thesis
      using sound_move_mono [OF exec_opens [OF inv 2]] by simp
  next
    case 3
    then show ?thesis
      using sound_move_mono [OF exec_finalizes [OF inv 3]] by (simp add: step_gated_def task_gated_def)
  next
    case 4
    then show ?thesis
      using sound_move_mono [OF exec_gated [OF inv ok no 4]] by (simp add: step_gated_def task_gated_def)
  qed
qed

lemma into_known_moves: "into_known (\<lambda>a b. task_unleased a b \<or> P \<and> retry_arrow a b)"
  using into_known_task_legal into_known_retry_arrow unfolding into_known_def task_unleased_def by blast

lemma exec_inv_restructures:
  assumes inv: "exec_inv s" and ok: "op_ok op s" and ad: "restructures op"
  shows "exec_inv (exec op s)"
proof (cases op)
  case (AttemptOp a)
  then show ?thesis using assms by (cases a) (simp_all add: op_kind_defs exec_inv_LeaseTask)
next
  case (JobOp a)
  then show ?thesis
    using assms by (cases a) (simp_all add: op_kind_defs exec_inv_CreateJobSubmission exec_inv_UpdateJob exec_inv_DeleteJob
        exec_inv_DeleteTerminalJobsBefore)
qed (use ad in \<open>simp_all add: restructures_def\<close>)

lemma exec_inv_exec:
  assumes inv: "exec_inv s" and ok: "op_ok op s"
  shows "exec_inv (exec op s)"
  using exec_inv_restructures [OF inv ok] sound_move_inv [OF inv exec_moves [OF inv ok] into_known_moves]
  by (cases "restructures op") auto

interpretation exec_system: invariant_of New exec op_ok exec_inv
  by unfold_locales (simp_all add: exec_inv_New exec_inv_exec)

lemmas reachable_exec_inv = exec_system.reach_inv

end
