(* ===== verification/StoreBlocked.thy ===== *)
theory StoreBlocked
  imports StoreSystem
begin

text \<open>
  Blocked jobs.  A job that waits on another job has only pending and canceled steps and tasks, as
  long as no caller releases one of its steps and a step is finalized only after one of its tasks
  ended.  This is what keeps the job table's claim that a blocked job never completes or fails.
\<close>

definition held_step :: "step_status \<Rightarrow> bool" where
  "held_step st \<longleftrightarrow> st = StepStatusPending \<or> st = StepStatusCanceled"

definition held_task :: "task_status \<Rightarrow> bool" where
  "held_task st \<longleftrightarrow> st = TaskStatusPending \<or> st = TaskStatusCanceled"

definition blocked_job :: "store \<Rightarrow> string \<Rightarrow> bool" where
  "blocked_job s jid =
     (case tget (st_jobs s) jid of Some j \<Rightarrow> job_Status j = JobStatusBlocked | None \<Rightarrow> False)"

lemma blocked_job_iff:
  "blocked_job s jid \<longleftrightarrow> (\<exists>j. tget (st_jobs s) jid = Some j \<and> job_Status j = JobStatusBlocked)"
  by (simp add: blocked_job_def split: option.split)

definition blocked_ok :: "store \<Rightarrow> bool" where
  "blocked_ok s \<longleftrightarrow> (\<forall>jid. blocked_job s jid \<longrightarrow>
     (\<exists>k st. tget (st_steps s) k = Some st \<and> step_JobID st = jid) \<and>
     (\<forall>k st. tget (st_steps s) k = Some st \<and> step_JobID st = jid \<longrightarrow> held_step (step_Status st)) \<and>
     (\<forall>k t. tget (st_tasks s) k = Some t \<and> task_JobID t = jid \<longrightarrow> held_task (task_Status t)))"

text \<open>What is asked of the callers beyond \<open>op_ok\<close>: they release no step of a blocked job and finalize
  only steps that have tasks (a step always has one after its parameter space is expanded).\<close>

definition sched_ok :: "store_op \<Rightarrow> store \<Rightarrow> bool" where
  "sched_ok op s \<longleftrightarrow> op_ok op s \<and>
     (case op of
        StepOp (OpReleaseStep _ sid _) \<Rightarrow>
          (case tget (st_steps s) sid of Some st \<Rightarrow> \<not> blocked_job s (step_JobID st) | None \<Rightarrow> True)
      | StepOp (OpFinalizeStep _ sid _) \<Rightarrow> stepsWithTasksLocked s sid
      | _ \<Rightarrow> True)"

abbreviation sched_reachable :: "store \<Rightarrow> bool" where
  "sched_reachable \<equiv> reach New exec sched_ok"

lemma sched_reachable_reachable: "sched_reachable s \<Longrightarrow> reachable s"
  by (erule reach_mono) (simp add: sched_ok_def)

section \<open>Preservation\<close>

lemma not_into_blocked: "\<not> job_arrow a JobStatusBlocked" "\<not> job_legal a JobStatusBlocked"
  by (cases a; simp add: job_arrow_def job_legal_cases)+

lemma blocked_job_moves:
  assumes "job_moves P (st_jobs s) (st_jobs s')" "blocked_job s' jid" "\<And>a. \<not> P a JobStatusBlocked"
  shows "blocked_job s jid"
proof -
  from assms(2) obtain j' where j': "tget (st_jobs s') jid = Some j'" "job_Status j' = JobStatusBlocked"
    by (auto simp: blocked_job_iff)
  obtain j where "tget (st_jobs s) jid = Some j" "job_Status j' = job_Status j \<or> P (job_Status j) (job_Status j')"
    using job_movesD' [OF assms(1) j'(1)] by metis
  then show ?thesis using j'(2) assms(3) by (auto simp: blocked_job_iff)
qed

lemma blocked_ok_moves:
  assumes ok: "blocked_ok s" and J: "job_moves P (st_jobs s) (st_jobs s')"
    and P: "\<And>a. \<not> P a JobStatusBlocked"
    and S: "step_moves Q (st_steps s) (st_steps s')" and T: "task_moves R (st_tasks s) (st_tasks s')"
    and hs: "\<And>k st st'. tget (st_steps s) k = Some st \<Longrightarrow> tget (st_steps s') k = Some st' \<Longrightarrow>
      blocked_job s (step_JobID st) \<Longrightarrow> held_step (step_Status st) \<Longrightarrow> held_step (step_Status st')"
    and ht: "\<And>k t t'. tget (st_tasks s) k = Some t \<Longrightarrow> tget (st_tasks s') k = Some t' \<Longrightarrow>
      blocked_job s (task_JobID t) \<Longrightarrow> held_task (task_Status t) \<Longrightarrow> held_task (task_Status t')"
  shows "blocked_ok s'"
  unfolding blocked_ok_def
proof (intro allI impI)
  fix jid assume "blocked_job s' jid"
  then have b: "blocked_job s jid" by (rule blocked_job_moves [OF J _ P])
  from ok b obtain k0 st0 where k0: "tget (st_steps s) k0 = Some st0" "step_JobID st0 = jid"
    unfolding blocked_ok_def by blast
  have hS: "held_step (step_Status st)" if "tget (st_steps s) k = Some st" "step_JobID st = jid" for k st
    using ok b that unfolding blocked_ok_def by blast
  have hT: "held_task (task_Status t)" if "tget (st_tasks s) k = Some t" "task_JobID t = jid" for k t
    using ok b that unfolding blocked_ok_def by blast
  have "\<exists>k st. tget (st_steps s') k = Some st \<and> step_JobID st = jid"
    using step_movesD [OF S k0(1)] k0(2) by metis
  moreover have "held_step (step_Status st')"
    if st': "tget (st_steps s') k = Some st'" "step_JobID st' = jid" for k st'
  proof -
    obtain st where st: "tget (st_steps s) k = Some st" "step_JobID st' = step_JobID st"
      using step_movesD' [OF S st'(1)] by metis
    then show ?thesis using hs [OF st(1) st'(1)] hS [OF st(1)] b st'(2) by simp
  qed
  moreover have "held_task (task_Status t')"
    if t': "tget (st_tasks s') k = Some t'" "task_JobID t' = jid" for k t'
  proof -
    obtain t where t: "tget (st_tasks s) k = Some t" "task_JobID t' = task_JobID t"
      using task_movesD' [OF T t'(1)] by metis
    then show ?thesis using ht [OF t(1) t'(1)] hT [OF t(1)] b t'(2) by simp
  qed
  ultimately show "(\<exists>k st. tget (st_steps s') k = Some st \<and> step_JobID st = jid) \<and>
     (\<forall>k st. tget (st_steps s') k = Some st \<and> step_JobID st = jid \<longrightarrow> held_step (step_Status st)) \<and>
     (\<forall>k t. tget (st_tasks s') k = Some t \<and> task_JobID t = jid \<longrightarrow> held_task (task_Status t))"
    by blast
qed

lemma task_gated_held: "task_gated a b \<Longrightarrow> held_task a \<Longrightarrow> held_task b"
  by (auto simp: task_gated_def task_unleased_def held_task_def task_legal_def ValidateTaskTransition_def
      validTaskTransitions_def)

lemma step_gated_held: "step_gated a b \<Longrightarrow> held_step a \<Longrightarrow> held_step b"
  by (auto simp: step_gated_def step_arrow_def held_step_def)

lemma step_moves_same:
  assumes "step_moves Q S S'" "tget S k = Some st" "tget S' k = Some st'"
  shows "step_Status st' = step_Status st \<or> Q (step_Status st) (step_Status st')"
  using step_movesD [OF assms(1,2)] assms(3) by (metis option.inject)

lemma task_moves_same:
  assumes "task_moves R T T'" "tget T k = Some t" "tget T' k = Some t'"
  shows "task_Status t' = task_Status t \<or> R (task_Status t) (task_Status t')"
  using task_movesD [OF assms(1,2)] assms(3) by (metis option.inject)

lemma blocked_ok_gated:
  assumes "blocked_ok s" "sound_move task_gated step_gated P s s'"
    "\<And>a. \<not> P a JobStatusBlocked"
  shows "blocked_ok s'"
proof -
  from assms(2) have m: "task_moves task_gated (st_tasks s) (st_tasks s')"
    "step_moves step_gated (st_steps s) (st_steps s')" "job_moves P (st_jobs s) (st_jobs s')"
    by (simp_all add: sound_move_def moved_def)
  show ?thesis
    by (rule blocked_ok_moves [OF assms(1) m(3) assms(3) m(2,1)])
      (metis step_moves_same [OF m(2)] step_gated_held, metis task_moves_same [OF m(1)] task_gated_held)
qed

text \<open>The step of a task of a blocked job is a step of that job.\<close>

lemma blocked_task_step:
  assumes "exec_inv s" "blocked_ok s" "tget (st_tasks s) k = Some t" "blocked_job s (task_JobID t)"
  obtains st where "tget (st_steps s) (task_StepID t) = Some st" "step_JobID st = task_JobID t"
    "held_step (step_Status st)"
  using assms unfolding exec_inv_def refs_ok_def blocked_ok_def by metis

lemma RetryTasks_tasks:
  "st_tasks (fst (RetryTasks ctx jid ids now s)) =
     (if fenceLocked ctx s = None
      then tsweep (\<lambda>i t. if retryHit jid ids i t then reviveTaskRow s now t else t) (st_tasks s)
      else st_tasks s)"
  by (auto simp: RetryTasks_def fenced_def Let_def retryResetJobLocked_def split: option.split)

lemma blocked_ok_retry:
  assumes inv: "exec_inv s" and ok: "blocked_ok s"
  shows "blocked_ok (fst (RetryTasks ctx jid ids now s))" (is "blocked_ok ?s'")
proof -
  from RetryTasks_move [OF inv] have m: "task_moves retry_arrow (st_tasks s) (st_tasks ?s')"
    "step_moves step_gated (st_steps s) (st_steps ?s')" "job_moves job_legal (st_jobs s) (st_jobs ?s')"
    by (simp_all add: sound_move_def moved_def)
  show ?thesis
  proof (rule blocked_ok_moves [OF ok m(3) not_into_blocked(2) m(2,1)])
    fix k t t'
    assume t: "tget (st_tasks s) k = Some t" "tget (st_tasks ?s') k = Some t'"
      and b: "blocked_job s (task_JobID t)" and h: "held_task (task_Status t)"
    obtain st where st: "tget (st_steps s) (task_StepID t) = Some st" "held_step (step_Status st)"
      using blocked_task_step [OF inv ok t(1) b] by metis
    then have "revivedStatusLocked s (task_StepID t) = TaskStatusPending"
      by (auto simp: revivedStatusLocked_def held_step_def)
    then show "held_task (task_Status t')"
      using t h by (auto simp: RetryTasks_tasks held_task_def split: if_splits)
  qed (metis step_moves_same [OF m(2)] step_gated_held)
qed

lemma FinalizeStep_steps:
  assumes "tget (st_steps s) k = Some st" "tget (st_steps (fst (FinalizeStep ctx sid now s))) k = Some st'"
  shows "st' = st \<or> k = sid \<and> stepOutcomeLocked s sid = Some (step_Status st')"
  using assms by (auto simp: FinalizeStep_def fenced_def split: option.splits if_splits)

lemma stepOutcome_held:
  assumes "\<And>t. t \<in> set (trows (st_tasks s)) \<Longrightarrow> task_StepID t = sid \<Longrightarrow> held_task (task_Status t)"
    and "stepsWithTasksLocked s sid" and "stepOutcomeLocked s sid = Some out"
  shows "out = StepStatusCanceled"
proof -
  have "\<not> list_ex (\<lambda>t. task_StepID t = sid \<and> \<not> terminalTask (task_Status t)) (trows (st_tasks s))"
    using assms(3) by (auto simp: stepOutcomeLocked_def stepOutcome_scan_eq split: if_splits)
  then have c: "task_Status t = TaskStatusCanceled"
    if "t \<in> set (trows (st_tasks s))" "task_StepID t = sid" for t
    using assms(1) [OF that] that by (auto simp: list_ex_iff held_task_def)
  obtain t where "t \<in> set (trows (st_tasks s))" "task_StepID t = sid"
    using assms(2) by (auto simp: stepsWithTasksLocked_def)
  then show ?thesis
    using c assms(3) by (fastforce simp: stepOutcomeLocked_def stepOutcome_scan_eq list_ex_iff split: if_splits)
qed

lemma blocked_ok_finalize:
  assumes inv: "exec_inv s" and ok: "blocked_ok s" and has: "stepsWithTasksLocked s sid"
  shows "blocked_ok (fst (FinalizeStep ctx sid now s))" (is "blocked_ok ?s'")
proof -
  from FinalizeStep_move [OF inv] have m: "task_moves task_gated (st_tasks s) (st_tasks ?s')"
    "step_moves step_arrow (st_steps s) (st_steps ?s')" "job_moves job_legal (st_jobs s) (st_jobs ?s')"
    by (simp_all add: sound_move_def moved_def)
  show ?thesis
  proof (rule blocked_ok_moves [OF ok m(3) not_into_blocked(2) m(2,1)])
    fix k st st'
    assume st: "tget (st_steps s) k = Some st" "tget (st_steps ?s') k = Some st'"
      and b: "blocked_job s (step_JobID st)" and h: "held_step (step_Status st)"
    have held: "held_task (task_Status t)"
      if t: "t \<in> set (trows (st_tasks s))" "task_StepID t = k" for t
    proof -
      obtain i where i: "tget (st_tasks s) i = Some t"
        using t(1) exec_inv_table_ok [OF inv] by (auto simp: trows_iff)
      then have "task_JobID t = step_JobID st"
        using inv st(1) t(2) unfolding exec_inv_def refs_ok_def by fastforce
      then show ?thesis using ok b i unfolding blocked_ok_def by metis
    qed
    show "held_step (step_Status st')"
      using FinalizeStep_steps [OF st] h stepOutcome_held [of s k] held has
      by (auto simp: held_step_def)
  qed (metis task_moves_same [OF m(1)] task_gated_held)
qed

lemma blocked_ok_release:
  assumes inv: "exec_inv s" and ok: "blocked_ok s"
    and nb: "\<And>st. tget (st_steps s) sid = Some st \<Longrightarrow> \<not> blocked_job s (step_JobID st)"
  shows "blocked_ok (fst (ReleaseStep ctx sid now s))" (is "blocked_ok ?s'")
proof -
  from ReleaseStep_move [OF inv] have m: "task_moves task_unleased (st_tasks s) (st_tasks ?s')"
    "step_moves step_arrow (st_steps s) (st_steps ?s')" "job_moves job_legal (st_jobs s) (st_jobs ?s')"
    by (simp_all add: sound_move_def moved_def)
  have same_step: "st' = st" if "tget (st_steps s) k = Some st" "tget (st_steps ?s') k = Some st'" "k \<noteq> sid"
    for k st st'
    using that by (auto simp: ReleaseStep_def movePendingStep_def fenced_def transitionPendingTasksLocked_def
        case_prod_unfold Let_def split: option.splits if_splits)
  have same_task: "t' = t" if "tget (st_tasks s) k = Some t" "tget (st_tasks ?s') k = Some t'" "task_StepID t \<noteq> sid"
    for k t t'
    using that by (auto simp: ReleaseStep_def movePendingStep_def fenced_def transitionPendingTasksLocked_def
        transitionPendingTasksWhereLocked_def case_prod_unfold Let_def split: option.splits if_splits)
  show ?thesis
  proof (rule blocked_ok_moves [OF ok m(3) not_into_blocked(2) m(2,1)])
    fix k st st' assume "tget (st_steps s) k = Some st" "tget (st_steps ?s') k = Some st'"
      "blocked_job s (step_JobID st)" "held_step (step_Status st)"
    then show "held_step (step_Status st')" using same_step nb by metis
  next
    fix k t t' assume t: "tget (st_tasks s) k = Some t" "tget (st_tasks ?s') k = Some t'"
      "blocked_job s (task_JobID t)" "held_task (task_Status t)"
    then show "held_task (task_Status t')"
      using blocked_task_step [OF inv ok t(1,3)] same_task nb by metis
  qed
qed

section \<open>Insertions and deletions\<close>

lemma blocked_ok_LeaseTask:
  assumes inv: "exec_inv s" and ok: "blocked_ok s"
  shows "blocked_ok (fst (LeaseTask ctx req s))"
proof (cases "\<exists>s' res. LeaseTask ctx req s = (s', Inr res) \<and> res_Outcome res = LeaseLeased")
  case True
  then obtain s' res where l: "LeaseTask ctx req s = (s', Inr res)" "res_Outcome res = LeaseLeased"
    by blast
  obtain t j where g: "lease_granted req s t j"
    and s': "s' = fst (leaseWrite req t (sort_key upc_PoolID (req_Claims req)) s)"
    by (rule LeaseTask_leased [OF l])
  then have t: "tget (st_tasks s) (req_TaskID req) = Some t" and r: "task_Status t = TaskStatusReady"
    using leasableLocked_Ready by (auto simp: lease_granted_def)
  note tid = exec_inv_taskID [OF inv t]
  have T: "st_tasks s' = tput (task_ID t) (leaseTaskRow req t) (st_tasks s)"
    "st_steps s' = st_steps s" "st_jobs s' = st_jobs s"
    by (simp_all add: s' leaseWrite_def Let_def)
  have "blocked_ok s'"
  proof (rule blocked_ok_moves [OF ok, where P = job_legal and Q = "\<lambda>_ _. False" and R = "\<lambda>_ _. True"])
    show "task_moves (\<lambda>_ _. True) (st_tasks s) (st_tasks s')"
      using t tid by (auto simp: T intro!: task_moves_tput)
  next
    fix k u u' assume "tget (st_tasks s) k = Some u" "tget (st_tasks s') k = Some u'"
      "held_task (task_Status u)"
    then show "held_task (task_Status u')"
      using t tid r by (auto simp: T held_task_def split: if_splits)
  qed (simp_all add: T not_into_blocked)
  then show ?thesis using l by simp
next
  case False
  then have "fst (LeaseTask ctx req s) = s"
    using LeaseTask_not_leased [of ctx req s "fst (LeaseTask ctx req s)" "snd (LeaseTask ctx req s)"]
    by (metis prod.collapse)
  then show ?thesis using ok by simp
qed

lemma blocked_ok_adds_job:
  assumes inv: "exec_inv s" and ok: "blocked_ok s" and ad: "adds_job jid s s'"
  shows "blocked_ok s'"
  unfolding blocked_ok_def
proof (intro allI impI)
  note ad = adds_jobD [OF ad]
  note T = adds_rowsD [OF ad(4)] and S = adds_rowsD [OF ad(5)] and J = adds_rowsD [OF ad(6)]
  fix i assume b: "blocked_job s' i"
  have no_old: "step_JobID st \<noteq> jid" if "tget (st_steps s) k = Some st" for k st
    using inv that ad(1) unfolding exec_inv_def refs_ok_def by fastforce
  have no_old_task: "task_JobID t \<noteq> jid" if "tget (st_tasks s) k = Some t" for k t
    using inv that no_old unfolding exec_inv_def refs_ok_def by metis
  have old: "blocked_job s i" if "i \<noteq> jid"
    using b J(2) that unfolding blocked_job_iff new_job_row_def by blast
  have step: "held_step (step_Status st)" if st: "tget (st_steps s') k = Some st" "step_JobID st = i" for k st
  proof (cases "i = jid")
    case True
    then have "new_step_row s' jid k st" using S(2) [OF st(1)] no_old st(2) by blast
    then show ?thesis using b True unfolding new_step_row_def blocked_job_iff held_step_def by blast
  next
    case False
    then have "tget (st_steps s) k = Some st" using S(2) [OF st(1)] st(2) unfolding new_step_row_def by blast
    then show ?thesis using ok old [OF False] st(2) unfolding blocked_ok_def by blast
  qed
  have task: "held_task (task_Status t)" if t: "tget (st_tasks s') k = Some t" "task_JobID t = i" for k t
  proof (cases "i = jid")
    case True
    then have "new_task_row s' jid k t" using T(2) [OF t(1)] no_old_task t(2) by blast
    then obtain st where "tget (st_steps s') (task_StepID t) = Some st" "step_JobID st = jid"
      "task_Status t = (if step_Status st = StepStatusReady then TaskStatusReady else TaskStatusPending)"
      unfolding new_task_row_def by blast
    then show ?thesis using step [of "task_StepID t" st] True by (auto simp: held_step_def held_task_def)
  next
    case False
    then have "tget (st_tasks s) k = Some t" using T(2) [OF t(1)] t(2) unfolding new_task_row_def by blast
    then show ?thesis using ok old [OF False] t(2) unfolding blocked_ok_def by blast
  qed
  have "\<exists>k st. tget (st_steps s') k = Some st \<and> step_JobID st = i"
  proof (cases "i = jid")
    case False
    then show ?thesis using ok old [OF False] S(1) unfolding blocked_ok_def by blast
  qed (use ad(3) in simp)
  then show "(\<exists>k st. tget (st_steps s') k = Some st \<and> step_JobID st = i) \<and>
     (\<forall>k st. tget (st_steps s') k = Some st \<and> step_JobID st = i \<longrightarrow> held_step (step_Status st)) \<and>
     (\<forall>k t. tget (st_tasks s') k = Some t \<and> task_JobID t = i \<longrightarrow> held_task (task_Status t))"
    using step task by blast
qed

lemma blocked_ok_CreateJobSubmission:
  assumes inv: "exec_inv s" and ok: "blocked_ok s" and sub: "submission_ok sub"
  shows "blocked_ok (fst (CreateJobSubmission ctx sub clock s))"
proof (cases "CreateJobSubmission ctx sub clock s")
  case (Pair s' r)
  then show ?thesis
    using CreateJobSubmission_refused [of ctx sub clock s s'] ok
      blocked_ok_adds_job [OF inv ok CreateJobSubmission_adds [OF _ sub]] by (cases r) auto
qed

lemma blocked_ok_deleteJobLocked:
  assumes inv: "exec_inv s" and ok: "blocked_ok s"
  shows "blocked_ok (deleteJobLocked jid s)"
  unfolding blocked_ok_def
proof (intro allI impI)
  note get = deleteJobLocked_get [OF inv]
  fix i assume "blocked_job (deleteJobLocked jid s) i"
  then have b: "blocked_job s i" "i \<noteq> jid" unfolding blocked_job_iff get by blast+
  then show "(\<exists>k st. tget (st_steps (deleteJobLocked jid s)) k = Some st \<and> step_JobID st = i) \<and>
     (\<forall>k st. tget (st_steps (deleteJobLocked jid s)) k = Some st \<and> step_JobID st = i \<longrightarrow>
        held_step (step_Status st)) \<and>
     (\<forall>k t. tget (st_tasks (deleteJobLocked jid s)) k = Some t \<and> task_JobID t = i \<longrightarrow>
        held_task (task_Status t))"
    using ok unfolding blocked_ok_def get by blast
qed

lemma blocked_ok_deleteExpired:
  "exec_inv s \<Longrightarrow> blocked_ok s \<Longrightarrow> blocked_ok (fst (deleteExpired cutoff b ids s))"
  using deleteExpired_steps [of "\<lambda>s. exec_inv s \<and> blocked_ok s" s cutoff b ids]
  by (simp add: exec_inv_deleteJobLocked blocked_ok_deleteJobLocked)

lemma blocked_ok_UpdateJob:
  assumes inv: "exec_inv s" and ok: "blocked_ok s"
  shows "blocked_ok (fst (UpdateJob ctx job clock s))" (is "blocked_ok ?s'")
proof -
  obtain j' where u: "?s' =
      s\<lparr>st_jobs := (case tget (st_jobs s) (job_ID job) of
          None \<Rightarrow> st_jobs s
        | Some j \<Rightarrow> if fenceLocked ctx s = None then tput (job_ID job) j' (st_jobs s) else st_jobs s)\<rparr>"
    "\<forall>j. tget (st_jobs s) (job_ID job) = Some j \<longrightarrow> job_Status j' = job_Status j"
    using UpdateJob_jobs [OF inv] by metis
  have "blocked_job ?s' jid \<longleftrightarrow> blocked_job s jid" for jid
    unfolding u(1) using u(2) by (auto simp: blocked_job_iff split: option.splits)
  moreover have "st_steps ?s' = st_steps s" "st_tasks ?s' = st_tasks s"
    unfolding u(1) by simp_all
  ultimately show ?thesis using ok unfolding blocked_ok_def by (simp only:)
qed

section \<open>Every operation\<close>

lemma blocked_ok_exec:
  assumes inv: "exec_inv s" and ok: "blocked_ok s" and op: "sched_ok op s"
  shows "blocked_ok (exec op s)"
proof -
  have opk: "op_ok op s" using op by (simp add: sched_ok_def)
  consider "restructures op" | "is_retry op" | "opens_step op" | "finalizes_job op" |
    "\<not> restructures op" "\<not> is_retry op" "\<not> opens_step op" "\<not> finalizes_job op" by blast
  then show ?thesis
  proof cases
    case 1
    then consider c r where "op = AttemptOp (OpLease c r)" | c sub t where "op = JobOp (OpSubmit c sub t)" |
      c job t where "op = JobOp (OpUpdateJob c job t)" | c jid where "op = JobOp (OpDeleteJob c jid)" | c t b where "op = JobOp (OpExpireJobs c t b)"
      by (auto simp: restructures_def split: store_op.splits attempt_op.splits job_op.splits)
    then show ?thesis
      using inv ok opk
      by cases (auto simp: op_ok_def blocked_ok_LeaseTask blocked_ok_CreateJobSubmission
          blocked_ok_UpdateJob DeleteJob_def
          DeleteTerminalJobsBefore_def fenced_def blocked_ok_deleteJobLocked blocked_ok_deleteExpired
          case_prod_unfold Let_def split: option.split)
  next
    case 2
    then show ?thesis
      using blocked_ok_retry [OF inv ok]
      by (auto simp: is_retry_def split: store_op.splits step_op.splits)
  next
    case 3
    then consider c sid t where "op = StepOp (OpReleaseStep c sid t)" | c sid t where "op = StepOp (OpFinalizeStep c sid t)"
      by (auto simp: opens_step_def split: store_op.splits step_op.splits)
    then show ?thesis
      using op blocked_ok_finalize [OF inv ok]
      by cases (auto simp: sched_ok_def intro!: blocked_ok_release [OF inv ok] split: option.splits)
  next
    case 4
    then show ?thesis
      by (rule blocked_ok_gated [OF ok exec_finalizes [OF inv] not_into_blocked(1)])
  next
    case 5
    then show ?thesis
      by (rule blocked_ok_gated [OF ok exec_gated [OF inv opk] not_into_blocked(2)])
  qed
qed

interpretation sched_system: invariant_under New exec sched_ok exec_inv blocked_ok
proof unfold_locales
  show "exec_inv (exec op s)" if "exec_inv s" "sched_ok op s" for s op
    using that by (simp add: sched_ok_def exec_inv_exec)
  show "blocked_ok New" by (simp add: blocked_ok_def blocked_job_iff New_def)
qed (simp_all add: exec_inv_New blocked_ok_exec)

lemma sched_reachable_blocked_ok: "sched_reachable s \<Longrightarrow> blocked_ok s"
  using sched_system.both.reach_inv by blast

end
