(* ===== verification/StoreFrame.thy ===== *)
theory StoreFrame
  imports StoreSystem
begin

text \<open>
  What the execution operations leave alone: no operation on attempts, steps, jobs or workers
  writes the configuration (farms, queues, usage pools) or the leader lease, and no configuration
  operation writes the leader lease.
\<close>

lemmas frame_simps = Let_def case_prod_unfold

text \<open>A view of the store that none of the execution tables show in.\<close>

locale blind =
  fixes proj :: "store \<Rightarrow> 'a"
  assumes blind_updates [simp]:
    "proj (s\<lparr>st_tasks := T\<rparr>) = proj s" "proj (s\<lparr>st_jobs := J\<rparr>) = proj s"
    "proj (s\<lparr>st_steps := S\<rparr>) = proj s" "proj (s\<lparr>st_taskAttempts := A\<rparr>) = proj s"
    "proj (s\<lparr>st_usageClaims := C\<rparr>) = proj s" "proj (s\<lparr>st_workers := W\<rparr>) = proj s"
    "proj (s\<lparr>st_jobDependencies := D\<rparr>) = proj s" "proj (s\<lparr>st_taskLogs := L\<rparr>) = proj s"
    "proj (s\<lparr>st_lastStamp := n\<rparr>) = proj s"
begin

lemma proj_helpers [simp]:
  "proj (fst (releaseAttemptClaimsLocked aid at s)) = proj s"
  "proj (closeRunningAttemptLocked c at s) = proj s"
  "proj (closeAttemptsAndReleaseClaimsLocked p st m at s) = proj s"
  "proj (cancelTaskRowLocked tid r at b s) = proj s"
  "proj (fst (transitionPendingTasksWhereLocked match to r at s)) = proj s"
  "proj (fst (transitionPendingTasksLocked sid to r at s)) = proj s"
  "proj (cancelJobFinalizeStepsLocked jid at s) = proj s"
  "proj (deleteJobLocked jid s) = proj s"
  "proj (insertJob sub at s) = proj s"
  "proj (fst (leaseWrite req t cs s)) = proj s"
  by (simp_all add: releaseAttemptClaimsLocked_eq closeRunningAttemptLocked_eq
      closeAttemptsAndReleaseClaimsLocked_eq cancelTaskRowLocked_def
      transitionPendingTasksWhereLocked_def transitionPendingTasksLocked_def
      cancelJobFinalizeStepsLocked_def deleteJobLocked_def insertJob_def leaseWrite_def Let_def)

lemma proj_cancelJobRowLocked [simp]: "proj (cancelJobRowLocked jid at s) = proj s"
  by (simp add: cancelJobRowLocked_def split: option.split)

lemma proj_retryResetJobLocked [simp]: "proj (retryResetJobLocked jid at s) = proj s"
  by (simp add: retryResetJobLocked_def Let_def split: option.split)

lemma proj_reclaimToReadyLocked [simp]:
  "proj (fst (reclaimToReadyLocked match m at s)) = proj s"
  by (simp add: reclaimToReadyLocked_def Let_def)

lemma proj_reclaimWorkerTasksLocked [simp]:
  "proj (fst (reclaimWorkerTasksLocked wid m at s)) = proj s"
  by (simp add: reclaimWorkerTasksLocked_def)

lemma proj_insertSteps [simp]: "proj (fst (insertSteps clock sts s)) = proj s"
  by (induction clock sts s rule: insertSteps.induct) (simp_all add: stampLocked_def Let_def case_prod_unfold)

lemma proj_insertTasks [simp]: "proj (fst (insertTasks clock ts s)) = proj s"
  by (induction clock ts s rule: insertTasks.induct) (simp_all add: stampLocked_def Let_def case_prod_unfold)

lemma proj_deleteExpired [simp]: "proj (fst (deleteExpired cutoff b ids s)) = proj s"
  by (rule deleteExpired_steps) simp_all

lemma proj_exec_attempt: "proj (exec_attempt op s) = proj s"
  by (cases op)
    (simp_all, simp_all add: LeaseTask_def CompleteTaskAttempt_def CancelTaskExecution_def
      ReclaimStaleAssignedTasks_def StartTaskAttempt_def RecordAttemptProgress_def ReclaimTaskAttempt_def
      RecordTaskFailure_def RequeueTaskForRetry_def SetTaskUnschedulableReason_def fenced_def frame_simps
      split: option.split sum.split)

lemma proj_exec_step: "proj (exec_step op s) = proj s"
  by (cases op)
    (simp_all, simp_all add: CancelJobExecution_def RetryTasks_def FinalizeStep_def FinalizeJob_def
      ReleaseStep_def CancelPendingStep_def movePendingStep_def ReleaseBlockedJob_def CancelBlockedJob_def
      fenced_def frame_simps split: option.split)

lemma proj_exec_job: "proj (exec_job op s) = proj s"
  by (cases op)
    (simp_all, simp_all add: PromoteJobRunning_def PauseJob_def ParkJob_def ResumeJob_def
      CancelJobStatus_def UpdateJob_def DemoteStalledJobs_def CreateJobSubmission_def DeleteJob_def
      DeleteTerminalJobsBefore_def fenced_def frame_simps split: option.split)

lemma proj_exec_worker: "proj (exec_worker op s) = proj s"
  by (cases op)
    (simp_all, simp_all add: RegisterWorker_def OfflineStaleWorker_def OfflineWorker_def
      offlineWorkerLocked_def SetWorkerDisabled_def UpdateWorkerHeartbeat_def DeleteWorkerIfRemovable_def
      DeleteOfflineWorkersBefore_def fenced_def frame_simps split: option.split)

end

definition admin_part :: "store \<Rightarrow> Farm table \<times> Queue table \<times> UsagePool table \<times> leadershipState" where
  "admin_part s = (st_farms s, st_queues s, st_usagePools s, st_leadership s)"

definition account_part ::
  "store \<Rightarrow> User table \<times> Session table \<times> APIKey table \<times> WorkerCredential table \<times> WorkerJoinToken table" where
  "account_part s = (st_users s, st_sessions s, st_apiKeys s, st_workerCredentials s, st_workerJoinTokens s)"

interpretation admin: blind admin_part
  by unfold_locales (simp_all add: admin_part_def)

interpretation account: blind account_part
  by unfold_locales (simp_all add: account_part_def)

section \<open>The operations\<close>

lemma account_part_exec_config: "account_part (exec_config op s) = account_part s"
  by (cases op)
    (simp_all, simp_all add: CreateFarm_def UpdateFarm_def DeleteFarm_def CreateQueue_def UpdateQueue_def
      DeleteQueue_def CreateUsagePool_def UpdateUsagePool_def DeleteUsagePool_def CreateTaskLog_def
      stampLocked_def fenced_def frame_simps account_part_def split: option.split)

lemma account_part_exec_leader: "account_part (exec_leader op s) = account_part s"
  by (cases op) (simp_all add: account_part_def AcquireLeadership_def RenewLeadership_def
      ReleaseLeadership_def UpsertServerMember_def DeleteServerMembersUnseenFor_def frame_simps
      split: sum.split option.split)

lemma account_part_exec_catalog: "account_part (exec_catalog op s) = account_part s"
  by (cases op) (simp_all, simp_all add: catalog_defs fenced_def stampLocked_def frame_simps account_part_def
      split: option.split)

lemma account_part_exec: "(\<And>a. op \<noteq> AccountOp a) \<Longrightarrow> account_part (exec op s) = account_part s"
  by (cases op) (auto simp: account.proj_exec_attempt account.proj_exec_step account.proj_exec_job
      account.proj_exec_worker account_part_exec_config account_part_exec_leader account_part_exec_catalog)

lemma leadership_exec_config: "st_leadership (exec_config op s) = st_leadership s"
  by (cases op)
    (simp_all, simp_all add: CreateFarm_def UpdateFarm_def DeleteFarm_def CreateQueue_def UpdateQueue_def
      DeleteQueue_def CreateUsagePool_def UpdateUsagePool_def DeleteUsagePool_def CreateTaskLog_def
      stampLocked_def fenced_def frame_simps split: option.split)

definition is_admin :: "store_op \<Rightarrow> bool" where
  "is_admin op \<longleftrightarrow> (case op of ConfigOp _ \<Rightarrow> True | LeaderOp _ \<Rightarrow> True | _ \<Rightarrow> False)"

lemma admin_part_core: "core_part s' = core_part s \<Longrightarrow> admin_part s' = admin_part s"
  unfolding admin_part_def prod.inject by (intro conjI) (erule core_part_fields)+

lemma admin_part_exec: "\<not> is_admin op \<Longrightarrow> admin_part (exec op s) = admin_part s"
  by (cases op) (simp_all add: is_admin_def admin.proj_exec_attempt admin.proj_exec_step
      admin.proj_exec_job admin.proj_exec_worker admin_part_core [OF core_part_catalog]
      admin_part_core [OF core_part_account])

lemma leadership_exec:
  "(\<And>op'. op \<noteq> LeaderOp op') \<Longrightarrow> st_leadership (exec op s) = st_leadership s"
  using admin_part_exec [of op s] leadership_exec_config [of _ s]
  by (cases op) (auto simp: is_admin_def admin_part_def)

end
