(* ===== verification/StoreCaps.thy ===== *)
theory StoreCaps
  imports StoreFrame
begin

text \<open>
  Capacity.  A lease is granted only while the task's queue and farm and every pool it claims are
  below their caps, and afterwards they are at most at them; no other operation adds load to a queue,
  a farm or a pool, except an update that moves a job.
\<close>

section \<open>Load\<close>

definition below_cap :: "int \<Rightarrow> nat \<Rightarrow> bool" where
  "below_cap cap n \<longleftrightarrow> (0 < cap \<longrightarrow> int n \<le> cap)"

text \<open>A load that does not rise, or that is within its cap afterwards.\<close>

definition capped :: "int \<Rightarrow> nat \<Rightarrow> nat \<Rightarrow> bool" where
  "capped cap before after \<longleftrightarrow> after \<le> before \<or> below_cap cap after"

definition caps_respected :: "store \<Rightarrow> store \<Rightarrow> bool" where
  "caps_respected s s' \<longleftrightarrow>
     (\<forall>k q. tget (st_queues s') k = Some q \<longrightarrow>
        capped (queue_MaxConcurrentTasks q) (CountActiveTasksInQueue k s) (CountActiveTasksInQueue k s')) \<and>
     (\<forall>k f. tget (st_farms s') k = Some f \<longrightarrow>
        capped (farm_MaxConcurrentTasks f) (CountActiveTasksInFarm k s) (CountActiveTasksInFarm k s')) \<and>
     (\<forall>k p. tget (st_usagePools s') k = Some p \<longrightarrow>
        capped (pool_MaxConcurrent p) (activeClaimsLocked k s) (activeClaimsLocked k s'))"

definition config_kept :: "store \<Rightarrow> store \<Rightarrow> bool" where
  "config_kept s s' \<longleftrightarrow>
     st_farms s' = st_farms s \<and> st_queues s' = st_queues s \<and> st_usagePools s' = st_usagePools s"

text \<open>\<open>no_more_load s s'\<close>: every active task and claim of \<open>s'\<close> was one in \<open>s\<close>, in the same place.\<close>

definition no_more_load :: "store \<Rightarrow> store \<Rightarrow> bool" where
  "no_more_load s s' \<longleftrightarrow>
     (\<forall>k t' j'. tget (st_tasks s') k = Some t' \<and> inFlightTask (task_Status t') \<and>
        tget (st_jobs s') (task_JobID t') = Some j' \<longrightarrow>
        (\<exists>t j. tget (st_tasks s) k = Some t \<and> inFlightTask (task_Status t) \<and>
           tget (st_jobs s) (task_JobID t) = Some j \<and>
           job_QueueID j = job_QueueID j' \<and> job_FarmID j = job_FarmID j')) \<and>
     (\<forall>k c'. tget (st_usageClaims s') k = Some c' \<and> claim_ReleasedAt c' = None \<longrightarrow>
        (\<exists>c. tget (st_usageClaims s) k = Some c \<and> claim_ReleasedAt c = None \<and>
           claim_PoolID c = claim_PoolID c'))"

lemma no_more_load_refl: "no_more_load s s"
  unfolding no_more_load_def by blast

lemma no_more_load_tasksD:
  assumes "no_more_load s s'" "tget (st_tasks s') k = Some t'" "inFlightTask (task_Status t')"
    "tget (st_jobs s') (task_JobID t') = Some j'"
  shows "\<exists>t j. tget (st_tasks s) k = Some t \<and> inFlightTask (task_Status t) \<and>
     tget (st_jobs s) (task_JobID t) = Some j \<and>
     job_QueueID j = job_QueueID j' \<and> job_FarmID j = job_FarmID j'"
  using assms unfolding no_more_load_def by blast

lemma no_more_load_active:
  assumes "no_more_load s s'" "exec_inv s" "exec_inv s'"
    and scope: "\<And>j j'. job_QueueID j = job_QueueID j' \<Longrightarrow> job_FarmID j = job_FarmID j' \<Longrightarrow> P j' \<Longrightarrow> P j"
  shows "activeTasksLocked P s' \<le> activeTasksLocked P s"
  unfolding activeTasksLocked_def activeTask_iff
proof (rule tcount_le_keys)
  fix k t'
  assume t': "tget (st_tasks s') k = Some t'" and
    a: "inFlightTask (task_Status t') \<and>
      (case tget (st_jobs s') (task_JobID t') of None \<Rightarrow> False | Some j \<Rightarrow> P j)"
  then obtain j' where j': "tget (st_jobs s') (task_JobID t') = Some j'" "P j'"
    by (auto split: option.splits)
  from no_more_load_tasksD [OF assms(1) t' conjunct1 [OF a] j'(1)]
  obtain t j where t: "tget (st_tasks s) k = Some t" "inFlightTask (task_Status t)"
    "tget (st_jobs s) (task_JobID t) = Some j" "job_QueueID j = job_QueueID j'" "job_FarmID j = job_FarmID j'"
    by blast
  then have "P j" using scope j'(2) by blast
  then show "\<exists>t. tget (st_tasks s) k = Some t \<and> inFlightTask (task_Status t) \<and>
      (case tget (st_jobs s) (task_JobID t) of None \<Rightarrow> False | Some j \<Rightarrow> P j)"
    using t by (intro exI [where x = t]) simp
qed (use exec_inv_table_ok assms(2,3) in blast)+

lemma no_more_load_claims:
  assumes "no_more_load s s'" "exec_inv s" "exec_inv s'"
  shows "activeClaimsLocked p s' \<le> activeClaimsLocked p s"
  unfolding activeClaimsLocked_def
  by (rule tcount_le_keys)
    (use assms exec_inv_table_ok in \<open>unfold no_more_load_def, blast+\<close>)

lemma below_cap_mono: "below_cap cap n \<Longrightarrow> m \<le> n \<Longrightarrow> below_cap cap m"
  by (auto simp: below_cap_def)

lemma below_cap_Suc: "0 < cap \<longrightarrow> int n < cap \<Longrightarrow> m \<le> Suc n \<Longrightarrow> below_cap cap m"
  by (auto simp: below_cap_def)

lemma caps_respected_no_more_load:
  assumes "no_more_load s s'" "exec_inv s" "exec_inv s'"
  shows "caps_respected s s'"
proof -
  have "CountActiveTasksInQueue k s' \<le> CountActiveTasksInQueue k s" for k
    unfolding CountActiveTasksInQueue_def by (rule no_more_load_active [OF assms]) simp
  moreover have "CountActiveTasksInFarm k s' \<le> CountActiveTasksInFarm k s" for k
    unfolding CountActiveTasksInFarm_def by (rule no_more_load_active [OF assms]) simp
  moreover have "activeClaimsLocked k s' \<le> activeClaimsLocked k s" for k
    by (rule no_more_load_claims [OF assms])
  ultimately show ?thesis by (simp add: caps_respected_def capped_def)
qed

lemma no_more_load_same:
  "st_tasks s' = st_tasks s \<Longrightarrow> st_jobs s' = st_jobs s \<Longrightarrow> st_usageClaims s' = st_usageClaims s \<Longrightarrow> no_more_load s s'"
  by (simp add: no_more_load_def)

section \<open>The operations that add no load\<close>

lemma no_more_load_moved:
  assumes m: "moved R Q P s s'" and R: "\<And>a b. R a b \<Longrightarrow> inFlightTask b \<Longrightarrow> inFlightTask a"
  shows "no_more_load s s'"
  unfolding no_more_load_def
proof (intro conjI allI impI)
  from m have mv: "task_moves R (st_tasks s) (st_tasks s')" "job_moves P (st_jobs s) (st_jobs s')"
    "claim_moves (st_usageClaims s) (st_usageClaims s')" by (simp_all add: moved_def)
  fix k t' j'
  assume a: "tget (st_tasks s') k = Some t' \<and> inFlightTask (task_Status t') \<and>
    tget (st_jobs s') (task_JobID t') = Some j'"
  obtain t where t: "tget (st_tasks s) k = Some t" "task_JobID t' = task_JobID t"
    "task_Status t' = task_Status t \<or> R (task_Status t) (task_Status t')"
    using task_movesD' [OF mv(1)] a by metis
  moreover obtain j where "tget (st_jobs s) (task_JobID t) = Some j" "job_QueueID j' = job_QueueID j"
    "job_FarmID j' = job_FarmID j"
    using job_movesD' [OF mv(2)] a t(2) by metis
  ultimately show "\<exists>t j. tget (st_tasks s) k = Some t \<and> inFlightTask (task_Status t) \<and>
      tget (st_jobs s) (task_JobID t) = Some j \<and>
      job_QueueID j = job_QueueID j' \<and> job_FarmID j = job_FarmID j'"
    using R a by metis
next
  fix k c'
  assume a: "tget (st_usageClaims s') k = Some c' \<and> claim_ReleasedAt c' = None"
  have "claim_moves (st_usageClaims s) (st_usageClaims s')" using m by (simp add: moved_def)
  then show "\<exists>c. tget (st_usageClaims s) k = Some c \<and> claim_ReleasedAt c = None \<and>
      claim_PoolID c = claim_PoolID c'"
    using claim_movesD' a by metis
qed

lemma unleased_or_retry_flight:
  "task_unleased a b \<or> X \<and> retry_arrow a b \<Longrightarrow> inFlightTask b \<Longrightarrow> inFlightTask a"
  by (auto simp: task_unleased_def retry_arrow_def inFlightTask_iff)

lemma no_more_load_adds_job:
  assumes inv: "exec_inv s" and ad: "adds_job jid s s'"
  shows "no_more_load s s'"
  unfolding no_more_load_def
proof (intro conjI allI impI)
  note ad = adds_jobD [OF ad]
  note T = adds_rowsD [OF ad(4)] and J = adds_rowsD [OF ad(6)]
  fix k t' j'
  assume a: "tget (st_tasks s') k = Some t' \<and> inFlightTask (task_Status t') \<and>
    tget (st_jobs s') (task_JobID t') = Some j'"
  then have "\<not> new_task_row s' jid k t'"
    by (auto simp: new_task_row_def inFlightTask_iff split: if_splits)
  then have t: "tget (st_tasks s) k = Some t'" using T(2) a by blast
  obtain j where j: "tget (st_jobs s) (task_JobID t') = Some j"
    using exec_inv_task_step [OF inv t] exec_inv_step_job [OF inv] by metis
  then have "j = j'" using J(1) a by fastforce
  then show "\<exists>t j. tget (st_tasks s) k = Some t \<and> inFlightTask (task_Status t) \<and>
      tget (st_jobs s) (task_JobID t) = Some j \<and>
      job_QueueID j = job_QueueID j' \<and> job_FarmID j = job_FarmID j'"
    using t j a by blast
qed (use adds_jobD(8) [OF ad] in auto)

lemma no_more_load_deleteJobLocked: "exec_inv s \<Longrightarrow> no_more_load s (deleteJobLocked jid s)"
  unfolding no_more_load_def by (subst deleteJobLocked_get, assumption)+ blast

lemma no_more_load_trans:
  assumes "no_more_load s t" "no_more_load t u"
  shows "no_more_load s u"
  unfolding no_more_load_def
proof (intro conjI allI impI)
  fix k t' j'
  assume a: "tget (st_tasks u) k = Some t' \<and> inFlightTask (task_Status t') \<and>
    tget (st_jobs u) (task_JobID t') = Some j'"
  then obtain t1 j1 where "tget (st_tasks t) k = Some t1" "inFlightTask (task_Status t1)"
    "tget (st_jobs t) (task_JobID t1) = Some j1" "job_QueueID j1 = job_QueueID j'" "job_FarmID j1 = job_FarmID j'"
    using no_more_load_tasksD [OF assms(2)] by blast
  then show "\<exists>t j. tget (st_tasks s) k = Some t \<and> inFlightTask (task_Status t) \<and>
      tget (st_jobs s) (task_JobID t) = Some j \<and>
      job_QueueID j = job_QueueID j' \<and> job_FarmID j = job_FarmID j'"
    using no_more_load_tasksD [OF assms(1)] by metis
next
  fix k c'
  assume "tget (st_usageClaims u) k = Some c' \<and> claim_ReleasedAt c' = None"
  then show "\<exists>c. tget (st_usageClaims s) k = Some c \<and> claim_ReleasedAt c = None \<and>
      claim_PoolID c = claim_PoolID c'"
    using assms unfolding no_more_load_def by metis
qed

lemma no_more_load_deleteExpired:
  assumes "exec_inv s"
  shows "no_more_load s (fst (deleteExpired cutoff b ids s))"
  using deleteExpired_steps [of "\<lambda>s'. exec_inv s' \<and> no_more_load s s'" s cutoff b ids]
    no_more_load_trans [OF _ no_more_load_deleteJobLocked] exec_inv_deleteJobLocked assms no_more_load_refl
  by blast

section \<open>The lease\<close>

lemma leasePoolsScan_ok:
  assumes "leasePoolsScan s acc cs = Inr None" "c \<in> set cs"
  shows "\<exists>p. tget (st_usagePools s) (upc_PoolID c) = Some p \<and> acc (upc_PoolID c) = 0 \<and>
      (0 < pool_MaxConcurrent p \<longrightarrow> int (activeClaimsLocked (upc_PoolID c) s) < pool_MaxConcurrent p) \<and>
      length (filter (\<lambda>d. upc_PoolID d = upc_PoolID c) cs) = 1"
  using assms
proof (induction cs arbitrary: acc c)
  case (Cons d ds)
  from Cons.prems(1) obtain p where p: "tget (st_usagePools s) (upc_PoolID d) = Some p"
    "\<not> (0 < pool_MaxConcurrent p \<and>
       pool_MaxConcurrent p \<le> int (activeClaimsLocked (upc_PoolID d) s + acc (upc_PoolID d)))"
    "acc (upc_PoolID d) = 0"
    "leasePoolsScan s (acc(upc_PoolID d := acc (upc_PoolID d) + 1)) ds = Inr None"
    by (auto split: option.splits if_splits)
  have IH: "\<exists>p. tget (st_usagePools s) (upc_PoolID x) = Some p \<and>
      (acc(upc_PoolID d := acc (upc_PoolID d) + 1)) (upc_PoolID x) = 0 \<and>
      (0 < pool_MaxConcurrent p \<longrightarrow> int (activeClaimsLocked (upc_PoolID x) s) < pool_MaxConcurrent p) \<and>
      length (filter (\<lambda>d. upc_PoolID d = upc_PoolID x) ds) = 1" if "x \<in> set ds" for x
    using Cons.IH [OF p(4) that] .
  then have other: "upc_PoolID x \<noteq> upc_PoolID d" if "x \<in> set ds" for x
    using that by fastforce
  show ?case
  proof (cases "c = d")
    case True
    moreover have "filter (\<lambda>x. upc_PoolID x = upc_PoolID d) ds = []"
      using other by (simp add: filter_empty_conv)
    ultimately show ?thesis using p(1-3) by auto
  next
    case False
    then have "c \<in> set ds" using Cons.prems(2) by simp
    then show ?thesis using IH [of c] other [of c] by (auto split: if_splits)
  qed
qed simp

lemma leasePoolsFullLocked_ok:
  assumes "leasePoolsFullLocked s cs = Inr None" "tget (st_usagePools s) k = Some p"
  shows "capped (pool_MaxConcurrent p) (activeClaimsLocked k s)
      (activeClaimsLocked k s + length (filter (\<lambda>c. upc_PoolID c = k) cs))"
proof (cases "filter (\<lambda>c. upc_PoolID c = k) cs")
  case Nil
  then show ?thesis by (simp add: capped_def)
next
  case (Cons c _)
  then have "c \<in> set cs" "upc_PoolID c = k"
    by (auto dest: filter_eq_ConsD)
  then show ?thesis
    using leasePoolsScan_ok [OF assms(1) [unfolded leasePoolsFullLocked_def], of c] assms(2)
    by (auto simp: capped_def below_cap_def)
qed

text \<open>One more task in flight raises a count by at most one, and only that of its own scope.\<close>

lemma lease_active_other:
  assumes "exec_inv s" "lease_granted req s t j" "\<not> P j"
  shows "activeTasksLocked P (fst (leaseWrite req t cs s)) \<le> activeTasksLocked P s"
proof -
  have t: "tget (st_tasks s) (task_ID t) = Some t" "tget (st_jobs s) (task_JobID t) = Some j"
    using assms(1,2) exec_inv_taskID by (auto simp: lease_granted_def)
  show ?thesis
    unfolding activeTasksLocked_def leaseWrite_def Let_def
    using tcount_tput_any [of "st_tasks s"] exec_inv_table_ok [OF assms(1)] t(2) assms(3)
    by (fastforce intro: order_trans [OF tcount_tput_any])
qed

lemma lease_active_Suc:
  assumes "exec_inv s" "lease_granted req s t j"
  shows "activeTasksLocked P (fst (leaseWrite req t cs s)) \<le> Suc (activeTasksLocked P s)"
proof -
  have t: "tget (st_tasks s) (task_ID t) = Some t"
    using assms exec_inv_taskID by (auto simp: lease_granted_def)
  show ?thesis
    unfolding activeTasksLocked_def leaseWrite_def Let_def
    using tcount_tput_Suc [OF _ t] exec_inv_table_ok [OF assms(1)] by simp
qed

lemma leaseCaps_granted:
  assumes "lease_granted req s t j"
  shows "tget (st_queues s) (job_QueueID j) = Some q \<Longrightarrow>
      0 < queue_MaxConcurrentTasks q \<longrightarrow>
      int (CountActiveTasksInQueue (job_QueueID j) s) < queue_MaxConcurrentTasks q"
    and "tget (st_farms s) (job_FarmID j) = Some f \<Longrightarrow>
      0 < farm_MaxConcurrentTasks f \<longrightarrow>
      int (CountActiveTasksInFarm (job_FarmID j) s) < farm_MaxConcurrentTasks f"
  using assms
  by (auto simp: lease_granted_def leaseCapsFullLocked_def Let_def CountActiveTasksInQueue_def
      CountActiveTasksInFarm_def split: if_splits)

lemma capped_mono: "capped cap n m \<Longrightarrow> m' \<le> m \<Longrightarrow> capped cap n m'"
  by (auto simp: capped_def below_cap_def)

lemma capped_Suc: "0 < cap \<longrightarrow> int n < cap \<Longrightarrow> m \<le> Suc n \<Longrightarrow> capped cap n m"
  by (auto simp: capped_def below_cap_def)

lemma caps_respected_leaseWrite:
  assumes inv: "exec_inv s" and g: "lease_granted req s t j"
  shows "caps_respected s (fst (leaseWrite req t (sort_key upc_PoolID (req_Claims req)) s))" (is "caps_respected s ?s'")
  unfolding caps_respected_def
proof (intro conjI allI impI)
  fix k q assume "tget (st_queues ?s') k = Some q"
  then have q: "tget (st_queues s) k = Some q" by (simp add: leaseWrite_def Let_def)
  show "capped (queue_MaxConcurrentTasks q) (CountActiveTasksInQueue k s) (CountActiveTasksInQueue k ?s')"
  proof (cases "job_QueueID j = k")
    case True
    then show ?thesis
      using capped_Suc [OF leaseCaps_granted(1) [OF g, unfolded True, OF q]]
        lease_active_Suc [OF inv g, of "\<lambda>j. job_QueueID j = k"]
      by (simp add: CountActiveTasksInQueue_def)
  qed (use lease_active_other [OF inv g, of "\<lambda>j. job_QueueID j = k"] in \<open>simp add: CountActiveTasksInQueue_def capped_def\<close>)
next
  fix k f assume "tget (st_farms ?s') k = Some f"
  then have f: "tget (st_farms s) k = Some f" by (simp add: leaseWrite_def Let_def)
  show "capped (farm_MaxConcurrentTasks f) (CountActiveTasksInFarm k s) (CountActiveTasksInFarm k ?s')"
  proof (cases "job_FarmID j = k")
    case True
    then show ?thesis
      using capped_Suc [OF leaseCaps_granted(2) [OF g, unfolded True, OF f]]
        lease_active_Suc [OF inv g, of "\<lambda>j. job_FarmID j = k"]
      by (simp add: CountActiveTasksInFarm_def)
  qed (use lease_active_other [OF inv g, of "\<lambda>j. job_FarmID j = k"] in \<open>simp add: CountActiveTasksInFarm_def capped_def\<close>)
next
  let ?cs = "sort_key upc_PoolID (req_Claims req)"
  fix k p assume "tget (st_usagePools ?s') k = Some p"
  then have p: "tget (st_usagePools s) k = Some p" by (simp add: leaseWrite_def Let_def)
  have "capped (pool_MaxConcurrent p) (activeClaimsLocked k s)
      (activeClaimsLocked k s + length (filter (\<lambda>c. upc_PoolID c = k) ?cs))"
    using leasePoolsFullLocked_ok p g by (simp add: lease_granted_def)
  moreover have "activeClaimsLocked k ?s' \<le>
      activeClaimsLocked k s + length (filter (\<lambda>c. upc_PoolID c = k) ?cs)"
    using tcount_fold_tput [of "st_usageClaims s" "\<lambda>c. claim_PoolID c = k \<and> claim_ReleasedAt c = None"
        upc_ClaimID "leaseClaim req" ?cs] exec_inv_table_ok [OF inv]
    by (simp add: activeClaimsLocked_def leaseWrite_def Let_def)
  ultimately show "capped (pool_MaxConcurrent p) (activeClaimsLocked k s) (activeClaimsLocked k ?s')"
    by (rule capped_mono)
qed

section \<open>Every operation\<close>

definition reconfigures :: "store_op \<Rightarrow> bool" where
  "reconfigures op \<longleftrightarrow>
     (case op of ConfigOp _ \<Rightarrow> True | JobOp (OpUpdateJob _ _ _) \<Rightarrow> True | _ \<Rightarrow> False)"

lemma reconfigures_iff: "reconfigures op \<longleftrightarrow> (\<exists>a. op = ConfigOp a) \<or> (\<exists>c job t. op = JobOp (OpUpdateJob c job t))"
  by (cases op) (auto simp: reconfigures_def split: job_op.split)

text \<open>\<^verbatim>\<open>UpdateJob\<close> of a job that is to be in another queue or farm than it is.\<close>

definition moves_job :: "store_op \<Rightarrow> store \<Rightarrow> bool" where
  "moves_job op s \<longleftrightarrow>
     (case op of
        JobOp (OpUpdateJob c job clock) \<Rightarrow>
          (case tget (st_jobs s) (job_ID job) of
             None \<Rightarrow> False
           | Some j \<Rightarrow> job_QueueID job \<noteq> job_QueueID j \<or> job_FarmID job \<noteq> job_FarmID j)
      | _ \<Rightarrow> False)"

lemma config_kept_exec: "\<not> reconfigures op \<Longrightarrow> config_kept s (exec op s)"
proof (cases op)
  case (LeaderOp a)
  then show ?thesis
    by (cases a) (simp_all add: config_kept_def AcquireLeadership_def RenewLeadership_def
        ReleaseLeadership_def UpsertServerMember_def DeleteServerMembersUnseenFor_def frame_simps
        split: option.split sum.split)
qed (use admin_part_exec [of op s] in
      \<open>simp_all add: is_admin_def admin_part_def config_kept_def reconfigures_def\<close>)

lemma caps_respected_LeaseTask:
  assumes inv: "exec_inv s"
  shows "caps_respected s (fst (LeaseTask ctx req s))"
proof (cases "\<exists>s' res. LeaseTask ctx req s = (s', Inr res) \<and> res_Outcome res = LeaseLeased")
  case True
  then obtain s' res where r: "LeaseTask ctx req s = (s', Inr res)" "res_Outcome res = LeaseLeased" by blast
  obtain t j where "lease_granted req s t j"
    "s' = fst (leaseWrite req t (sort_key upc_PoolID (req_Claims req)) s)"
    by (rule LeaseTask_leased [OF r])
  then show ?thesis using caps_respected_leaseWrite [OF inv] r(1) by simp
next
  case False
  obtain s' r where p: "LeaseTask ctx req s = (s', r)" by (cases "LeaseTask ctx req s")
  have "s' = s" by (rule LeaseTask_not_leased [OF p]) (use False p in blast)
  then show ?thesis using p caps_respected_no_more_load [OF no_more_load_refl inv inv] by simp
qed

lemma no_more_load_UpdateJob:
  assumes "\<not> moves_job (JobOp (OpUpdateJob c job clock)) s"
  shows "no_more_load s (fst (UpdateJob c job clock s))"
proof (cases "fenceLocked c s = None \<and> tget (st_jobs s) (job_ID job) \<noteq> None")
  case True
  then show ?thesis
    using assms by (auto simp: no_more_load_def UpdateJob_def fenced_def moves_job_def Let_def split: if_splits)
next
  case False
  then have "fst (UpdateJob c job clock s) = s" by (auto simp: UpdateJob_def fenced_def split: option.split)
  then show ?thesis by (simp add: no_more_load_refl)
qed

lemma no_more_load_config: "no_more_load s (exec_config op s)"
  by (rule no_more_load_same)
    (cases op; simp add: CreateFarm_def UpdateFarm_def DeleteFarm_def CreateQueue_def UpdateQueue_def
      DeleteQueue_def CreateUsagePool_def UpdateUsagePool_def DeleteUsagePool_def CreateTaskLog_def
      stampLocked_def fenced_def frame_simps split: option.split)+

lemma no_more_load_CreateJobSubmission:
  assumes inv: "exec_inv s" and ok: "submission_ok sub"
  shows "no_more_load s (fst (CreateJobSubmission ctx sub clock s))"
proof -
  obtain s' r where p: "CreateJobSubmission ctx sub clock s = (s', r)"
    by (cases "CreateJobSubmission ctx sub clock s")
  show ?thesis
  proof (cases r)
    case (Inl e)
    then show ?thesis using CreateJobSubmission_refused [of ctx sub clock s s' e] p
      by (simp add: no_more_load_refl)
  next
    case (Inr out)
    then show ?thesis using no_more_load_adds_job [OF inv CreateJobSubmission_adds [OF _ ok]] p by simp
  qed
qed

lemma no_more_load_restructures:
  assumes "exec_inv s" "op_ok op s" "restructures op" "\<not> reconfigures op" "\<And>c r. op \<noteq> AttemptOp (OpLease c r)"
  shows "no_more_load s (exec op s)"
proof -
  consider c sub t where "op = JobOp (OpSubmit c sub t)" | c jid where "op = JobOp (OpDeleteJob c jid)" |
    c t b where "op = JobOp (OpExpireJobs c t b)"
    using assms(3,4,5)
    by (auto simp: restructures_def reconfigures_def split: store_op.splits attempt_op.splits job_op.splits)
  then show ?thesis
  proof cases
    case 1
    then show ?thesis using assms(1,2) by (simp add: op_ok_def no_more_load_CreateJobSubmission)
  next
    case 2
    then show ?thesis
      using assms(1) by (simp add: DeleteJob_def fenced_def no_more_load_refl no_more_load_deleteJobLocked
          split: option.split)
  next
    case 3
    then show ?thesis
      using assms(1) by (simp add: DeleteTerminalJobsBefore_def fenced_def frame_simps no_more_load_refl
          no_more_load_deleteExpired split: option.split)
  qed
qed

lemma caps_respected_exec:
  assumes inv: "exec_inv s" and ok: "op_ok op s" and stays: "\<not> moves_job op s"
  shows "caps_respected s (exec op s)"
proof -
  note less = caps_respected_no_more_load [OF _ inv exec_inv_exec [OF inv ok]]
  consider a where "op = ConfigOp a" | c job t where "op = JobOp (OpUpdateJob c job t)" | c r where "op = AttemptOp (OpLease c r)" |
    "\<not> reconfigures op" "restructures op" "\<And>c r. op \<noteq> AttemptOp (OpLease c r)" |
    "\<not> restructures op"
    using reconfigures_iff by metis
  then show ?thesis
  proof cases
    case 1
    then show ?thesis using less no_more_load_config by simp
  next
    case 2
    then show ?thesis using less no_more_load_UpdateJob stays by simp
  next
    case 3
    then show ?thesis using caps_respected_LeaseTask [OF inv] by simp
  next
    case 4
    then show ?thesis using less no_more_load_restructures inv ok by blast
  next
    case 5
    have "moved (\<lambda>a b. task_unleased a b \<or> is_retry op \<and> retry_arrow a b) step_arrow
        (\<lambda>a b. job_legal a b \<or> finalizes_job op \<and> job_arrow a b) s (exec op s)"
      using exec_moves [OF inv ok 5] by (simp add: sound_move_def)
    then have "no_more_load s (exec op s)"
      by (rule no_more_load_moved) (rule unleased_or_retry_flight)
    then show ?thesis by (rule less)
  qed
qed

end
