(* ===== verification/StoreLeader.thy ===== *)
theory StoreLeader
  imports StoreFrame
begin

text \<open>
  The leader lease and its fence.  The epoch of the lease never goes down, a take-over raises it,
  and an operation that carries an older epoch leaves the store alone: a server that lost the lease
  cannot write any more, whatever its successor has done since.
\<close>

definition epoch_of :: "store \<Rightarrow> int" where
  "epoch_of s = lead_epoch (st_leadership s)"

primrec attempt_ctx :: "attempt_op \<Rightarrow> ctx" where
  "attempt_ctx (OpLease c _) = c"
| "attempt_ctx (OpComplete c _ _) = c"
| "attempt_ctx (OpCancelTask c _ _ _) = c"
| "attempt_ctx (OpReclaimStale c _ _) = c"
| "attempt_ctx (OpStart c _ _ _ _) = c"
| "attempt_ctx (OpProgress c _) = c"
| "attempt_ctx (OpReclaim c _ _ _) = c"
| "attempt_ctx (OpFailure c _ _ _ _ _ _ _) = c"
| "attempt_ctx (OpRequeue c _ _ _ _) = c"
| "attempt_ctx (OpUnschedulable c _ _ _) = c"

primrec step_ctx :: "step_op \<Rightarrow> ctx" where
  "step_ctx (OpCancelJob c _ _ _) = c"
| "step_ctx (OpRetry c _ _ _) = c"
| "step_ctx (OpFinalizeStep c _ _) = c"
| "step_ctx (OpFinalizeJob c _ _) = c"
| "step_ctx (OpReleaseStep c _ _) = c"
| "step_ctx (OpCancelPendingStep c _ _ _) = c"
| "step_ctx (OpReleaseBlocked c _ _) = c"
| "step_ctx (OpCancelBlocked c _ _ _) = c"

primrec job_ctx :: "job_op \<Rightarrow> ctx" where
  "job_ctx (OpPromote c _ _) = c"
| "job_ctx (OpPause c _ _) = c"
| "job_ctx (OpPark c _ _ _) = c"
| "job_ctx (OpResume c _ _) = c"
| "job_ctx (OpCancelJobStatus c _ _) = c"
| "job_ctx (OpUpdateJob c _ _) = c"
| "job_ctx (OpDemote c _) = c"
| "job_ctx (OpSubmit c _ _) = c"
| "job_ctx (OpDeleteJob c _) = c"
| "job_ctx (OpExpireJobs c _ _) = c"

primrec worker_ctx :: "worker_op \<Rightarrow> ctx" where
  "worker_ctx (OpRegister c _ _) = c"
| "worker_ctx (OpOfflineStale c _ _ _) = c"
| "worker_ctx (OpOffline c _ _ _) = c"
| "worker_ctx (OpSetDisabled c _ _ _) = c"
| "worker_ctx (OpHeartbeat c _ _ _ _) = c"
| "worker_ctx (OpDeleteWorker c _) = c"
| "worker_ctx (OpExpireWorkers c _) = c"

primrec config_ctx :: "config_op \<Rightarrow> ctx" where
  "config_ctx (OpCreateFarm c _ _) = c"
| "config_ctx (OpUpdateFarm c _ _) = c"
| "config_ctx (OpDeleteFarm c _) = c"
| "config_ctx (OpCreateQueue c _ _) = c"
| "config_ctx (OpUpdateQueue c _ _) = c"
| "config_ctx (OpDeleteQueue c _) = c"
| "config_ctx (OpCreatePool c _ _) = c"
| "config_ctx (OpUpdatePool c _ _) = c"
| "config_ctx (OpDeletePool c _) = c"
| "config_ctx (OpLog c _) = c"

primrec catalog_ctx :: "catalog_op \<Rightarrow> ctx" where
  "catalog_ctx (OpCreateStorage c _ _) = c"
| "catalog_ctx (OpUpdateStorage c _ _) = c"
| "catalog_ctx (OpDeleteStorage c _) = c"
| "catalog_ctx (OpCreateCompute c _ _) = c"
| "catalog_ctx (OpUpdateCompute c _ _) = c"
| "catalog_ctx (OpDeleteCompute c _) = c"
| "catalog_ctx (OpCreateProduct c _ _) = c"
| "catalog_ctx (OpUpdateProduct c _) = c"
| "catalog_ctx (OpDeleteProduct c _) = c"
| "catalog_ctx (OpAudit c _) = c"
| "catalog_ctx (OpBrokerIdentity c _) = c"

primrec account_ctx :: "account_op \<Rightarrow> ctx" where
  "account_ctx (OpCreateUser c _ _) = c"
| "account_ctx (OpUpdateUser c _ _) = c"
| "account_ctx (OpUpdateUserKeepingAdmin c _ _) = c"
| "account_ctx (OpSetPassword c _ _ _) = c"
| "account_ctx (OpSetPasswordEvict c _ _ _) = c"
| "account_ctx (OpSetDisplayName c _ _ _) = c"
| "account_ctx (OpDeleteUser c _) = c"
| "account_ctx (OpCreateSession c _) = c"
| "account_ctx (OpDeleteSession c _) = c"
| "account_ctx (OpExpireSessions c _) = c"
| "account_ctx (OpCreateKey c _) = c"
| "account_ctx (OpRevokeKey c _ _ _) = c"
| "account_ctx (OpTouchKey c _ _) = c"
| "account_ctx (OpCreateCredential c _) = c"
| "account_ctx (OpRevokeCredential c _ _) = c"
| "account_ctx (OpTouchCredential c _ _) = c"
| "account_ctx (OpCreateToken c _) = c"
| "account_ctx (OpUseToken c _ _) = c"
| "account_ctx (OpRedeemToken c _ _ _) = c"

text \<open>The epoch an operation is fenced by; the operations on the lease itself carry none.\<close>

primrec op_ctx :: "store_op \<Rightarrow> ctx" where
  "op_ctx (AttemptOp op) = attempt_ctx op"
| "op_ctx (StepOp op) = step_ctx op"
| "op_ctx (JobOp op) = job_ctx op"
| "op_ctx (WorkerOp op) = worker_ctx op"
| "op_ctx (ConfigOp op) = config_ctx op"
| "op_ctx (LeaderOp op) = None"
| "op_ctx (CatalogOp op) = catalog_ctx op"
| "op_ctx (AccountOp op) = account_ctx op"

lemma fenced_stale: "fenceLocked ctx s \<noteq> None \<Longrightarrow> fst (fenced ctx s b) = s"
  by (auto simp: fenced_def)

lemma fenceLocked_epoch: "fenceLocked (Some e) s \<noteq> None \<longleftrightarrow> e \<noteq> epoch_of s"
  by (simp add: fenceLocked_def epoch_of_def)

lemma exec_stale: "fenceLocked (op_ctx op) s \<noteq> None \<Longrightarrow> exec op s = s"
proof (cases op)
  case (AttemptOp a)
  moreover assume "fenceLocked (op_ctx op) s \<noteq> None"
  ultimately show ?thesis
    by (cases a) (simp_all add: LeaseTask_def CompleteTaskAttempt_def CancelTaskExecution_def
      ReclaimStaleAssignedTasks_def StartTaskAttempt_def RecordAttemptProgress_def ReclaimTaskAttempt_def
      RecordTaskFailure_def RequeueTaskForRetry_def SetTaskUnschedulableReason_def fenced_stale)
next
  case (StepOp a)
  moreover assume "fenceLocked (op_ctx op) s \<noteq> None"
  ultimately show ?thesis
    by (cases a) (simp_all add: CancelJobExecution_def RetryTasks_def FinalizeStep_def FinalizeJob_def
      ReleaseStep_def CancelPendingStep_def movePendingStep_def ReleaseBlockedJob_def CancelBlockedJob_def
      fenced_stale)
next
  case (JobOp a)
  moreover assume "fenceLocked (op_ctx op) s \<noteq> None"
  ultimately show ?thesis
    by (cases a) (simp_all add: PromoteJobRunning_def PauseJob_def ParkJob_def ResumeJob_def
      CancelJobStatus_def UpdateJob_def DemoteStalledJobs_def CreateJobSubmission_def DeleteJob_def
      DeleteTerminalJobsBefore_def fenced_stale)
next
  case (WorkerOp a)
  moreover assume "fenceLocked (op_ctx op) s \<noteq> None"
  ultimately show ?thesis
    by (cases a) (simp_all add: RegisterWorker_def OfflineStaleWorker_def OfflineWorker_def
      SetWorkerDisabled_def UpdateWorkerHeartbeat_def DeleteWorkerIfRemovable_def
      DeleteOfflineWorkersBefore_def fenced_stale)
next
  case (ConfigOp a)
  moreover assume "fenceLocked (op_ctx op) s \<noteq> None"
  ultimately show ?thesis
    by (cases a) (simp_all add: CreateFarm_def UpdateFarm_def DeleteFarm_def CreateQueue_def UpdateQueue_def
      DeleteQueue_def CreateUsagePool_def UpdateUsagePool_def DeleteUsagePool_def CreateTaskLog_def
      fenced_stale)
next
  case (CatalogOp a)
  moreover assume "fenceLocked (op_ctx op) s \<noteq> None"
  ultimately show ?thesis by (cases a) (simp_all add: catalog_defs fenced_stale)
next
  case (AccountOp a)
  moreover assume "fenceLocked (op_ctx op) s \<noteq> None"
  ultimately show ?thesis by (cases a) (simp_all add: account_defs fenced_stale)
qed (simp add: fenceLocked_def)

lemma epoch_of_exec_leader: "epoch_of s \<le> epoch_of (exec_leader op s)"
  by (cases op) (simp_all add: epoch_of_def AcquireLeadership_def RenewLeadership_def
      ReleaseLeadership_def UpsertServerMember_def DeleteServerMembersUnseenFor_def frame_simps
      split: sum.split option.split)

interpretation epoch: never_lowered exec epoch_of
proof
  show "epoch_of s \<le> epoch_of (exec op s)" for s op
    using epoch_of_exec_leader leadership_exec [of op s] by (cases op) (simp_all add: epoch_of_def)
qed

lemma AcquireLeadership_granted:
  "AcquireLeadership holder ttl us s = (s', Inr (e, True)) \<Longrightarrow>
     e = epoch_of s + 1 \<and> epoch_of s' = e \<and> lead_holder (st_leadership s') = holder \<and>
     \<not> Held (lead_holder (st_leadership s)) (lead_expiresUS (st_leadership s)) us"
  by (auto simp: AcquireLeadership_def epoch_of_def Let_def split: sum.splits if_splits)

end
