(* ===== verification/StoreDemo.thy ===== *)
theory StoreDemo
  imports StoreSystem
begin

text \<open>
  Concrete stores for the witnesses: a farm with one queue and one usage pool, a job of one step and
  two tasks, a lease of the first task holding a slot of the pool, and a job blocked on the first.
\<close>

definition demo_farm :: Farm where
  "demo_farm = \<lparr> farm_ID = ''f'', farm_Name = ''farm'', farm_Description = [],
     farm_MaxConcurrentTasks = 2, farm_MaxAttempts = None, farm_RetryDelaySeconds = None,
     farm_FailureLimit = None, farm_CreatedAt = 0, farm_UpdatedAt = 0 \<rparr>"

definition demo_queue :: Queue where
  "demo_queue = \<lparr> queue_ID = ''q'', queue_FarmID = ''f'', queue_Name = ''queue'',
     queue_Description = [], queue_Priority = 1, queue_MaxConcurrentTasks = 1, queue_Paused = False,
     queue_MaxAttempts = None, queue_RetryDelaySeconds = None, queue_FailureLimit = None,
     queue_RunAsUser = None, queue_RunAsGroup = None, queue_CreatedAt = 0, queue_UpdatedAt = 0,
     queue_PreserveRunAsUser = False, queue_PreserveRunAsGroup = False \<rparr>"

definition demo_pool :: UsagePool where
  "demo_pool = \<lparr> pool_ID = ''p'', pool_Name = ''nuke'', pool_ServerHint = [],
     pool_MaxConcurrent = 1, pool_CreatedAt = 0, pool_UpdatedAt = 0 \<rparr>"

definition demo_job :: "string \<Rightarrow> job_status \<Rightarrow> Job" where
  "demo_job jid st = \<lparr> job_ID = jid, job_FarmID = ''f'', job_QueueID = ''q'', job_Name = jid,
     job_Owner = [], job_Submitter = [], job_Priority = 50, job_Status = st, job_Project = [],
     job_RawTemplate = [], job_TemplateFormat = ''yaml'', job_Parameters = [],
     job_DeclaredExtensions = [], job_ExtensionsRecorded = True, job_DependsOn = [],
     job_FailedAttempts = 0, job_MaxAttempts = None, job_RetryDelaySeconds = None,
     job_FailureLimit = None, job_ParkReason = [], job_CreatedAt = 0, job_UpdatedAt = 0,
     job_StartedAt = None, job_CompletedAt = None \<rparr>"

definition demo_step :: "string \<Rightarrow> string \<Rightarrow> step_status \<Rightarrow> Step" where
  "demo_step sid jid st = \<lparr> step_ID = sid, step_JobID = jid, step_Name = sid, step_DependsOn = [],
     step_StepOrder = 0, step_Status = st, step_HostRequirements = None, step_ComputeLocation = [],
     step_CreatedAt = 0, step_UpdatedAt = 0 \<rparr>"

definition demo_task :: "string \<Rightarrow> string \<Rightarrow> string \<Rightarrow> task_status \<Rightarrow> Task" where
  "demo_task tid sid jid st = \<lparr> task_ID = tid, task_JobID = jid, task_StepID = sid, task_Name = tid,
     task_Parameters = [], task_Status = st, task_AssignedWorkerID = [], task_AssignedAt = None,
     task_CreatedAt = 0, task_UpdatedAt = 0, task_RequiredCores = Some 1,
     task_UnschedulableReason = [], task_FailureReason = [], task_FailedAttempts = 0,
     task_RetryAfter = None \<rparr>"

definition demo_submission :: JobSubmission where
  "demo_submission = \<lparr> sub_Job = demo_job ''j'' JobStatusPending, sub_DependsOn = [],
     sub_Steps = [demo_step ''s'' ''j'' StepStatusReady],
     sub_Tasks = [demo_task ''t1'' ''s'' ''j'' TaskStatusReady, demo_task ''t2'' ''s'' ''j'' TaskStatusReady] \<rparr>"

definition demo_blocked :: JobSubmission where
  "demo_blocked = \<lparr> sub_Job = demo_job ''b'' JobStatusBlocked, sub_DependsOn = [''j''],
     sub_Steps = [demo_step ''bs'' ''b'' StepStatusPending],
     sub_Tasks = [demo_task ''b1'' ''bs'' ''b'' TaskStatusPending,
                  demo_task ''b2'' ''bs'' ''b'' TaskStatusPending] \<rparr>"

definition demo_request :: "string \<Rightarrow> string \<Rightarrow> LeaseRequest" where
  "demo_request tid aid = \<lparr> req_TaskID = tid, req_WorkerID = ''w'', req_AttemptID = aid, req_Now = 100,
     req_Claims = [\<lparr> upc_ClaimID = ''c-'' @ aid, upc_PoolID = ''p'', upc_PoolName = ''nuke'' \<rparr>] \<rparr>"

definition demo_setup :: "store_op list" where
  "demo_setup =
     [ConfigOp (OpCreateFarm None demo_farm 1), ConfigOp (OpCreateQueue None demo_queue 2),
      ConfigOp (OpCreatePool None demo_pool 3), JobOp (OpSubmit None demo_submission 4)]"

definition demo_ops :: "store_op list" where
  "demo_ops = demo_setup @
     [JobOp (OpSubmit None demo_blocked 5),
      AttemptOp (OpLease None (demo_request ''t1'' ''a1'')),
      AttemptOp (OpStart None ''a1'' ''t1'' ''sess'' 101)]"

definition demo_store :: store where
  "demo_store = run exec demo_ops New"

lemma demo_reachable: "reachable demo_store"
  unfolding demo_store_def by (rule reach_run_init) code_simp

end
