(* ===== verification/StoreProps.thy ===== *)
theory StoreProps
  imports StoreBlocked StoreCaps StoreLeader StoreDemo
begin

text \<open>
  What the in-memory store guarantees to its callers, for every sequence of operations: the claim
  and attempt invariants, the legal transitions of tasks and jobs, the capacity limits, the fence,
  and the effect of the operations that end, cancel, delete or submit work.
\<close>

section \<open>Attempts and claims\<close>

lemma exec_inv_claimViolates:
  assumes inv: "exec_inv s" and c: "tget (st_usageClaims s) k = Some c"
  shows "\<not> claimViolates s c"
proof (cases "claim_ReleasedAt c = None")
  case True
  then obtain a where a: "tget (st_taskAttempts s) (claim_TaskAttemptID c) = Some a"
    "att_Status a = AttemptStatusRunning"
    using exec_inv_claim [OF inv c] by blast
  have "inFlightTask (task_Status t)" if "tget (st_tasks s) (att_TaskID a) = Some t" for t
    using exec_inv_flight [OF inv a that] .
  then show ?thesis
    using a True by (auto simp: claimViolates_def inFlightTask_iff split: option.splits)
qed (simp add: claimViolates_def)

text \<open>C1: in every store reached by operations whose callers keep \<open>op_ok\<close> (as the scheduler does: it names every
  attempt afresh, completes it with a terminal status and requeues a task only once its attempt is closed; and as
  the submitter does) the diagnostic \<^verbatim>\<open>ClaimInvariantViolations\<close> reports nothing: a usage claim that is not released belongs to a
  running attempt whose task is not over, so no pool slot leaks.\<close>

theorem claims_never_leak:
  assumes "reachable s"
  shows "ClaimInvariantViolations s = []"
proof -
  have inv: "exec_inv s" by (rule exec_system.reach_inv [OF assms])
  have "\<not> claimViolates s c" if "(k, c) \<in> set (st_usageClaims s)" for k c
    using exec_inv_claimViolates [OF inv, of k c] tget_iff [of "st_usageClaims s" k c]
      exec_inv_table_ok [OF inv] that by simp
  then have "filter (\<lambda>(id, c). claimViolates s c) (st_usageClaims s) = []"
    by (auto simp: filter_empty_conv)
  then show ?thesis by (simp add: ClaimInvariantViolations_def)
qed

theorem claims_never_leak_witness:
  "reachable demo_store \<and> activeClaimsLocked ''p'' demo_store = 1 \<and>
   ClaimInvariantViolations demo_store = []"
proof (intro conjI)
  show "reachable demo_store" by (rule demo_reachable)
  show "activeClaimsLocked ''p'' demo_store = 1" by code_simp
  show "ClaimInvariantViolations demo_store = []" by (rule claims_never_leak [OF demo_reachable])
qed

text \<open>C2: in every store reached by operations whose callers keep \<open>op_ok\<close> an attempt that is still running is live: its task exists and is
  assigned or running, the attempt is the task's latest, and no other attempt of the same task is
  running.  No task runs twice at once.\<close>

theorem running_attempt_is_live:
  assumes "reachable s" "tget (st_taskAttempts s) aid = Some a" "att_Status a = AttemptStatusRunning"
  shows "\<exists>t. tget (st_tasks s) (att_TaskID a) = Some t \<and> liveAttemptLocked s aid t \<and>
    (\<forall>aid' b. tget (st_taskAttempts s) aid' = Some b \<and> att_TaskID b = att_TaskID a \<and>
       att_Status b = AttemptStatusRunning \<longrightarrow> aid' = aid)"
proof -
  have inv: "exec_inv s" by (rule exec_system.reach_inv [OF assms(1)])
  obtain t where t: "tget (st_tasks s) (att_TaskID a) = Some t"
    using exec_inv_attempt_task [OF inv assms(2)] by blast
  have "top_attempt (st_taskAttempts s) a"
    using exec_inv_top [OF inv assms(2,3)] exec_inv_table_ok [OF inv]
    unfolding top_attempt_def by (auto simp: trows_iff)
  then have "liveAttemptLocked s aid t"
    using exec_inv_flight [OF inv assms(2,3) t] exec_inv_taskID [OF inv t] assms(2,3)
    by (auto simp: liveAttemptLocked_def isLatestAttemptLocked_iff)
  moreover have "aid' = aid" if b: "tget (st_taskAttempts s) aid' = Some b" "att_TaskID b = att_TaskID a"
    "att_Status b = AttemptStatusRunning" for aid' b
    using exec_inv_unique [OF inv b(1) assms(2)] exec_inv_top [OF inv assms(2,3) b(1)]
      exec_inv_top [OF inv b(1,3) assms(2)] b(2) by fastforce
  ultimately show ?thesis using t by blast
qed

theorem running_attempt_is_live_witness:
  "\<exists>a t. tget (st_taskAttempts demo_store) ''a1'' = Some a \<and>
     tget (st_tasks demo_store) (att_TaskID a) = Some t \<and> liveAttemptLocked demo_store ''a1'' t"
proof -
  have "map_option att_Status (tget (st_taskAttempts demo_store) ''a1'') = Some AttemptStatusRunning"
    by code_simp
  then obtain a where "tget (st_taskAttempts demo_store) ''a1'' = Some a" "att_Status a = AttemptStatusRunning"
    by auto
  then show ?thesis using running_attempt_is_live [OF demo_reachable, of "''a1''"] by blast
qed

section \<open>Transitions\<close>

lemma deleted_rows:
  assumes "exec_inv s"
  shows "tget (st_tasks (fst (deleteExpired cutoff b ids s))) k = Some t \<Longrightarrow> tget (st_tasks s) k = Some t"
    and "tget (st_jobs (fst (deleteExpired cutoff b ids s))) k = Some j \<Longrightarrow> tget (st_jobs s) k = Some j"
proof -
  let ?I = "\<lambda>s'. exec_inv s' \<and> (\<forall>k t. tget (st_tasks s') k = Some t \<longrightarrow> tget (st_tasks s) k = Some t) \<and>
    (\<forall>k j. tget (st_jobs s') k = Some j \<longrightarrow> tget (st_jobs s) k = Some j)"
  have "?I (fst (deleteExpired cutoff b ids s))"
  proof (rule deleteExpired_steps [where I = ?I])
    fix s' jid j
    assume "?I s'"
    then show "?I (deleteJobLocked jid s')"
      using deleteJobLocked_get [of s' jid] exec_inv_deleteJobLocked by blast
  qed (use assms in simp)
  then show "tget (st_tasks (fst (deleteExpired cutoff b ids s))) k = Some t \<Longrightarrow> tget (st_tasks s) k = Some t"
    "tget (st_jobs (fst (deleteExpired cutoff b ids s))) k = Some j \<Longrightarrow> tget (st_jobs s) k = Some j"
    by blast+
qed

lemma restructures_cases:
  assumes "restructures op"
  obtains c r where "op = AttemptOp (OpLease c r)" | c sub u where "op = JobOp (OpSubmit c sub u)" |
    c job u where "op = JobOp (OpUpdateJob c job u)" | c jid where "op = JobOp (OpDeleteJob c jid)" |
    c u b where "op = JobOp (OpExpireJobs c u b)"
  using assms by (auto simp: restructures_def split: store_op.splits attempt_op.splits job_op.splits)

lemma DeleteJob_rows:
  assumes "exec_inv s"
  shows "tget (st_tasks (fst (DeleteJob ctx jid s))) k = Some t \<Longrightarrow> tget (st_tasks s) k = Some t"
    and "tget (st_jobs (fst (DeleteJob ctx jid s))) k = Some j \<Longrightarrow> tget (st_jobs s) k = Some j"
  using deleteJobLocked_get(1,5) [OF assms, of jid]
  by (auto simp: DeleteJob_def fenced_def split: option.splits)

lemma DeleteTerminalJobsBefore_rows:
  assumes "exec_inv s"
  shows "tget (st_tasks (fst (DeleteTerminalJobsBefore ctx cutoff b s))) k = Some t \<Longrightarrow> tget (st_tasks s) k = Some t"
    and "tget (st_jobs (fst (DeleteTerminalJobsBefore ctx cutoff b s))) k = Some j \<Longrightarrow> tget (st_jobs s) k = Some j"
  using deleted_rows [OF assms]
  by (auto simp: DeleteTerminalJobsBefore_def fenced_def Let_def case_prod_unfold split: option.splits)

lemma CreateJobSubmission_rows:
  assumes "submission_ok sub"
  shows "tget (st_tasks s) k = Some t \<Longrightarrow> tget (st_tasks (fst (CreateJobSubmission ctx sub clock s))) k = Some t"
    and "tget (st_jobs s) k = Some j \<Longrightarrow> tget (st_jobs (fst (CreateJobSubmission ctx sub clock s))) k = Some j"
proof -
  obtain s' r where p: "CreateJobSubmission ctx sub clock s = (s', r)"
    by (cases "CreateJobSubmission ctx sub clock s")
  have "(\<forall>k t. tget (st_tasks s) k = Some t \<longrightarrow> tget (st_tasks s') k = Some t) \<and>
      (\<forall>k j. tget (st_jobs s) k = Some j \<longrightarrow> tget (st_jobs s') k = Some j)"
  proof (cases r)
    case (Inl e)
    then show ?thesis using CreateJobSubmission_refused [of ctx sub clock s s' e] p by simp
  next
    case (Inr out)
    note ad = adds_jobD [OF CreateJobSubmission_adds [OF p [unfolded Inr] assms]]
    show ?thesis using adds_rowsD(1) [OF ad(4)] adds_rowsD(1) [OF ad(6)] by blast
  qed
  then show "tget (st_tasks s) k = Some t \<Longrightarrow> tget (st_tasks (fst (CreateJobSubmission ctx sub clock s))) k = Some t"
    "tget (st_jobs s) k = Some j \<Longrightarrow> tget (st_jobs (fst (CreateJobSubmission ctx sub clock s))) k = Some j"
    using p by simp_all
qed

lemma LeaseTask_rows:
  assumes inv: "exec_inv s" and t: "tget (st_tasks s) k = Some t"
    and t': "tget (st_tasks (fst (LeaseTask ctx req s))) k = Some t'"
  shows "t' = t \<or> task_Status t = TaskStatusReady \<and> task_Status t' = TaskStatusAssigned"
proof -
  obtain s' r where p: "LeaseTask ctx req s = (s', r)" by (cases "LeaseTask ctx req s")
  show ?thesis
  proof (cases "\<exists>res. r = Inr res \<and> res_Outcome res = LeaseLeased")
    case True
    then obtain res where r: "r = Inr res" "res_Outcome res = LeaseLeased" by blast
    obtain u j where g: "lease_granted req s u j"
      and s': "s' = fst (leaseWrite req u (sort_key upc_PoolID (req_Claims req)) s)"
      using LeaseTask_leased [OF p [unfolded r(1)] r(2)] by metis
    have u: "tget (st_tasks s) (task_ID u) = Some u" "task_Status u = TaskStatusReady"
      using g exec_inv_taskID [OF inv] by (auto simp: lease_granted_def dest: leasableLocked_Ready)
    have "tget (st_tasks s') k = (if k = task_ID u then Some (leaseTaskRow req u) else tget (st_tasks s) k)"
      by (simp add: s' leaseWrite_def Let_def)
    moreover have "tget (st_tasks s') k = Some t'" using t' p by simp
    ultimately show ?thesis
      using u t by (auto split: if_splits)
  next
    case False
    have "s' = s" by (rule LeaseTask_not_leased [OF p]) (use False in blast)
    then show ?thesis using t t' p by simp
  qed
qed

lemma LeaseTask_jobs: "LeaseTask ctx req s = (s', r) \<Longrightarrow> st_jobs s' = st_jobs s"
  by (auto simp: LeaseTask_def fenced_def leaseWrite_def Let_def split: option.splits if_splits sum.splits)

lemma UpdateJob_rows:
  assumes inv: "exec_inv s"
  shows "st_tasks (fst (UpdateJob ctx job clock s)) = st_tasks s"
    and "tget (st_jobs s) k = Some j \<Longrightarrow> tget (st_jobs (fst (UpdateJob ctx job clock s))) k = Some j' \<Longrightarrow>
      job_Status j' = job_Status j"
  by (auto simp: UpdateJob_def fenced_def Let_def split: option.splits if_splits)

lemma exec_restructures_task:
  assumes inv: "exec_inv s" and ok: "op_ok op s" and re: "restructures op"
    and t: "tget (st_tasks s) k = Some t" "tget (st_tasks (exec op s)) k = Some t'"
  shows "task_Status t' = task_Status t \<or> task_legal (task_Status t) (task_Status t')"
  using re
proof (cases rule: restructures_cases)
  case (1 c r)
  have "task_legal TaskStatusReady TaskStatusAssigned"
    by (simp add: task_legal_def ValidateTaskTransition_def validTaskTransitions_def)
  then show ?thesis
    using LeaseTask_rows [OF inv t(1), of c r t'] t(2) 1 by auto
next
  case (2 c sub u)
  then show ?thesis using CreateJobSubmission_rows(1) [OF _ t(1)] ok t(2) by (simp add: op_ok_def)
next
  case (3 c job u)
  then show ?thesis using UpdateJob_rows(1) [OF inv] t by simp
next
  case (4 c jid)
  then show ?thesis using DeleteJob_rows(1) [OF inv] t by simp
next
  case (5 c u b)
  then show ?thesis using DeleteTerminalJobsBefore_rows(1) [OF inv] t by simp
qed

text \<open>C3: every operation of the store moves a task only along the transitions that
  \<^verbatim>\<open>ValidateTaskTransition\<close> allows; the one exception is \<^verbatim>\<open>RetryTasks\<close>, which brings a failed or canceled
  task back to ready or pending.\<close>

theorem task_transitions_legal:
  assumes "reachable s" "op_ok op s"
    and "tget (st_tasks s) k = Some t" "tget (st_tasks (exec op s)) k = Some t'"
    and "task_Status t' \<noteq> task_Status t"
  shows "ValidateTaskTransition (task_Status t) (task_Status t') = None \<or>
    is_retry op \<and> retry_arrow (task_Status t) (task_Status t')"
proof -
  have inv: "exec_inv s" by (rule exec_system.reach_inv [OF assms(1)])
  show ?thesis
  proof (cases "restructures op")
    case True
    then show ?thesis
      using exec_restructures_task [OF inv assms(2) True assms(3,4)] assms(5) by (simp add: task_legal_def)
  next
    case False
    then have "task_moves (\<lambda>a b. task_unleased a b \<or> is_retry op \<and> retry_arrow a b)
        (st_tasks s) (st_tasks (exec op s))"
      using exec_moves [OF inv assms(2)] by (simp add: sound_move_def moved_def)
    from task_movesD [OF this assms(3)] show ?thesis
      using assms(4,5) unfolding task_unleased_def task_legal_def by (metis option.inject)
  qed
qed

theorem task_transitions_legal_witness:
  "\<exists>t t'. tget (st_tasks demo_store) ''t1'' = Some t \<and>
     tget (st_tasks (exec (AttemptOp (OpCancelTask None ''t1'' ''stop'' 200)) demo_store)) ''t1'' = Some t' \<and>
     task_Status t = TaskStatusRunning \<and> task_Status t' = TaskStatusCanceled \<and>
     ValidateTaskTransition (task_Status t) (task_Status t') = None"
proof -
  let ?op = "AttemptOp (OpCancelTask None ''t1'' ''stop'' 200)"
  have "map_option task_Status (tget (st_tasks demo_store) ''t1'') = Some TaskStatusRunning"
    "map_option task_Status (tget (st_tasks (exec ?op demo_store)) ''t1'') = Some TaskStatusCanceled"
    by code_simp+
  then obtain t t' where t: "tget (st_tasks demo_store) ''t1'' = Some t" "task_Status t = TaskStatusRunning"
    "tget (st_tasks (exec ?op demo_store)) ''t1'' = Some t'" "task_Status t' = TaskStatusCanceled"
    by auto
  have "ValidateTaskTransition (task_Status t) (task_Status t') = None \<or>
      is_retry ?op \<and> retry_arrow (task_Status t) (task_Status t')"
    by (rule task_transitions_legal [OF demo_reachable _ t(1,3)]) (simp_all add: op_ok_def t(2,4))
  then have "ValidateTaskTransition (task_Status t) (task_Status t') = None"
    by (simp add: is_retry_def)
  with t show ?thesis by blast
qed

lemma blocked_outcome:
  assumes inv: "exec_inv s" and bl: "blocked_ok s" "blocked_job s jid"
    and out: "jobOutcome_scan jid False False (trows (st_steps s)) = Some st"
  shows "st = JobStatusCanceled"
proof -
  have ok: "table_ok (st_steps s)" using exec_inv_table_ok [OF inv] by blast
  obtain k x where x: "tget (st_steps s) k = Some x" "step_JobID x = jid"
    using bl unfolding blocked_ok_def by blast
  have held: "held_step (step_Status y)" if "y \<in> set (trows (st_steps s))" "step_JobID y = jid" for y
    using that bl ok unfolding blocked_ok_def by (auto simp: trows_iff)
  have "step_Status y = StepStatusCanceled" if "y \<in> set (trows (st_steps s))" "step_JobID y = jid" for y
    using held [OF that] out that
    by (auto simp: jobOutcome_scan_eq held_step_def list_ex_iff split: if_splits)
  then show ?thesis
    using out tget_trows [OF x(1)] x(2)
    by (auto simp: jobOutcome_scan_eq list_ex_iff split: if_splits)
qed

lemma FinalizeJob_job_legal:
  assumes inv: "exec_inv s" and bl: "blocked_ok s"
    and j: "tget (st_jobs s) k = Some j" "tget (st_jobs (fst (FinalizeJob ctx jid now s))) k = Some j'"
    and ne: "job_Status j' \<noteq> job_Status j"
  shows "job_legal (job_Status j) (job_Status j')"
proof -
  obtain out where out: "jobOutcome_scan jid False False (trows (st_steps s)) = Some out"
    "k = jid" "\<not> JobStatus_IsTerminal (job_Status j)" "job_Status j' = out"
    using j ne by (auto simp: FinalizeJob_def fenced_def split: option.splits if_splits)
  note fin = jobOutcome_scan_terminal [OF out(1)]
  show ?thesis
  proof (cases "job_Status j = JobStatusBlocked")
    case True
    then have "blocked_job s jid" using j(1) out(2) by (simp add: blocked_job_iff)
    then show ?thesis
      using blocked_outcome [OF inv bl _ out(1)] out(4) True by (simp add: job_legal_cases)
  next
    case False
    then show ?thesis using out(3,4) fin ne
      by (cases "job_Status j"; cases "job_Status j'") (simp_all add: job_legal_cases)
  qed
qed

text \<open>C4: as long as no caller releases a step of a blocked job and a step is finalized only
  when it has tasks, every operation moves a job only along the transitions of
  \<^verbatim>\<open>JobTransitions\<close>; in particular a blocked job never completes or fails, it is released or
  canceled.\<close>

theorem job_transitions_legal:
  assumes "sched_reachable s" "sched_ok op s"
    and "tget (st_jobs s) k = Some j" "tget (st_jobs (exec op s)) k = Some j'"
    and "job_Status j' \<noteq> job_Status j"
  shows "job_Status j' \<in> set (JobTransitions (job_Status j))"
proof -
  have inv: "exec_inv s" and bl: "blocked_ok s" and ok: "op_ok op s"
    using sched_system.both.reach_inv [OF assms(1)] assms(2) by (simp_all add: sched_ok_def)
  show ?thesis unfolding job_legal_def [symmetric]
  proof (cases "restructures op")
    case True
    then show "job_legal (job_Status j) (job_Status j')"
    proof (cases rule: restructures_cases)
      case (1 c r)
      obtain s' q where p: "LeaseTask c r s = (s', q)" by (cases "LeaseTask c r s")
      have "st_jobs (fst (LeaseTask c r s)) = st_jobs s"
        using LeaseTask_jobs [OF p] p by simp
      then show ?thesis using assms(3,4,5) 1 by simp
    next
      case (2 c sub u)
      then show ?thesis
        using CreateJobSubmission_rows(2) [OF _ assms(3)] ok assms(4,5) by (simp add: op_ok_def)
    next
      case (3 c job u)
      then show ?thesis using UpdateJob_rows(2) [OF inv assms(3)] assms(4,5) by simp
    next
      case (4 c jid)
      then show ?thesis using DeleteJob_rows(2) [OF inv] assms(3,4,5) by simp
    next
      case (5 c u b)
      then show ?thesis using DeleteTerminalJobsBefore_rows(2) [OF inv] assms(3,4,5) by simp
    qed
  next
    case False
    show "job_legal (job_Status j) (job_Status j')"
    proof (cases "finalizes_job op")
      case True
      then obtain c jid t where "op = StepOp (OpFinalizeJob c jid t)"
        by (auto simp: finalizes_job_def split: store_op.splits step_op.splits)
      then show ?thesis using FinalizeJob_job_legal [OF inv bl assms(3)] assms(4,5) by simp
    next
      case nf: False
      have "job_moves (\<lambda>a b. job_legal a b \<or> finalizes_job op \<and> job_arrow a b) (st_jobs s) (st_jobs (exec op s))"
        using exec_moves [OF inv ok False] by (simp add: sound_move_def moved_def)
      from job_movesD [OF this assms(3)] show ?thesis
        using assms(4,5) nf by (metis option.inject)
    qed
  qed
qed

lemma demo_sched_reachable: "sched_reachable demo_store"
  unfolding demo_store_def by (rule reach_run_init) code_simp

theorem job_transitions_legal_witness:
  "\<exists>j j'. tget (st_jobs demo_store) ''b'' = Some j \<and>
     tget (st_jobs (exec (StepOp (OpCancelBlocked None ''b'' ''gone'' 200)) demo_store)) ''b'' = Some j' \<and>
     job_Status j = JobStatusBlocked \<and> job_Status j' \<in> set (JobTransitions JobStatusBlocked)"
proof -
  let ?op = "StepOp (OpCancelBlocked None ''b'' ''gone'' 200)"
  have "map_option job_Status (tget (st_jobs demo_store) ''b'') = Some JobStatusBlocked"
    "map_option job_Status (tget (st_jobs (exec ?op demo_store)) ''b'') = Some JobStatusCanceled"
    by code_simp+
  then obtain j j' where j: "tget (st_jobs demo_store) ''b'' = Some j" "job_Status j = JobStatusBlocked"
    "tget (st_jobs (exec ?op demo_store)) ''b'' = Some j'" "job_Status j' = JobStatusCanceled"
    by auto
  have "job_Status j' \<in> set (JobTransitions (job_Status j))"
    by (rule job_transitions_legal [OF demo_sched_reachable _ j(1,3)])
      (simp_all add: sched_ok_def op_ok_def j(2,4))
  with j show ?thesis by auto
qed

section \<open>Capacity\<close>

text \<open>C5: no operation takes the load of a queue, a farm or a usage pool above its cap.  Whatever operation
  comes next, and whatever caps administrators have set before, the active tasks of each queue and farm and
  the active claims of each pool do not rise, or they are at most the maximum in force afterwards (where there
  is one).  So a lease is never granted beyond a cap, and a load that a lowered cap left too high only falls.
  The one exception is an \<^verbatim>\<open>UpdateJob\<close> that moves a job, with what it has in flight, to another queue or farm.\<close>

theorem capacity_respected:
  assumes "reachable s" "op_ok op s" "\<not> moves_job op s"
  shows "caps_respected s (exec op s)"
  using caps_respected_exec [OF exec_system.reach_inv [OF assms(1)] assms(2,3)] .

theorem capacity_respected_witness:
  "let s = run exec demo_setup New; op = AttemptOp (OpLease None (demo_request ''t1'' ''a1''))
   in reachable s \<and> CountActiveTasksInQueue ''q'' s = 0 \<and> CountActiveTasksInQueue ''q'' (exec op s) = 1 \<and>
      caps_respected s (exec op s)"
proof -
  have "reachable (run exec demo_setup New)" by (rule reach_run_init) code_simp
  moreover have "op_ok (AttemptOp (OpLease None (demo_request ''t1'' ''a1''))) (run exec demo_setup New)"
    "CountActiveTasksInQueue ''q'' (run exec demo_setup New) = 0"
    "CountActiveTasksInQueue ''q'' (exec (AttemptOp (OpLease None (demo_request ''t1'' ''a1''))) (run exec demo_setup New)) = 1"
    by code_simp+
  ultimately show ?thesis
    using capacity_respected [of "run exec demo_setup New" "AttemptOp (OpLease None (demo_request ''t1'' ''a1''))"]
    by (simp add: moves_job_def Let_def)
qed

definition queue_keys :: "store \<Rightarrow> bool" where
  "queue_keys s \<longleftrightarrow> (\<forall>k q. tget (st_queues s) k = Some q \<longrightarrow> queue_ID q = k)"

lemma queue_keys_exec_config: "queue_keys s \<Longrightarrow> queue_keys (exec_config op s)"
  by (cases op)
    (auto simp: queue_keys_def CreateFarm_def UpdateFarm_def DeleteFarm_def CreateQueue_def UpdateQueue_def
      DeleteQueue_def CreateUsagePool_def UpdateUsagePool_def DeleteUsagePool_def CreateTaskLog_def
      stampLocked_def fenced_def frame_simps split: option.splits if_splits)

interpretation queue_system: invariant_of New exec op_ok queue_keys
proof
  show "queue_keys New" by (simp add: queue_keys_def New_def)
  fix s op assume "queue_keys s"
  show "queue_keys (exec op s)"
  proof (cases "\<exists>c. op = ConfigOp c")
    case True
    then show ?thesis using queue_keys_exec_config \<open>queue_keys s\<close> by auto
  next
    case False
    then have "st_queues (exec op s) = st_queues s"
      using config_kept_exec [of op s] admin_part_exec [of op s]
      by (cases op) (simp_all add: config_kept_def admin_part_def is_admin_def reconfigures_def)
    then show ?thesis using \<open>queue_keys s\<close> by (simp add: queue_keys_def)
  qed
qed

text \<open>C6: a lease that is granted was deserved: the task was ready, its job neither paused nor
  over, its queue not paused, its retry delay over, the worker not disabled; afterwards the task
  is assigned to that worker, and the attempt returned is a new running attempt stored under the
  requested ID whose number is above every earlier attempt's.\<close>

theorem lease_granted_effect:
  assumes "reachable s" "LeaseTask ctx req s = (s', Inr res)" "res_Outcome res = LeaseLeased"
  shows "\<exists>t j q a. tget (st_tasks s) (req_TaskID req) = Some t \<and> task_Status t = TaskStatusReady \<and>
      (\<forall>at. task_RetryAfter t = Some at \<longrightarrow> at \<le> req_Now req) \<and>
      tget (st_jobs s) (task_JobID t) = Some j \<and> job_Status j \<noteq> JobStatusPaused \<and>
      \<not> JobStatus_IsTerminal (job_Status j) \<and>
      tget (st_queues s) (job_QueueID j) = Some q \<and> \<not> queue_Paused q \<and>
      (\<forall>w. tget (st_workers s) (req_WorkerID req) = Some w \<longrightarrow> \<not> worker_Disabled w) \<and>
      tget (st_tasks s') (req_TaskID req) = Some (leaseTaskRow req t) \<and>
      res_Attempt res = Some a \<and> tget (st_taskAttempts s') (req_AttemptID req) = Some a \<and>
      att_Status a = AttemptStatusRunning \<and> att_TaskID a = req_TaskID req \<and>
      (\<forall>k b. tget (st_taskAttempts s) k = Some b \<and> att_TaskID b = req_TaskID req \<longrightarrow>
         att_AttemptNumber b < att_AttemptNumber a)"
proof -
  have inv: "exec_inv s" by (rule exec_system.reach_inv [OF assms(1)])
  obtain t j where g: "lease_granted req s t j"
    and s': "s' = fst (leaseWrite req t (sort_key upc_PoolID (req_Claims req)) s)"
    and a: "res_Attempt res = Some (snd (leaseWrite req t (sort_key upc_PoolID (req_Claims req)) s))"
    using LeaseTask_leased [OF assms(2,3)] by metis
  have t: "tget (st_tasks s) (req_TaskID req) = Some t" "tget (st_jobs s) (task_JobID t) = Some j"
    "leasableLocked s t req" and w: "\<forall>w. tget (st_workers s) (req_WorkerID req) = Some w \<longrightarrow> \<not> worker_Disabled w"
    using g by (simp_all add: lease_granted_def)
  have id: "task_ID t = req_TaskID req" by (rule exec_inv_taskID [OF inv t(1)])
  obtain q where q: "tget (st_queues s) (job_QueueID j) = Some q"
    and rdy: "isReadyInFarm t [] (req_Now req) (st_jobs s) [(queue_ID q, queue_Paused q)]"
    using t(2,3) by (auto simp: leasableLocked_def split: option.splits if_splits)
  have qid: "queue_ID q = job_QueueID j"
    using queue_system.reach_inv [OF assms(1)] q by (simp add: queue_keys_def)
  have num: "att_AttemptNumber b < nextAttemptNumber s (req_TaskID req)"
    if "tget (st_taskAttempts s) k = Some b" "att_TaskID b = req_TaskID req" for k b
    using nextAttemptNumber_greater [OF that] .
  show ?thesis
    using t(1,2) q rdy w a num
    by (intro exI conjI)
      (auto simp: isReadyInFarm_def s' leaseWrite_def Let_def id qid not_less
        split: if_splits option.splits)
qed

definition demo_idle :: store where
  "demo_idle = run exec demo_setup New"

lemma demo_idle_reachable: "reachable demo_idle"
  unfolding demo_idle_def by (rule reach_run_init) code_simp

theorem lease_granted_effect_witness:
  "\<exists>s' res t a. LeaseTask None (demo_request ''t1'' ''a1'') demo_idle = (s', Inr res) \<and>
     res_Outcome res = LeaseLeased \<and> tget (st_tasks s') ''t1'' = Some t \<and>
     task_Status t = TaskStatusAssigned \<and> tget (st_taskAttempts s') ''a1'' = Some a \<and>
     att_TaskID a = ''t1''"
proof -
  have "(case snd (LeaseTask None (demo_request ''t1'' ''a1'') demo_idle) of
      Inr res \<Rightarrow> res_Outcome res = LeaseLeased | Inl e \<Rightarrow> False)"
    by code_simp
  then obtain s' res where r: "LeaseTask None (demo_request ''t1'' ''a1'') demo_idle = (s', Inr res)"
    "res_Outcome res = LeaseLeased"
    by (cases "LeaseTask None (demo_request ''t1'' ''a1'') demo_idle") (auto split: sum.splits)
  from lease_granted_effect [OF demo_idle_reachable r] r show ?thesis
    by (auto simp: demo_request_def leaseTaskRow_def)
qed

end
