(* ===== verification/StoreEffects.thy ===== *)
theory StoreEffects
  imports StoreProps
begin

text \<open>
  What single operations of the in-memory store achieve: a failure is counted once, a report always
  closes its attempt, outcomes follow from what is below them, a canceled job is over, retention
  keeps what is still needed, a submission is stored whole or not at all, and a server that lost
  the leader lease writes nothing.
\<close>

section \<open>Reports\<close>

text \<open>An attempt that is not running, and the lease that starts one.\<close>

definition closed_attempt :: "string \<Rightarrow> store \<Rightarrow> bool" where
  "closed_attempt aid s \<longleftrightarrow>
     (case tget (st_taskAttempts s) aid of Some a \<Rightarrow> att_Status a \<noteq> AttemptStatusRunning | None \<Rightarrow> True)"

definition leases_as :: "string \<Rightarrow> store_op \<Rightarrow> bool" where
  "leases_as aid op \<longleftrightarrow> (case op of AttemptOp (OpLease c req) \<Rightarrow> req_AttemptID req = aid | _ \<Rightarrow> False)"

lemma closed_attempt_fewer:
  "closed_attempt aid s \<Longrightarrow> (\<And>a. tget (st_taskAttempts s') aid = Some a \<Longrightarrow> tget (st_taskAttempts s) aid = Some a) \<Longrightarrow>
    closed_attempt aid s'"
  by (auto simp: closed_attempt_def split: option.splits)

lemma closed_attempt_deleteJob:
  "exec_inv s \<Longrightarrow> closed_attempt aid s \<Longrightarrow> closed_attempt aid (deleteJobLocked i s)"
  by (erule closed_attempt_fewer) (simp add: deleteJobLocked_get)

lemma closed_attempt_deleteExpired:
  "exec_inv s \<Longrightarrow> closed_attempt aid s \<Longrightarrow> closed_attempt aid (fst (deleteExpired cutoff b ids s))"
  by (induction ids arbitrary: s)
    (simp_all add: Let_def case_prod_unfold exec_inv_deleteJobLocked closed_attempt_deleteJob split: option.split)

lemma closed_attempt_submission:
  assumes "submission_ok sub" "closed_attempt aid s"
  shows "closed_attempt aid (fst (CreateJobSubmission c sub clock s))"
proof -
  obtain s' r where p: "CreateJobSubmission c sub clock s = (s', r)" by (cases "CreateJobSubmission c sub clock s")
  have "st_taskAttempts s' = st_taskAttempts s"
    using CreateJobSubmission_refused [of c sub clock s s'] CreateJobSubmission_adds [OF _ assms(1)] p
    by (cases r) (auto simp: adds_job_def)
  then show ?thesis using assms(2) p by (simp add: closed_attempt_def)
qed

text \<open>Nothing but a lease under its identifier makes an attempt run.\<close>

lemma closed_attempt_exec:
  assumes inv: "exec_inv s" and ok: "op_ok op s" and new: "\<not> leases_as aid op" and c: "closed_attempt aid s"
  shows "closed_attempt aid (exec op s)"
proof (cases "restructures op")
  case False
  have "attempt_moves (st_taskAttempts s) (st_taskAttempts (exec op s))"
    using exec_moves [OF inv ok False] by (simp add: sound_move_def moved_def)
  then have "rel_option (\<lambda>a a'. attempt_key a' = attempt_key a \<and>
      (att_Status a' = AttemptStatusRunning \<longrightarrow> att_Status a = AttemptStatusRunning))
      (tget (st_taskAttempts s) aid) (tget (st_taskAttempts (exec op s)) aid)"
    unfolding attempt_moves_def by blast
  then show ?thesis using c by (auto simp: closed_attempt_def elim!: option.rel_cases split: option.splits)
next
  case True
  then consider (lease) c' req where "op = AttemptOp (OpLease c' req)" | (submit) c' sub t where "op = JobOp (OpSubmit c' sub t)" |
    (update) c' job t where "op = JobOp (OpUpdateJob c' job t)" | (delete) c' i where "op = JobOp (OpDeleteJob c' i)" |
    (expire) c' t b where "op = JobOp (OpExpireJobs c' t b)"
    by (auto simp: restructures_def split: store_op.splits attempt_op.splits job_op.splits)
  then show ?thesis
  proof cases
    case lease
    then have "tget (st_taskAttempts (exec op s)) aid = tget (st_taskAttempts s) aid"
      using new by (auto simp: leases_as_def LeaseTask_def fenced_def leaseWrite_def Let_def split: option.split sum.split)
    then show ?thesis using c by (simp add: closed_attempt_def)
  next
    case submit
    then show ?thesis using c ok closed_attempt_submission by (simp add: op_ok_def)
  next
    case update
    then have "st_taskAttempts (exec op s) = st_taskAttempts s"
      by (simp add: UpdateJob_def fenced_def Let_def split: option.split)
    then show ?thesis using c by (simp add: closed_attempt_def)
  next
    case delete
    then show ?thesis using c closed_attempt_deleteJob [OF inv] by (simp add: DeleteJob_def fenced_def split: option.split)
  next
    case expire
    then show ?thesis
      using c closed_attempt_deleteExpired [OF inv]
      by (simp add: DeleteTerminalJobsBefore_def fenced_def case_prod_unfold Let_def split: option.split)
  qed
qed

lemma closed_attempt_run:
  "exec_inv s \<Longrightarrow> run_ok exec op_ok ops s \<Longrightarrow> (\<forall>op \<in> set ops. \<not> leases_as aid op) \<Longrightarrow> closed_attempt aid s \<Longrightarrow>
    closed_attempt aid (run exec ops s)"
  by (induction ops arbitrary: s) (simp_all add: closed_attempt_exec exec_inv_exec)

text \<open>What the call that counts does, and that any other counts nothing.\<close>

lemma RecordTaskFailure_counts:
  assumes "RecordTaskFailure ctx aid tid ec sess msg now clock s = (s1, Inr (tf, jf, True))"
  shows "closed_attempt aid s1 \<and> (\<exists>t j. tget (st_tasks s) tid = Some t \<and> tget (st_jobs s) (task_JobID t) = Some j \<and>
      tf = task_FailedAttempts t + 1 \<and> jf = job_FailedAttempts j + 1 \<and>
      st_tasks s1 = tput tid (t\<lparr>task_FailedAttempts := tf, task_UpdatedAt := now\<rparr>) (st_tasks s) \<and>
      st_jobs s1 = tput (task_JobID t) (j\<lparr>job_FailedAttempts := jf, job_UpdatedAt := now\<rparr>) (st_jobs s))"
proof -
  have f: "fenceLocked ctx s = None"
    using assms(1) fenceLocked_cases [of ctx s] by (auto simp: RecordTaskFailure_def)
  obtain t where t: "tget (st_tasks s) tid = Some t"
    using assms(1) f by (cases "tget (st_tasks s) tid") (auto simp: RecordTaskFailure_def)
  obtain j where j: "tget (st_jobs s) (task_JobID t) = Some j"
    using assms(1) f t by (cases "tget (st_jobs s) (task_JobID t)") (auto simp: RecordTaskFailure_def)
  obtain a where a: "tget (st_taskAttempts s) aid = Some a" "att_Status a = AttemptStatusRunning"
    using assms(1) f t j
    by (cases "tget (st_taskAttempts s) aid") (auto simp: RecordTaskFailure_def Let_def split: if_splits)
  show ?thesis
    using assms f t j a
    by (auto simp: RecordTaskFailure_def Let_def releaseAttemptClaimsLocked_eq closed_attempt_def)
qed

lemma RecordTaskFailure_idle:
  assumes "closed_attempt aid s" "RecordTaskFailure ctx aid tid ec sess msg now clock s = (s', r)"
  shows "st_tasks s' = st_tasks s \<and> st_jobs s' = st_jobs s \<and> st_taskAttempts s' = st_taskAttempts s \<and>
    (\<forall>tf jf counted. r = Inr (tf, jf, counted) \<longrightarrow> \<not> counted)"
  using assms
  by (auto simp: RecordTaskFailure_def fenced_def closed_attempt_def Let_def releaseAttemptClaimsLocked_eq
      split: option.splits if_splits)

text \<open>C7: a failed attempt is counted exactly once.  The call that closes the attempt raises the stored
  failure count of its task and of the job by one, and returns both.  Whatever the store is made to do
  afterwards, further reports of the same attempt among it, one more report of that attempt, for whatever
  task and with whatever arguments, leaves every task, job and attempt as it is and says that it counted
  nothing.  Only a new lease that drew the same attempt ID would start the attempt again.\<close>

theorem failure_counted_once:
  assumes "reachable s" "RecordTaskFailure ctx aid tid ec sess msg now clock s = (s1, Inr (tf, jf, True))"
    and "run_ok exec op_ok ops s1" "\<forall>op \<in> set ops. \<not> leases_as aid op"
    and "RecordTaskFailure ctx2 aid tid2 ec2 sess2 msg2 now2 clock2 (run exec ops s1) = (s3, r)"
  shows "(\<exists>t j. tget (st_tasks s) tid = Some t \<and> tget (st_jobs s) (task_JobID t) = Some j \<and>
      tf = task_FailedAttempts t + 1 \<and> jf = job_FailedAttempts j + 1 \<and>
      st_tasks s1 = tput tid (t\<lparr>task_FailedAttempts := tf, task_UpdatedAt := now\<rparr>) (st_tasks s) \<and>
      st_jobs s1 = tput (task_JobID t) (j\<lparr>job_FailedAttempts := jf, job_UpdatedAt := now\<rparr>) (st_jobs s)) \<and>
    st_tasks s3 = st_tasks (run exec ops s1) \<and> st_jobs s3 = st_jobs (run exec ops s1) \<and>
    st_taskAttempts s3 = st_taskAttempts (run exec ops s1) \<and>
    (\<forall>tf2 jf2 counted. r = Inr (tf2, jf2, counted) \<longrightarrow> \<not> counted)"
proof -
  have "s1 = exec (AttemptOp (OpFailure ctx aid tid ec sess msg now clock)) s" using assms(2) by simp
  then have "exec_inv s1"
    using exec_inv_exec [OF exec_system.reach_inv [OF assms(1)], of "AttemptOp (OpFailure ctx aid tid ec sess msg now clock)"]
    by (simp add: op_ok_def)
  then have "closed_attempt aid (run exec ops s1)"
    using closed_attempt_run assms(3,4) RecordTaskFailure_counts [OF assms(2)] by blast
  then show ?thesis using RecordTaskFailure_counts [OF assms(2)] RecordTaskFailure_idle [OF _ assms(5)] by blast
qed

theorem failure_counted_once_witness:
  "\<exists>s1 s3. RecordTaskFailure None ''a1'' ''t1'' (Some 1) [] ''boom'' 300 300 demo_store = (s1, Inr (1, 1, True)) \<and>
     map_option task_FailedAttempts (tget (st_tasks s1) ''t1'') = Some 1 \<and>
     RecordTaskFailure None ''a1'' ''t1'' None [] ''again'' 500 500
       (exec (AttemptOp (OpFailure None ''a1'' ''t1'' None [] ''again'' 400 400)) s1) = (s3, Inr (1, 1, False)) \<and>
     map_option task_FailedAttempts (tget (st_tasks s3) ''t1'') = Some 1"
proof -
  let ?again = "AttemptOp (OpFailure None ''a1'' ''t1'' None [] ''again'' 400 400)"
  let ?first = "RecordTaskFailure None ''a1'' ''t1'' (Some 1) [] ''boom'' 300 300 demo_store"
  define s1 where "s1 = fst ?first"
  define last where "last = RecordTaskFailure None ''a1'' ''t1'' None [] ''again'' 500 500 (exec ?again s1)"
  have "snd ?first = Inr (1, 1, True)" by code_simp
  then have s1: "?first = (s1, Inr (1, 1, True))" unfolding s1_def by (simp add: prod_eq_iff)
  have f: "map_option task_FailedAttempts (tget (st_tasks s1) ''t1'') = Some 1" unfolding s1_def by code_simp
  have g: "map_option task_FailedAttempts (tget (st_tasks (exec ?again s1)) ''t1'') = Some 1" unfolding s1_def by code_simp
  have "snd last = Inr (1, 1, False)" unfolding last_def s1_def by code_simp
  then have last: "RecordTaskFailure None ''a1'' ''t1'' None [] ''again'' 500 500 (run exec [?again] s1) = (fst last, Inr (1, 1, False))"
    using last_def by (simp add: prod_eq_iff)
  have "st_tasks (fst last) = st_tasks (run exec [?again] s1)"
    using failure_counted_once [OF demo_reachable s1 _ _ last] by (simp add: op_ok_def leases_as_def)
  then have "map_option task_FailedAttempts (tget (st_tasks (fst last)) ''t1'') = Some 1" using g by simp
  then show ?thesis using s1 f last by auto
qed

lemma releaseWhere_released:
  assumes "tget (releaseWhere K at C) k = Some cl" "K (claim_TaskAttemptID cl)"
  shows "claim_ReleasedAt cl \<noteq> None"
proof -
  obtain c where "tget C k = Some c" and cl: "cl =
      (if K (claim_TaskAttemptID c) \<and> claim_ReleasedAt c = None then releaseClaim at c else c)"
    using assms(1) by (auto simp: releaseWhere_def)
  show ?thesis
  proof (cases "K (claim_TaskAttemptID c) \<and> claim_ReleasedAt c = None")
    case True
    then show ?thesis using cl by simp
  next
    case False
    then have "cl = c" unfolding cl by (rule if_not_P)
    then show ?thesis using False assms(2) by simp
  qed
qed

text \<open>C8: a completion report that finds its task always closes its own attempt and releases every
  claim of it, even when the report itself is rejected; a rejected report leaves every task alone,
  and an applied one gives the task the reported status.\<close>

theorem completion_always_closes:
  assumes "CompleteTaskAttempt ctx c clock s = (s', Inr r)" "ac_AttemptStatus c \<noteq> AttemptStatusRunning"
  shows "(\<forall>a. tget (st_taskAttempts s') (ac_AttemptID c) = Some a \<longrightarrow> att_Status a \<noteq> AttemptStatusRunning) \<and>
    (\<forall>k cl. tget (st_usageClaims s') k = Some cl \<and> claim_TaskAttemptID cl = ac_AttemptID c \<longrightarrow>
       claim_ReleasedAt cl \<noteq> None) \<and>
    (if cr_Rejected r then st_tasks s' = st_tasks s
     else \<exists>t. tget (st_tasks s') (ac_TaskID c) = Some t \<and> task_Status t = ac_TaskStatus c)"
proof -
  let ?s1 = "closeRunningAttemptLocked c clock s"
  obtain t where t: "tget (st_tasks s) (ac_TaskID c) = Some t"
    using assms(1) by (auto simp: CompleteTaskAttempt_def fenced_def Let_def split: option.splits)
  have s': "s' = (if completion_rejected s t c then ?s1
      else ?s1\<lparr>st_tasks := tput (ac_TaskID c) (completeTaskRow c clock t) (st_tasks ?s1)\<rparr>)"
    "cr_Rejected r = completion_rejected s t c"
    using assms(1) t by (auto simp: CompleteTaskAttempt_def fenced_def Let_def split: option.splits if_splits)
  have tabs: "st_taskAttempts s' = st_taskAttempts ?s1" "st_usageClaims s' = st_usageClaims ?s1"
    "st_tasks ?s1 = st_tasks s"
    using s' by (simp_all add: closeRunningAttemptLocked_eq)
  have "att_Status a \<noteq> AttemptStatusRunning"
    if "tget (st_taskAttempts ?s1) (ac_AttemptID c) = Some a" for a
    using that assms(2) by (auto simp: closeRunningAttemptLocked_eq split: option.splits if_splits)
  moreover have "claim_ReleasedAt cl \<noteq> None"
    if "tget (st_usageClaims ?s1) k = Some cl" "claim_TaskAttemptID cl = ac_AttemptID c" for k cl
    using that releaseWhere_released [of "\<lambda>i. i = ac_AttemptID c"]
    by (simp add: closeRunningAttemptLocked_eq)
  ultimately show ?thesis using s' tabs by auto
qed

definition demo_report :: "task_status \<Rightarrow> AttemptCompletion" where
  "demo_report st = \<lparr> ac_AttemptID = ''a1'', ac_TaskID = ''t1'', ac_TaskStatus = st,
     ac_AttemptStatus = AttemptStatusSucceeded, ac_ExitCode = Some 0, ac_SessionID = [],
     ac_Message = [], ac_FailureReason = [], ac_EndedAt = 500 \<rparr>"

theorem completion_always_closes_witness:
  "\<exists>s' a. CompleteTaskAttempt None (demo_report TaskStatusPending) 500 demo_store =
       (s', Inr \<lparr>cr_Applied = False, cr_Rejected = True\<rparr>) \<and>
     tget (st_taskAttempts s') ''a1'' = Some a \<and> att_Status a \<noteq> AttemptStatusRunning \<and>
     st_tasks s' = st_tasks demo_store"
proof -
  let ?r = "CompleteTaskAttempt None (demo_report TaskStatusPending) 500 demo_store"
  have "(case snd ?r of Inr r \<Rightarrow> \<not> cr_Applied r \<and> cr_Rejected r | Inl e \<Rightarrow> False) \<and>
      tget (st_taskAttempts (fst ?r)) ''a1'' \<noteq> None"
    by code_simp
  then obtain s' r a where r: "?r = (s', Inr r)" "\<not> cr_Applied r" "cr_Rejected r"
    "tget (st_taskAttempts s') ''a1'' = Some a"
    by (cases ?r) (auto split: sum.splits)
  have "ac_AttemptStatus (demo_report TaskStatusPending) \<noteq> AttemptStatusRunning"
    by (simp add: demo_report_def)
  from completion_always_closes [OF r(1) this] r show ?thesis
    by (intro exI [of _ s'] exI [of _ a]) (auto simp: demo_report_def)
qed

section \<open>Outcomes\<close>

text \<open>C9: \<^verbatim>\<open>FinalizeStep\<close> ends a step that is not over exactly when all its tasks are over, with the
  outcome the tasks determine: failed if one failed, else canceled if one was canceled, else
  completed.  Otherwise it changes nothing.\<close>

theorem finalize_step_outcome:
  assumes "fenceLocked ctx s = None" "tget (st_steps s) sid = Some st"
    "\<not> StepStatus_IsTerminal (step_Status st)"
  shows "FinalizeStep ctx sid now s =
    (let own = filter (\<lambda>t. task_StepID t = sid) (trows (st_tasks s));
         out = (if \<exists>t \<in> set own. task_Status t = TaskStatusFailed then StepStatusFailed
                else if \<exists>t \<in> set own. task_Status t = TaskStatusCanceled then StepStatusCanceled
                else StepStatusCompleted)
     in if \<forall>t \<in> set own. terminalTask (task_Status t)
        then (s\<lparr>st_steps := tput sid (st\<lparr>step_Status := out, step_UpdatedAt := now\<rparr>) (st_steps s)\<rparr>,
              Inr (Some out, True))
        else (s, Inr (None, False)))"
  using assms
  by (auto simp: FinalizeStep_def stepOutcomeLocked_def stepOutcome_scan_eq list_ex_iff Let_def)

theorem finalize_step_outcome_witness:
  "\<exists>st. tget (st_steps demo_store) ''s'' = Some st \<and> \<not> StepStatus_IsTerminal (step_Status st) \<and>
     FinalizeStep None ''s'' 600 demo_store = (demo_store, Inr (None, False))"
proof -
  have "map_option step_Status (tget (st_steps demo_store) ''s'') = Some StepStatusReady"
    "\<not> (\<forall>t \<in> set (filter (\<lambda>t. task_StepID t = ''s'') (trows (st_tasks demo_store))).
        terminalTask (task_Status t))"
    by code_simp+
  then obtain st where st: "tget (st_steps demo_store) ''s'' = Some st" "step_Status st = StepStatusReady"
    and nt: "\<not> (\<forall>t \<in> set (filter (\<lambda>t. task_StepID t = ''s'') (trows (st_tasks demo_store))).
        terminalTask (task_Status t))" by auto
  from finalize_step_outcome [OF fenceLocked_None_ctx st(1), of 600] st nt show ?thesis
    by (simp only: Let_def if_False) simp
qed

section \<open>Cancelling a job\<close>

lemma CancelJobExecution_tables:
  assumes "CancelJobExecution ctx jid r now s = (s', Inr active)"
  shows "st_tasks s' = cancelSweep jid r now (st_tasks s)"
    "\<exists>s2. st_tasks s2 = cancelSweep jid r now (st_tasks s) \<and>
       st_steps s' = tsweep (cancelStepRow s2 jid now) (st_steps s)"
    "\<exists>s3. st_jobs s3 = st_jobs s \<and> st_jobs s' = st_jobs (cancelJobRowLocked jid now s3)"
proof -
  let ?s1 = "s\<lparr>st_tasks := cancelSweep jid r now (st_tasks s)\<rparr>"
  let ?p = "\<lambda>taskID. task_JobID (tgetz zero_Task (st_tasks ?s1) taskID) = jid"
  let ?s2 = "closeAttemptsAndReleaseClaimsLocked ?p AttemptStatusCanceled [] now ?s1"
  let ?s3 = "cancelJobFinalizeStepsLocked jid now ?s2"
  have s': "s' = cancelJobRowLocked jid now ?s3"
    using assms by (auto simp: CancelJobExecution_def fenced_def Let_def cancelSweep_def split: option.splits)
  show "st_tasks s' = cancelSweep jid r now (st_tasks s)"
    by (simp add: s' cancelJobFinalizeStepsLocked_def closeAttemptsAndReleaseClaimsLocked_eq)
  have "st_tasks ?s2 = cancelSweep jid r now (st_tasks s)" "st_steps ?s2 = st_steps s"
    "st_jobs ?s3 = st_jobs s"
    by (simp_all add: cancelJobFinalizeStepsLocked_def closeAttemptsAndReleaseClaimsLocked_eq)
  moreover have "st_steps s' = tsweep (cancelStepRow ?s2 jid now) (st_steps s)"
    using calculation(2) by (simp add: s' cancelJobFinalizeStepsLocked_def)
  ultimately show "\<exists>s2. st_tasks s2 = cancelSweep jid r now (st_tasks s) \<and>
       st_steps s' = tsweep (cancelStepRow s2 jid now) (st_steps s)"
    "\<exists>s3. st_jobs s3 = st_jobs s \<and> st_jobs s' = st_jobs (cancelJobRowLocked jid now s3)"
    using s' by blast+
qed

lemma cancelSweep_terminal:
  assumes "tget (cancelSweep jid r now T) k = Some t" "task_JobID t = jid"
  shows "terminalTask (task_Status t)"
proof -
  obtain u where u: "(if \<not> (task_JobID u \<noteq> jid \<or> terminalTask (task_Status u))
      then cancelTaskRow r now True u else u) = t"
    using assms(1) unfolding cancelSweep_def tget_tsweep by (cases "tget T k") simp_all
  show ?thesis using assms(2) unfolding u [symmetric] by (simp split: if_splits)
qed

lemma cancelJobRowLocked_terminal:
  assumes "tget (st_jobs (cancelJobRowLocked jid now s)) jid = Some j"
  shows "JobStatus_IsTerminal (job_Status j)"
proof (cases "tget (st_jobs s) jid")
  case None
  then show ?thesis using assms by (simp add: cancelJobRowLocked_def)
next
  case (Some j0)
  then show ?thesis
    using assms by (cases "JobStatus_IsTerminal (job_Status j0)") (auto simp: cancelJobRowLocked_def)
qed

lemma cancelStepRow_terminal:
  assumes "\<And>t. t \<in> set (trows (st_tasks s)) \<Longrightarrow> task_StepID t = sid \<Longrightarrow> terminalTask (task_Status t)"
    "step_JobID st = jid"
  shows "StepStatus_IsTerminal (step_Status (cancelStepRow s jid now sid st))"
proof -
  have "stepOutcomeLocked s sid \<noteq> None" using assms(1) by (auto simp: stepOutcomeLocked_None)
  then show ?thesis
    using assms(2) by (auto simp: cancelStepRow_def dest: stepOutcomeLocked_terminal)
qed

text \<open>C10: after \<^verbatim>\<open>CancelJobExecution\<close> the job is over, whatever it was doing: its row, all its steps and
  all its tasks are in a terminal status, no attempt of its tasks is running and no claim of such
  an attempt is held.\<close>

theorem cancel_job_ends_everything:
  assumes "reachable s" "CancelJobExecution ctx jid r now s = (s', Inr active)"
  shows "(\<forall>k t. tget (st_tasks s') k = Some t \<and> task_JobID t = jid \<longrightarrow> terminalTask (task_Status t)) \<and>
    (\<forall>k st. tget (st_steps s') k = Some st \<and> step_JobID st = jid \<longrightarrow> StepStatus_IsTerminal (step_Status st)) \<and>
    (\<forall>j. tget (st_jobs s') jid = Some j \<longrightarrow> JobStatus_IsTerminal (job_Status j)) \<and>
    (\<forall>k a t. tget (st_taskAttempts s') k = Some a \<and> tget (st_tasks s') (att_TaskID a) = Some t \<and>
       task_JobID t = jid \<longrightarrow> att_Status a \<noteq> AttemptStatusRunning \<and>
       (\<forall>c. c \<in> set (trows (st_usageClaims s')) \<and> claim_TaskAttemptID c = k \<longrightarrow> claim_ReleasedAt c \<noteq> None))"
proof (intro conjI allI impI)
  have inv: "exec_inv s" by (rule exec_system.reach_inv [OF assms(1)])
  have "reachable s'"
    using reach_step [OF assms(1), of "StepOp (OpCancelJob ctx jid r now)"] assms(2) by (simp add: op_ok_def)
  then have inv': "exec_inv s'" by (rule exec_system.reach_inv)
  note T = CancelJobExecution_tables [OF assms(2)]
  have over: "terminalTask (task_Status t)" if "tget (st_tasks s') k = Some t" "task_JobID t = jid" for k t
    using cancelSweep_terminal that unfolding T(1) by blast
  show "terminalTask (task_Status t)" if "tget (st_tasks s') k = Some t \<and> task_JobID t = jid" for k t
    using over that by blast
  show "JobStatus_IsTerminal (job_Status j)" if "tget (st_jobs s') jid = Some j" for j
    using that T(3) cancelJobRowLocked_terminal by metis
  show "StepStatus_IsTerminal (step_Status st)"
    if st: "tget (st_steps s') k = Some st \<and> step_JobID st = jid" for k st
  proof -
    obtain s2 where s2: "st_tasks s2 = st_tasks s'" "st_steps s' = tsweep (cancelStepRow s2 jid now) (st_steps s)"
      using T(1,2) by metis
    obtain st0 where st0: "tget (st_steps s) k = Some st0" "st = cancelStepRow s2 jid now k st0"
      using st s2(2) by auto
    have "terminalTask (task_Status t)" if t: "t \<in> set (trows (st_tasks s2))" "task_StepID t = k" for t
    proof -
      obtain i where i: "tget (st_tasks s') i = Some t"
        using t(1) exec_inv_table_ok [OF inv'] s2(1) by (auto simp: trows_iff)
      then have "task_JobID t = jid" using exec_inv_task_step [OF inv' i] st t(2) by auto
      then show ?thesis using over i by blast
    qed
    moreover have "step_JobID st0 = jid"
      using st st0(2) by (auto simp: cancelStepRow_def split: option.splits if_splits)
    ultimately show ?thesis using cancelStepRow_terminal [of s2 k st0 jid now] st0(2) by blast
  qed
  fix k a t
  assume a: "tget (st_taskAttempts s') k = Some a \<and> tget (st_tasks s') (att_TaskID a) = Some t \<and> task_JobID t = jid"
  have na: "\<not> (terminalTask x \<and> inFlightTask x)" for x by (cases x) (simp_all add: inFlightTask_iff)
  show nr: "att_Status a \<noteq> AttemptStatusRunning"
    using exec_inv_flight [OF inv'] over a na by blast
  show "claim_ReleasedAt c \<noteq> None"
    if "c \<in> set (trows (st_usageClaims s')) \<and> claim_TaskAttemptID c = k" for c
    using that exec_inv_claim [OF inv'] exec_inv_table_ok [OF inv'] a nr by (fastforce simp: trows_iff)
qed

theorem cancel_job_ends_everything_witness:
  "\<exists>s' active. CancelJobExecution None ''j'' ''stop'' 700 demo_store = (s', Inr active) \<and>
     length active = 1 \<and> (\<forall>j. tget (st_jobs s') ''j'' = Some j \<longrightarrow> JobStatus_IsTerminal (job_Status j))"
proof -
  let ?r = "CancelJobExecution None ''j'' ''stop'' 700 demo_store"
  have "(case snd ?r of Inr active \<Rightarrow> length active = 1 | Inl e \<Rightarrow> False)" by code_simp
  then obtain s' active where "?r = (s', Inr active)" "length active = 1"
    by (cases ?r) (auto split: sum.splits)
  with cancel_job_ends_everything [OF demo_reachable this(1)] show ?thesis by blast
qed

section \<open>Retention\<close>

definition removable :: "time \<Rightarrow> bool \<Rightarrow> Job \<Rightarrow> bool" where
  "removable cutoff b j \<longleftrightarrow> terminalJobEligible (job_Status j) b \<and>
     (case job_CompletedAt j of Some at \<Rightarrow> at | None \<Rightarrow> job_UpdatedAt j) < cutoff"

definition retained :: "time \<Rightarrow> bool \<Rightarrow> store \<Rightarrow> store \<Rightarrow> bool" where
  "retained cutoff b s s' \<longleftrightarrow> exec_inv s' \<and>
     (\<forall>k j. tget (st_jobs s') k = Some j \<longrightarrow> tget (st_jobs s) k = Some j) \<and>
     (\<forall>k j. tget (st_jobs s) k = Some j \<and> tget (st_jobs s') k = None \<longrightarrow>
        removable cutoff b j \<and> \<not> neededByNonTerminalDependentLocked s' k)"

lemma needed_deleteJobLocked:
  assumes "neededByNonTerminalDependentLocked (deleteJobLocked jid u) k"
  shows "neededByNonTerminalDependentLocked u k"
proof -
  have D: "st_jobDependencies (deleteJobLocked jid u) = tdel jid (st_jobDependencies u)"
    "st_jobs (deleteJobLocked jid u) = tdel jid (st_jobs u)"
    by (simp_all add: deleteJobLocked_def Let_def)
  obtain d ups where d: "(d, ups) \<in> set (tdel jid (st_jobDependencies u))" "k \<in> set ups"
    "case tget (tdel jid (st_jobs u)) d of Some dep \<Rightarrow> \<not> JobStatus_IsTerminal (job_Status dep) | None \<Rightarrow> False"
    using assms unfolding neededByNonTerminalDependentLocked_def D by blast
  have "(d, ups) \<in> set (st_jobDependencies u)"
    using d(1) by (auto simp: tdel_def AList.delete_eq)
  moreover have "case tget (st_jobs u) d of Some dep \<Rightarrow> \<not> JobStatus_IsTerminal (job_Status dep) | None \<Rightarrow> False"
    using d(3) by (auto split: option.splits if_splits)
  ultimately show ?thesis using d(2) unfolding neededByNonTerminalDependentLocked_def by blast
qed

lemma retained_step:
  assumes I: "retained cutoff b s u" and x: "tget (st_jobs u) jid = Some x" "expiredJobLocked u x cutoff b"
  shows "retained cutoff b s (deleteJobLocked jid u)"
  unfolding retained_def
proof (intro conjI allI impI)
  have iu: "exec_inv u" using I by (simp add: retained_def)
  have J: "tget (st_jobs (deleteJobLocked jid u)) i = (if i = jid then None else tget (st_jobs u) i)" for i
    by (simp add: deleteJobLocked_def Let_def)
  have "job_ID x = jid" using exec_inv_jobID [OF iu x(1)] .
  then have new: "removable cutoff b x" "\<not> neededByNonTerminalDependentLocked u jid"
    using x(2) by (simp_all add: expiredJobLocked_def removable_def Let_def split: if_splits)
  have sx: "tget (st_jobs s) jid = Some x" using I x(1) unfolding retained_def by blast
  show "exec_inv (deleteJobLocked jid u)" by (rule exec_inv_deleteJobLocked [OF iu])
  show "tget (st_jobs s) i = Some y" if "tget (st_jobs (deleteJobLocked jid u)) i = Some y" for i y
    using that I J unfolding retained_def by (metis option.discI)
  fix i y
  assume d: "tget (st_jobs s) i = Some y \<and> tget (st_jobs (deleteJobLocked jid u)) i = None"
  have "removable cutoff b y \<and> \<not> neededByNonTerminalDependentLocked u i"
  proof (cases "i = jid")
    case True
    then have "y = x" using d sx by simp
    then show ?thesis using new True by blast
  next
    case False
    then have "tget (st_jobs u) i = None" using d J by simp
    then show ?thesis using I d unfolding retained_def by blast
  qed
  then show "removable cutoff b y" "\<not> neededByNonTerminalDependentLocked (deleteJobLocked jid u) i"
    using needed_deleteJobLocked by blast+
qed

text \<open>C11: retention deletes only what nobody needs: a job that \<^verbatim>\<open>DeleteTerminalJobsBefore\<close> removed was
  over and old enough, and in the store it leaves behind no job that is not over depends on it.\<close>

theorem retention_keeps_needed_jobs:
  assumes "reachable s" "DeleteTerminalJobsBefore ctx cutoff b s = (s', Inr gone)"
    and "tget (st_jobs s) k = Some j" "tget (st_jobs s') k = None"
  shows "terminalJobEligible (job_Status j) b \<and>
    (case job_CompletedAt j of Some at \<Rightarrow> at | None \<Rightarrow> job_UpdatedAt j) < cutoff \<and>
    \<not> neededByNonTerminalDependentLocked s' k"
proof -
  have "exec_inv s" by (rule exec_system.reach_inv [OF assms(1)])
  then have "retained cutoff b s s" by (auto simp: retained_def)
  then have "retained cutoff b s (fst (deleteExpired cutoff b ids s))" for ids
    by (rule deleteExpired_steps) (rule retained_step)
  moreover have "\<exists>ids. s' = fst (deleteExpired cutoff b ids s)"
    using assms(2) by (auto simp: DeleteTerminalJobsBefore_def fenced_def Let_def case_prod_unfold split: option.splits)
  ultimately show ?thesis using assms(3,4) unfolding retained_def removable_def by blast
qed

definition demo_over :: store where
  "demo_over = exec (StepOp (OpCancelJob None ''b'' ''stop'' 800)) demo_store"

lemma demo_over_reachable: "reachable demo_over"
  unfolding demo_over_def by (rule reach_step [OF demo_reachable]) (simp add: op_ok_def)

theorem retention_keeps_needed_jobs_witness:
  "\<exists>s' gone j. DeleteTerminalJobsBefore None 900 False demo_over = (s', Inr gone) \<and>
     tget (st_jobs demo_over) ''b'' = Some j \<and> tget (st_jobs s') ''b'' = None \<and>
     terminalJobEligible (job_Status j) False \<and> \<not> neededByNonTerminalDependentLocked s' ''b''"
proof -
  let ?r = "DeleteTerminalJobsBefore None 900 False demo_over"
  have "(case snd ?r of Inr g \<Rightarrow> length g = 1 | Inl e \<Rightarrow> False) \<and>
      tget (st_jobs demo_over) ''b'' \<noteq> None \<and> tget (st_jobs (fst ?r)) ''b'' = None"
    by code_simp
  then obtain s' gone j where r: "?r = (s', Inr gone)" "tget (st_jobs demo_over) ''b'' = Some j"
    "tget (st_jobs s') ''b'' = None"
    by (cases ?r) (auto split: sum.splits)
  with retention_keeps_needed_jobs [OF demo_over_reachable this] show ?thesis by blast
qed

section \<open>Submission\<close>

lemma set_foldl_addEdges:
  "set (foldl (\<lambda>es up. if up \<in> set es then es else es @ [up]) es ups) = set es \<union> set ups"
  by (induction ups arbitrary: es) auto

lemma CreateJobSubmission_edges:
  assumes "CreateJobSubmission ctx sub clock s = (s', Inr out)"
  shows "set (tgetz [] (st_jobDependencies s') (job_ID (sub_Job sub))) =
      set (tgetz [] (st_jobDependencies s) (job_ID (sub_Job sub))) \<union> set (sub_DependsOn sub)"
    and "sub_Job out = submittedJob sub clock"
proof -
  obtain s3 steps where i3: "insertSteps clock (sub_Steps sub) (insertJob sub clock s) = (s3, steps)"
    by (metis surj_pair)
  obtain s4 tasks where i4: "insertTasks clock (sub_Tasks sub) s3 = (s4, tasks)"
    by (metis surj_pair)
  have "s' = s4" "sub_Job out = submittedJob sub clock"
    using assms i3 i4 by (auto simp: CreateJobSubmission_def fenced_def split: option.splits)
  then have D: "st_jobDependencies s' = st_jobDependencies (insertJob sub clock s)"
    using insertSteps_eq [OF i3] insertTasks_eq [OF i4] by simp
  show "sub_Job out = submittedJob sub clock" by fact
  show "set (tgetz [] (st_jobDependencies s') (job_ID (sub_Job sub))) =
      set (tgetz [] (st_jobDependencies s) (job_ID (sub_Job sub))) \<union> set (sub_DependsOn sub)"
    unfolding D insertJob_def Let_def addEdges_def
    using set_foldl_addEdges [of "tgetz [] (st_jobDependencies s) (job_ID (sub_Job sub))" "sub_DependsOn sub"]
    by auto
qed

lemma CreateJobSubmission_jobs:
  assumes "CreateJobSubmission ctx sub clock s = (s', Inr out)"
  shows "tget (st_jobs s') (job_ID (sub_Job sub)) = Some (submittedJob sub clock)"
proof -
  obtain s3 steps where i3: "insertSteps clock (sub_Steps sub) (insertJob sub clock s) = (s3, steps)"
    by (metis surj_pair)
  obtain s4 tasks where i4: "insertTasks clock (sub_Tasks sub) s3 = (s4, tasks)"
    by (metis surj_pair)
  have "s' = s4"
    using assms i3 i4 by (auto simp: CreateJobSubmission_def fenced_def split: option.splits)
  then show ?thesis using insertSteps_eq [OF i3] insertTasks_eq [OF i4] by simp
qed

text \<open>C12: a submission is stored whole or not at all.  A refused one leaves the store as it was; an
  accepted one stores the job, every step and every task it returns under fresh IDs, with the
  submitted identities and statuses and all dependency edges, and touches no older row.\<close>

theorem submission_all_or_nothing:
  assumes "CreateJobSubmission ctx sub clock s = (s', r)" "submission_ok sub"
  shows "case r of
      Inl e \<Rightarrow> s' = s
    | Inr out \<Rightarrow>
        tget (st_jobs s) (job_ID (sub_Job sub)) = None \<and>
        tget (st_jobs s') (job_ID (sub_Job sub)) = Some (sub_Job out) \<and>
        map step_key (sub_Steps out) = map step_key (sub_Steps sub) \<and>
        map task_key (sub_Tasks out) = map task_key (sub_Tasks sub) \<and>
        (\<forall>st \<in> set (sub_Steps out). tget (st_steps s') (step_ID st) = Some st) \<and>
        (\<forall>t \<in> set (sub_Tasks out). tget (st_tasks s') (task_ID t) = Some t) \<and>
        set (sub_DependsOn sub) \<subseteq> set (tgetz [] (st_jobDependencies s') (job_ID (sub_Job sub))) \<and>
        adds_job (job_ID (sub_Job sub)) s s'"
proof (cases r)
  case (Inl e)
  then show ?thesis using CreateJobSubmission_refused assms(1) by simp
next
  case (Inr out)
  note c = assms(1) [unfolded Inr]
  obtain job' where v: "validateSubmission s sub = None"
    and J: "st_jobs s' = tput (job_ID (sub_Job sub)) job' (st_jobs s)"
    and S: "st_steps s' = fold (\<lambda>st. tput (step_ID st) st) (sub_Steps out) (st_steps s)"
    and T: "st_tasks s' = fold (\<lambda>t. tput (task_ID t) t) (sub_Tasks out) (st_tasks s)"
    and sk: "map step_key (sub_Steps out) = map step_key (sub_Steps sub)"
    and tk: "map task_key (sub_Tasks out) = map task_key (sub_Tasks sub)"
    by (rule CreateJobSubmission_accepted [OF c])
  note fresh = validateSubmission_fresh [OF v]
  have "map step_ID (sub_Steps out) = map fst (map step_key (sub_Steps out))"
    "map task_ID (sub_Tasks out) = map fst (map task_key (sub_Tasks out))"
    by (simp_all add: step_key_def task_key_def comp_def)
  then have d: "distinct (map step_ID (sub_Steps out))" "distinct (map task_ID (sub_Tasks out))"
    using fresh(2,3) unfolding sk tk by (simp_all add: step_key_def task_key_def comp_def)
  have "tget (st_steps s') (step_ID st) = Some st" if "st \<in> set (sub_Steps out)" for st
    unfolding S using tget_fold_tput_in [OF d(1) that, of "\<lambda>st. st"] .
  moreover have "tget (st_tasks s') (task_ID t) = Some t" if "t \<in> set (sub_Tasks out)" for t
    unfolding T using tget_fold_tput_in [OF d(2) that, of "\<lambda>t. t"] .
  moreover have "tget (st_jobs s') (job_ID (sub_Job sub)) = Some (sub_Job out)"
    using CreateJobSubmission_jobs [OF c] CreateJobSubmission_edges(2) [OF c] by simp
  ultimately show ?thesis
    using Inr fresh(1) sk tk CreateJobSubmission_edges(1) [OF c] CreateJobSubmission_adds [OF c assms(2)]
    by auto
qed

theorem submission_all_or_nothing_witness:
  "\<exists>s' out. CreateJobSubmission None demo_submission 4 New = (s', Inr out) \<and>
     tget (st_jobs s') ''j'' = Some (sub_Job out) \<and> length (sub_Tasks out) = 2 \<and>
     (\<forall>t \<in> set (sub_Tasks out). tget (st_tasks s') (task_ID t) = Some t)"
proof -
  let ?r = "CreateJobSubmission None demo_submission 4 New"
  have "(case snd ?r of Inr out \<Rightarrow> length (sub_Tasks out) = 2 | Inl e \<Rightarrow> False)" "submission_ok demo_submission"
    "job_ID (sub_Job demo_submission) = ''j''"
    by code_simp+
  then obtain s' out where "?r = (s', Inr out)" "length (sub_Tasks out) = 2"
    "submission_ok demo_submission" "job_ID (sub_Job demo_submission) = ''j''"
    by (cases ?r) (auto split: sum.splits)
  with submission_all_or_nothing [OF this(1,3)] show ?thesis by auto
qed

section \<open>The fence\<close>

text \<open>C13: a server that lost the leader lease can write nothing more.  Once another server took the
  lease over, every operation that carries the old epoch or an earlier one leaves the store
  exactly as it finds it, no matter which operations ran since.\<close>

theorem deposed_leader_writes_nothing:
  assumes "AcquireLeadership holder ttl us s = (s1, Inr (e', True))"
    and "op_ctx op = Some e" "e \<le> epoch_of s"
  shows "exec op (run exec ops s1) = run exec ops s1"
proof -
  have "e < epoch_of (run exec ops s1)"
    using AcquireLeadership_granted [OF assms(1)] epoch.run_le [of s1 ops] assms(3) by linarith
  then have "fenceLocked (op_ctx op) (run exec ops s1) \<noteq> None"
    unfolding assms(2) fenceLocked_epoch by simp
  then show ?thesis by (rule exec_stale)
qed

theorem deposed_leader_writes_nothing_witness:
  "\<exists>s1. AcquireLeadership ''server2'' 1000000 5 demo_store = (s1, Inr (1, True)) \<and>
     exec (JobOp (OpDeleteJob (Some 0) ''j'')) (run exec [JobOp (OpPause (Some 1) ''j'' 900)] s1) =
       run exec [JobOp (OpPause (Some 1) ''j'' 900)] s1"
proof -
  have "snd (AcquireLeadership ''server2'' 1000000 5 demo_store) = Inr (1, True)" "epoch_of demo_store = 0"
    by code_simp+
  then obtain s1 where "AcquireLeadership ''server2'' 1000000 5 demo_store = (s1, Inr (1, True))"
    "epoch_of demo_store = 0"
    by (cases "AcquireLeadership ''server2'' 1000000 5 demo_store") simp
  with deposed_leader_writes_nothing [OF this(1), of "JobOp (OpDeleteJob (Some 0) ''j'')" 0
      "[JobOp (OpPause (Some 1) ''j'' 900)]"]
  show ?thesis by simp
qed

end
