(* ===== verification/DepsModel.thy ===== *)
theory DepsModel
  imports StoreSystem
begin

text \<open>
  Dependencies between the steps of a job (\<^verbatim>\<open>openjd/deps.go\<close>): releasing the pending steps whose
  upstream steps completed, and cancelling the pending steps that can never run.  Both list the
  steps once, decide by a name-to-status map, and leave the write to the store's guarded
  operations.  Where the code returns a partial count beside an error, the error alone is kept;
  \<open>clock\<close> stands for every reading of the clock in a call.
\<close>

section \<open>The status map\<close>

definition stepStatusByName :: "Step list \<Rightarrow> step_status table" where
  "stepStatusByName steps = foldl (\<lambda>m st. tput (step_Name st) (step_Status st) m) [] steps"

definition allDepsCompleted :: "string list \<Rightarrow> step_status table \<Rightarrow> bool" where
  "allDepsCompleted deps m \<longleftrightarrow> (\<forall>name \<in> set deps. tget m name = Some StepStatusCompleted)"

definition anyDepUnsuccessful :: "string list \<Rightarrow> step_status table \<Rightarrow> bool" where
  "anyDepUnsuccessful deps m \<longleftrightarrow>
     (\<exists>name \<in> set deps. tget m name = Some StepStatusFailed \<or> tget m name = Some StepStatusCanceled)"

section \<open>Releasing steps\<close>

fun resolveLoop ::
  "ctx \<Rightarrow> time \<Rightarrow> step_status table \<Rightarrow> Step list \<Rightarrow> nat \<Rightarrow> store \<Rightarrow> store \<times> nat sres" where
  "resolveLoop ctx clock m [] promoted s = (s, Inr promoted)"
| "resolveLoop ctx clock m (step # steps) promoted s =
     (if step_Status step \<noteq> StepStatusPending then resolveLoop ctx clock m steps promoted s
      else if \<not> allDepsCompleted (step_DependsOn step) m then resolveLoop ctx clock m steps promoted s
      else (case ReleaseStep ctx (step_ID step) clock s of
              (s', Inl e) \<Rightarrow> (s', Inl e)
            | (s', Inr (released, _)) \<Rightarrow>
                resolveLoop ctx clock m steps (if released then promoted + 1 else promoted) s'))"

definition ResolveDependencies :: "ctx \<Rightarrow> string \<Rightarrow> time \<Rightarrow> store \<Rightarrow> store \<times> nat sres" where
  "ResolveDependencies ctx jobID clock s =
     (let steps = ListSteps jobID s
      in resolveLoop ctx clock (stepStatusByName steps) steps 0 s)"

section \<open>Cancelling dependents\<close>

text \<open>One pass over the steps: the map, the count, the canceled tasks, and whether a step was settled.\<close>

type_synonym cancel_acc = "step_status table \<times> nat \<times> Task list \<times> bool"

fun cancelPass :: "ctx \<Rightarrow> time \<Rightarrow> Step list \<Rightarrow> cancel_acc \<Rightarrow> store \<Rightarrow> store \<times> cancel_acc sres" where
  "cancelPass ctx clock [] acc s = (s, Inr acc)"
| "cancelPass ctx clock (step # steps) (m, canceled, ts, progressed) s =
     (if tget m (step_Name step) \<noteq> Some StepStatusPending
      then cancelPass ctx clock steps (m, canceled, ts, progressed) s
      else if \<not> anyDepUnsuccessful (step_DependsOn step) m
      then cancelPass ctx clock steps (m, canceled, ts, progressed) s
      else (case CancelPendingStep ctx (step_ID step) FailureReasonUpstreamFailed clock s of
              (s', Inl e) \<Rightarrow> (s', Inl e)
            | (s', Inr (done, tasks)) \<Rightarrow>
                cancelPass ctx clock steps
                  (tput (step_Name step) StepStatusCanceled m,
                   if done then canceled + 1 else canceled, ts @ tasks, True) s'))"

definition pendingIn :: "Step list \<Rightarrow> step_status table \<Rightarrow> nat" where
  "pendingIn steps m = length (filter (\<lambda>st. tget m (step_Name st) = Some StepStatusPending) steps)"

text \<open>A pass that settles a step leaves fewer pending names in the map, so the loop ends.\<close>

lemma pendingIn_settle:
  "pendingIn steps (tput n StepStatusCanceled m) \<le> pendingIn steps m"
  unfolding pendingIn_def by (rule length_filter_mono) (simp split: if_splits)

lemma pendingIn_settle_less:
  assumes "st \<in> set steps" "tget m (step_Name st) = Some StepStatusPending"
  shows "pendingIn steps (tput (step_Name st) StepStatusCanceled m) < pendingIn steps m"
  using assms
proof (induction steps)
  case (Cons x xs)
  show ?case
  proof (cases "step_Name x = step_Name st")
    case True
    then show ?thesis
      using Cons.prems(2) pendingIn_settle [of xs "step_Name st" m] by (simp add: pendingIn_def)
  next
    case False
    then have "st \<in> set xs" using Cons.prems(1) by auto
    then show ?thesis using Cons.IH Cons.prems(2) False by (simp add: pendingIn_def)
  qed
qed simp

text \<open>A pass skips a step or settles it.\<close>

lemma cancelPass_Cons:
  assumes "cancelPass ctx clock (step # steps) (m, n, ts, p) s = (s', Inr acc')"
  obtains (skip) "cancelPass ctx clock steps (m, n, ts, p) s = (s', Inr acc')"
      "tget m (step_Name step) = Some StepStatusPending \<longrightarrow> \<not> anyDepUnsuccessful (step_DependsOn step) m"
  | (settle) s1 d tasks where
      "tget m (step_Name step) = Some StepStatusPending" "anyDepUnsuccessful (step_DependsOn step) m"
      "CancelPendingStep ctx (step_ID step) FailureReasonUpstreamFailed clock s = (s1, Inr (d, tasks))"
      "cancelPass ctx clock steps (tput (step_Name step) StepStatusCanceled m,
         if d then n + 1 else n, ts @ tasks, True) s1 = (s', Inr acc')"
proof (cases "tget m (step_Name step) = Some StepStatusPending \<and> anyDepUnsuccessful (step_DependsOn step) m")
  case False
  then show thesis using assms skip by (auto split: if_splits)
next
  case True
  then show thesis using assms settle by (auto split: prod.splits sum.splits)
qed

lemma cancelPass_pendingIn:
  assumes "cancelPass ctx clock steps (m, n, ts, p) s = (s', Inr (m', n', ts', p'))" "set steps \<subseteq> set all"
  shows "pendingIn all m' \<le> pendingIn all m \<and> (p' \<and> \<not> p \<longrightarrow> pendingIn all m' < pendingIn all m)"
  using assms
proof (induction steps arbitrary: m n ts p s)
  case (Cons step steps)
  from Cons.prems(1) show ?case
  proof (cases rule: cancelPass_Cons)
    case skip
    then show ?thesis using Cons.IH [OF skip(1)] Cons.prems(2) by simp
  next
    case (settle s1 d tasks)
    have "pendingIn all (tput (step_Name step) StepStatusCanceled m) < pendingIn all m"
      by (rule pendingIn_settle_less) (use settle(1) Cons.prems(2) in auto)
    then show ?thesis using Cons.IH [OF settle(4)] Cons.prems(2) by simp
  qed
qed simp

function (sequential) cancelLoop ::
  "ctx \<Rightarrow> time \<Rightarrow> Step list \<Rightarrow> step_status table \<Rightarrow> nat \<Rightarrow> Task list \<Rightarrow> store
     \<Rightarrow> store \<times> (nat \<times> Task list) sres" where
  "cancelLoop ctx clock steps m canceled ts s =
     (case cancelPass ctx clock steps (m, canceled, ts, False) s of
        (s', Inl e) \<Rightarrow> (s', Inl e)
      | (s', Inr (m', canceled', ts', progressed)) \<Rightarrow>
          if \<not> progressed then (s', Inr (canceled', ts'))
          else cancelLoop ctx clock steps m' canceled' ts' s')"
  by pat_completeness auto
termination
proof (relation "measure (\<lambda>(ctx, clock, steps, m, canceled, ts, s). pendingIn steps m)", simp, simp only: in_measure split_conv)
  fix ctx :: ctx and clock steps m canceled ts s s' y b m' ya n' yb ts' p'
  assume "(s', Inr b) = cancelPass ctx clock steps (m, canceled, ts, False) s" "y = Inr b"
    "(m', ya) = b" "(n', yb) = ya" "(ts', p') = yb" "\<not> \<not> p'"
  then have "cancelPass ctx clock steps (m, canceled, ts, False) s = (s', Inr (m', n', ts', p'))" "p'"
    by metis+
  then show "pendingIn steps m' < pendingIn steps m"
    using cancelPass_pendingIn [OF _ order_refl] by blast
qed

definition CancelDependents ::
  "ctx \<Rightarrow> string \<Rightarrow> time \<Rightarrow> store \<Rightarrow> store \<times> (nat \<times> Task list) sres" where
  "CancelDependents ctx jobID clock s =
     (let steps = ListSteps jobID s
      in cancelLoop ctx clock steps (stepStatusByName steps) 0 [] s)"

declare cancelLoop.simps [simp del]

end
