(* ===== verification/StoreNames.thy ===== *)
theory StoreNames
  imports StoreSystem
begin

text \<open>
  Step names are unique within a job: the store refuses a submission that repeats one, and no other
  operation writes a name.  The dependency pass of \<^verbatim>\<open>openjd/deps.go\<close> looks statuses up by name and rests
  on this.
\<close>

definition names_ok :: "store \<Rightarrow> bool" where
  "names_ok s \<longleftrightarrow>
     (\<forall>k k' st st'. tget (st_steps s) k = Some st \<longrightarrow> tget (st_steps s) k' = Some st' \<longrightarrow>
        step_JobID st = step_JobID st' \<longrightarrow> step_Name st = step_Name st' \<longrightarrow> k = k')"

lemma names_okD:
  "names_ok s \<Longrightarrow> tget (st_steps s) k = Some st \<Longrightarrow> tget (st_steps s) k' = Some st' \<Longrightarrow>
     step_JobID st = step_JobID st' \<Longrightarrow> step_Name st = step_Name st' \<Longrightarrow> k = k'"
  unfolding names_ok_def by blast

text \<open>Rows that come from old rows of the same name and job keep the names apart.\<close>

lemma names_ok_from:
  assumes "names_ok s"
    and "\<And>k st'. tget (st_steps s') k = Some st' \<Longrightarrow>
      \<exists>st. tget (st_steps s) k = Some st \<and> step_JobID st = step_JobID st' \<and> step_Name st = step_Name st'"
  shows "names_ok s'"
  unfolding names_ok_def
proof (intro allI impI)
  fix k k' st st'
  assume a: "tget (st_steps s') k = Some st" "tget (st_steps s') k' = Some st'"
    "step_JobID st = step_JobID st'" "step_Name st = step_Name st'"
  obtain st0 where "tget (st_steps s) k = Some st0" "step_JobID st0 = step_JobID st" "step_Name st0 = step_Name st"
    using assms(2) [OF a(1)] by blast
  moreover obtain st1 where "tget (st_steps s) k' = Some st1" "step_JobID st1 = step_JobID st'" "step_Name st1 = step_Name st'"
    using assms(2) [OF a(2)] by blast
  ultimately show "k = k'" using names_okD [OF assms(1)] a(3,4) by metis
qed

lemma names_ok_moved:
  assumes "names_ok s" "sound_move R Q P s s'"
  shows "names_ok s'"
proof (rule names_ok_from [OF assms(1)])
  fix k st'
  assume k: "tget (st_steps s') k = Some st'"
  have m: "step_moves Q (st_steps s) (st_steps s')"
    using assms(2) by (simp add: sound_move_def moved_def)
  show "\<exists>st. tget (st_steps s) k = Some st \<and> step_JobID st = step_JobID st' \<and> step_Name st = step_Name st'"
    using rel_option_SomeD' [OF spec [OF conjunct2 [OF m [unfolded step_moves_def]], of k] k] by auto
qed

section \<open>Submissions\<close>

lemma validateSubmissionSteps_names:
  assumes "validateSubmissionSteps s ids names sts = None"
  shows "distinct (map stepNameKey sts) \<and> set (map stepNameKey sts) \<inter> set names = {} \<and>
    (\<forall>st \<in> set sts. \<forall>e \<in> set (trows (st_steps s)).
       \<not> (step_JobID e = step_JobID st \<and> step_Name e = step_Name st))"
  using assms
proof (induction sts arbitrary: ids names)
  case (Cons st sts)
  from Cons.prems have rec: "validateSubmissionSteps s (step_ID st # ids) (stepNameKey st # names) sts = None"
    and st: "stepNameKey st \<notin> set names"
      "\<forall>e \<in> set (trows (st_steps s)). \<not> (step_JobID e = step_JobID st \<and> step_Name e = step_Name st)"
    by (auto split: if_splits)
  show ?case using Cons.IH [OF rec] st by (auto simp: disjoint_iff)
qed simp

lemma names_ok_CreateJobSubmission:
  assumes n: "names_ok s" and ok: "submission_ok sub"
  shows "names_ok (fst (CreateJobSubmission ctx sub clock s))"
proof (cases "CreateJobSubmission ctx sub clock s")
  case (Pair s' r)
  show ?thesis
  proof (cases r)
    case (Inl e)
    then show ?thesis
      using n Pair by (auto simp: CreateJobSubmission_def fenced_def Let_def split: option.splits prod.splits)
  next
    case (Inr out)
    have c: "CreateJobSubmission ctx sub clock s = (s', Inr out)" using Pair Inr by simp
    from c have v: "validateSubmission s sub = None"
      and S: "st_steps s' = fold (\<lambda>st. tput (step_ID st) st) (sub_Steps out) (st_steps s)"
      and sk: "map step_key (sub_Steps out) = map step_key (sub_Steps sub)"
      by (auto elim!: CreateJobSubmission_accepted)
    let ?jid = "job_ID (sub_Job sub)"
    have keys: "map step_ID (sub_Steps out) = map step_ID (sub_Steps sub)"
      "map stepNameKey (sub_Steps out) = map stepNameKey (sub_Steps sub)"
      "map step_JobID (sub_Steps out) = map step_JobID (sub_Steps sub)"
      using arg_cong [OF sk, of "map fst"] arg_cong [OF sk, of "map (fst \<circ> snd)"]
        arg_cong [OF sk, of "map (\<lambda>(i, j, n, s). j @ [CHR 0x00] @ n)"]
      by (simp_all add: step_key_def stepNameKey_def [abs_def] comp_def)
    have vs: "validateSubmissionSteps s [] [] (sub_Steps sub) = None"
      using v by (auto simp: validateSubmission_def split: if_splits option.splits)
    have dist: "distinct (map stepNameKey (sub_Steps out))"
      using validateSubmissionSteps_names [OF vs] keys(2) by simp
    have old_or_new: "tget (st_steps s) k = Some st \<or> st \<in> set (sub_Steps out) \<and> step_ID st = k"
      if "tget (st_steps s') k = Some st" for k st
      using tget_fold_tput_cases [OF that [unfolded S]] by auto
    have clash: False if "st \<in> set (sub_Steps out)" "tget (st_steps s) k = Some e" 
      "step_JobID e = step_JobID st" "step_Name e = step_Name st" for k st e
      using that tget_trows validateSubmissionSteps_names [OF vs] map_eq_obtain [OF sk that(1)]
      unfolding step_key_def by (metis prod.inject)
    have same: "step_ID st = step_ID st'" if "st \<in> set (sub_Steps out)" "st' \<in> set (sub_Steps out)"
      "step_JobID st = step_JobID st'" "step_Name st = step_Name st'" for st st'
      using dist that unfolding distinct_map inj_on_def stepNameKey_def by metis
    show ?thesis
      unfolding Pair fst_conv names_ok_def
      using old_or_new clash same names_okD [OF n] by metis
  qed
qed

section \<open>Every operation\<close>

lemma steps_deleteJobLocked:
  "st_steps (deleteJobLocked jid s) = tkeep (\<lambda>sid st. step_JobID st \<noteq> jid) (st_steps s)"
  by (simp add: deleteJobLocked_def Let_def)

lemma names_ok_deleteJobLocked:
  assumes "table_ok (st_steps s)" "names_ok s"
  shows "names_ok (deleteJobLocked jid s)"
  by (rule names_ok_from [OF assms(2)])
    (use assms(1) in \<open>auto simp: steps_deleteJobLocked tget_tkeep split: option.splits if_splits\<close>)

lemma names_ok_deleteExpired:
  assumes "table_ok (st_steps s)" "names_ok s"
  shows "names_ok (fst (deleteExpired cutoff b ids s))"
proof -
  have "(\<lambda>s. table_ok (st_steps s) \<and> names_ok s) (fst (deleteExpired cutoff b ids s))"
    by (rule deleteExpired_steps) (use assms in \<open>auto simp: names_ok_deleteJobLocked steps_deleteJobLocked\<close>)
  then show ?thesis by simp
qed

lemma names_ok_restructures:
  assumes inv: "exec_inv s" and n: "names_ok s" and ok: "op_ok op s" and r: "restructures op"
  shows "names_ok (exec op s)"
proof (cases op)
  case (AttemptOp a)
  then obtain c req where op: "op = AttemptOp (OpLease c req)"
    using r by (cases a) (simp_all add: restructures_def)
  have "st_steps (fst (LeaseTask c req s)) = st_steps s"
    by (auto simp: LeaseTask_def leaseWrite_def fenced_def Let_def split: option.splits sum.splits)
  then show ?thesis using n by (simp add: op names_ok_def)
next
  case (JobOp a)
  note ok_steps = exec_inv_table_ok [OF inv]
  from JobOp show ?thesis
  proof (cases a)
    case (OpSubmit c sub clock)
    then show ?thesis using JobOp ok n by (simp add: names_ok_CreateJobSubmission op_ok_def)
  next
    case (OpUpdateJob c job clock)
    have "st_steps (fst (UpdateJob c job clock s)) = st_steps s"
      by (auto simp: UpdateJob_def fenced_def Let_def split: option.splits)
    then show ?thesis using JobOp OpUpdateJob n by (simp add: names_ok_def)
  next
    case (OpDeleteJob c jid)
    then show ?thesis
      using JobOp n ok_steps by (auto simp: DeleteJob_def fenced_def names_ok_deleteJobLocked split: option.split)
  next
    case (OpExpireJobs c cutoff b)
    then show ?thesis
      using JobOp n ok_steps names_ok_deleteExpired [of s]
      by (auto simp: DeleteTerminalJobsBefore_def fenced_def case_prod_unfold Let_def split: option.split)
  qed (use r in \<open>simp_all add: restructures_def\<close>)
qed (use r in \<open>simp_all add: restructures_def\<close>)

lemma names_ok_exec:
  assumes "exec_inv s" "names_ok s" "op_ok op s"
  shows "names_ok (exec op s)"
  using assms names_ok_restructures names_ok_moved exec_moves by (cases "restructures op") blast+

interpretation name_system: invariant_under New exec op_ok exec_inv names_ok
  by unfold_locales (simp_all add: names_ok_exec, simp add: names_ok_def New_def)

lemmas reachable_names_ok = conjunct2 [OF name_system.both.reach_inv]

end
