(* ===== verification/DepsFacts.thy ===== *)
theory DepsFacts
  imports DepsModel StoreNames StoreDemo
begin

text \<open>
  What the dependency pass does to a store.  \<open>moveSteps D\<close> is the store in which the steps of \<open>D\<close> and
  their pending tasks moved; releasing and cancelling steps both come down to it, for the set of
  steps whose dependencies all completed and for the set of steps that can never run (\<open>doomed\<close>).
\<close>

section \<open>Moving a set of steps\<close>

definition moveStepRow :: "string set \<Rightarrow> step_status \<Rightarrow> time \<Rightarrow> Step \<Rightarrow> Step" where
  "moveStepRow D to clock st =
     (if step_ID st \<in> D then st\<lparr>step_Status := to, step_UpdatedAt := clock\<rparr> else st)"

definition moveTaskRow :: "string set \<Rightarrow> task_status \<Rightarrow> string \<Rightarrow> time \<Rightarrow> Task \<Rightarrow> Task" where
  "moveTaskRow D to reason clock t =
     (if task_StepID t \<in> D \<and> task_Status t = TaskStatusPending
      then transitionTaskRow to reason clock t else t)"

definition moveSteps ::
  "string set \<Rightarrow> step_status \<Rightarrow> task_status \<Rightarrow> string \<Rightarrow> time \<Rightarrow> store \<Rightarrow> store" where
  "moveSteps D stTo taskTo reason clock s =
     s\<lparr>st_steps := tsweep (\<lambda>k. moveStepRow D stTo clock) (st_steps s),
       st_tasks := tsweep (\<lambda>k. moveTaskRow D taskTo reason clock) (st_tasks s)\<rparr>"

lemma fields_moveStepRow [simp]:
  "step_ID (moveStepRow D to clock st) = step_ID st" "step_JobID (moveStepRow D to clock st) = step_JobID st"
  "step_Name (moveStepRow D to clock st) = step_Name st"
  "step_DependsOn (moveStepRow D to clock st) = step_DependsOn st"
  "step_StepOrder (moveStepRow D to clock st) = step_StepOrder st"
  "step_Status (moveStepRow D to clock st) = (if step_ID st \<in> D then to else step_Status st)"
  by (simp_all add: moveStepRow_def)

lemma moveSteps_fields [simp]:
  "st_steps (moveSteps D a b r c s) = tsweep (\<lambda>k. moveStepRow D a c) (st_steps s)"
  "st_tasks (moveSteps D a b r c s) = tsweep (\<lambda>k. moveTaskRow D b r c) (st_tasks s)"
  "fenceLocked ctx (moveSteps D a b r c s) = fenceLocked ctx s"
  by (simp_all add: moveSteps_def fenceLocked_def split: option.split)

lemma moveSteps_empty [simp]: "moveSteps {} a b r c s = s"
  by (simp add: moveSteps_def moveStepRow_def [abs_def] moveTaskRow_def [abs_def])

lemma moveSteps_twice:
  assumes "b \<noteq> TaskStatusPending"
  shows "moveSteps E a b r c (moveSteps D a b r c s) = moveSteps (D \<union> E) a b r c s"
proof -
  have "moveStepRow E a c (moveStepRow D a c st) = moveStepRow (D \<union> E) a c st" for st
    by (simp add: moveStepRow_def)
  moreover have "moveTaskRow E b r c (moveTaskRow D b r c t) = moveTaskRow (D \<union> E) b r c t" for t
    using assms by (auto simp: moveTaskRow_def)
  ultimately show ?thesis by (simp add: moveSteps_def tsweep_tsweep)
qed

definition steps_keyed :: "store \<Rightarrow> bool" where
  "steps_keyed s \<longleftrightarrow> table_ok (st_steps s) \<and> (\<forall>k st. tget (st_steps s) k = Some st \<longrightarrow> step_ID st = k)"

lemma steps_keyedD: "steps_keyed s \<Longrightarrow> tget (st_steps s) k = Some st \<Longrightarrow> step_ID st = k"
  by (simp add: steps_keyed_def)

lemma steps_keyed_inv: "exec_inv s \<Longrightarrow> steps_keyed s"
  by (simp add: steps_keyed_def exec_inv_table_ok exec_inv_stepID)

lemma steps_keyed_moveSteps [simp]: "steps_keyed s \<Longrightarrow> steps_keyed (moveSteps D a b r c s)"
  by (auto simp: steps_keyed_def)

lemma tput_as_move:
  assumes "steps_keyed s" "tget (st_steps s) k = Some st"
  shows "tput k (st\<lparr>step_Status := to, step_UpdatedAt := c\<rparr>) (st_steps s) =
    tsweep (\<lambda>j. moveStepRow {k} to c) (st_steps s)"
proof -
  have "tput k (st\<lparr>step_Status := to, step_UpdatedAt := c\<rparr>) (st_steps s) =
      tsweep (\<lambda>j u. if j = k then st\<lparr>step_Status := to, step_UpdatedAt := c\<rparr> else u) (st_steps s)"
    by (rule tput_tget_same) (use assms in \<open>simp_all add: steps_keyed_def\<close>)
  also have "\<dots> = tsweep (\<lambda>j. moveStepRow {k} to c) (st_steps s)"
  proof (rule tsweep_cong)
    fix j u assume "(j, u) \<in> set (st_steps s)"
    then have "tget (st_steps s) j = Some u" using assms(1) by (simp add: steps_keyed_def tget_iff)
    then show "(if j = k then st\<lparr>step_Status := to, step_UpdatedAt := c\<rparr> else u) = moveStepRow {k} to c u"
      using assms(2) steps_keyedD [OF assms(1)] by (auto simp: moveStepRow_def)
  qed
  finally show ?thesis .
qed

text \<open>A pending step the store agrees to move.\<close>

lemma movePendingStep_moves:
  assumes "steps_keyed s" "fenceLocked ctx s = None" "tget (st_steps s) k = Some st"
    "step_Status st = StepStatusPending" "to = StepStatusCanceled \<longrightarrow> anyUpstreamUnsuccessfulLocked s st"
  obtains ts where "movePendingStep ctx k to taskTo reason c s = (moveSteps {k} to taskTo reason c s, Inr (True, ts))"
proof -
  let ?hit = "\<lambda>t. \<not> (task_Status t \<noteq> TaskStatusPending \<or> \<not> task_StepID t = k)"
  have row: "(if ?hit t then transitionTaskRow taskTo reason c t else t) = moveTaskRow {k} taskTo reason c t" for t
    by (simp add: moveTaskRow_def)
  have "movePendingStep ctx k to taskTo reason c s = (moveSteps {k} to taskTo reason c s,
      Inr (True, map (transitionTaskRow taskTo reason c) (filter ?hit (trows (st_tasks s)))))"
    using assms(2-5)
    by (simp add: movePendingStep_def transitionPendingTasksLocked_def transitionPendingTasksWhereLocked_def
        Let_def tput_as_move [OF assms(1,3)] moveSteps_def row [simplified])
  then show thesis by (rule that)
qed

section \<open>Listing the steps of a job\<close>

lemma insort_key_map:
  assumes "\<And>x. f (g x) = f x"
  shows "insort_key f (g x) (map g xs) = map g (insort_key f x xs)"
  by (induction xs) (simp_all add: assms)

lemma sort_key_map:
  assumes "\<And>x. f (g x) = f x"
  shows "sort_key f (map g xs) = map g (sort_key f xs)"
  by (induction xs) (simp_all add: insort_key_map [where f = f and g = g, OF assms])

lemma ListSteps_iff:
  assumes "steps_keyed s"
  shows "st \<in> set (ListSteps jid s) \<longleftrightarrow> tget (st_steps s) (step_ID st) = Some st \<and> step_JobID st = jid"
  using assms by (auto simp: ListSteps_def trows_iff steps_keyed_def)

lemma distinct_trows_ID:
  assumes "steps_keyed s"
  shows "distinct (map step_ID (trows (st_steps s)))"
proof -
  have "map step_ID (trows (st_steps s)) = map fst (st_steps s)"
    unfolding trows_def map_map
    by (rule map_cong [OF refl]) (use assms in \<open>force simp: steps_keyed_def tget_iff\<close>)
  then show ?thesis using assms by (simp add: steps_keyed_def table_ok_def)
qed

lemma distinct_ListSteps_ID:
  assumes "steps_keyed s"
  shows "distinct (map step_ID (ListSteps jid s))"
proof -
  have "distinct (ListSteps jid s)" "inj_on step_ID (set (ListSteps jid s))"
    using distinct_trows_ID [OF assms]
    by (auto simp: ListSteps_def distinct_sort distinct_map intro: inj_on_subset)
  then show ?thesis by (simp add: distinct_map)
qed

lemma ListSteps_moveSteps:
  "ListSteps jid (moveSteps D a b r c s) = map (moveStepRow D a c) (ListSteps jid s)"
proof -
  have "trows (tsweep (\<lambda>k. moveStepRow D a c) (st_steps s)) = map (moveStepRow D a c) (trows (st_steps s))"
    by (simp add: trows_def tsweep_def case_prod_unfold comp_def)
  then show ?thesis by (simp add: ListSteps_def filter_map comp_def sort_key_map)
qed

section \<open>The status map\<close>

lemma stepStatusByName_snoc:
  "stepStatusByName (steps @ [st]) = tput (step_Name st) (step_Status st) (stepStatusByName steps)"
  by (simp add: stepStatusByName_def)

lemma stepStatusByName_Some:
  "tget (stepStatusByName steps) n = Some v \<Longrightarrow> \<exists>st \<in> set steps. step_Name st = n \<and> step_Status st = v"
proof (induction steps rule: rev_induct)
  case (snoc st steps)
  then show ?case by (auto simp: stepStatusByName_snoc split: if_splits)
qed (simp add: stepStatusByName_def)

lemma stepStatusByName_in:
  "distinct (map step_Name steps) \<Longrightarrow> st \<in> set steps \<Longrightarrow>
     tget (stepStatusByName steps) (step_Name st) = Some (step_Status st)"
proof (induction steps rule: rev_induct)
  case (snoc x steps)
  then show ?case by (auto simp: stepStatusByName_snoc intro: rev_image_eqI)
qed simp

lemma stepStatusByName_completed:
  assumes "\<And>st. step_Name (g st) = step_Name st"
    "\<And>st. st \<in> set steps \<Longrightarrow> step_Status (g st) = StepStatusCompleted \<longleftrightarrow> step_Status st = StepStatusCompleted"
  shows "tget (stepStatusByName (map g steps)) n = Some StepStatusCompleted \<longleftrightarrow>
    tget (stepStatusByName steps) n = Some StepStatusCompleted"
  using assms(2)
proof (induction steps rule: rev_induct)
  case (snoc st steps)
  then show ?case by (simp add: stepStatusByName_snoc assms(1))
qed simp

section \<open>Releasing\<close>

definition releasable :: "step_status table \<Rightarrow> Step \<Rightarrow> bool" where
  "releasable m st \<longleftrightarrow> step_Status st = StepStatusPending \<and> allDepsCompleted (step_DependsOn st) m"

lemma resolveLoop_moves:
  assumes "steps_keyed s" "fenceLocked ctx s = None" "distinct (map step_ID steps)"
    "\<forall>st \<in> set steps. tget (st_steps s) (step_ID st) = Some st"
  shows "resolveLoop ctx clock m steps n s =
    (moveSteps (step_ID ` set (filter (releasable m) steps)) StepStatusReady TaskStatusReady [] clock s,
     Inr (n + length (filter (releasable m) steps)))"
  using assms
proof (induction steps arbitrary: s n)
  case (Cons st steps)
  let ?mv = "\<lambda>D. moveSteps D StepStatusReady TaskStatusReady [] clock"
  show ?case
  proof (cases "releasable m st")
    case False
    then have "resolveLoop ctx clock m (st # steps) n s = resolveLoop ctx clock m steps n s"
      by (auto simp: releasable_def)
    then show ?thesis using Cons False by simp
  next
    case True
    have row: "tget (st_steps s) (step_ID st) = Some st" "step_Status st = StepStatusPending"
      using Cons.prems(4) True by (simp_all add: releasable_def)
    obtain ts where "ReleaseStep ctx (step_ID st) clock s = (?mv {step_ID st} s, Inr (True, ts))"
      unfolding ReleaseStep_def by (rule movePendingStep_moves [OF Cons.prems(1,2) row, of StepStatusReady]) simp_all
    then have "resolveLoop ctx clock m (st # steps) n s = resolveLoop ctx clock m steps (n + 1) (?mv {step_ID st} s)"
      using True by (simp add: releasable_def)
    also have "\<dots> = (?mv (step_ID ` set (filter (releasable m) steps)) (?mv {step_ID st} s),
        Inr (n + 1 + length (filter (releasable m) steps)))"
    proof (rule Cons.IH)
      show "\<forall>u \<in> set steps. tget (st_steps (?mv {step_ID st} s)) (step_ID u) = Some u"
      proof
        fix u assume "u \<in> set steps"
        then have "tget (st_steps s) (step_ID u) = Some u" "step_ID u \<noteq> step_ID st"
          using Cons.prems(3,4) by (simp_all add: rev_image_eqI) (metis image_eqI)
        then show "tget (st_steps (?mv {step_ID st} s)) (step_ID u) = Some u" by (simp add: moveStepRow_def)
      qed
    qed (use Cons.prems(1-3) in simp_all)
    finally show ?thesis using True by (simp add: moveSteps_twice)
  qed
qed simp

definition released :: "string \<Rightarrow> store \<Rightarrow> string set" where
  "released jid s = step_ID ` set (filter (releasable (stepStatusByName (ListSteps jid s))) (ListSteps jid s))"

lemma ResolveDependencies_moves:
  assumes "steps_keyed s" "fenceLocked ctx s = None"
  shows "ResolveDependencies ctx jid clock s =
    (moveSteps (released jid s) StepStatusReady TaskStatusReady [] clock s, Inr (card (released jid s)))"
proof -
  let ?steps = "ListSteps jid s" and ?r = "filter (releasable (stepStatusByName (ListSteps jid s)))"
  have d: "distinct (map step_ID ?steps)" by (rule distinct_ListSteps_ID [OF assms(1)])
  have "card (step_ID ` set (?r ?steps)) = length (?r ?steps)"
    using distinct_card [OF distinct_map_filter [OF d, of "releasable (stepStatusByName ?steps)"]] by simp
  then show ?thesis
    using resolveLoop_moves [OF assms d, of clock "stepStatusByName ?steps" 0] ListSteps_iff [OF assms(1)]
    by (simp add: ResolveDependencies_def Let_def released_def)
qed

text \<open>A second pass finds nothing left to release.\<close>

lemma released_iff:
  assumes "steps_keyed s" "st \<in> set (ListSteps jid s)"
  shows "step_ID st \<in> released jid s \<longleftrightarrow> releasable (stepStatusByName (ListSteps jid s)) st"
  using assms ListSteps_iff [OF assms(1)] by (auto simp: released_def)

lemma released_twice:
  assumes "steps_keyed s"
  shows "released jid (moveSteps (released jid s) StepStatusReady TaskStatusReady [] clock s) = {}"
proof -
  let ?g = "moveStepRow (released jid s) StepStatusReady clock" and ?steps = "ListSteps jid s"
  have "allDepsCompleted ds (stepStatusByName (map ?g ?steps)) = allDepsCompleted ds (stepStatusByName ?steps)" for ds
    unfolding allDepsCompleted_def
  proof (rule ball_cong [OF refl], rule stepStatusByName_completed)
    fix st assume "st \<in> set ?steps"
    then show "step_Status (?g st) = StepStatusCompleted \<longleftrightarrow> step_Status st = StepStatusCompleted"
      by (simp add: released_iff [OF assms] releasable_def)
  qed simp
  then have "\<not> releasable (stepStatusByName (map ?g ?steps)) (?g st)" if "st \<in> set ?steps" for st
    using that by (simp add: releasable_def released_iff [OF assms])
  then show ?thesis
    by (auto simp: released_def [of jid "moveSteps _ _ _ _ _ _"] ListSteps_moveSteps filter_empty_conv)
qed

section \<open>Cancelling\<close>

text \<open>A step is doomed when it is pending and depends, directly or through other pending steps, on a
  step of its job that failed or was canceled.\<close>

definition upstream :: "store \<Rightarrow> string \<Rightarrow> Step \<Rightarrow> string \<Rightarrow> Step \<Rightarrow> bool" where
  "upstream s jid st u up \<longleftrightarrow>
     tget (st_steps s) u = Some up \<and> step_JobID up = jid \<and> step_Name up \<in> set (step_DependsOn st)"

definition unsuccessful :: "step_status \<Rightarrow> bool" where
  "unsuccessful x \<longleftrightarrow> x = StepStatusFailed \<or> x = StepStatusCanceled"

inductive doomed :: "store \<Rightarrow> string \<Rightarrow> string \<Rightarrow> bool" for s jid where
  direct: "tget (st_steps s) k = Some st \<Longrightarrow> step_JobID st = jid \<Longrightarrow> step_Status st = StepStatusPending \<Longrightarrow>
    upstream s jid st u up \<Longrightarrow> unsuccessful (step_Status up) \<Longrightarrow> doomed s jid k"
| chain: "tget (st_steps s) k = Some st \<Longrightarrow> step_JobID st = jid \<Longrightarrow> step_Status st = StepStatusPending \<Longrightarrow>
    upstream s jid st u up \<Longrightarrow> doomed s jid u \<Longrightarrow> doomed s jid k"

inductive_cases doomedE: "doomed s jid k"

lemma doomed_pending:
  assumes "doomed s jid k"
  obtains st where "tget (st_steps s) k = Some st" "step_JobID st = jid" "step_Status st = StepStatusPending"
  using assms by (cases rule: doomed.cases) blast+

lemma finite_doomed: "finite (Collect (doomed s jid))"
  by (rule finite_subset [OF _ finite_tget [of "st_steps s" "\<lambda>_. True"]]) (auto elim: doomed_pending)

definition cancelSteps :: "time \<Rightarrow> store \<Rightarrow> string set \<Rightarrow> store" where
  "cancelSteps clock s D = moveSteps D StepStatusCanceled TaskStatusCanceled FailureReasonUpstreamFailed clock s"

text \<open>The status map follows the store while steps are canceled.\<close>

definition agrees :: "string \<Rightarrow> step_status table \<Rightarrow> store \<Rightarrow> bool" where
  "agrees jid m s \<longleftrightarrow>
     (\<forall>k st. tget (st_steps s) k = Some st \<longrightarrow> step_JobID st = jid \<longrightarrow>
        tget m (step_Name st) = Some (step_Status st)) \<and>
     (\<forall>n v. tget m n = Some v \<longrightarrow>
        (\<exists>k st. tget (st_steps s) k = Some st \<and> step_JobID st = jid \<and> step_Name st = n))"

lemma agreesD: "agrees jid m s \<Longrightarrow> tget (st_steps s) k = Some st \<Longrightarrow> step_JobID st = jid \<Longrightarrow>
    tget m (step_Name st) = Some (step_Status st)"
  unfolding agrees_def by blast

lemma agrees_row:
  assumes "agrees jid m s" "tget m n = Some v"
  obtains k st where "tget (st_steps s) k = Some st" "step_JobID st = jid" "step_Name st = n" "step_Status st = v"
  using assms agreesD [OF assms(1)] unfolding agrees_def by (metis option.inject)

lemma anyDep_iff:
  assumes "agrees jid m s"
  shows "anyDepUnsuccessful (step_DependsOn st) m \<longleftrightarrow> (\<exists>u up. upstream s jid st u up \<and> unsuccessful (step_Status up))"
proof
  assume "anyDepUnsuccessful (step_DependsOn st) m"
  then obtain n v where n: "n \<in> set (step_DependsOn st)" "tget m n = Some v" "unsuccessful v"
    unfolding anyDepUnsuccessful_def unsuccessful_def by blast
  obtain u up where "tget (st_steps s) u = Some up" "step_JobID up = jid" "step_Name up = n" "step_Status up = v"
    by (rule agrees_row [OF assms n(2)])
  then show "\<exists>u up. upstream s jid st u up \<and> unsuccessful (step_Status up)"
    using n unfolding upstream_def by blast
next
  assume "\<exists>u up. upstream s jid st u up \<and> unsuccessful (step_Status up)"
  then obtain u up where u: "upstream s jid st u up" "unsuccessful (step_Status up)" by blast
  then have "tget m (step_Name up) = Some (step_Status up)"
    using agreesD [OF assms] unfolding upstream_def by blast
  then show "anyDepUnsuccessful (step_DependsOn st) m"
    using u unfolding anyDepUnsuccessful_def upstream_def unsuccessful_def by metis
qed

lemma agrees_start:
  assumes "steps_keyed s" "names_ok s"
  shows "agrees jid (stepStatusByName (ListSteps jid s)) s"
proof -
  have "inj_on step_Name (set (ListSteps jid s))"
    using names_okD [OF assms(2)] ListSteps_iff [OF assms(1)] by (intro inj_onI) (metis option.inject)
  moreover have "distinct (ListSteps jid s)"
    using distinct_ListSteps_ID [OF assms(1)] by (simp add: distinct_map)
  ultimately have d: "distinct (map step_Name (ListSteps jid s))" by (simp add: distinct_map)
  show ?thesis
    unfolding agrees_def
  proof (intro conjI allI impI)
    fix k st assume "tget (st_steps s) k = Some st" "step_JobID st = jid"
    then have "st \<in> set (ListSteps jid s)"
      using ListSteps_iff [OF assms(1)] steps_keyedD [OF assms(1)] by simp
    then show "tget (stepStatusByName (ListSteps jid s)) (step_Name st) = Some (step_Status st)"
      by (rule stepStatusByName_in [OF d])
  next
    fix n v assume "tget (stepStatusByName (ListSteps jid s)) n = Some v"
    from stepStatusByName_Some [OF this]
    show "\<exists>k st. tget (st_steps s) k = Some st \<and> step_JobID st = jid \<and> step_Name st = n"
      using ListSteps_iff [OF assms(1)] by blast
  qed
qed

text \<open>The situation between two cancellations: the steps of \<open>D\<close> are canceled, all of them doomed.\<close>

definition cancel_state :: "string \<Rightarrow> time \<Rightarrow> store \<Rightarrow> string set \<Rightarrow> step_status table \<Rightarrow> bool" where
  "cancel_state jid clock s D m \<longleftrightarrow> D \<subseteq> Collect (doomed s jid) \<and> agrees jid m (cancelSteps clock s D)"

lemma cancelSteps_row:
  "tget (st_steps (cancelSteps clock s D)) k = map_option (moveStepRow D StepStatusCanceled clock) (tget (st_steps s) k)"
  by (simp add: cancelSteps_def)

lemma upstream_cancelSteps:
  "upstream (cancelSteps clock s D) jid st u up' \<longleftrightarrow>
     (\<exists>up. upstream s jid st u up \<and> up' = moveStepRow D StepStatusCanceled clock up)"
  by (auto simp: upstream_def cancelSteps_row)

lemma upstream_moveStepRow: "upstream s jid (moveStepRow D to clock st) u up = upstream s jid st u up"
  by (simp add: upstream_def)

lemma upstream_blocks:
  assumes "upstream s jid st u up" "unsuccessful (step_Status up) \<or> step_ID up \<in> D"
  shows "\<exists>u up'. upstream (cancelSteps clock s D) jid st u up' \<and> unsuccessful (step_Status up')"
  using assms by (intro exI [where x = u] exI [where x = "moveStepRow D StepStatusCanceled clock up"])
    (auto simp: upstream_cancelSteps unsuccessful_def)

lemma agrees_cancel:
  assumes k: "steps_keyed s" and n: "names_ok s" and ag: "agrees jid m (cancelSteps clock s D)"
    and st: "tget (st_steps s) (step_ID st) = Some st" "step_JobID st = jid"
  shows "agrees jid (tput (step_Name st) StepStatusCanceled m) (cancelSteps clock s (insert (step_ID st) D))"
  unfolding agrees_def
proof (intro conjI allI impI)
  fix j v' assume j: "tget (st_steps (cancelSteps clock s (insert (step_ID st) D))) j = Some v'" "step_JobID v' = jid"
  then obtain v where v: "tget (st_steps s) j = Some v" "v' = moveStepRow (insert (step_ID st) D) StepStatusCanceled clock v"
    by (auto simp: cancelSteps_row)
  have "tget m (step_Name v) = Some (if step_ID v \<in> D then StepStatusCanceled else step_Status v)"
    using agreesD [OF ag, of j "moveStepRow D StepStatusCanceled clock v"] v j(2) by (simp add: cancelSteps_row)
  moreover have "step_Name v = step_Name st \<longleftrightarrow> step_ID v = step_ID st"
  proof
    assume "step_Name v = step_Name st"
    then have "j = step_ID st" using names_okD [OF n v(1) st(1)] st(2) v(2) j(2) by simp
    then show "step_ID v = step_ID st" using steps_keyedD [OF k v(1)] by simp
  next
    assume "step_ID v = step_ID st"
    then have "tget (st_steps s) j = Some st" using steps_keyedD [OF k v(1)] st(1) by simp
    then show "step_Name v = step_Name st" using v(1) by simp
  qed
  ultimately show "tget (tput (step_Name st) StepStatusCanceled m) (step_Name v') = Some (step_Status v')"
    using v(2) by auto
next
  fix x y assume x: "tget (tput (step_Name st) StepStatusCanceled m) x = Some y"
  have "\<exists>k v. tget (st_steps s) k = Some v \<and> step_JobID v = jid \<and> step_Name v = x"
  proof (cases "x = step_Name st")
    case True
    then show ?thesis using st by blast
  next
    case False
    then have "tget m x = Some y" using x by simp
    then obtain k v where "tget (st_steps (cancelSteps clock s D)) k = Some v" "step_JobID v = jid" "step_Name v = x"
      by (rule agrees_row [OF ag])
    then show ?thesis by (auto simp: cancelSteps_row) blast
  qed
  then show "\<exists>k v. tget (st_steps (cancelSteps clock s (insert (step_ID st) D))) k = Some v \<and> step_JobID v = jid \<and> step_Name v = x"
    by (force simp: cancelSteps_row)
qed

lemma cancel_one:
  assumes k: "steps_keyed s" and n: "names_ok s" and f: "fenceLocked ctx s = None"
    and c: "cancel_state jid clock s D m" and st: "st \<in> set (ListSteps jid s)"
    and pend: "tget m (step_Name st) = Some StepStatusPending"
    and dep: "anyDepUnsuccessful (step_DependsOn st) m"
  obtains ts where
    "CancelPendingStep ctx (step_ID st) FailureReasonUpstreamFailed clock (cancelSteps clock s D) =
       (cancelSteps clock s (insert (step_ID st) D), Inr (True, ts))"
    "cancel_state jid clock s (insert (step_ID st) D) (tput (step_Name st) StepStatusCanceled m)"
    "step_ID st \<notin> D"
proof -
  let ?s = "cancelSteps clock s D"
  have row: "tget (st_steps s) (step_ID st) = Some st" "step_JobID st = jid"
    using st ListSteps_iff [OF k] by simp_all
  have D: "D \<subseteq> Collect (doomed s jid)" and ag: "agrees jid m ?s" using c by (simp_all add: cancel_state_def)
  have row': "tget (st_steps ?s) (step_ID st) = Some (moveStepRow D StepStatusCanceled clock st)"
    by (simp add: cancelSteps_row row)
  have new: "step_ID st \<notin> D" and pending: "step_Status st = StepStatusPending"
    using agreesD [OF ag row'] row(2) pend by (auto split: if_splits)
  have same: "moveStepRow D StepStatusCanceled clock st = st" using new by (simp add: moveStepRow_def)
  obtain u up' where up': "upstream ?s jid st u up'" "unsuccessful (step_Status up')"
    using dep anyDep_iff [OF ag] by blast
  then have "anyUpstreamUnsuccessfulLocked ?s st"
    using tget_trows row(2) unfolding anyUpstreamUnsuccessfulLocked_def upstream_def unsuccessful_def by metis
  then obtain ts where move: "CancelPendingStep ctx (step_ID st) FailureReasonUpstreamFailed clock ?s =
      (moveSteps {step_ID st} StepStatusCanceled TaskStatusCanceled FailureReasonUpstreamFailed clock ?s, Inr (True, ts))"
    unfolding CancelPendingStep_def
    using movePendingStep_moves [of ?s ctx "step_ID st" st StepStatusCanceled TaskStatusCanceled
        FailureReasonUpstreamFailed clock] k f row' same pending by (auto simp: cancelSteps_def)
  obtain up where up: "upstream s jid st u up" "up' = moveStepRow D StepStatusCanceled clock up"
    using up'(1) by (auto simp: upstream_cancelSteps)
  have "doomed s jid (step_ID st)"
  proof (cases "step_ID up \<in> D")
    case True
    then have "doomed s jid u" using D up(1) steps_keyedD [OF k] by (auto simp: upstream_def)
    then show ?thesis by (rule doomed.chain [OF row pending up(1)])
  next
    case False
    then show ?thesis using up'(2) up(2) by (intro doomed.direct [OF row pending up(1)]) simp
  qed
  moreover have "agrees jid (tput (step_Name st) StepStatusCanceled m) (cancelSteps clock s (insert (step_ID st) D))"
    by (rule agrees_cancel [OF k n ag row])
  ultimately have "cancel_state jid clock s (insert (step_ID st) D) (tput (step_Name st) StepStatusCanceled m)"
    using D by (simp add: cancel_state_def)
  then show thesis using that move new by (simp add: cancelSteps_def moveSteps_twice)
qed

lemma cancelPass_progressed:
  "cancelPass ctx clock steps (m, n, ts, True) s = (s', Inr (m', n', ts', p')) \<Longrightarrow> p'"
proof (induction steps arbitrary: m n ts s)
  case (Cons st steps)
  from Cons.prems show ?case by (cases rule: cancelPass_Cons) (rule Cons.IH, assumption)+
qed simp

lemma cancelPass_cancels:
  assumes "steps_keyed s" "names_ok s" "fenceLocked ctx s = None" "cancel_state jid clock s D m"
    "set steps \<subseteq> set (ListSteps jid s)"
  shows "\<exists>D' m' ts' p'. cancelPass ctx clock steps (m, card D, ts, p) (cancelSteps clock s D) =
      (cancelSteps clock s D', Inr (m', card D', ts', p')) \<and> cancel_state jid clock s D' m' \<and>
    (\<not> p' \<longrightarrow> D' = D \<and> m' = m \<and> (\<forall>st \<in> set steps.
       \<not> (tget m (step_Name st) = Some StepStatusPending \<and> anyDepUnsuccessful (step_DependsOn st) m)))"
  using assms(4,5)
proof (induction steps arbitrary: D m ts p)
  case (Cons st steps)
  show ?case
  proof (cases "tget m (step_Name st) = Some StepStatusPending \<and> anyDepUnsuccessful (step_DependsOn st) m")
    case False
    then have "cancelPass ctx clock (st # steps) (m, card D, ts, p) (cancelSteps clock s D) =
        cancelPass ctx clock steps (m, card D, ts, p) (cancelSteps clock s D)" by auto
    moreover have "set steps \<subseteq> set (ListSteps jid s)" using Cons.prems(2) by simp
    ultimately show ?thesis using Cons.IH [OF Cons.prems(1), of ts p] False by force
  next
    case True
    have st: "st \<in> set (ListSteps jid s)" and sub: "set steps \<subseteq> set (ListSteps jid s)"
      using Cons.prems(2) by simp_all
    obtain tasks where c: "CancelPendingStep ctx (step_ID st) FailureReasonUpstreamFailed clock (cancelSteps clock s D) =
        (cancelSteps clock s (insert (step_ID st) D), Inr (True, tasks))"
      "cancel_state jid clock s (insert (step_ID st) D) (tput (step_Name st) StepStatusCanceled m)" "step_ID st \<notin> D"
      by (rule cancel_one [OF assms(1-3) Cons.prems(1) st]) (use True in simp_all)
    have "finite D"
      using Cons.prems(1) finite_doomed by (auto simp: cancel_state_def intro: finite_subset)
    then have card: "card D + 1 = card (insert (step_ID st) D)" using c(3) by simp
    have eq: "cancelPass ctx clock (st # steps) (m, card D, ts, p) (cancelSteps clock s D) =
        cancelPass ctx clock steps (tput (step_Name st) StepStatusCanceled m, card (insert (step_ID st) D), ts @ tasks, True)
          (cancelSteps clock s (insert (step_ID st) D))"
      using True c(1) unfolding card [symmetric] by simp
    show ?thesis
      unfolding eq using Cons.IH [OF c(2) sub, of "ts @ tasks" True] cancelPass_progressed by fast
  qed
qed auto

lemma cancel_closed:
  assumes k: "steps_keyed s" and c: "cancel_state jid clock s D m"
    and stable: "\<forall>st \<in> set (ListSteps jid s).
      \<not> (tget m (step_Name st) = Some StepStatusPending \<and> anyDepUnsuccessful (step_DependsOn st) m)"
  shows "D = Collect (doomed s jid)"
proof
  have ag: "agrees jid m (cancelSteps clock s D)" using c by (simp add: cancel_state_def)
  have settled: "k' \<in> D" if st: "tget (st_steps s) k' = Some st" "step_JobID st = jid" "step_Status st = StepStatusPending"
    and up: "upstream s jid st u up" "unsuccessful (step_Status up) \<or> step_ID up \<in> D" for k' st u up
  proof (rule ccontr)
    assume out: "k' \<notin> D"
    have id: "step_ID st = k'" by (rule steps_keyedD [OF k st(1)])
    have "tget (st_steps (cancelSteps clock s D)) k' = Some st"
      using st(1) id out by (simp add: cancelSteps_row moveStepRow_def)
    then have "tget m (step_Name st) = Some StepStatusPending" using agreesD [OF ag] st(2,3) by metis
    moreover have "anyDepUnsuccessful (step_DependsOn st) m"
      using anyDep_iff [OF ag] upstream_blocks [OF up] by blast
    moreover have "st \<in> set (ListSteps jid s)" using st id ListSteps_iff [OF k] by simp
    ultimately show False using stable by blast
  qed
  show "Collect (doomed s jid) \<subseteq> D"
  proof
    fix k' assume "k' \<in> Collect (doomed s jid)"
    then have "doomed s jid k'" by simp
    then show "k' \<in> D"
    proof induction
      case (direct k' st u up)
      then show ?case using settled by blast
    next
      case (chain k' st u up)
      then have "step_ID up \<in> D" using steps_keyedD [OF k] by (auto simp: upstream_def)
      then show ?case using settled chain.hyps by blast
    qed
  qed
qed (use c in \<open>simp add: cancel_state_def\<close>)

lemma cancelLoop_cancels:
  assumes "steps_keyed s" "names_ok s" "fenceLocked ctx s = None" "cancel_state jid clock s D m"
  shows "\<exists>ts'. cancelLoop ctx clock (ListSteps jid s) m (card D) ts (cancelSteps clock s D) =
    (cancelSteps clock s (Collect (doomed s jid)), Inr (card (Collect (doomed s jid)), ts'))"
  using assms(4)
proof (induction "pendingIn (ListSteps jid s) m" arbitrary: D m ts rule: less_induct)
  case less
  let ?steps = "ListSteps jid s"
  obtain D' m' ts' p' where pass: "cancelPass ctx clock ?steps (m, card D, ts, False) (cancelSteps clock s D) =
      (cancelSteps clock s D', Inr (m', card D', ts', p'))" and c: "cancel_state jid clock s D' m'"
    and stop: "\<not> p' \<longrightarrow> D' = D \<and> m' = m \<and> (\<forall>st \<in> set ?steps.
       \<not> (tget m (step_Name st) = Some StepStatusPending \<and> anyDepUnsuccessful (step_DependsOn st) m))"
    using cancelPass_cancels [OF assms(1-3) less.prems order_refl, of ts False] by blast
  have eq: "cancelLoop ctx clock ?steps m (card D) ts (cancelSteps clock s D) =
      (if \<not> p' then (cancelSteps clock s D', Inr (card D', ts'))
       else cancelLoop ctx clock ?steps m' (card D') ts' (cancelSteps clock s D'))"
    by (subst cancelLoop.simps) (simp add: pass)
  show ?case
  proof (cases p')
    case True
    then have "pendingIn ?steps m' < pendingIn ?steps m"
      using cancelPass_pendingIn [OF pass order_refl] by simp
    from less.hyps [OF this c] show ?thesis using True by (simp add: eq)
  next
    case False
    then have "D' = Collect (doomed s jid)"
      using stop cancel_closed [OF assms(1) less.prems] by blast
    then show ?thesis using False by (simp add: eq)
  qed
qed

lemma CancelDependents_moves:
  assumes "steps_keyed s" "names_ok s" "fenceLocked ctx s = None"
  obtains ts where "CancelDependents ctx jid clock s =
    (cancelSteps clock s (Collect (doomed s jid)), Inr (card (Collect (doomed s jid)), ts))"
proof -
  have "cancel_state jid clock s {} (stepStatusByName (ListSteps jid s))"
    using agrees_start [OF assms(1,2)] by (simp add: cancel_state_def cancelSteps_def)
  from cancelLoop_cancels [OF assms this, of "[]"] show thesis
    using that by (auto simp: CancelDependents_def Let_def cancelSteps_def)
qed

text \<open>Afterwards no step is doomed any more.\<close>

lemma doomed_cancelSteps:
  assumes k: "steps_keyed s"
  shows "\<not> doomed (cancelSteps clock s (Collect (doomed s jid))) jid x"
proof
  let ?D = "Collect (doomed s jid)"
  assume "doomed (cancelSteps clock s ?D) jid x"
  then show False
  proof induction
    case (direct x st' u up')
    obtain st where st: "tget (st_steps s) x = Some st" "st' = moveStepRow ?D StepStatusCanceled clock st"
      using direct.hyps(1) by (auto simp: cancelSteps_row)
    then have x: "\<not> doomed s jid x" "step_Status st = StepStatusPending" "step_JobID st = jid"
      using direct.hyps(2,3) steps_keyedD [OF k st(1)] by (auto split: if_splits)
    obtain up where up: "upstream s jid st u up" "up' = moveStepRow ?D StepStatusCanceled clock up"
      using direct.hyps(4) unfolding st(2) upstream_moveStepRow upstream_cancelSteps by blast
    have "step_ID up = u" using up(1) steps_keyedD [OF k] by (simp add: upstream_def)
    then have "doomed s jid u \<or> unsuccessful (step_Status up)"
      using direct.hyps(5) up(2) by (auto split: if_splits)
    then show False
      using x(1) doomed.direct [OF st(1) x(3,2) up(1)] doomed.chain [OF st(1) x(3,2) up(1)] by blast
  qed
qed

end
