(* ===== verification/DepsProps.thy ===== *)
theory DepsProps
  imports DepsFacts
begin

text \<open>
  The two properties of the dependency pass over the stores the system reaches, each with a concrete
  job of three steps in a row.
\<close>

section \<open>Which steps may start\<close>

definition deps_met :: "store \<Rightarrow> string \<Rightarrow> string \<Rightarrow> bool" where
  "deps_met s jid k \<longleftrightarrow>
     (\<exists>st. tget (st_steps s) k = Some st \<and> step_JobID st = jid \<and> step_Status st = StepStatusPending \<and>
        (\<forall>n \<in> set (step_DependsOn st). \<exists>u up. tget (st_steps s) u = Some up \<and> step_JobID up = jid \<and>
           step_Name up = n \<and> step_Status up = StepStatusCompleted))"

lemma released_eq:
  assumes "steps_keyed s" "names_ok s"
  shows "released jid s = Collect (deps_met s jid)"
proof -
  let ?m = "stepStatusByName (ListSteps jid s)"
  have ag: "agrees jid ?m s" by (rule agrees_start [OF assms])
  have m: "tget ?m n = Some v \<longleftrightarrow> (\<exists>u up. tget (st_steps s) u = Some up \<and> step_JobID up = jid \<and>
      step_Name up = n \<and> step_Status up = v)" for n v
    using agreesD [OF ag] agrees_row [OF ag] by metis
  have "k \<in> released jid s \<longleftrightarrow> (\<exists>st. tget (st_steps s) k = Some st \<and> step_JobID st = jid \<and> releasable ?m st)" for k
  proof
    assume "k \<in> released jid s"
    then obtain st where "st \<in> set (ListSteps jid s)" "releasable ?m st" "k = step_ID st"
      by (auto simp: released_def)
    then show "\<exists>st. tget (st_steps s) k = Some st \<and> step_JobID st = jid \<and> releasable ?m st"
      using ListSteps_iff [OF assms(1)] by blast
  next
    assume "\<exists>st. tget (st_steps s) k = Some st \<and> step_JobID st = jid \<and> releasable ?m st"
    then obtain st where st: "tget (st_steps s) k = Some st" "step_JobID st = jid" "releasable ?m st" by blast
    then have id: "step_ID st = k" using steps_keyedD [OF assms(1)] by blast
    then have "st \<in> set (ListSteps jid s)" using st ListSteps_iff [OF assms(1)] by blast
    then show "k \<in> released jid s" using released_iff [OF assms(1)] st(3) id by blast
  qed
  then show ?thesis by (auto simp: deps_met_def releasable_def allDepsCompleted_def m)
qed

section \<open>A job of three steps in a row\<close>

definition chain_step :: "string \<Rightarrow> string list \<Rightarrow> step_status \<Rightarrow> Step" where
  "chain_step sid deps st = (demo_step sid ''c'' st)\<lparr>step_DependsOn := deps\<rparr>"

definition chain_submission :: JobSubmission where
  "chain_submission = \<lparr> sub_Job = demo_job ''c'' JobStatusPending, sub_DependsOn = [],
     sub_Steps = [chain_step ''x'' [] StepStatusReady, chain_step ''y'' [''x''] StepStatusPending,
                  chain_step ''z'' [''y''] StepStatusPending],
     sub_Tasks = [demo_task ''xt'' ''x'' ''c'' TaskStatusReady, demo_task ''yt'' ''y'' ''c'' TaskStatusPending,
                  demo_task ''zt'' ''z'' ''c'' TaskStatusPending] \<rparr>"

definition chain_lease :: LeaseRequest where
  "chain_lease = \<lparr> req_TaskID = ''xt'', req_WorkerID = ''w'', req_AttemptID = ''xa'', req_Now = 10, req_Claims = [] \<rparr>"

definition chain_report :: AttemptCompletion where
  "chain_report = \<lparr> ac_AttemptID = ''xa'', ac_TaskID = ''xt'', ac_TaskStatus = TaskStatusSucceeded,
     ac_AttemptStatus = AttemptStatusSucceeded, ac_ExitCode = Some 0, ac_SessionID = [], ac_Message = [],
     ac_FailureReason = [], ac_EndedAt = 20 \<rparr>"

definition chain_setup :: "store_op list" where
  "chain_setup = [ConfigOp (OpCreateFarm None demo_farm 1), ConfigOp (OpCreateQueue None demo_queue 2),
     JobOp (OpSubmit None chain_submission 4)]"

definition chain_done :: store where
  "chain_done = run exec (chain_setup @ [AttemptOp (OpLease None chain_lease),
     AttemptOp (OpStart None ''xa'' ''xt'' [] 11), AttemptOp (OpComplete None chain_report 20),
     StepOp (OpFinalizeStep None ''x'' 21)]) New"

definition chain_canceled :: store where
  "chain_canceled = run exec (chain_setup @ [AttemptOp (OpCancelTask None ''xt'' [] 10),
     StepOp (OpFinalizeStep None ''x'' 11)]) New"

lemma chain_done_reachable: "reachable chain_done"
  unfolding chain_done_def by (rule reach_run_init) code_simp

lemma chain_canceled_reachable: "reachable chain_canceled"
  unfolding chain_canceled_def by (rule reach_run_init) code_simp

section \<open>The properties\<close>

text \<open>C14. One call of \<^verbatim>\<open>ResolveDependencies\<close> releases exactly the pending steps of the job all of whose
  dependencies completed, together with their pending tasks, and returns their number; nothing else
  in the store changes, and a second call finds nothing to do.\<close>

theorem resolve_releases_exactly:
  assumes "reachable s" "fenceLocked ctx s = None"
  shows "ResolveDependencies ctx jid clock s =
      (moveSteps {k. deps_met s jid k} StepStatusReady TaskStatusReady [] clock s, Inr (card {k. deps_met s jid k})) \<and>
    ResolveDependencies ctx jid clock2 (fst (ResolveDependencies ctx jid clock s)) =
      (fst (ResolveDependencies ctx jid clock s), Inr 0)"
proof -
  have k: "steps_keyed s" and n: "names_ok s"
    using reachable_exec_inv reachable_names_ok assms(1) by (simp_all add: steps_keyed_inv)
  let ?s' = "moveSteps (released jid s) StepStatusReady TaskStatusReady [] clock s"
  have first: "ResolveDependencies ctx jid clock s = (?s', Inr (card (released jid s)))"
    by (rule ResolveDependencies_moves [OF k assms(2)])
  have "ResolveDependencies ctx jid clock2 ?s' = (?s', Inr 0)"
    using ResolveDependencies_moves [of ?s' ctx jid clock2] k assms(2) by (simp add: released_twice)
  then show ?thesis using first by (simp add: released_eq [OF k n])
qed

theorem resolve_releases_exactly_witness:
  "fenceLocked None chain_done = None \<and>
   ResolveDependencies None ''c'' 50 chain_done =
     (moveSteps {k. deps_met chain_done ''c'' k} StepStatusReady TaskStatusReady [] 50 chain_done,
      Inr (card {k. deps_met chain_done ''c'' k})) \<and>
   snd (ResolveDependencies None ''c'' 50 chain_done) = Inr 1"
proof (intro conjI)
  show "ResolveDependencies None ''c'' 50 chain_done =
     (moveSteps {k. deps_met chain_done ''c'' k} StepStatusReady TaskStatusReady [] 50 chain_done,
      Inr (card {k. deps_met chain_done ''c'' k}))"
    using resolve_releases_exactly [OF chain_done_reachable, of None "''c''" 50] by simp
qed (simp, code_simp)

text \<open>C15. \<^verbatim>\<open>CancelDependents\<close> always ends and cancels exactly the pending steps of the job that depend,
  directly or through other pending steps, on a step that failed or was canceled, with their pending
  tasks; it returns their number, and in the resulting store no such step is left.\<close>

theorem cancel_dependents_closure:
  assumes "reachable s" "fenceLocked ctx s = None"
  shows "\<exists>ts. CancelDependents ctx jid clock s =
      (cancelSteps clock s {k. doomed s jid k}, Inr (card {k. doomed s jid k}, ts)) \<and>
    (\<forall>k. \<not> doomed (cancelSteps clock s {k. doomed s jid k}) jid k)"
proof -
  have k: "steps_keyed s" and n: "names_ok s"
    using reachable_exec_inv reachable_names_ok assms(1) by (simp_all add: steps_keyed_inv)
  obtain ts where "CancelDependents ctx jid clock s =
      (cancelSteps clock s {k. doomed s jid k}, Inr (card {k. doomed s jid k}, ts))"
    by (rule CancelDependents_moves [OF k n assms(2), where jid = jid and clock = clock])
  then show ?thesis using doomed_cancelSteps [OF k] by blast
qed

theorem cancel_dependents_closure_witness:
  "fenceLocked None chain_canceled = None \<and>
   (\<exists>ts. CancelDependents None ''c'' 50 chain_canceled =
      (cancelSteps 50 chain_canceled {k. doomed chain_canceled ''c'' k},
       Inr (card {k. doomed chain_canceled ''c'' k}, ts))) \<and>
   map_option step_Status (tget (st_steps (fst (CancelDependents None ''c'' 50 chain_canceled))) ''z'') =
     Some StepStatusCanceled"
proof (intro conjI)
  show "\<exists>ts. CancelDependents None ''c'' 50 chain_canceled =
      (cancelSteps 50 chain_canceled {k. doomed chain_canceled ''c'' k},
       Inr (card {k. doomed chain_canceled ''c'' k}, ts))"
    using cancel_dependents_closure [OF chain_canceled_reachable, of None "''c''" 50] by auto
qed (simp, code_simp)

end
