(* ===== verification/StoreReads.thy ===== *)
theory StoreReads
  imports StoreWorkers
begin

text \<open>
  The reading operations of the in-memory store: rows by ID, the filtered, sorted and paged listings
  (\<^verbatim>\<open>store/page.go\<close>, \<^verbatim>\<open>store/search.go\<close>, \<^verbatim>\<open>fake/helpers.go\<close> and the listings of \<^verbatim>\<open>fake/job.go\<close>, \<^verbatim>\<open>fake/task.go\<close>,
  \<^verbatim>\<open>fake/worker.go\<close>, \<^verbatim>\<open>fake/queue.go\<close>), and the counts the scheduler decides by.  An empty filter string or
  status of an option struct means no filter; for a status it is \<open>None\<close> here.
\<close>

section \<open>Pages\<close>

record Pagination =
  pg_Limit :: int
  pg_Offset :: int

definition MaxLimit :: int where "MaxLimit = 1000"

definition Pagination_Validate :: "Pagination \<Rightarrow> Pagination" where
  "Pagination_Validate p =
     (let p = (if pg_Limit p \<le> 0 then p\<lparr>pg_Limit := DefaultLimit\<rparr> else p);
          p = (if pg_Limit p > MaxLimit then p\<lparr>pg_Limit := MaxLimit\<rparr> else p)
      in if pg_Offset p < 0 then p\<lparr>pg_Offset := 0\<rparr> else p)"

record 'a Page =
  page_Items :: "'a list"
  page_Total :: int
  page_Limit :: int
  page_Offset :: int

definition HasMore :: "'a Page \<Rightarrow> bool" where
  "HasMore p \<longleftrightarrow> page_Offset p + int (length (page_Items p)) < page_Total p"

definition applyPage :: "'a list \<Rightarrow> Pagination \<Rightarrow> 'a Page" where
  "applyPage items p =
     (let total = int (length items); offset = max (pg_Offset p) 0
      in if offset \<ge> total
         then \<lparr> page_Items = [], page_Total = total, page_Limit = pg_Limit p, page_Offset = offset \<rparr>
         else let stop = min (offset + pg_Limit p) total
              in \<lparr> page_Items = drop (nat offset) (take (nat stop) items), page_Total = total,
                   page_Limit = pg_Limit p, page_Offset = offset \<rparr>)"

datatype SortDir = SortAsc | SortDesc

fun SortDir_Reverse :: "SortDir \<Rightarrow> SortDir" where
  "SortDir_Reverse SortDesc = SortAsc"
| "SortDir_Reverse SortAsc = SortDesc"

definition withIDTieBreak :: "int \<Rightarrow> SortDir \<Rightarrow> string \<Rightarrow> string \<Rightarrow> int" where
  "withIDTieBreak n dir aID bID =
     (let n = (if dir = SortDesc then - n else n) in if n = 0 then Compare aID bID else n)"

section \<open>Search\<close>

definition SearchTerms :: "string \<Rightarrow> string list" where
  "SearchTerms query = Fields (ToLower query)"

definition MatchesSearch :: "string \<Rightarrow> string list \<Rightarrow> bool" where
  "MatchesSearch query fs =
     (let terms = SearchTerms query
      in if terms = [] then True
         else (let lowered = map ToLower fs
               in \<forall>trm \<in> set terms. \<exists>f \<in> set lowered. Contains f trm))"

section \<open>Jobs\<close>

fun job_status_string :: "job_status \<Rightarrow> string" where
  "job_status_string JobStatusPending = ''pending''"
| "job_status_string JobStatusRunning = ''running''"
| "job_status_string JobStatusPaused = ''paused''"
| "job_status_string JobStatusBlocked = ''blocked''"
| "job_status_string JobStatusCompleted = ''completed''"
| "job_status_string JobStatusFailed = ''failed''"
| "job_status_string JobStatusCanceled = ''canceled''"

datatype JobSortField = JobSortByCreatedAt | JobSortByPriority | JobSortByStatus | JobSortByUpdatedAt | JobSortByName

record ListJobsOptions =
  ljo_FarmID :: string
  ljo_QueueID :: string
  ljo_Status :: "job_status option"
  ljo_Owner :: string
  ljo_Project :: string
  ljo_Search :: string
  ljo_SortBy :: JobSortField
  ljo_SortDir :: SortDir
  ljo_Pagination :: Pagination

definition jobMatchesSearch :: "Job \<Rightarrow> string \<Rightarrow> bool" where
  "jobMatchesSearch j query = MatchesSearch query [job_Name j, job_ID j, job_Owner j, job_Project j]"

definition filterJob :: "Job \<Rightarrow> ListJobsOptions \<Rightarrow> bool" where
  "filterJob j opts =
     (if ljo_FarmID opts \<noteq> [] \<and> job_FarmID j \<noteq> ljo_FarmID opts then False
      else if ljo_QueueID opts \<noteq> [] \<and> job_QueueID j \<noteq> ljo_QueueID opts then False
      else if ljo_Status opts \<noteq> None \<and> Some (job_Status j) \<noteq> ljo_Status opts then False
      else if ljo_Owner opts \<noteq> [] \<and> \<not> EqualFold (job_Owner j) (ljo_Owner opts) then False
      else if ljo_Project opts \<noteq> [] \<and> job_Project j \<noteq> ljo_Project opts then False
      else if ljo_Search opts \<noteq> [] \<and> \<not> jobMatchesSearch j (ljo_Search opts) then False
      else True)"

fun cmpJob :: "JobSortField \<Rightarrow> SortDir \<Rightarrow> Job \<Rightarrow> Job \<Rightarrow> int" where
  "cmpJob JobSortByPriority dir a b = withIDTieBreak (Compare (job_Priority a) (job_Priority b)) dir (job_ID a) (job_ID b)"
| "cmpJob JobSortByStatus dir a b =
     withIDTieBreak (Compare (job_status_string (job_Status a)) (job_status_string (job_Status b))) dir (job_ID a) (job_ID b)"
| "cmpJob JobSortByUpdatedAt dir a b = withIDTieBreak (Compare (job_UpdatedAt a) (job_UpdatedAt b)) dir (job_ID a) (job_ID b)"
| "cmpJob JobSortByName dir a b = withIDTieBreak (Compare (job_Name a) (job_Name b)) dir (job_ID a) (job_ID b)"
| "cmpJob JobSortByCreatedAt dir a b = withIDTieBreak (Compare (job_CreatedAt a) (job_CreatedAt b)) dir (job_ID a) (job_ID b)"

definition ListJobs :: "ListJobsOptions \<Rightarrow> store \<Rightarrow> Job Page" where
  "ListJobs opts s =
     applyPage (sortFunc (cmpJob (ljo_SortBy opts) (ljo_SortDir opts)) (filter (\<lambda>j. filterJob j opts) (trows (st_jobs s))))
       (Pagination_Validate (ljo_Pagination opts))"

definition DeclaresExtension :: "Job \<Rightarrow> string \<Rightarrow> bool \<times> bool" where
  "DeclaresExtension j name =
     (if \<not> job_ExtensionsRecorded j then (False, False) else (name \<in> set (job_DeclaredExtensions j), True))"

section \<open>Tasks\<close>

fun task_status_string :: "task_status \<Rightarrow> string" where
  "task_status_string TaskStatusPending = ''pending''"
| "task_status_string TaskStatusReady = ''ready''"
| "task_status_string TaskStatusAssigned = ''assigned''"
| "task_status_string TaskStatusRunning = ''running''"
| "task_status_string TaskStatusSucceeded = ''succeeded''"
| "task_status_string TaskStatusFailed = ''failed''"
| "task_status_string TaskStatusCanceled = ''canceled''"
| "task_status_string (TaskStatusOther x) = x"

datatype TaskSortField = TaskSortByCreatedAt | TaskSortByStatus | TaskSortByUpdatedAt | TaskSortByName

record ListTasksOptions =
  lto_JobID :: string
  lto_StepID :: string
  lto_Status :: "task_status option"
  lto_Statuses :: "task_status list"
  lto_WorkerID :: string
  lto_SortBy :: TaskSortField
  lto_SortDir :: SortDir
  lto_Pagination :: Pagination

definition filterTask :: "Task \<Rightarrow> ListTasksOptions \<Rightarrow> bool" where
  "filterTask t opts =
     (if lto_JobID opts \<noteq> [] \<and> task_JobID t \<noteq> lto_JobID opts then False
      else if lto_StepID opts \<noteq> [] \<and> task_StepID t \<noteq> lto_StepID opts then False
      else if (if lto_Statuses opts \<noteq> [] then task_Status t \<notin> set (lto_Statuses opts)
               else lto_Status opts \<noteq> None \<and> Some (task_Status t) \<noteq> lto_Status opts) then False
      else if lto_WorkerID opts \<noteq> [] \<and> task_AssignedWorkerID t \<noteq> lto_WorkerID opts then False
      else True)"

fun cmpTask :: "TaskSortField \<Rightarrow> SortDir \<Rightarrow> Task \<Rightarrow> Task \<Rightarrow> int" where
  "cmpTask TaskSortByStatus dir a b =
     withIDTieBreak (Compare (task_status_string (task_Status a)) (task_status_string (task_Status b))) dir (task_ID a) (task_ID b)"
| "cmpTask TaskSortByUpdatedAt dir a b = withIDTieBreak (Compare (task_UpdatedAt a) (task_UpdatedAt b)) dir (task_ID a) (task_ID b)"
| "cmpTask TaskSortByName dir a b = withIDTieBreak (Compare (task_Name a) (task_Name b)) dir (task_ID a) (task_ID b)"
| "cmpTask TaskSortByCreatedAt dir a b = withIDTieBreak (Compare (task_CreatedAt a) (task_CreatedAt b)) dir (task_ID a) (task_ID b)"

definition ListTasks :: "ListTasksOptions \<Rightarrow> store \<Rightarrow> Task Page" where
  "ListTasks opts s =
     applyPage (sortFunc (cmpTask (lto_SortBy opts) (lto_SortDir opts)) (filter (\<lambda>t. filterTask t opts) (trows (st_tasks s))))
       (Pagination_Validate (lto_Pagination opts))"

definition GetTask :: "string \<Rightarrow> store \<Rightarrow> Task sres" where
  "GetTask i s = (case tget (st_tasks s) i of None \<Rightarrow> Inl ErrNotFound | Some t \<Rightarrow> Inr t)"

definition GetStep :: "string \<Rightarrow> store \<Rightarrow> Step sres" where
  "GetStep i s = (case tget (st_steps s) i of None \<Rightarrow> Inl ErrNotFound | Some st \<Rightarrow> Inr st)"

definition CountReadyTasksByQueue :: "string \<Rightarrow> time \<Rightarrow> store \<Rightarrow> nat table" where
  "CountReadyTasksByQueue farmID now s =
     fold (\<lambda>t counts.
         if isReadyInFarm t farmID now (st_jobs s) (queuePausedIn farmID s)
         then (let q = (case tget (st_jobs s) (task_JobID t) of Some j \<Rightarrow> job_QueueID j | None \<Rightarrow> [])
               in tput q (tgetz 0 counts q + 1) counts)
         else counts) (trows (st_tasks s)) []"

text \<open>A Go map of counts is the function its lookups are.\<close>

definition CountTasksByJob :: "string \<Rightarrow> store \<Rightarrow> task_status \<Rightarrow> nat" where
  "CountTasksByJob jobID s status =
     length (filter (\<lambda>t. task_JobID t = jobID \<and> task_Status t = status) (trows (st_tasks s)))"

definition CountUnschedulableTasksByJob :: "string \<Rightarrow> store \<Rightarrow> nat" where
  "CountUnschedulableTasksByJob jobID s =
     length (filter (\<lambda>t. task_JobID t = jobID \<and> task_Status t = TaskStatusReady \<and> task_UnschedulableReason t \<noteq> [])
       (trows (st_tasks s)))"

record FailureSummary =
  fs_DominantReason :: string
  fs_DistinctReasons :: nat
  fs_FailedCount :: nat

definition FailureReasonSummary :: "string \<Rightarrow> store \<Rightarrow> FailureSummary" where
  "FailureReasonSummary jobID s =
     (let counts = fold (\<lambda>t m. if task_JobID t = jobID \<and> task_Status t = TaskStatusFailed \<and> task_FailureReason t \<noteq> []
                       then tput (task_FailureReason t) (tgetz (0::nat) m (task_FailureReason t) + 1) m else m)
                   (trows (st_tasks s)) []
      in if counts = [] then \<lparr> fs_DominantReason = [], fs_DistinctReasons = 0, fs_FailedCount = 0 \<rparr>
         else let reasons = sortFunc (\<lambda>a b.
                    let n = int (tgetz 0 counts b) - int (tgetz 0 counts a) in if n \<noteq> 0 then n else Compare a b)
                  (map fst counts)
              in \<lparr> fs_DominantReason = hd reasons, fs_DistinctReasons = length reasons,
                   fs_FailedCount = sum_list (map (tgetz 0 counts) reasons) \<rparr>)"

definition CommittedCores :: "string \<Rightarrow> int \<Rightarrow> store \<Rightarrow> int" where
  "CommittedCores workerID fullMachineCost s =
     sum_list (map (\<lambda>t.
         if task_AssignedWorkerID t \<noteq> workerID then 0
         else if task_Status t \<noteq> TaskStatusAssigned \<and> task_Status t \<noteq> TaskStatusRunning then 0
         else (case task_RequiredCores t of Some c \<Rightarrow> c | None \<Rightarrow> fullMachineCost)) (trows (st_tasks s)))"

section \<open>Attempts\<close>

definition GetTaskAttempt :: "string \<Rightarrow> store \<Rightarrow> TaskAttempt sres" where
  "GetTaskAttempt i s = (case tget (st_taskAttempts s) i of None \<Rightarrow> Inl ErrNotFound | Some a \<Rightarrow> Inr a)"

definition LatestTaskAttempt :: "string \<Rightarrow> store \<Rightarrow> TaskAttempt sres" where
  "LatestTaskAttempt taskID s =
     (case latestAttemptLocked s taskID of None \<Rightarrow> Inl ErrNotFound | Some a \<Rightarrow> Inr a)"

definition ListTaskAttempts :: "string \<Rightarrow> store \<Rightarrow> TaskAttempt list" where
  "ListTaskAttempts taskID s =
     sort_key att_AttemptNumber (filter (\<lambda>a. att_TaskID a = taskID) (trows (st_taskAttempts s)))"

record OpenAttempt =
  oa_AttemptID :: string
  oa_TaskID :: string
  oa_WorkerID :: string
  oa_CreatedAt :: time

definition ListOpenAttempts :: "store \<Rightarrow> OpenAttempt list" where
  "ListOpenAttempts s =
     sortFunc (\<lambda>x y. let c = Compare (oa_CreatedAt x) (oa_CreatedAt y)
                      in if c \<noteq> 0 then c else Compare (oa_AttemptID x) (oa_AttemptID y))
       (map (\<lambda>a. \<lparr> oa_AttemptID = att_ID a, oa_TaskID = att_TaskID a, oa_WorkerID = att_WorkerID a,
                   oa_CreatedAt = att_CreatedAt a \<rparr>)
         (filter (\<lambda>a. case tget (st_tasks s) (att_TaskID a) of
                         None \<Rightarrow> False | Some t \<Rightarrow> liveAttemptLocked s (att_ID a) t)
           (trows (st_taskAttempts s))))"

record TaskProgress =
  tp_Progress :: "int option"
  tp_StatusText :: string
  tp_ProgressAt :: "time option"

definition LatestAttemptProgress :: "string list \<Rightarrow> store \<Rightarrow> TaskProgress table" where
  "LatestAttemptProgress taskIDs s =
     fold (\<lambda>i out.
         (case tget (st_tasks s) i of
            None \<Rightarrow> out
          | Some t \<Rightarrow>
              if task_Status t = TaskStatusPending \<or> task_Status t = TaskStatusReady then out
              else (case latestAttemptLocked s i of
                      None \<Rightarrow> out
                    | Some a \<Rightarrow>
                        if att_ProgressAt a = None \<and> att_StatusText a = [] then out
                        else tput i \<lparr> tp_Progress = att_Progress a, tp_StatusText = att_StatusText a,
                                      tp_ProgressAt = att_ProgressAt a \<rparr> out))) taskIDs []"

section \<open>Workers, queues, farms and pools\<close>

fun worker_status_string :: "worker_status \<Rightarrow> string" where
  "worker_status_string WorkerStatusOnline = ''online''"
| "worker_status_string WorkerStatusOffline = ''offline''"
| "worker_status_string WorkerStatusDisabled = ''disabled''"

datatype WorkerSortField =
  WorkerSortByHostname | WorkerSortByStatus | WorkerSortByRegisteredAt | WorkerSortByLastHeartbeatAt

record ListWorkersOptions =
  lwo_FarmID :: string
  lwo_QueueID :: string
  lwo_ComputeLocation :: string
  lwo_Status :: "worker_status option"
  lwo_Search :: string
  lwo_IncludeUnaffiliated :: bool
  lwo_SortBy :: WorkerSortField
  lwo_SortDir :: SortDir
  lwo_Pagination :: Pagination

definition workerMatchesSearch :: "Worker \<Rightarrow> string \<Rightarrow> bool" where
  "workerMatchesSearch w query =
     MatchesSearch query [worker_Name w, worker_Hostname w, worker_ID w, worker_ComputeLocation w]"

definition filterWorker :: "Worker \<Rightarrow> ListWorkersOptions \<Rightarrow> bool" where
  "filterWorker w opts =
     (if lwo_FarmID opts \<noteq> [] \<and> worker_FarmID w \<noteq> lwo_FarmID opts \<and>
         (\<not> lwo_IncludeUnaffiliated opts \<or> worker_FarmID w \<noteq> []) then False
      else if lwo_QueueID opts \<noteq> [] \<and> worker_QueueID w \<noteq> lwo_QueueID opts then False
      else if lwo_ComputeLocation opts \<noteq> [] \<and> worker_ComputeLocation w \<noteq> lwo_ComputeLocation opts then False
      else if lwo_Status opts \<noteq> None \<and> Some (EffectiveStatus w) \<noteq> lwo_Status opts then False
      else if lwo_Search opts \<noteq> [] \<and> \<not> workerMatchesSearch w (lwo_Search opts) then False
      else True)"

text \<open>The zero time sorts before every heartbeat; \<open>None\<close> does so here.\<close>

definition heartbeatKey :: "Worker \<Rightarrow> bool \<times> time" where
  "heartbeatKey w = (case worker_LastHeartbeatAt w of Some at \<Rightarrow> (True, at) | None \<Rightarrow> (False, 0))"

fun cmpWorker :: "WorkerSortField \<Rightarrow> SortDir \<Rightarrow> Worker \<Rightarrow> Worker \<Rightarrow> int" where
  "cmpWorker WorkerSortByStatus dir a b =
     withIDTieBreak (Compare (worker_status_string (EffectiveStatus a)) (worker_status_string (EffectiveStatus b))) dir
       (worker_ID a) (worker_ID b)"
| "cmpWorker WorkerSortByRegisteredAt dir a b =
     withIDTieBreak (Compare (worker_RegisteredAt a) (worker_RegisteredAt b)) dir (worker_ID a) (worker_ID b)"
| "cmpWorker WorkerSortByLastHeartbeatAt dir a b =
     withIDTieBreak (Compare (heartbeatKey a) (heartbeatKey b)) dir (worker_ID a) (worker_ID b)"
| "cmpWorker WorkerSortByHostname dir a b =
     withIDTieBreak (Compare (worker_Hostname a) (worker_Hostname b)) dir (worker_ID a) (worker_ID b)"

definition GetWorker :: "string \<Rightarrow> store \<Rightarrow> Worker sres" where
  "GetWorker i s = (case tget (st_workers s) i of None \<Rightarrow> Inl ErrNotFound | Some w \<Rightarrow> Inr w)"

definition ListWorkers :: "ListWorkersOptions \<Rightarrow> store \<Rightarrow> Worker Page" where
  "ListWorkers opts s =
     applyPage (sortFunc (cmpWorker (lwo_SortBy opts) (lwo_SortDir opts))
         (filter (\<lambda>w. filterWorker w opts) (trows (st_workers s))))
       (Pagination_Validate (lwo_Pagination opts))"

datatype QueueSortField = QueueSortByName | QueueSortByPriority | QueueSortByCreatedAt

record ListQueuesOptions =
  lqo_FarmID :: string
  lqo_Paused :: "bool option"
  lqo_SortBy :: QueueSortField
  lqo_SortDir :: SortDir
  lqo_Pagination :: Pagination

definition filterQueue :: "Queue \<Rightarrow> ListQueuesOptions \<Rightarrow> bool" where
  "filterQueue q opts =
     (if lqo_FarmID opts \<noteq> [] \<and> queue_FarmID q \<noteq> lqo_FarmID opts then False
      else if (case lqo_Paused opts of Some p \<Rightarrow> queue_Paused q \<noteq> p | None \<Rightarrow> False) then False
      else True)"

fun cmpQueue :: "QueueSortField \<Rightarrow> SortDir \<Rightarrow> Queue \<Rightarrow> Queue \<Rightarrow> int" where
  "cmpQueue QueueSortByPriority dir a b =
     withIDTieBreak (Compare (queue_Priority a) (queue_Priority b)) dir (queue_ID a) (queue_ID b)"
| "cmpQueue QueueSortByCreatedAt dir a b =
     withIDTieBreak (Compare (queue_CreatedAt a) (queue_CreatedAt b)) dir (queue_ID a) (queue_ID b)"
| "cmpQueue QueueSortByName dir a b =
     withIDTieBreak (Compare (queue_Name a) (queue_Name b)) dir (queue_ID a) (queue_ID b)"

definition GetQueue :: "string \<Rightarrow> store \<Rightarrow> Queue sres" where
  "GetQueue i s = (case tget (st_queues s) i of None \<Rightarrow> Inl ErrNotFound | Some q \<Rightarrow> Inr q)"

definition ListQueues :: "ListQueuesOptions \<Rightarrow> store \<Rightarrow> Queue Page" where
  "ListQueues opts s =
     applyPage (sortFunc (cmpQueue (lqo_SortBy opts) (lqo_SortDir opts))
         (filter (\<lambda>q. filterQueue q opts) (trows (st_queues s))))
       (Pagination_Validate (lqo_Pagination opts))"

definition GetFarm :: "string \<Rightarrow> store \<Rightarrow> Farm sres" where
  "GetFarm i s = (case tget (st_farms s) i of None \<Rightarrow> Inl ErrNotFound | Some f \<Rightarrow> Inr f)"

definition ListFarms :: "store \<Rightarrow> Farm list" where
  "ListFarms s = sort_key farm_Name (trows (st_farms s))"

definition GetUsagePool :: "string \<Rightarrow> store \<Rightarrow> UsagePool sres" where
  "GetUsagePool i s = (case tget (st_usagePools s) i of None \<Rightarrow> Inl ErrNotFound | Some p \<Rightarrow> Inr p)"

definition ListUsagePools :: "store \<Rightarrow> UsagePool list" where
  "ListUsagePools s = sort_key pool_Name (trows (st_usagePools s))"

definition ActiveClaimCount :: "string \<Rightarrow> store \<Rightarrow> nat" where
  "ActiveClaimCount poolID s = activeClaimsLocked poolID s"

section \<open>Order and pages\<close>

text \<open>A key with the ID as tie break is a total order, in both directions.\<close>

lemma comparison_tieBreak:
  "comparison (\<lambda>a b. withIDTieBreak (Compare (k a) (k b)) dir (i a) (i b))"
proof
  fix x y z
  show "\<not> withIDTieBreak (Compare (k x) (k y)) dir (i x) (i y) \<le> 0 \<Longrightarrow>
      withIDTieBreak (Compare (k y) (k x)) dir (i y) (i x) \<le> 0"
    by (auto simp: withIDTieBreak_def Compare_def Let_def split: if_splits)
  show "withIDTieBreak (Compare (k x) (k y)) dir (i x) (i y) \<le> 0 \<Longrightarrow>
      withIDTieBreak (Compare (k y) (k z)) dir (i y) (i z) \<le> 0 \<Longrightarrow>
      withIDTieBreak (Compare (k x) (k z)) dir (i x) (i z) \<le> 0"
    by (cases dir) (auto simp: withIDTieBreak_def Compare_def Let_def split: if_splits)
qed

lemma comparison_by:
  assumes "\<And>a b. f a b = withIDTieBreak (Compare (k a) (k b)) dir (i a) (i b)"
  shows "comparison f"
proof -
  have "f = (\<lambda>a b. withIDTieBreak (Compare (k a) (k b)) dir (i a) (i b))" using assms by blast
  then show ?thesis by (simp add: comparison_tieBreak)
qed

lemma cmpJob_comparison: "comparison (cmpJob field dir)"
  by (cases field; hypsubst; rule comparison_by; rule cmpJob.simps)

lemma cmpTask_comparison: "comparison (cmpTask field dir)"
  by (cases field; hypsubst; rule comparison_by; rule cmpTask.simps)

lemma cmpWorker_comparison: "comparison (cmpWorker field dir)"
  by (cases field; hypsubst; rule comparison_by; rule cmpWorker.simps)

lemma cmpQueue_comparison: "comparison (cmpQueue field dir)"
  by (cases field; hypsubst; rule comparison_by; rule cmpQueue.simps)

interpretation job_order: comparison "cmpJob field dir" for field dir
  by (rule cmpJob_comparison)

interpretation task_order: comparison "cmpTask field dir" for field dir
  by (rule cmpTask_comparison)

interpretation worker_order: comparison "cmpWorker field dir" for field dir
  by (rule cmpWorker_comparison)

interpretation queue_order: comparison "cmpQueue field dir" for field dir
  by (rule cmpQueue_comparison)

lemma page_Items_applyPage:
  "0 \<le> pg_Offset p \<Longrightarrow> 0 \<le> pg_Limit p \<Longrightarrow>
     page_Items (applyPage xs p) = take (nat (pg_Limit p)) (drop (nat (pg_Offset p)) xs)"
  by (auto simp: applyPage_def Let_def take_drop min_def nat_add_distrib nat_le_iff add.commute)

text \<open>The pages of a list, put end to end, are the list.\<close>

lemma pages_concat:
  "concat (map (\<lambda>i. take n (drop (i * n) xs)) [0..<k]) = take (k * n) xs"
proof (induction k)
  case (Suc k)
  have "take (n + k * n) xs = take (k * n) xs @ take n (drop (k * n) xs)"
    by (metis add.commute take_add)
  then show ?case using Suc by simp
qed simp

lemma Validate_ok:
  "0 < l \<Longrightarrow> l \<le> MaxLimit \<Longrightarrow> 0 \<le> off \<Longrightarrow>
     Pagination_Validate \<lparr>pg_Limit = l, pg_Offset = off\<rparr> = \<lparr>pg_Limit = l, pg_Offset = off\<rparr>"
  by (simp add: Pagination_Validate_def Let_def)

end
