(* ===== verification/ReadProps.thy ===== *)
theory ReadProps
  imports StoreReads StoreDemo
begin

text \<open>
  Listings of the store.  Go ranges over a map in an order of its own on every call, so two pages of a listing may
  be cut from the same rows met in different orders; the tie break by ID is what makes the pages fit together.
\<close>

definition jobsPage :: "ListJobsOptions \<Rightarrow> int \<Rightarrow> store \<Rightarrow> nat \<Rightarrow> Job list" where
  "jobsPage opts l s i = page_Items (ListJobs (opts\<lparr>ljo_Pagination := \<lparr>pg_Limit = l, pg_Offset = int i * l\<rparr>\<rparr>) s)"

definition sortedJobs :: "ListJobsOptions \<Rightarrow> store \<Rightarrow> Job list" where
  "sortedJobs opts s =
     sortFunc (cmpJob (ljo_SortBy opts) (ljo_SortDir opts)) (filter (\<lambda>j. filterJob j opts) (trows (st_jobs s)))"

lemma jobsPage_eq:
  assumes "0 < l" "l \<le> MaxLimit"
  shows "jobsPage opts l s i = take (nat l) (drop (i * nat l) (sortedJobs opts s))"
proof -
  have "filterJob j (opts\<lparr>ljo_Pagination := p\<rparr>) = filterJob j opts" for j p
    by (simp add: filterJob_def)
  moreover have "nat (int i * l) = i * nat l" using assms(1) by (simp add: nat_mult_distrib)
  ultimately show ?thesis
    using assms by (simp add: jobsPage_def ListJobs_def sortedJobs_def Validate_ok page_Items_applyPage)
qed

section \<open>What a listing asks for\<close>

text \<open>The jobs the options select, as the documentation of the options puts it, and the order they ask for: by the key,
  descending or ascending, jobs with equal keys by ascending ID.\<close>

definition selected :: "ListJobsOptions \<Rightarrow> Job \<Rightarrow> bool" where
  "selected opts j \<longleftrightarrow>
     ljo_FarmID opts \<in> {[], job_FarmID j} \<and> ljo_QueueID opts \<in> {[], job_QueueID j} \<and>
     ljo_Status opts \<in> {None, Some (job_Status j)} \<and> ljo_Project opts \<in> {[], job_Project j} \<and>
     (ljo_Owner opts = [] \<or> EqualFold (job_Owner j) (ljo_Owner opts)) \<and>
     (\<forall>trm \<in> set (Fields (ToLower (ljo_Search opts))).
        \<exists>f \<in> {job_Name j, job_ID j, job_Owner j, job_Project j}. \<exists>u v. ToLower f = u @ trm @ v)"

definition before_by :: "(Job \<Rightarrow> 'k::linorder) \<Rightarrow> SortDir \<Rightarrow> Job \<Rightarrow> Job \<Rightarrow> bool" where
  "before_by key dir a b \<longleftrightarrow>
     (if dir = SortDesc then key b < key a else key a < key b) \<or> key a = key b \<and> job_ID a < job_ID b"

fun job_before :: "JobSortField \<Rightarrow> SortDir \<Rightarrow> Job \<Rightarrow> Job \<Rightarrow> bool" where
  "job_before JobSortByCreatedAt = before_by job_CreatedAt"
| "job_before JobSortByPriority = before_by job_Priority"
| "job_before JobSortByStatus = before_by (\<lambda>j. job_status_string (job_Status j))"
| "job_before JobSortByUpdatedAt = before_by job_UpdatedAt"
| "job_before JobSortByName = before_by job_Name"

lemma MatchesSearch_iff:
  "MatchesSearch query fs \<longleftrightarrow> (\<forall>trm \<in> set (Fields (ToLower query)). \<exists>f \<in> set fs. \<exists>u v. ToLower f = u @ trm @ v)"
  by (simp add: MatchesSearch_def SearchTerms_def Contains_iff Let_def)

lemma filter_steps:
  "(if a then False else b) \<longleftrightarrow> \<not> a \<and> b" "x \<in> {z, y} \<longleftrightarrow> x = z \<or> y = x" "\<not> (x \<noteq> z \<and> \<not> b) \<longleftrightarrow> x = z \<or> b"
  by auto

lemma filterJob_selected: "filterJob j opts \<longleftrightarrow> selected opts j"
proof -
  have "Fields (ToLower []) = []" by code_simp
  then have "ljo_Search opts \<noteq> [] \<and> \<not> jobMatchesSearch j (ljo_Search opts) \<longleftrightarrow> \<not> jobMatchesSearch j (ljo_Search opts)"
    by (auto simp: jobMatchesSearch_def MatchesSearch_iff)
  moreover have "selected opts j \<longleftrightarrow>
     ljo_FarmID opts \<in> {[], job_FarmID j} \<and> ljo_QueueID opts \<in> {[], job_QueueID j} \<and>
     ljo_Status opts \<in> {None, Some (job_Status j)} \<and> ljo_Project opts \<in> {[], job_Project j} \<and>
     (ljo_Owner opts = [] \<or> EqualFold (job_Owner j) (ljo_Owner opts)) \<and> jobMatchesSearch j (ljo_Search opts)"
    unfolding selected_def jobMatchesSearch_def MatchesSearch_iff by (simp only: list.set)
  ultimately show ?thesis unfolding filterJob_def by (simp only: filter_steps simp_thms conj_ac)
qed

lemma before_by_tieBreak:
  "withIDTieBreak (Compare (key a) (key b)) dir (job_ID a) (job_ID b) \<le> 0 \<Longrightarrow> job_ID a \<noteq> job_ID b \<Longrightarrow> before_by key dir a b"
  by (auto simp: before_by_def withIDTieBreak_def Compare_def Let_def split: if_splits)

lemma cmpJob_before: "cmpJob field dir a b \<le> 0 \<Longrightarrow> job_ID a \<noteq> job_ID b \<Longrightarrow> job_before field dir a b"
  by (cases field) (simp_all add: before_by_tieBreak)

lemma job_before_asym: "job_before field dir a b \<Longrightarrow> \<not> job_before field dir b a"
  by (cases field) (auto simp: before_by_def split: if_splits)

section \<open>The order of the rows does not matter\<close>

lemma sorted_wrt_unique:
  assumes "\<And>a b. P a b \<Longrightarrow> \<not> P b a" "sorted_wrt P xs" "sorted_wrt P ys" "set xs = set ys"
  shows "xs = ys"
  using assms(2-)
proof (induction xs arbitrary: ys)
  case (Cons x xs)
  obtain y zs where ys: "ys = y # zs" using Cons.prems(3) by (cases ys) auto
  have "x \<in> insert y (set zs)" "y \<in> insert x (set xs)" using Cons.prems(3) ys by auto
  then have "x = y" using Cons.prems(1,2) assms(1) [of x y] unfolding ys by auto
  moreover have "x \<notin> set xs" "y \<notin> set zs" using Cons.prems(1,2) assms(1) ys by auto
  ultimately have "set xs = set zs" using Cons.prems(3) ys by auto
  then show ?case using Cons.IH [of zs] Cons.prems ys \<open>x = y\<close> by simp
qed simp

lemma sorted_wrt_distinct_key:
  assumes "sorted_wrt P xs" "distinct (map key xs)" "\<And>a b. P a b \<Longrightarrow> key a \<noteq> key b \<Longrightarrow> Q a b"
  shows "sorted_wrt Q xs"
  using assms by (induction xs) (auto simp: image_iff)

text \<open>A table that is the jobs of a store, its rows in any order.\<close>

definition same_jobs :: "store \<Rightarrow> store \<Rightarrow> bool" where
  "same_jobs s s' \<longleftrightarrow> table_ok (st_jobs s') \<and> (\<forall>k. tget (st_jobs s') k = tget (st_jobs s) k)"

lemma trows_jobs:
  assumes "exec_inv s" "same_jobs s s'"
  shows "set (trows (st_jobs s')) = {j. tget (st_jobs s) (job_ID j) = Some j}" "distinct (map job_ID (trows (st_jobs s')))"
proof -
  have ok: "table_ok (st_jobs s')" "\<And>k j. (k, j) \<in> set (st_jobs s') \<longleftrightarrow> tget (st_jobs s) k = Some j"
    using assms(2) tget_iff [of "st_jobs s'"] by (auto simp: same_jobs_def)
  have id: "job_ID j = k" if "(k, j) \<in> set (st_jobs s')" for k j using that ok(2) exec_inv_jobID [OF assms(1)] by blast
  show "set (trows (st_jobs s')) = {j. tget (st_jobs s) (job_ID j) = Some j}"
    using trows_iff [OF ok(1)] assms(2) exec_inv_jobID [OF assms(1)] by (auto simp: same_jobs_def)
  have "map job_ID (trows (st_jobs s')) = map fst (st_jobs s')" using id by (auto simp: trows_def)
  then show "distinct (map job_ID (trows (st_jobs s')))" using ok(1) by (simp add: table_ok_def)
qed

lemma sortedJobs_spec:
  assumes "exec_inv s" "same_jobs s s'"
  shows "set (sortedJobs opts s') = {j. tget (st_jobs s) (job_ID j) = Some j \<and> selected opts j}"
    "sorted_wrt (job_before (ljo_SortBy opts) (ljo_SortDir opts)) (sortedJobs opts s')"
proof -
  let ?f = "cmpJob (ljo_SortBy opts) (ljo_SortDir opts)"
  show "set (sortedJobs opts s') = {j. tget (st_jobs s) (job_ID j) = Some j \<and> selected opts j}"
    using trows_jobs(1) [OF assms] by (auto simp: sortedJobs_def filterJob_selected)
  have "distinct (trows (st_jobs s'))" "inj_on job_ID (set (trows (st_jobs s')))"
    using trows_jobs(2) [OF assms] by (simp_all add: distinct_map)
  then have "distinct (map job_ID (sortedJobs opts s'))"
    by (auto simp: sortedJobs_def distinct_map intro!: distinct_sortFunc intro: inj_on_subset)
  then show "sorted_wrt (job_before (ljo_SortBy opts) (ljo_SortDir opts)) (sortedJobs opts s')"
    unfolding sortedJobs_def by (rule sorted_wrt_distinct_key [OF job_order.sorted_sortFunc _ cmpJob_before])
qed

lemma sortedJobs_same: "exec_inv s \<Longrightarrow> same_jobs s s' \<Longrightarrow> sortedJobs opts s' = sortedJobs opts s"
proof -
  assume a: "exec_inv s" "same_jobs s s'"
  have r: "same_jobs s s" using exec_inv_table_ok [OF a(1)] by (simp add: same_jobs_def)
  show "sortedJobs opts s' = sortedJobs opts s"
    using sortedJobs_spec [OF a] sortedJobs_spec [OF a(1) r]
    by (intro sorted_wrt_unique [of "job_before (ljo_SortBy opts) (ljo_SortDir opts)"]) (simp_all add: job_before_asym)
qed

definition demo_options :: ListJobsOptions where
  "demo_options = \<lparr> ljo_FarmID = [], ljo_QueueID = ''q'', ljo_Status = None, ljo_Owner = [], ljo_Project = [],
     ljo_Search = [], ljo_SortBy = JobSortByPriority, ljo_SortDir = SortDesc,
     ljo_Pagination = \<lparr>pg_Limit = 1, pg_Offset = 0\<rparr> \<rparr>"

text \<open>C16. Reading the job listing page by page loses and repeats no job.  With any page size from one to the maximum
  and enough pages for all jobs, the pages put end to end are exactly the jobs the options select, strictly in the order asked
  for: by the key in the direction given, ties by ascending ID.  This holds although each page is read by a call of
  its own that meets the jobs of the map in whatever order (\<open>view i\<close> is the store as page \<open>i\<close> meets it).\<close>

theorem job_pages_complete:
  assumes "reachable s" "\<And>i. same_jobs s (view i)" "0 < l" "l \<le> MaxLimit" "int (length (st_jobs s)) \<le> int n * l"
    and "js = concat (map (\<lambda>i. jobsPage opts l (view i) i) [0..<n])"
  shows "set js = {j. tget (st_jobs s) (job_ID j) = Some j \<and> selected opts j} \<and>
    sorted_wrt (job_before (ljo_SortBy opts) (ljo_SortDir opts)) js \<and> distinct js"
proof -
  have inv: "exec_inv s" by (rule exec_system.reach_inv [OF assms(1)])
  have same: "same_jobs s s" using exec_inv_table_ok [OF inv] by (simp add: same_jobs_def)
  let ?all = "sortedJobs opts s"
  have "length ?all \<le> length (st_jobs s)" by (simp add: sortedJobs_def trows_def)
  also have "length (st_jobs s) \<le> n * nat l"
    using assms(3,5) by (metis int_nat_eq less_imp_le of_nat_le_iff of_nat_mult)
  finally have len: "length ?all \<le> n * nat l" .
  have "(\<lambda>i. jobsPage opts l (view i) i) = (\<lambda>i. take (nat l) (drop (i * nat l) ?all))"
    using jobsPage_eq [OF assms(3,4)] sortedJobs_same [OF inv assms(2)] by (intro ext) simp
  then have js: "js = ?all" unfolding assms(6) by (simp only: pages_concat take_all [OF len])
  have s: "sorted_wrt (job_before (ljo_SortBy opts) (ljo_SortDir opts)) js" using sortedJobs_spec(2) [OF inv same] js by simp
  then have "distinct js" by (induction js) (auto dest: job_before_asym)
  then show ?thesis using sortedJobs_spec(1) [OF inv same] s js by simp
qed

text \<open>Two jobs of equal priority; the second page meets the map in the opposite order.\<close>

definition demo_view :: "nat \<Rightarrow> store" where
  "demo_view i = demo_store\<lparr>st_jobs := (if i = 1 then rev (st_jobs demo_store) else st_jobs demo_store)\<rparr>"

theorem job_pages_complete_witness:
  "let js = concat (map (\<lambda>i. jobsPage demo_options 1 (demo_view i) i) [0..<2])
   in distinct js \<and> set js = {j. tget (st_jobs demo_store) (job_ID j) = Some j \<and> selected demo_options j} \<and>
      map job_ID js = [''b'', ''j'']"
proof -
  have ok: "table_ok (st_jobs demo_store)" "table_ok (rev (st_jobs demo_store))" by (simp_all add: table_ok_def rev_map [symmetric]) code_simp+
  have v: "same_jobs demo_store (demo_view i)" for i
  proof -
    have "tget (rev (st_jobs demo_store)) k = tget (st_jobs demo_store) k" for k
      using tget_iff [OF ok(1)] tget_iff [OF ok(2)] by (metis not_None_eq set_rev)
    then show ?thesis using ok by (simp add: same_jobs_def demo_view_def)
  qed
  have l: "(0::int) < 1" "(1::int) \<le> MaxLimit" "int (length (st_jobs demo_store)) \<le> int 2 * 1"
    by (simp_all add: MaxLimit_def) code_simp
  have "map job_ID (concat (map (\<lambda>i. jobsPage demo_options 1 (demo_view i) i) [0..<2])) = [''b'', ''j'']" by code_simp
  then show ?thesis using job_pages_complete [OF demo_reachable v l refl, of demo_options] by (simp add: Let_def)
qed

end
