(* ===== verification/BusSubjects.thy ===== *)
theory BusSubjects
  imports GoStrings
begin

text \<open>
  The subjects of the message bus (\<^verbatim>\<open>bus/subjects.go\<close>): how a worker's subjects are built and how the
  server reads the worker's identity back out of one.  A NATS subject is a list of tokens joined by
  dots; the identity the server trusts is the token the broker authorised.
\<close>

definition SubjectTaskStatusPrefix :: string where "SubjectTaskStatusPrefix = ''task.status''"
definition SubjectTaskLogsPrefix :: string where "SubjectTaskLogsPrefix = ''task.logs''"
definition SubjectTaskCancelPrefix :: string where "SubjectTaskCancelPrefix = ''task.cancel''"
definition SubjectWorkerHeartbeatPrefix :: string where "SubjectWorkerHeartbeatPrefix = ''worker.heartbeat''"
definition SubjectWorkerRegisterPrefix :: string where "SubjectWorkerRegisterPrefix = ''worker.register''"
definition SubjectWorkerDeregisterPrefix :: string where "SubjectWorkerDeregisterPrefix = ''worker.deregister''"
definition SubjectWorkLeasePrefix :: string where "SubjectWorkLeasePrefix = ''work.lease''"
definition WildcardQueueToken :: string where "WildcardQueueToken = ''_any''"

lemmas subject_prefixes = SubjectTaskStatusPrefix_def SubjectTaskLogsPrefix_def SubjectTaskCancelPrefix_def
  SubjectWorkerHeartbeatPrefix_def SubjectWorkerRegisterPrefix_def SubjectWorkerDeregisterPrefix_def
  SubjectWorkLeasePrefix_def

definition TaskStatusSubject :: "string \<Rightarrow> string \<Rightarrow> string" where
  "TaskStatusSubject workerID jobID = SubjectTaskStatusPrefix @ ''.'' @ workerID @ ''.'' @ jobID"

definition TaskLogsSubject :: "string \<Rightarrow> string \<Rightarrow> string" where
  "TaskLogsSubject workerID taskID = SubjectTaskLogsPrefix @ ''.'' @ workerID @ ''.'' @ taskID"

definition TaskCancelSubject :: "string \<Rightarrow> string" where
  "TaskCancelSubject workerID = SubjectTaskCancelPrefix @ ''.'' @ workerID"

definition WorkerRegisterSubject :: "string \<Rightarrow> string" where
  "WorkerRegisterSubject workerID = SubjectWorkerRegisterPrefix @ ''.'' @ workerID"

definition WorkerHeartbeatSubject :: "string \<Rightarrow> string" where
  "WorkerHeartbeatSubject workerID = SubjectWorkerHeartbeatPrefix @ ''.'' @ workerID"

definition WorkerDeregisterSubject :: "string \<Rightarrow> string" where
  "WorkerDeregisterSubject workerID = SubjectWorkerDeregisterPrefix @ ''.'' @ workerID"

definition WorkLeaseSubject :: "string \<Rightarrow> string \<Rightarrow> string" where
  "WorkLeaseSubject workerID queueID = SubjectWorkLeasePrefix @ ''.'' @ workerID @ ''.'' @ queueID"

definition concreteToken :: "string \<Rightarrow> bool" where
  "concreteToken tok \<longleftrightarrow> tok \<noteq> [] \<and> \<not> (\<exists>c \<in> set tok. c = CHR ''*'' \<or> c = CHR ''>'')"

text \<open>\<open>None\<close> is the code's false third result.\<close>

definition ParseWorkerSubject :: "string \<Rightarrow> (string \<times> string) option" where
  "ParseWorkerSubject subject =
     (case Split subject CHR ''.'' of
        [a, b, t2] \<Rightarrow>
          (let prefix = a @ ''.'' @ b
           in if prefix = SubjectWorkerRegisterPrefix \<or> prefix = SubjectWorkerHeartbeatPrefix \<or>
                 prefix = SubjectWorkerDeregisterPrefix
              then (if \<not> concreteToken t2 then None else Some (t2, []))
              else None)
      | [a, b, t2, t3] \<Rightarrow>
          (let prefix = a @ ''.'' @ b
           in if prefix = SubjectTaskStatusPrefix \<or> prefix = SubjectTaskLogsPrefix \<or>
                 prefix = SubjectWorkLeasePrefix
              then (if \<not> concreteToken t2 \<or> \<not> concreteToken t3 then None else Some (t2, t3))
              else None)
      | _ \<Rightarrow> None)"

section \<open>Reading a subject back\<close>

text \<open>A token of a subject: concrete and without a dot.\<close>

definition subject_token :: "string \<Rightarrow> bool" where
  "subject_token t \<longleftrightarrow> concreteToken t \<and> CHR ''.'' \<notin> set t"

lemma splitFrom_token: "sep \<notin> set t \<Longrightarrow> splitFrom sep cur (t @ sep # s) = (rev cur @ t) # splitFrom sep [] s"
  by (induction t arbitrary: cur) auto

lemma splitFrom_last: "sep \<notin> set t \<Longrightarrow> splitFrom sep cur t = [rev cur @ t]"
  by (induction t arbitrary: cur) auto

lemma Split_tokens:
  "sep \<notin> set a \<Longrightarrow> Split (a @ sep # s) sep = a # Split s sep"
  "sep \<notin> set a \<Longrightarrow> Split a sep = [a]"
  by (simp_all add: Split_def splitFrom_token splitFrom_last)

lemma Split_prefix3:
  assumes "CHR ''.'' \<notin> set a" "CHR ''.'' \<notin> set b" "CHR ''.'' \<notin> set t"
  shows "Split ((a @ ''.'' @ b) @ ''.'' @ t) CHR ''.'' = [a, b, t]"
  using assms by (simp add: Split_tokens)

lemma Split_prefix4:
  assumes "CHR ''.'' \<notin> set a" "CHR ''.'' \<notin> set b" "CHR ''.'' \<notin> set t" "CHR ''.'' \<notin> set u"
  shows "Split ((a @ ''.'' @ b) @ ''.'' @ t @ ''.'' @ u) CHR ''.'' = [a, b, t, u]"
  using assms by (simp add: Split_tokens)

lemma Join_tokens: "Split s CHR ''.'' = ts \<Longrightarrow> s = Join ts ''.''"
  using Join_Split [of s "CHR ''.''"] by simp

text \<open>C17. The subjects a worker publishes on are read back by \<^verbatim>\<open>ParseWorkerSubject\<close> to exactly the worker ID
  and leaf they were built from, and conversely every subject it accepts is one of them: no other
  subject yields a worker identity.\<close>

theorem worker_subject_roundtrip:
  "ParseWorkerSubject subj = Some (w, l) \<longleftrightarrow>
     subject_token w \<and>
     (l = [] \<and> subj \<in> {WorkerRegisterSubject w, WorkerHeartbeatSubject w, WorkerDeregisterSubject w} \<or>
      subject_token l \<and> subj \<in> {TaskStatusSubject w l, TaskLogsSubject w l, WorkLeaseSubject w l})"
proof
  assume a: "ParseWorkerSubject subj = Some (w, l)"
  have nodot: "x \<in> set (Split subj CHR ''.'') \<Longrightarrow> CHR ''.'' \<notin> set x" for x
    unfolding Split_def by (rule splitFrom_no_sep) simp_all
  consider (three) p q where "Split subj CHR ''.'' = [p, q, w]" "concreteToken w" "l = []"
      "p @ ''.'' @ q = SubjectWorkerRegisterPrefix \<or> p @ ''.'' @ q = SubjectWorkerHeartbeatPrefix \<or>
       p @ ''.'' @ q = SubjectWorkerDeregisterPrefix"
    | (four) p q where "Split subj CHR ''.'' = [p, q, w, l]" "concreteToken w" "concreteToken l"
      "p @ ''.'' @ q = SubjectTaskStatusPrefix \<or> p @ ''.'' @ q = SubjectTaskLogsPrefix \<or>
       p @ ''.'' @ q = SubjectWorkLeasePrefix"
    using a unfolding ParseWorkerSubject_def by (auto simp: Let_def split: list.splits if_splits)
  then show "subject_token w \<and>
     (l = [] \<and> subj \<in> {WorkerRegisterSubject w, WorkerHeartbeatSubject w, WorkerDeregisterSubject w} \<or>
      subject_token l \<and> subj \<in> {TaskStatusSubject w l, TaskLogsSubject w l, WorkLeaseSubject w l})"
  proof cases
    case three
    then have "subj = (p @ ''.'' @ q) @ ''.'' @ w" using Join_tokens [OF three(1)] by simp
    moreover have "subject_token w" using nodot [of w] three(1,2) by (simp add: subject_token_def)
    ultimately show ?thesis
      using three(3,4) by (auto simp: WorkerRegisterSubject_def WorkerHeartbeatSubject_def WorkerDeregisterSubject_def)
  next
    case four
    then have "subj = (p @ ''.'' @ q) @ ''.'' @ w @ ''.'' @ l" using Join_tokens [OF four(1)] by simp
    moreover have "subject_token w" "subject_token l"
      using nodot [of w] nodot [of l] four(1-3) by (simp_all add: subject_token_def)
    ultimately show ?thesis
      using four(4) by (auto simp: TaskStatusSubject_def TaskLogsSubject_def WorkLeaseSubject_def)
  qed
next
  assume "subject_token w \<and>
     (l = [] \<and> subj \<in> {WorkerRegisterSubject w, WorkerHeartbeatSubject w, WorkerDeregisterSubject w} \<or>
      subject_token l \<and> subj \<in> {TaskStatusSubject w l, TaskLogsSubject w l, WorkLeaseSubject w l})"
  then show "ParseWorkerSubject subj = Some (w, l)"
    using Split_prefix3 [of "''worker''" "''register''" w] Split_prefix3 [of "''worker''" "''heartbeat''" w]
      Split_prefix3 [of "''worker''" "''deregister''" w] Split_prefix4 [of "''task''" "''status''" w l]
      Split_prefix4 [of "''task''" "''logs''" w l] Split_prefix4 [of "''work''" "''lease''" w l]
    by (auto simp: ParseWorkerSubject_def subject_token_def subject_prefixes WorkerRegisterSubject_def
        WorkerHeartbeatSubject_def WorkerDeregisterSubject_def TaskStatusSubject_def TaskLogsSubject_def
        WorkLeaseSubject_def)
qed

end
