(* ===== verification/AccountProps.thy ===== *)
theory AccountProps
  imports StoreFrame
begin

text \<open>
  The accounts of the store: which rows its operations keep apart, that an administrator is never
  locked out, and that a join token admits one worker once.  Only account operations write these
  tables, so the facts hold along every sequence of store operations.
\<close>

section \<open>The invariant\<close>

definition accounts_ok :: "store \<Rightarrow> bool" where
  "accounts_ok s \<longleftrightarrow>
     table_ok (st_users s) \<and> table_ok (st_sessions s) \<and> table_ok (st_apiKeys s) \<and>
     table_ok (st_workerCredentials s) \<and> table_ok (st_workerJoinTokens s) \<and>
     (\<forall>k u. tget (st_users s) k = Some u \<longrightarrow> user_ID u = k) \<and>
     unique_on (\<lambda>_. True) (\<lambda>u. map asciiLower (user_Username u)) (st_users s) \<and>
     unique_on (\<lambda>_. True) sess_TokenHash (st_sessions s) \<and>
     (\<forall>k x. tget (st_sessions s) k = Some x \<longrightarrow> tget (st_users s) (sess_UserID x) \<noteq> None) \<and>
     unique_on (\<lambda>_. True) key_TokenHash (st_apiKeys s) \<and>
     unique_on (\<lambda>_. True) cred_PublicKey (st_workerCredentials s) \<and>
     unique_on (\<lambda>c. cred_RevokedAt c = None) cred_WorkerID (st_workerCredentials s) \<and>
     unique_on (\<lambda>_. True) tok_TokenHash (st_workerJoinTokens s)"

lemma accounts_ok_part: "account_part s' = account_part s \<Longrightarrow> accounts_ok s' = accounts_ok s"
  by (simp add: account_part_def accounts_ok_def)

lemmas unique_intros = unique_on_fresh unique_on_tdel unique_on_tkeep table_ok_tkeep

lemma accounts_ok_user_row:
  assumes "accounts_ok s" "tget (st_users s) k = Some u" "user_Username v = user_Username u" "user_ID v = user_ID u"
  shows "accounts_ok (s\<lparr>st_users := tput k v (st_users s)\<rparr>)"
proof -
  have "user_ID v = k" using assms by (simp add: accounts_ok_def)
  then show ?thesis
    using assms unique_on_keep [OF _ assms(2), of "\<lambda>_. True" "\<lambda>u. map asciiLower (user_Username u)" v]
    by (simp add: accounts_ok_def)
qed

lemma accounts_ok_evict:
  assumes "accounts_ok s"
  shows "accounts_ok (s\<lparr>st_sessions := tkeep p (st_sessions s)\<rparr>)"
  using assms
  by (auto simp: accounts_ok_def tget_tkeep intro!: unique_intros split: option.splits if_splits)

lemma accounts_ok_drop_user:
  assumes "accounts_ok s" "\<And>k x. tget (st_sessions s) k = Some x \<Longrightarrow> sess_UserID x \<noteq> i"
  shows "accounts_ok (s\<lparr>st_users := tdel i (st_users s)\<rparr>)"
  using assms by (auto simp: accounts_ok_def intro!: unique_intros)

lemma accounts_ok_updateUserLocked: "accounts_ok s \<Longrightarrow> accounts_ok (fst (updateUserLocked u clock s))"
  by (auto simp: updateUserLocked_def Let_def split: option.split intro!: accounts_ok_user_row)

lemma accounts_ok_cred_row:
  assumes "accounts_ok s" "tget (st_workerCredentials s) k = Some c" "cred_PublicKey v = cred_PublicKey c"
    "cred_WorkerID v = cred_WorkerID c" "cred_RevokedAt v = None \<Longrightarrow> cred_RevokedAt c = None"
  shows "accounts_ok (s\<lparr>st_workerCredentials := tput k v (st_workerCredentials s)\<rparr>)"
  using assms unique_on_keep [OF _ assms(2), of "\<lambda>_. True" cred_PublicKey v]
    unique_on_keep [OF _ assms(2), of "\<lambda>c. cred_RevokedAt c = None" cred_WorkerID v]
  by (simp add: accounts_ok_def)

lemma accounts_ok_new_cred:
  assumes "accounts_ok s" "\<not> credentialConflict s c"
  shows "accounts_ok (s\<lparr>st_workerCredentials := tput (cred_ID c) c (st_workerCredentials s)\<rparr>)"
  using assms by (auto simp: accounts_ok_def credentialConflict_def intro!: unique_on_fresh)

lemma accounts_ok_key_row:
  assumes "accounts_ok s" "tget (st_apiKeys s) k = Some x" "key_TokenHash v = key_TokenHash x"
  shows "accounts_ok (s\<lparr>st_apiKeys := tput k v (st_apiKeys s)\<rparr>)"
  using assms unique_on_keep [OF _ assms(2), of "\<lambda>_. True" key_TokenHash v] by (simp add: accounts_ok_def)

lemma accounts_ok_token_row:
  assumes "accounts_ok s" "tget (st_workerJoinTokens s) k = Some x" "tok_TokenHash v = tok_TokenHash x"
  shows "accounts_ok (s\<lparr>st_workerJoinTokens := tput k v (st_workerJoinTokens s)\<rparr>)"
  using assms unique_on_keep [OF _ assms(2), of "\<lambda>_. True" tok_TokenHash v] by (simp add: accounts_ok_def)

lemmas account_rows = accounts_ok_user_row accounts_ok_cred_row accounts_ok_key_row accounts_ok_token_row

lemma accounts_okD:
  assumes "accounts_ok s"
  shows "table_ok (st_users s)" "table_ok (st_sessions s)" "table_ok (st_workerCredentials s)"
    "table_ok (st_workerJoinTokens s)" "\<And>k u. tget (st_users s) k = Some u \<Longrightarrow> user_ID u = k"
    "unique_on (\<lambda>_. True) tok_TokenHash (st_workerJoinTokens s)"
    "\<And>k x. tget (st_sessions s) k = Some x \<Longrightarrow> tget (st_users s) (sess_UserID x) \<noteq> None"
  using assms by (simp_all add: accounts_ok_def)

section \<open>The operations keep it\<close>

lemma accounts_ok_users:
  assumes "accounts_ok s"
  shows "accounts_ok (fst (CreateUser c u clock s))" "accounts_ok (fst (UpdateUser c u clock s))"
    "accounts_ok (fst (UpdateUserKeepingAdmin c u clock s))" "accounts_ok (fst (SetUserPassword c i h clock s))"
    "accounts_ok (fst (SetUserPasswordAndEvictSessions c i h clock s))"
    "accounts_ok (fst (SetUserDisplayName c i n clock s))" "accounts_ok (fst (DeleteUser c i s))"
proof -
  show "accounts_ok (fst (CreateUser c u clock s))"
    using assms
    by (auto simp: CreateUser_def fenced_def Let_def accounts_ok_def asciiEqFold_def
        intro!: unique_on_fresh split: option.split)
  show "accounts_ok (fst (UpdateUser c u clock s))" "accounts_ok (fst (UpdateUserKeepingAdmin c u clock s))"
    using assms accounts_ok_updateUserLocked
    by (simp_all add: UpdateUser_def UpdateUserKeepingAdmin_def fenced_def split: option.split)
  show "accounts_ok (fst (SetUserPassword c i h clock s))" "accounts_ok (fst (SetUserDisplayName c i n clock s))"
    using assms by (auto simp: SetUserPassword_def SetUserDisplayName_def fenced_def Let_def
        intro!: accounts_ok_user_row split: option.split)
  have "accounts_ok (s\<lparr>st_users := tput i (u\<lparr>user_PasswordHash := h, user_UpdatedAt := clock\<rparr>) (st_users s),
      st_sessions := tkeep p (st_sessions s)\<rparr>)" if "tget (st_users s) i = Some u" for u p
    using accounts_ok_evict [OF accounts_ok_user_row [OF assms that], of _ p] by simp
  then show "accounts_ok (fst (SetUserPasswordAndEvictSessions c i h clock s))"
    using assms by (simp add: SetUserPasswordAndEvictSessions_def fenced_def split: option.split)
  let ?s = "s\<lparr>st_sessions := tkeep (\<lambda>sid sess. sess_UserID sess \<noteq> i) (st_sessions s)\<rparr>"
  have dropped: "accounts_ok (?s\<lparr>st_users := tdel i (st_users ?s)\<rparr>)"
    by (rule accounts_ok_drop_user [OF accounts_ok_evict [OF assms]])
      (use accounts_okD(2) [OF assms] in \<open>auto simp: tget_tkeep split: option.splits if_splits\<close>)
  have eq: "?s\<lparr>st_users := tdel i (st_users ?s)\<rparr> = s\<lparr>st_users := tdel i (st_users s),
      st_sessions := tkeep (\<lambda>sid sess. sess_UserID sess \<noteq> i) (st_sessions s)\<rparr>" by simp
  show "accounts_ok (fst (DeleteUser c i s))"
    using assms dropped [unfolded eq] by (simp add: DeleteUser_def fenced_def split: option.split)
qed

lemma accounts_ok_sessions:
  assumes "accounts_ok s"
  shows "accounts_ok (fst (CreateSession c x s))" "accounts_ok (fst (DeleteSession c i s))"
    "accounts_ok (fst (DeleteExpiredSessions c now s))"
proof -
  show "accounts_ok (fst (CreateSession c x s))"
    using assms by (auto simp: CreateSession_def fenced_def accounts_ok_def intro!: unique_on_fresh split: option.split)
  show "accounts_ok (fst (DeleteSession c i s))"
    using assms by (auto simp: DeleteSession_def fenced_def accounts_ok_def intro!: unique_on_tdel split: option.split if_splits)
  show "accounts_ok (fst (DeleteExpiredSessions c now s))"
    using accounts_ok_evict [OF assms] assms by (simp add: DeleteExpiredSessions_def fenced_def split: option.split)
qed

lemma accounts_ok_keys:
  assumes "accounts_ok s"
  shows "accounts_ok (fst (CreateAPIKey c k s))" "accounts_ok (fst (RevokeAPIKey c i u now s))"
    "accounts_ok (fst (TouchAPIKeyLastUsed c i now s))"
proof -
  show "accounts_ok (fst (CreateAPIKey c k s))"
    using assms by (auto simp: CreateAPIKey_def fenced_def accounts_ok_def intro!: unique_on_fresh split: option.split)
  show "accounts_ok (fst (RevokeAPIKey c i u now s))" "accounts_ok (fst (TouchAPIKeyLastUsed c i now s))"
    using assms by (auto simp: RevokeAPIKey_def TouchAPIKeyLastUsed_def fenced_def
        intro!: accounts_ok_key_row split: option.split)
qed

lemma accounts_ok_credentials:
  assumes "accounts_ok s"
  shows "accounts_ok (fst (CreateWorkerCredential c x s))" "accounts_ok (fst (RevokeWorkerCredential c w at s))"
    "accounts_ok (fst (TouchWorkerCredential c w at s))"
proof -
  show "accounts_ok (fst (CreateWorkerCredential c x s))"
    using assms by (simp add: CreateWorkerCredential_def fenced_def accounts_ok_new_cred split: option.split)
  show "accounts_ok (fst (RevokeWorkerCredential c w at s))" "accounts_ok (fst (TouchWorkerCredential c w at s))"
    using assms tfirst_Some [OF accounts_okD(3) [OF assms]]
    by (auto simp: RevokeWorkerCredential_def TouchWorkerCredential_def fenced_def
        intro!: accounts_ok_cred_row [OF assms] split: option.splits)
qed

lemma accounts_ok_tokens:
  assumes "accounts_ok s"
  shows "accounts_ok (fst (CreateWorkerJoinToken c t s))" "accounts_ok (fst (MarkWorkerJoinTokenUsed c i at s))"
    "accounts_ok (fst (RedeemWorkerJoinToken c h now x s))"
proof -
  show "accounts_ok (fst (CreateWorkerJoinToken c t s))"
    using assms by (auto simp: CreateWorkerJoinToken_def fenced_def accounts_ok_def intro!: unique_on_fresh split: option.split)
  show "accounts_ok (fst (MarkWorkerJoinTokenUsed c i at s))"
    using assms by (auto simp: MarkWorkerJoinTokenUsed_def fenced_def intro!: accounts_ok_token_row split: option.split)
  have "accounts_ok (s\<lparr>st_workerJoinTokens := tput k (t\<lparr>tok_UsedAt := Some now\<rparr>) (st_workerJoinTokens s),
      st_workerCredentials := tput (cred_ID x) x (st_workerCredentials s)\<rparr>)"
    if "tget (st_workerJoinTokens s) k = Some t" "\<not> credentialConflict s x" for k t
    using accounts_ok_new_cred [OF accounts_ok_token_row [OF assms that(1), of "t\<lparr>tok_UsedAt := Some now\<rparr>"], of x]
      that(2) by (simp add: credentialConflict_def)
  then show "accounts_ok (fst (RedeemWorkerJoinToken c h now x s))"
    using assms tfirst_Some(1) [OF accounts_okD(4) [OF assms]]
    by (auto simp: RedeemWorkerJoinToken_def fenced_def split: option.splits)
qed

lemma accounts_ok_exec: "accounts_ok s \<Longrightarrow> accounts_ok (exec op s)"
proof (cases op)
  case (AccountOp a)
  moreover assume "accounts_ok s"
  ultimately show ?thesis
    by (cases a) (simp_all add: accounts_ok_users accounts_ok_sessions accounts_ok_keys accounts_ok_credentials
        accounts_ok_tokens)
qed (simp_all add: accounts_ok_part [OF account_part_exec] del: exec.simps)

interpretation account_system: invariant_of New exec "\<lambda>_ _. True" accounts_ok
  by unfold_locales (simp_all add: accounts_ok_exec, simp add: accounts_ok_def New_def)

section \<open>Administrators\<close>

definition hasLiveAdmin :: "store \<Rightarrow> bool" where
  "hasLiveAdmin s \<longleftrightarrow> (\<exists>u \<in> set (trows (st_users s)). liveAdmin u)"

fun unguarded_update :: "store_op \<Rightarrow> bool" where
  "unguarded_update (AccountOp (OpUpdateUser c u t)) = True"
| "unguarded_update _ = False"

lemma hasLiveAdmin_part: "account_part s' = account_part s \<Longrightarrow> hasLiveAdmin s' = hasLiveAdmin s"
  by (simp add: account_part_def hasLiveAdmin_def)

lemma hasLiveAdmin_users: "st_users s' = st_users s \<Longrightarrow> hasLiveAdmin s' = hasLiveAdmin s"
  by (simp add: hasLiveAdmin_def)

lemma hasLiveAdmin_iff:
  "table_ok (st_users s) \<Longrightarrow> hasLiveAdmin s \<longleftrightarrow> (\<exists>k u. tget (st_users s) k = Some u \<and> liveAdmin u)"
  by (force simp: hasLiveAdmin_def trows_def tget_iff)

lemma other_admin:
  assumes "hasLiveAdmin s" "table_ok (st_users s)" "\<not> lastLiveAdminLocked s i"
  obtains k u where "k \<noteq> i" "tget (st_users s) k = Some u" "liveAdmin u"
proof (cases "\<exists>u. tget (st_users s) i = Some u \<and> liveAdmin u")
  case True
  then obtain k u where "(k, u) \<in> set (st_users s)" "k \<noteq> i" "liveAdmin u"
    using assms(3) by (auto simp: lastLiveAdminLocked_def)
  then show thesis using that assms(2) by (simp add: tget_iff)
next
  case False
  then show thesis using that assms(1) hasLiveAdmin_iff [OF assms(2)] by metis
qed

lemma admin_row_kept:
  assumes "hasLiveAdmin s" "table_ok (st_users s)" "liveAdmin v \<or> \<not> lastLiveAdminLocked s i"
  shows "hasLiveAdmin (s\<lparr>st_users := tput i v (st_users s)\<rparr>)"
proof (cases "liveAdmin v")
  case True
  then show ?thesis using assms(2) by (auto simp: hasLiveAdmin_iff intro!: exI [of _ i])
next
  case False
  then obtain k u where "k \<noteq> i" "tget (st_users s) k = Some u" "liveAdmin u"
    using other_admin assms by metis
  then show ?thesis using assms(2) by (auto simp: hasLiveAdmin_iff intro!: exI [of _ k])
qed

lemma admin_row_same:
  assumes "hasLiveAdmin s" "table_ok (st_users s)" "tget (st_users s) i = Some u"
    "user_Role v = user_Role u" "user_Disabled v = user_Disabled u"
  shows "hasLiveAdmin (s\<lparr>st_users := tput i v (st_users s)\<rparr>)"
  using assms by (intro admin_row_kept) (auto simp: lastLiveAdminLocked_def liveAdmin_def)

lemma hasLiveAdmin_account:
  assumes "hasLiveAdmin s" "table_ok (st_users s)" "\<not> unguarded_update (AccountOp a)"
  shows "hasLiveAdmin (exec_account a s)"
proof -
  have fresh: "hasLiveAdmin (s\<lparr>st_users := tput i v (st_users s)\<rparr>)" if "tget (st_users s) i = None" for i v
    using assms(1,2) that by (intro admin_row_kept) (simp_all add: lastLiveAdminLocked_def)
  have del: "hasLiveAdmin (s\<lparr>st_users := tdel i (st_users s)\<rparr>)" if "\<not> lastLiveAdminLocked s i" for i
    using other_admin [OF assms(1,2) that] assms(2)
    by (auto simp: hasLiveAdmin_iff)
  have evict: "hasLiveAdmin (s'\<lparr>st_sessions := x\<rparr>) = hasLiveAdmin s'" for s' x by (simp add: hasLiveAdmin_def)
  show ?thesis
    using assms
    by (cases a)
      (auto simp: account_defs fenced_def Let_def updateUserLocked_def evict liveAdmin_def
        intro: fresh del admin_row_same admin_row_kept hasLiveAdmin_users [THEN iffD2] split: option.split)
qed

lemma hasLiveAdmin_exec:
  assumes "hasLiveAdmin s" "accounts_ok s" "\<not> unguarded_update op"
  shows "hasLiveAdmin (exec op s)"
proof (cases op)
  case (AccountOp a)
  then show ?thesis using hasLiveAdmin_account [OF assms(1) accounts_okD(1) [OF assms(2)]] assms(3) by simp
qed (use assms(1) in \<open>simp_all add: hasLiveAdmin_part [OF account_part_exec] del: exec.simps\<close>)

section \<open>Join tokens\<close>

definition tokenSpent :: "string \<Rightarrow> store \<Rightarrow> bool" where
  "tokenSpent h s \<longleftrightarrow>
     (\<exists>k t. tget (st_workerJoinTokens s) k = Some t \<and> tok_TokenHash t = h \<and> tok_UsedAt t \<noteq> None)"

lemma tokenSpent_part: "account_part s' = account_part s \<Longrightarrow> tokenSpent h s' = tokenSpent h s"
  by (simp add: account_part_def tokenSpent_def)

lemma tokenSpent_same: "st_workerJoinTokens s' = st_workerJoinTokens s \<Longrightarrow> tokenSpent h s' = tokenSpent h s"
  by (simp add: tokenSpent_def)

lemma tokenSpent_put:
  assumes "tokenSpent h s" "tget (st_workerJoinTokens s) i = None \<or>
    (\<exists>t'. tget (st_workerJoinTokens s) i = Some t' \<and> tok_TokenHash t' \<noteq> h)"
  shows "tokenSpent h (s\<lparr>st_workerJoinTokens := tput i t (st_workerJoinTokens s)\<rparr>)"
proof -
  obtain k u where k: "tget (st_workerJoinTokens s) k = Some u" "tok_TokenHash u = h" "tok_UsedAt u \<noteq> None"
    using assms(1) by (auto simp: tokenSpent_def)
  then have "k \<noteq> i" using assms(2) by auto
  then show ?thesis unfolding tokenSpent_def using k by (intro exI [of _ k] exI [of _ u]) simp
qed

lemma tokenSpent_use:
  assumes "tokenSpent h s \<or> tok_TokenHash t = h" "tget (st_workerJoinTokens s) i = Some t"
  shows "tokenSpent h (s\<lparr>st_workerJoinTokens := tput i (t\<lparr>tok_UsedAt := Some x\<rparr>) (st_workerJoinTokens s)\<rparr>)"
proof (cases "tok_TokenHash t = h")
  case True
  then show ?thesis unfolding tokenSpent_def
    by (intro exI [of _ i] exI [of _ "t\<lparr>tok_UsedAt := Some x\<rparr>"]) simp
next
  case False
  then show ?thesis using assms by (intro tokenSpent_put) simp_all
qed

lemma redeem_cases:
  assumes "accounts_ok s"
  obtains (declined) e where "RedeemWorkerJoinToken c h now x s = (s, Inl e)"
  | (redeemed) k t where "RedeemWorkerJoinToken c h now x s =
        (s\<lparr>st_workerJoinTokens := tput k (t\<lparr>tok_UsedAt := Some now\<rparr>) (st_workerJoinTokens s),
           st_workerCredentials := tput (cred_ID x) x (st_workerCredentials s)\<rparr>, Inr x)"
      "tget (st_workerJoinTokens s) k = Some t" "tok_TokenHash t = h" "tok_UsedAt t = None"
      "now < tok_ExpiresAt t" "\<not> credentialConflict s x"
proof -
  let ?f = "tfirst (\<lambda>t. \<not> (tok_TokenHash t \<noteq> h \<or> tok_UsedAt t \<noteq> None) \<and> now < tok_ExpiresAt t) (st_workerJoinTokens s)"
  show thesis
  proof (cases "fenceLocked c s \<noteq> None \<or> credentialConflict s x")
    case True
    then have "\<exists>e. RedeemWorkerJoinToken c h now x s = (s, Inl e)"
      by (auto simp: RedeemWorkerJoinToken_def fenced_def split: option.split)
    then show thesis using declined by blast
  next
    case False
    show thesis
    proof (cases ?f)
      case None
      then show thesis using False declined by (simp add: RedeemWorkerJoinToken_def fenced_def)
    next
      case (Some kt)
      obtain k t where kt: "kt = (k, t)" by fastforce
      show thesis
        by (rule redeemed [of k t])
          (use False tfirst_Some [OF accounts_okD(4) [OF assms] Some [unfolded kt]] Some kt in
            \<open>simp_all add: RedeemWorkerJoinToken_def fenced_def\<close>)
    qed
  qed
qed

lemma tokenSpent_credential: "tokenSpent h (s\<lparr>st_workerCredentials := m\<rparr>) = tokenSpent h s"
  by (simp add: tokenSpent_def)

lemma tokenSpent_redeem:
  assumes "accounts_ok s" "tokenSpent h s"
  shows "tokenSpent h (fst (RedeemWorkerJoinToken c h' now x s))"
  using assms(2) by (cases rule: redeem_cases [OF assms(1), of c h' now x])
    (simp_all add: tokenSpent_credential tokenSpent_use)

lemma tokenSpent_exec:
  assumes "accounts_ok s" "tokenSpent h s"
  shows "tokenSpent h (exec op s)"
proof (cases op)
  case (AccountOp a)
  have same: "tokenSpent h s'" if "st_workerJoinTokens s' = st_workerJoinTokens s" for s'
    using assms(2) tokenSpent_same [OF that] by simp
  show ?thesis
  proof (cases "\<exists>c h' now x. a = OpRedeemToken c h' now x")
    case True
    then show ?thesis using tokenSpent_redeem [OF assms] AccountOp by auto
  next
    case False
    then show ?thesis
      using AccountOp assms(2) by (cases a) (auto simp: account_defs fenced_def Let_def
        intro: same tokenSpent_put tokenSpent_use split: option.split)
  qed
qed (use assms(2) in \<open>simp_all add: tokenSpent_part [OF account_part_exec] del: exec.simps\<close>)

lemma accounts_ok_run: "accounts_ok s \<Longrightarrow> accounts_ok (run exec ops s)"
  by (induction ops arbitrary: s) (simp_all add: accounts_ok_exec del: exec.simps)

lemma tokenSpent_run: "accounts_ok s \<Longrightarrow> tokenSpent h s \<Longrightarrow> tokenSpent h (run exec ops s)"
  by (induction ops arbitrary: s) (simp_all add: accounts_ok_exec tokenSpent_exec del: exec.simps)

lemma hasLiveAdmin_run:
  "accounts_ok s \<Longrightarrow> hasLiveAdmin s \<Longrightarrow> \<forall>op \<in> set ops. \<not> unguarded_update op \<Longrightarrow> hasLiveAdmin (run exec ops s)"
  by (induction ops arbitrary: s) (simp_all add: accounts_ok_exec hasLiveAdmin_exec del: exec.simps)

lemma spent_token_declined:
  assumes "accounts_ok s" "tokenSpent h s"
  obtains e where "RedeemWorkerJoinToken c h now x s = (s, Inl e)"
proof (cases rule: redeem_cases [OF assms(1), of c h now x, case_names declined redeemed])
  case (redeemed k t)
  obtain k' t' where "tget (st_workerJoinTokens s) k' = Some t'" "tok_TokenHash t' = h" "tok_UsedAt t' \<noteq> None"
    using assms(2) by (auto simp: tokenSpent_def)
  then have "k = k'" using unique_onD [OF accounts_okD(6) [OF assms(1)] redeemed(2)] redeemed(3) by simp
  then show thesis using redeemed(2,4) \<open>tget (st_workerJoinTokens s) k' = Some t'\<close> \<open>tok_UsedAt t' \<noteq> None\<close> by simp
qed (rule that)

section \<open>Deleted users\<close>

fun creates_user :: "string \<Rightarrow> store_op \<Rightarrow> bool" where
  "creates_user i (AccountOp (OpCreateUser c u t)) = (user_ID u = i)"
| "creates_user i _ = False"

lemma absent_user_account:
  assumes "tget (st_users s) i = None" "\<not> creates_user i (AccountOp a)"
  shows "tget (st_users (exec_account a s)) i = None"
  using assms by (cases a) (auto simp: account_defs fenced_def Let_def split: option.split)

lemma absent_user_exec:
  assumes "tget (st_users s) i = None" "\<not> creates_user i op"
  shows "tget (st_users (exec op s)) i = None"
proof (cases op)
  case (AccountOp a)
  then show ?thesis using absent_user_account assms by simp
qed (use assms account_part_exec in \<open>simp_all add: account_part_def del: exec.simps\<close>)

lemma absent_user_run:
  "tget (st_users s) i = None \<Longrightarrow> \<forall>op \<in> set ops. \<not> creates_user i op \<Longrightarrow> tget (st_users (run exec ops s)) i = None"
  by (induction ops arbitrary: s) (simp_all add: absent_user_exec del: exec.simps)

lemma authenticated_user:
  assumes "accounts_ok s"
  shows "GetSessionUserByTokenHash h now s = Inr u \<Longrightarrow> tget (st_users s) (user_ID u) = Some u"
    and "GetAPIKeyUserByTokenHash h now s = Inr (k, u) \<Longrightarrow> tget (st_users s) (user_ID u) = Some u"
proof -
  have row: "tget (st_users s) j = Some u \<Longrightarrow> tget (st_users s) (user_ID u) = Some u" for j
    using accounts_okD(5) [OF assms, of j u] by simp
  show "GetSessionUserByTokenHash h now s = Inr u \<Longrightarrow> tget (st_users s) (user_ID u) = Some u"
    by (auto simp: GetSessionUserByTokenHash_def intro: row split: option.splits)
  show "GetAPIKeyUserByTokenHash h now s = Inr (k, u) \<Longrightarrow> tget (st_users s) (user_ID u) = Some u"
    by (auto simp: GetAPIKeyUserByTokenHash_def intro: row split: option.splits sum.splits)
qed

section \<open>The properties\<close>

definition demo_user :: "string \<Rightarrow> string \<Rightarrow> string \<Rightarrow> User" where
  "demo_user i n r = \<lparr> user_ID = i, user_Username = n, user_DisplayName = n, user_PasswordHash = ''h'',
     user_Role = r, user_AuthSource = [], user_ExternalID = [], user_Disabled = False,
     user_CreatedAt = 0, user_UpdatedAt = 0 \<rparr>"

definition demo_session :: Session where
  "demo_session = \<lparr> sess_ID = ''s1'', sess_TokenHash = ''th'', sess_UserID = ''u2'', sess_ExpiresAt = 100,
     sess_CreatedAt = 0 \<rparr>"

definition demo_key :: APIKey where
  "demo_key = \<lparr> key_ID = ''k1'', key_UserID = ''u2'', key_Name = ''k'', key_Prefix = ''p'', key_TokenHash = ''kh'',
     key_ExpiresAt = None, key_LastUsedAt = None, key_RevokedAt = None, key_CreatedAt = 0 \<rparr>"

definition demo_token :: WorkerJoinToken where
  "demo_token = \<lparr> tok_ID = ''t1'', tok_TokenHash = ''jh'', tok_Prefix = ''p'', tok_Name = ''t'', tok_ExpiresAt = 50,
     tok_UsedAt = None, tok_CreatedBy = ''u1'', tok_CreatedAt = 0 \<rparr>"

definition demo_cred :: "string \<Rightarrow> WorkerCredential" where
  "demo_cred i = \<lparr> cred_ID = i, cred_WorkerID = i, cred_PublicKey = i, cred_Name = i, cred_EnrolledAt = 0,
     cred_LastSeenAt = None, cred_RevokedAt = None \<rparr>"

definition demo_accounts :: "store_op list" where
  "demo_accounts =
     [AccountOp (OpCreateUser None (demo_user ''u1'' ''ann'' ''admin'') 1),
      AccountOp (OpCreateUser None (demo_user ''u2'' ''bob'' ''operator'') 1),
      AccountOp (OpCreateSession None demo_session), AccountOp (OpCreateKey None demo_key),
      AccountOp (OpCreateToken None demo_token)]"

lemma reachable_accounts_ok: "reachable s \<Longrightarrow> accounts_ok s"
  by (rule account_system.reach_inv) (erule reach_mono, simp)

text \<open>C18. In every store reached by any sequence of operations, no two users share a username up to ASCII
  case, no two sessions, API keys or join tokens share a token hash, every session belongs to an
  existing user, no two worker credentials share a public key, and a worker has at most one
  credential that is not revoked.\<close>

theorem accounts_stay_apart:
  assumes "reachable s"
  shows "accounts_ok s"
  using assms by (rule reachable_accounts_ok)

theorem accounts_stay_apart_witness:
  "accounts_ok (run exec demo_accounts New) \<and> tget (st_sessions (run exec demo_accounts New)) ''s1'' = Some demo_session"
proof
  have "run_ok exec op_ok demo_accounts New" by code_simp
  then show "accounts_ok (run exec demo_accounts New)" by (rule accounts_stay_apart [OF reach_run_init])
  show "tget (st_sessions (run exec demo_accounts New)) ''s1'' = Some demo_session" by code_simp
qed

text \<open>C19. Once there is an enabled administrator there always is one: no sequence of store operations
  removes the last, as long as user updates go through \<^verbatim>\<open>UpdateUserKeepingAdmin\<close>; the plain
  \<^verbatim>\<open>UpdateUser\<close> has no such guard.\<close>

theorem admin_never_locked_out:
  assumes "reachable s" "hasLiveAdmin s" "\<forall>op \<in> set ops. \<not> unguarded_update op"
  shows "hasLiveAdmin (run exec ops s)"
  using reachable_accounts_ok [OF assms(1)] assms(2,3) by (rule hasLiveAdmin_run)

theorem admin_never_locked_out_witness:
  "hasLiveAdmin (run exec [AccountOp (OpDeleteUser None ''u1'')] (run exec demo_accounts New)) \<and>
   snd (DeleteUser None ''u1'' (run exec demo_accounts New)) = Inl ErrLastAdmin"
proof
  have "run_ok exec op_ok demo_accounts New" by code_simp
  then have "reachable (run exec demo_accounts New)" by (rule reach_run_init)
  moreover have "hasLiveAdmin (run exec demo_accounts New)" by code_simp
  ultimately show "hasLiveAdmin (run exec [AccountOp (OpDeleteUser None ''u1'')] (run exec demo_accounts New))"
    by (rule admin_never_locked_out) simp
  show "snd (DeleteUser None ''u1'' (run exec demo_accounts New)) = Inl ErrLastAdmin" by code_simp
qed

text \<open>C20. A join token enrols one worker: once it was redeemed, no later redemption of the same token
  succeeds or changes the store, whatever operations ran in between.\<close>

theorem join_token_redeemed_once:
  assumes "reachable s" "RedeemWorkerJoinToken c h now x s = (s', Inr r)"
  shows "\<exists>e. RedeemWorkerJoinToken c' h now' x' (run exec ops s') = (run exec ops s', Inl e)"
proof -
  have ok: "accounts_ok s" by (rule reachable_accounts_ok [OF assms(1)])
  have ok': "accounts_ok s'" using accounts_ok_tokens(3) [OF ok, of c h now x] assms(2) by simp
  have "tokenSpent h s'"
    using assms(2) by (cases rule: redeem_cases [OF ok, of c h now x]) (auto simp: tokenSpent_credential tokenSpent_use)
  then show ?thesis
    using spent_token_declined accounts_ok_run [OF ok'] tokenSpent_run [OF ok'] by metis
qed

theorem join_token_redeemed_once_witness:
  "\<exists>e. RedeemWorkerJoinToken None ''jh'' 11 (demo_cred ''w2'')
     (run exec [AccountOp (OpRevokeCredential None ''w1'' 9)]
       (fst (RedeemWorkerJoinToken None ''jh'' 8 (demo_cred ''w1'') (run exec demo_accounts New)))) =
     (run exec [AccountOp (OpRevokeCredential None ''w1'' 9)]
       (fst (RedeemWorkerJoinToken None ''jh'' 8 (demo_cred ''w1'') (run exec demo_accounts New))), Inl e)"
proof (rule join_token_redeemed_once)
  have "run_ok exec op_ok demo_accounts New" by code_simp
  then show "reachable (run exec demo_accounts New)" by (rule reach_run_init)
  have "snd (RedeemWorkerJoinToken None ''jh'' 8 (demo_cred ''w1'') (run exec demo_accounts New)) = Inr (demo_cred ''w1'')"
    by code_simp
  then show "RedeemWorkerJoinToken None ''jh'' 8 (demo_cred ''w1'') (run exec demo_accounts New) =
      (fst (RedeemWorkerJoinToken None ''jh'' 8 (demo_cred ''w1'') (run exec demo_accounts New)), Inr (demo_cred ''w1''))"
    by (simp add: prod_eq_iff)
qed

text \<open>C21. Once a user is deleted, neither a session token nor an API key authenticates as that user, whatever
  operations follow, as long as no user is created again under the same ID.  The user's API keys stay in
  the table, but no longer resolve.\<close>

theorem deleted_user_locked_out:
  assumes "reachable s" "DeleteUser c i s = (s', Inr ())" "\<forall>op \<in> set ops. \<not> creates_user i op"
    "GetSessionUserByTokenHash h now (run exec ops s') = Inr u \<or>
     GetAPIKeyUserByTokenHash h now (run exec ops s') = Inr (k, u)"
  shows "user_ID u \<noteq> i"
proof
  assume "user_ID u = i"
  have ok: "accounts_ok s'" using accounts_ok_users(7) [OF reachable_accounts_ok [OF assms(1)], of c i] assms(2) by simp
  have "tget (st_users s') i = None"
    using assms(2) by (auto simp: DeleteUser_def fenced_def split: option.splits if_splits)
  then have "tget (st_users (run exec ops s')) i = None" by (rule absent_user_run [OF _ assms(3)])
  moreover have "tget (st_users (run exec ops s')) (user_ID u) = Some u"
    using authenticated_user [OF accounts_ok_run [OF ok]] assms(4) by blast
  ultimately show False using \<open>user_ID u = i\<close> by simp
qed

definition demo_keys :: "store_op list" where
  "demo_keys = demo_accounts @
     [AccountOp (OpCreateKey None (demo_key\<lparr>key_ID := ''k2'', key_UserID := ''u1'', key_TokenHash := ''kh1''\<rparr>))]"

definition demo_deleted :: store where
  "demo_deleted = fst (DeleteUser None ''u2'' (run exec demo_keys New))"

theorem deleted_user_locked_out_witness:
  "(case GetAPIKeyUserByTokenHash ''kh1'' 5 demo_deleted of Inr (k, u) \<Rightarrow> user_ID u \<noteq> ''u2'' | Inl e \<Rightarrow> False) \<and>
   GetAPIKeyUserByTokenHash ''kh'' 5 demo_deleted = Inl ErrNotFound"
proof
  have "run_ok exec op_ok demo_keys New" by code_simp
  then have r: "reachable (run exec demo_keys New)" by (rule reach_run_init)
  have "snd (DeleteUser None ''u2'' (run exec demo_keys New)) = Inr ()" by code_simp
  then have d: "DeleteUser None ''u2'' (run exec demo_keys New) = (demo_deleted, Inr ())"
    by (simp add: demo_deleted_def prod_eq_iff)
  have "case GetAPIKeyUserByTokenHash ''kh1'' 5 demo_deleted of Inr _ \<Rightarrow> True | Inl e \<Rightarrow> False" by code_simp
  then obtain k u where "GetAPIKeyUserByTokenHash ''kh1'' 5 (run exec [] demo_deleted) = Inr (k, u)"
    by (auto split: sum.splits)
  then show "case GetAPIKeyUserByTokenHash ''kh1'' 5 demo_deleted of Inr (k, u) \<Rightarrow> user_ID u \<noteq> ''u2'' | Inl e \<Rightarrow> False"
    using deleted_user_locked_out [OF r d, of "[]" "''kh1''" 5 u k] by simp
  show "GetAPIKeyUserByTokenHash ''kh'' 5 demo_deleted = Inl ErrNotFound" by code_simp
qed

end
