(* ===== verification/ProtocolText.thy ===== *)
theory ProtocolText
  imports GoStrings
begin

text \<open>
  Status text of a progress report (\<^verbatim>\<open>worker/protocol/statustext.go\<close>).  A Go string is a string of bytes;
  its text is read rune by rune as UTF-8.
\<close>

section \<open>Sanitizing status text\<close>

definition MaxStatusTextBytes :: nat where "MaxStatusTextBytes = 1024"

definition IsControl :: "nat \<Rightarrow> bool" where
  "IsControl r \<longleftrightarrow> r < 32 \<or> (127 \<le> r \<and> r < 160)"

definition runeBytes :: "nat list \<Rightarrow> nat" where
  "runeBytes b = sum_list (map RuneLen b)"

text \<open>The loop of \<^verbatim>\<open>SanitizeStatusText\<close>; the builder is kept as the list of runes written to it.\<close>

definition sanitizeRune :: "nat \<Rightarrow> nat \<Rightarrow> nat option" where
  "sanitizeRune r n =
     (if r = RuneError \<and> n = 1 then None
      else if r = 9 \<or> r = 10 \<or> r = 13 then Some 32
      else if IsControl r then None
      else Some r)"

function sanitizeLoop :: "string \<Rightarrow> nat list \<Rightarrow> nat list" where
  "sanitizeLoop s b =
     (if s = [] then b
      else
        let (r, n) = DecodeRune s; s' = drop n s
        in (case sanitizeRune r n of
              None \<Rightarrow> sanitizeLoop s' b
            | Some r' \<Rightarrow>
                if runeBytes b = 0 \<and> IsSpace r' then sanitizeLoop s' b
                else if runeBytes b + RuneLen r' > MaxStatusTextBytes then b
                else sanitizeLoop s' (b @ [r'])))"
  by pat_completeness auto
termination
proof (relation "measure (\<lambda>(s, b). length s)", goal_cases)
  case 1
  then show ?case by simp
qed (use DecodeRune_size in \<open>force simp: prod_eq_iff\<close>)+

declare sanitizeLoop.simps [simp del]

definition trimRight :: "nat list \<Rightarrow> nat list" where
  "trimRight b = rev (dropWhile IsSpace (rev b))"

definition SanitizeStatusText :: "string \<Rightarrow> string" where
  "SanitizeStatusText s = concat (map EncodeRune (trimRight (sanitizeLoop s [])))"

text \<open>What the builder holds: runes of valid text that are no control characters, the first no space.\<close>

definition clean :: "nat list \<Rightarrow> bool" where
  "clean b \<longleftrightarrow> list_all (\<lambda>r. validRune r \<and> \<not> IsControl r) b \<and> runeBytes b \<le> MaxStatusTextBytes \<and>
     (b \<noteq> [] \<longrightarrow> \<not> IsSpace (hd b))"

lemma RuneLen_pos [simp]: "0 < RuneLen r"
  by (simp add: RuneLen_def)

lemma runeBytes_simps [simp]:
  "runeBytes [] = 0" "runeBytes (r # b) = RuneLen r + runeBytes b" "runeBytes (b @ c) = runeBytes b + runeBytes c"
  by (simp_all add: runeBytes_def)

lemma runeBytes_zero [simp]: "runeBytes b = 0 \<longleftrightarrow> b = []"
  by (cases b) auto

lemma clean_snoc:
  assumes "clean b" "validRune r" "\<not> IsControl r" "b = [] \<Longrightarrow> \<not> IsSpace r" "runeBytes b + RuneLen r \<le> MaxStatusTextBytes"
  shows "clean (b @ [r])"
  using assms by (cases b) (simp_all add: clean_def)

lemma sanitizeRune_Some: "sanitizeRune r n = Some r' \<Longrightarrow> validRune r \<Longrightarrow> validRune r' \<and> \<not> IsControl r'"
  by (auto simp: sanitizeRune_def validRune_def IsControl_def split: if_splits)

lemma clean_sanitizeLoop: "clean b \<Longrightarrow> clean (sanitizeLoop s b)"
proof (induction s arbitrary: b rule: length_induct)
  case (1 s)
  obtain r n where d: "DecodeRune s = (r, n)" by fastforce
  have IH: "s \<noteq> [] \<Longrightarrow> clean b' \<Longrightarrow> clean (sanitizeLoop (drop n s) b')" for b'
    using 1(1) DecodeRune_size [of s] d by simp
  have snoc: "sanitizeRune r n = Some r' \<Longrightarrow> \<not> (runeBytes b = 0 \<and> IsSpace r') \<Longrightarrow>
      runeBytes b + RuneLen r' \<le> MaxStatusTextBytes \<Longrightarrow> clean (b @ [r'])" for r'
    using clean_snoc [OF 1(2)] sanitizeRune_Some [of r n r'] DecodeRune_valid [OF d] by simp
  show ?case
    using IH snoc 1(2) by (subst sanitizeLoop.simps) (auto simp: Let_def d split: option.split)
qed

lemma clean_prefix: "clean (b @ c) \<Longrightarrow> clean b"
  by (cases b) (auto simp: clean_def)

lemma trimRight_prefix: "\<exists>c. b = trimRight b @ c"
proof -
  have "b = rev (takeWhile IsSpace (rev b) @ dropWhile IsSpace (rev b))" by simp
  then show ?thesis unfolding trimRight_def by (metis rev_append)
qed

lemma trimRight_idem [simp]: "trimRight (trimRight b) = trimRight b"
  by (simp add: trimRight_def)

lemma sanitizeLoop_clean: "clean (b @ rs) \<Longrightarrow> sanitizeLoop (concat (map EncodeRune rs)) b = b @ rs"
proof (induction rs arbitrary: b)
  case Nil
  then show ?case by (simp add: sanitizeLoop.simps)
next
  case (Cons r rs)
  have r: "validRune r" "sanitizeRune r (RuneLen r) = Some r"
    using Cons.prems by (auto simp: clean_def sanitizeRune_def RuneError_def RuneLen_def IsControl_def)
  have fits: "\<not> runeBytes b + RuneLen r > MaxStatusTextBytes" "\<not> (runeBytes b = 0 \<and> IsSpace r)"
    using Cons.prems by (auto simp: clean_def)
  have "EncodeRune r \<noteq> []" using length_EncodeRune [of r] RuneLen_pos [of r] by force
  then show ?case
    using Decode_Encode [OF r(1)] Cons.IH [of "b @ [r]"] Cons.prems r(2) fits
    by (subst sanitizeLoop.simps) (auto simp: Let_def)
qed

lemma length_runes: "length (concat (map EncodeRune rs)) = runeBytes rs"
  by (induction rs) simp_all

lemma trimRight_trimmed: "dropWhile IsSpace (rev (trimRight b)) = rev (trimRight b)"
  by (simp add: trimRight_def)

text \<open>C22. Whatever a task reports, the sanitized status text is at most 1024 bytes of valid UTF-8 without
  control characters, with no white space at its start or its end, and sanitizing it again, as the server does
  after the worker, changes nothing.\<close>

theorem status_text_sanitized:
  "length (SanitizeStatusText s) \<le> MaxStatusTextBytes \<and>
   (\<exists>rs. SanitizeStatusText s = concat (map EncodeRune rs) \<and> list_all (\<lambda>r. validRune r \<and> \<not> IsControl r) rs \<and>
      dropWhile IsSpace rs = rs \<and> dropWhile IsSpace (rev rs) = rev rs) \<and>
   SanitizeStatusText (SanitizeStatusText s) = SanitizeStatusText s"
proof -
  let ?b = "trimRight (sanitizeLoop s [])"
  have "clean (sanitizeLoop s [])" by (rule clean_sanitizeLoop) (simp add: clean_def)
  then have c: "clean ?b" using trimRight_prefix clean_prefix by metis
  then have "dropWhile IsSpace ?b = ?b" by (cases ?b) (simp_all add: clean_def)
  moreover have "sanitizeLoop (concat (map EncodeRune ?b)) [] = ?b" using sanitizeLoop_clean [of "[]" ?b] c by simp
  ultimately show ?thesis
    using c trimRight_trimmed [of "sanitizeLoop s []"]
    by (auto simp: SanitizeStatusText_def length_runes clean_def intro!: exI [where x = ?b])
qed

end
