(* ===== verification/SchedBase.thy ===== *)
theory SchedBase
  imports StoreReads StoreLeader BusSubjects ProtocolText
begin

text \<open>
  The scheduler's state and the small parts its handlers share (package \<^verbatim>\<open>internal/scheduler\<close>): the
  configuration, the registry of parked lease requests (\<^verbatim>\<open>waiter.go\<close>), the cache of attempt owners
  (\<^verbatim>\<open>attemptcache.go\<close>), the retry policy (\<^verbatim>\<open>retrypolicy.go\<close>), the fence (\<^verbatim>\<open>fence.go\<close>) and the
  acknowledgement of messages (\<^verbatim>\<open>scheduler.go\<close>).

  A handler is an action on the state, \<open>sched \<Rightarrow> sched \<times> 'a sres\<close>: it may fail with the store's error and
  still have changed the state.  What the scheduler sends out (browser events, cancel signals,
  acknowledgements) is appended to \<open>sc_events\<close>; logging and metrics are left out, and so is the state
  that only decides what is logged.  The clock is part of the state and stands still during a handler.
\<close>

section \<open>Messages and events\<close>

record TaskEvent =
  te_JobID :: string
  te_TaskID :: string
  te_Name :: string
  te_Status :: string
  te_WorkerID :: string
  te_UnschedulableReason :: string
  te_Progress :: "int option"
  te_StatusText :: string
  te_UpdatedAt :: time

record WorkerEvent =
  we_WorkerID :: string
  we_Name :: string
  we_Hostname :: string
  we_FarmID :: string
  we_Status :: string

record LogEvent =
  le_TaskID :: string
  le_AttemptID :: string
  le_SeqNum :: int
  le_Stream :: string
  le_Data :: string
  le_At :: time

record JobEvent =
  je_JobID :: string
  je_Name :: string
  je_Owner :: string
  je_QueueID :: string
  je_Status :: string
  je_UpdatedAt :: time

record TaskCancelMsg =
  cm_TaskID :: string
  cm_AttemptID :: string
  cm_JobID :: string
  cm_CanceledAt :: time

datatype event =
    NotifyTask TaskEvent
  | NotifyWorker WorkerEvent
  | NotifyLog LogEvent
  | NotifyJob JobEvent
  | PublishTaskCancel string TaskCancelMsg
  | AckMsg string
  | NakMsg string int
  | CallOnFenced

text \<open>Go's struct literals leave the other fields at their zero values.\<close>

definition taskEvent :: "string \<Rightarrow> string \<Rightarrow> string \<Rightarrow> task_status \<Rightarrow> time \<Rightarrow> TaskEvent" where
  "taskEvent jobID taskID name status at =
     \<lparr> te_JobID = jobID, te_TaskID = taskID, te_Name = name, te_Status = task_status_string status,
       te_WorkerID = [], te_UnschedulableReason = [], te_Progress = None, te_StatusText = [], te_UpdatedAt = at \<rparr>"

definition jobEvent :: "string \<Rightarrow> string \<Rightarrow> time \<Rightarrow> JobEvent" where
  "jobEvent jobID status at =
     \<lparr> je_JobID = jobID, je_Name = [], je_Owner = [], je_QueueID = [], je_Status = status, je_UpdatedAt = at \<rparr>"

record TaskStatusMsg =
  sm_Version :: string
  sm_TaskID :: string
  sm_AttemptID :: string
  sm_JobID :: string
  sm_Status :: string
  sm_ExitCode :: "int option"
  sm_SessionID :: string
  sm_At :: "time option"
  sm_WorkerID :: string
  sm_LastProgress :: "int option"
  sm_Message :: string

definition ProtocolVersion :: string where "ProtocolVersion = ''5''"
definition MessageWorkerShutdown :: string where "MessageWorkerShutdown = ''worker_shutdown''"

section \<open>Configuration\<close>

record ExprLimits =
  el_SubmissionOperations :: int
  el_SubmissionMemoryBytes :: int
  el_TemplatePositions :: int
  el_TemplateRetainedBytes :: int

definition DefaultExprLimits :: ExprLimits where
  "DefaultExprLimits = \<lparr> el_SubmissionOperations = 10000, el_SubmissionMemoryBytes = 1000000,
     el_TemplatePositions = 10000, el_TemplateRetainedBytes = 10000000 \<rparr>"

definition orDefaults :: "ExprLimits \<Rightarrow> ExprLimits" where
  "orDefaults l =
     (let d = DefaultExprLimits;
          l = (if el_SubmissionOperations l \<le> 0
               then l\<lparr>el_SubmissionOperations := el_SubmissionOperations d\<rparr> else l);
          l = (if el_SubmissionMemoryBytes l \<le> 0
               then l\<lparr>el_SubmissionMemoryBytes := el_SubmissionMemoryBytes d\<rparr> else l);
          l = (if el_TemplatePositions l \<le> 0 then l\<lparr>el_TemplatePositions := el_TemplatePositions d\<rparr> else l)
      in if el_TemplateRetainedBytes l \<le> 0
         then l\<lparr>el_TemplateRetainedBytes := el_TemplateRetainedBytes d\<rparr> else l)"

record Config =
  cfg_FarmID :: string
  cfg_AssignInterval :: int
  cfg_AssignBatchSize :: int
  cfg_AssignWorkers :: int
  cfg_WorkerTimeout :: int
  cfg_BusReconnectGrace :: int
  cfg_HeartbeatSweepInterval :: int
  cfg_AssignedTaskTimeout :: int
  cfg_OfflineWorkerRetention :: int
  cfg_JobRetention :: int
  cfg_JobRetentionIncludeFailed :: bool
  cfg_UnschedulableGrace :: int
  cfg_ReconcileGrace :: int
  cfg_DefaultMaxAttempts :: int
  cfg_RetryDelay :: int
  cfg_DefaultFailureLimit :: int
  cfg_ExprLimits :: ExprLimits
  cfg_NATSAuthEnabled :: bool
  cfg_OnFenced :: bool

definition Second :: int where "Second = 1000000000"

definition DefaultConfig :: Config where
  "DefaultConfig = \<lparr> cfg_FarmID = [], cfg_AssignInterval = Second, cfg_AssignBatchSize = 50, cfg_AssignWorkers = 4,
     cfg_WorkerTimeout = 30 * Second, cfg_BusReconnectGrace = 0, cfg_HeartbeatSweepInterval = 15 * Second,
     cfg_AssignedTaskTimeout = 30 * Second, cfg_OfflineWorkerRetention = 24 * 3600 * Second,
     cfg_JobRetention = 7 * 24 * 3600 * Second, cfg_JobRetentionIncludeFailed = False,
     cfg_UnschedulableGrace = 30 * Second, cfg_ReconcileGrace = 120 * Second, cfg_DefaultMaxAttempts = 3,
     cfg_RetryDelay = 30 * Second, cfg_DefaultFailureLimit = 0, cfg_ExprLimits = DefaultExprLimits,
     cfg_NATSAuthEnabled = False, cfg_OnFenced = False \<rparr>"

section \<open>Parked requests\<close>

text \<open>Channels are numbers.  A Go channel may be closed once; \<open>wr_closed\<close> lists them in the order closed.\<close>

record waiterRegistry =
  wr_waiters :: "nat list table"
  wr_closed :: "nat list"
  wr_next :: nat

definition newWaiterRegistry :: waiterRegistry where
  "newWaiterRegistry = \<lparr> wr_waiters = [], wr_closed = [], wr_next = 0 \<rparr>"

text \<open>\<^verbatim>\<open>wait\<close> up to its \<^verbatim>\<open>select\<close>: a new channel is parked.  The request resumes when the channel is closed, or
  calls \<open>removeWaiter\<close> when it times out.\<close>

definition enterWait :: "string \<Rightarrow> waiterRegistry \<Rightarrow> nat \<times> waiterRegistry" where
  "enterWait queueID r =
     (let ch = wr_next r; cur = tgetz [] (wr_waiters r) queueID
      in (ch, r\<lparr>wr_waiters := tput queueID (cur @ [ch]) (wr_waiters r), wr_next := ch + 1\<rparr>))"

definition removeWaiter :: "string \<Rightarrow> nat \<Rightarrow> waiterRegistry \<Rightarrow> waiterRegistry" where
  "removeWaiter queueID ch r =
     (case tget (wr_waiters r) queueID of
        None \<Rightarrow> r
      | Some cur \<Rightarrow> r\<lparr>wr_waiters := tput queueID (filter (\<lambda>c. c \<noteq> ch) cur) (wr_waiters r)\<rparr>)"

definition notify :: "string \<Rightarrow> waiterRegistry \<Rightarrow> waiterRegistry" where
  "notify queueID r =
     (let cur = tgetz [] (wr_waiters r) queueID
      in r\<lparr>wr_waiters := tput queueID [] (wr_waiters r), wr_closed := wr_closed r @ cur\<rparr>)"

definition notifyAll :: "waiterRegistry \<Rightarrow> waiterRegistry" where
  "notifyAll r = r\<lparr>wr_waiters := [], wr_closed := wr_closed r @ concat (trows (wr_waiters r))\<rparr>"

section \<open>Attempt owners\<close>

record attemptOwner =
  own_workerID :: string
  own_taskID :: string

definition maxAttemptOwnerCacheEntries :: nat where "maxAttemptOwnerCacheEntries = 8192"

text \<open>A full cache evicts one entry, whichever the map iteration yields first; here the first of the
  list.\<close>

definition cachePut :: "string \<Rightarrow> string \<Rightarrow> string \<Rightarrow> attemptOwner table \<Rightarrow> attemptOwner table" where
  "cachePut attemptID workerID taskID entries =
     (let entries = (if tget entries attemptID = None \<and> maxAttemptOwnerCacheEntries \<le> length entries
                     then tl entries else entries)
      in tput attemptID \<lparr> own_workerID = workerID, own_taskID = taskID \<rparr> entries)"

section \<open>Reports of running attempts\<close>

record workerReport =
  rep_workerAt :: time
  rep_receivedAt :: time
  rep_attempts :: "string list"

record reconciler =
  rec_grace :: int
  rec_skew :: int
  rec_reports :: "workerReport table"
  rec_lastSeen :: "time table"

definition newReconciler :: "int \<Rightarrow> int \<Rightarrow> reconciler" where
  "newReconciler grace skew = \<lparr> rec_grace = grace, rec_skew = skew, rec_reports = [], rec_lastSeen = [] \<rparr>"

section \<open>The scheduler\<close>

text \<open>
  \<open>sc_busUp\<close> is what the configured \<^verbatim>\<open>BusUpSince\<close> returns: \<open>None\<close> without the callback, \<open>Some None\<close> while the bus is
  down.  \<open>sc_ctx\<close> is the context the running handler passes on to the store, reduced to the leader epoch it carries:
  the one \<^verbatim>\<open>Run\<close> was called with, except while a request of another component is served (\<open>under\<close>).  \<open>sc_retryWakes\<close> are the pending timers, each a queue and the time it fires.  \<open>sc_next\<close> counts the
  identifiers drawn so far.
\<close>

record sched =
  sc_cfg :: Config
  sc_store :: store
  sc_ctx :: ctx
  sc_clock :: time
  sc_busUp :: "time option option"
  sc_waiters :: waiterRegistry
  sc_disabledWaiters :: waiterRegistry
  sc_attemptCache :: "attemptOwner table"
  sc_retryWakes :: "(string \<times> time) list"
  sc_reconciler :: "reconciler option"
  sc_startedAt :: time
  sc_deposed :: bool
  sc_stopped :: bool
  sc_next :: nat
  sc_events :: "event list"

definition normalizeConfig :: "Config \<Rightarrow> Config" where
  "normalizeConfig cfg =
     (let d = DefaultConfig;
          cfg = (if cfg_AssignBatchSize cfg \<le> 0 then cfg\<lparr>cfg_AssignBatchSize := cfg_AssignBatchSize d\<rparr> else cfg);
          cfg = (if cfg_AssignWorkers cfg \<le> 0 then cfg\<lparr>cfg_AssignWorkers := cfg_AssignWorkers d\<rparr> else cfg);
          cfg = (if cfg_AssignInterval cfg \<le> 0 then cfg\<lparr>cfg_AssignInterval := cfg_AssignInterval d\<rparr> else cfg);
          cfg = (if cfg_WorkerTimeout cfg \<le> 0 then cfg\<lparr>cfg_WorkerTimeout := cfg_WorkerTimeout d\<rparr> else cfg);
          cfg = (if cfg_HeartbeatSweepInterval cfg \<le> 0
                 then cfg\<lparr>cfg_HeartbeatSweepInterval := cfg_HeartbeatSweepInterval d\<rparr> else cfg);
          cfg = (if cfg_AssignedTaskTimeout cfg \<le> 0
                 then cfg\<lparr>cfg_AssignedTaskTimeout := cfg_AssignedTaskTimeout d\<rparr> else cfg);
          cfg = (if cfg_DefaultMaxAttempts cfg \<le> 0
                 then cfg\<lparr>cfg_DefaultMaxAttempts := cfg_DefaultMaxAttempts d\<rparr> else cfg);
          cfg = (if cfg_RetryDelay cfg < 0 then cfg\<lparr>cfg_RetryDelay := cfg_RetryDelay d\<rparr> else cfg);
          cfg = cfg\<lparr>cfg_ExprLimits := orDefaults (cfg_ExprLimits cfg)\<rparr>;
          cfg = (if cfg_BusReconnectGrace cfg \<le> 0
                 then cfg\<lparr>cfg_BusReconnectGrace := cfg_WorkerTimeout cfg\<rparr> else cfg)
      in if 0 < cfg_ReconcileGrace cfg
         then cfg\<lparr>cfg_ReconcileGrace := max (cfg_ReconcileGrace cfg) (cfg_WorkerTimeout cfg)\<rparr> else cfg)"

definition NewScheduler :: "Config \<Rightarrow> ctx \<Rightarrow> store \<Rightarrow> sched" where
  "NewScheduler cfg0 ctx s =
     (let cfg = normalizeConfig cfg0
      in \<lparr> sc_cfg = cfg, sc_store = s, sc_ctx = ctx, sc_clock = 0, sc_busUp = None,
           sc_waiters = newWaiterRegistry, sc_disabledWaiters = newWaiterRegistry, sc_attemptCache = [],
           sc_retryWakes = [],
           sc_reconciler = (if 0 < cfg_ReconcileGrace cfg
                            then Some (newReconciler (cfg_ReconcileGrace cfg) (cfg_WorkerTimeout cfg)) else None),
           sc_startedAt = 0, sc_deposed = False, sc_stopped = False, sc_next = 0, sc_events = [] \<rparr>)"

section \<open>Actions\<close>

type_synonym 'a act = "sched \<Rightarrow> sched \<times> 'a sres"

definition ret :: "'a \<Rightarrow> 'a act" where
  "ret x \<sigma> = (\<sigma>, Inr x)"

definition andThen :: "'a act \<Rightarrow> ('a \<Rightarrow> 'b act) \<Rightarrow> 'b act" where
  "andThen m f \<sigma> = (case m \<sigma> of (\<sigma>', Inl e) \<Rightarrow> (\<sigma>', Inl e) | (\<sigma>', Inr x) \<Rightarrow> f x \<sigma>')"

definition throw :: "store_error \<Rightarrow> 'a act" where
  "throw e \<sigma> = (\<sigma>, Inl e)"

text \<open>An error kept as a value, for the callers that look at it.\<close>

definition catch :: "'a act \<Rightarrow> 'a sres act" where
  "catch m \<sigma> = (case m \<sigma> of (\<sigma>', r) \<Rightarrow> (\<sigma>', Inr r))"

definition asks :: "(sched \<Rightarrow> 'a) \<Rightarrow> 'a act" where
  "asks f \<sigma> = (\<sigma>, Inr (f \<sigma>))"

definition change :: "(sched \<Rightarrow> sched) \<Rightarrow> unit act" where
  "change f \<sigma> = (f \<sigma>, Inr ())"

definition emit :: "event \<Rightarrow> unit act" where
  "emit e = change (\<lambda>\<sigma>. \<sigma>\<lparr>sc_events := sc_events \<sigma> @ [e]\<rparr>)"

definition onStore :: "(ctx \<Rightarrow> time \<Rightarrow> store \<Rightarrow> store \<times> 'a sres) \<Rightarrow> 'a act" where
  "onStore f \<sigma> = (case f (sc_ctx \<sigma>) (sc_clock \<sigma>) (sc_store \<sigma>) of (s', r) \<Rightarrow> (\<sigma>\<lparr>sc_store := s'\<rparr>, r))"

text \<open>A call that comes with a context of its own: what it runs writes under that context, not under the scheduler's.\<close>

definition under :: "ctx \<Rightarrow> 'a act \<Rightarrow> 'a act" where
  "under ctx m \<sigma> = (case m (\<sigma>\<lparr>sc_ctx := ctx\<rparr>) of (\<sigma>', r) \<Rightarrow> (\<sigma>'\<lparr>sc_ctx := sc_ctx \<sigma>\<rparr>, r))"

definition reading :: "(store \<Rightarrow> 'a sres) \<Rightarrow> 'a act" where
  "reading f \<sigma> = (\<sigma>, f (sc_store \<sigma>))"

fun forEach :: "('a \<Rightarrow> unit act) \<Rightarrow> 'a list \<Rightarrow> unit act" where
  "forEach f [] \<sigma> = (\<sigma>, Inr ())"
| "forEach f (x # xs) \<sigma> = (case f x \<sigma> of (\<sigma>', Inl e) \<Rightarrow> (\<sigma>', Inl e) | (\<sigma>', Inr _) \<Rightarrow> forEach f xs \<sigma>')"

text \<open>A loop whose body may leave it: it stops after the first round that returns \<open>True\<close>.\<close>

fun loopUntil :: "('a \<Rightarrow> bool act) \<Rightarrow> 'a list \<Rightarrow> unit act" where
  "loopUntil f [] \<sigma> = (\<sigma>, Inr ())"
| "loopUntil f (x # xs) \<sigma> =
     (case f x \<sigma> of
        (\<sigma>', Inl e) \<Rightarrow> (\<sigma>', Inl e)
      | (\<sigma>', Inr stop) \<Rightarrow> if stop then (\<sigma>', Inr ()) else loopUntil f xs \<sigma>')"

lemmas act_defs = ret_def andThen_def throw_def catch_def asks_def change_def emit_def onStore_def reading_def

lemma fst_andThen: "fst (andThen m f \<sigma>) = (case snd (m \<sigma>) of Inl e \<Rightarrow> fst (m \<sigma>) | Inr x \<Rightarrow> fst (f x (fst (m \<sigma>))))"
  by (simp add: andThen_def split: prod.split sum.split)

lemma snd_andThen: "snd (andThen m f \<sigma>) = (case snd (m \<sigma>) of Inl e \<Rightarrow> Inl e | Inr x \<Rightarrow> snd (f x (fst (m \<sigma>))))"
  by (simp add: andThen_def split: prod.split sum.split)

lemma act_primitives:
  "fst (ret x \<sigma>) = \<sigma>" "snd (ret x \<sigma>) = Inr x"
  "fst (throw e \<sigma>) = \<sigma>" "snd (throw e \<sigma>) = Inl e"
  "fst (catch m \<sigma>) = fst (m \<sigma>)" "snd (catch m \<sigma>) = Inr (snd (m \<sigma>))"
  "fst (asks g \<sigma>) = \<sigma>" "snd (asks g \<sigma>) = Inr (g \<sigma>)"
  "fst (change h \<sigma>) = h \<sigma>" "snd (change h \<sigma>) = Inr ()"
  "fst (emit ev \<sigma>) = \<sigma>\<lparr>sc_events := sc_events \<sigma> @ [ev]\<rparr>" "snd (emit ev \<sigma>) = Inr ()"
  "fst (onStore F \<sigma>) = \<sigma>\<lparr>sc_store := fst (F (sc_ctx \<sigma>) (sc_clock \<sigma>) (sc_store \<sigma>))\<rparr>"
  "snd (onStore F \<sigma>) = snd (F (sc_ctx \<sigma>) (sc_clock \<sigma>) (sc_store \<sigma>))"
  "fst (reading R \<sigma>) = \<sigma>" "snd (reading R \<sigma>) = R (sc_store \<sigma>)"
  by (simp_all add: act_defs split: prod.split)

lemma forEach_emit:
  "fst (forEach (\<lambda>t. emit (f t)) ts \<sigma>) = \<sigma>\<lparr>sc_events := sc_events \<sigma> @ map f ts\<rparr>"
  "snd (forEach (\<lambda>t. emit (f t)) ts \<sigma>) = Inr ()"
  by (induction ts arbitrary: \<sigma>) (simp_all add: emit_def change_def)

lemmas act_simps = fst_andThen snd_andThen act_primitives forEach_emit

section \<open>The fence\<close>

definition fencedOff :: "unit act" where
  "fencedOff \<sigma> =
     (if sc_deposed \<sigma> then (\<sigma>, Inr ())
      else if cfg_OnFenced (sc_cfg \<sigma>) then emit CallOnFenced (\<sigma>\<lparr>sc_deposed := True\<rparr>)
      else (\<sigma>\<lparr>sc_deposed := True\<rparr>, Inr ()))"

definition stopIfFenced :: "'a sres \<Rightarrow> bool act" where
  "stopIfFenced r =
     (if r = Inl ErrFenced then andThen fencedOff (\<lambda>_. ret True) else ret False)"

definition warnUnlessStopped :: "'a sres \<Rightarrow> unit act" where
  "warnUnlessStopped r = andThen (stopIfFenced r) (\<lambda>_. ret ())"

definition unlessDeposed :: "unit act \<Rightarrow> bool act" where
  "unlessDeposed m = andThen (asks sc_deposed) (\<lambda>d. if d then ret True else andThen m (\<lambda>_. ret False))"

section \<open>Fresh identifiers\<close>

text \<open>\<^verbatim>\<open>uuid.NewString\<close> of an external package: \<open>uuid n\<close> is the identifier drawn by its \<open>n\<close>-th call.  Its
  documented behaviour, that no two calls return the same, is the hypothesis \<open>inj uuid\<close>.\<close>

definition newID :: "(nat \<Rightarrow> string) \<Rightarrow> string act" where
  "newID uuid \<sigma> = (\<sigma>\<lparr>sc_next := sc_next \<sigma> + 1\<rparr>, Inr (uuid (sc_next \<sigma>)))"

section \<open>Waking workers\<close>

definition WakeQueue :: "string \<Rightarrow> unit act" where
  "WakeQueue queueID = change (\<lambda>\<sigma>.
     let r = notify queueID (sc_waiters \<sigma>)
     in \<sigma>\<lparr>sc_waiters := (if queueID \<noteq> WildcardQueueToken then notify WildcardQueueToken r else r)\<rparr>)"

definition WakeWorker :: "string \<Rightarrow> unit act" where
  "WakeWorker workerID = change (\<lambda>\<sigma>. \<sigma>\<lparr>sc_disabledWaiters := notify workerID (sc_disabledWaiters \<sigma>)\<rparr>)"

definition notifyQueueForJob :: "string \<Rightarrow> unit act" where
  "notifyQueueForJob jobID =
     andThen (catch (reading (GetJob jobID))) (\<lambda>r.
       case r of Inl e \<Rightarrow> ret () | Inr job \<Rightarrow> WakeQueue (job_QueueID job))"

lemma WakeQueue_frame [simp]:
  "sc_store (fst (WakeQueue q \<sigma>)) = sc_store \<sigma>" "sc_ctx (fst (WakeQueue q \<sigma>)) = sc_ctx \<sigma>"
  "sc_clock (fst (WakeQueue q \<sigma>)) = sc_clock \<sigma>" "sc_next (fst (WakeQueue q \<sigma>)) = sc_next \<sigma>"
  "sc_deposed (fst (WakeQueue q \<sigma>)) = sc_deposed \<sigma>" "snd (WakeQueue q \<sigma>) = Inr ()"
  by (simp_all add: WakeQueue_def change_def Let_def)

section \<open>Acknowledging messages\<close>

definition nakBaseDelay :: int where "nakBaseDelay = Second"
definition nakMaxDelay :: int where "nakMaxDelay = 30 * Second"

function nakLoop :: "nat \<Rightarrow> nat \<Rightarrow> int \<Rightarrow> int" where
  "nakLoop i n d = (if i < n \<and> d < nakMaxDelay then nakLoop (i + 1) n (d * 2) else d)"
  by pat_completeness auto
termination by (relation "measure (\<lambda>(i, n, d). n - i)") auto

definition nakDelay :: "nat \<Rightarrow> int" where
  "nakDelay n = min (nakLoop 1 n nakBaseDelay) nakMaxDelay"

text \<open>A delivered message: its subject, the broker's metadata (absent when it has none) and its decoded
  payload (\<open>None\<close> when the JSON does not decode).\<close>

record msg_meta =
  mm_Stream :: int
  mm_NumDelivered :: nat
  mm_Timestamp :: "time option"

record 'm msg =
  msg_Subject :: string
  msg_Meta :: "msg_meta option"
  msg_Data :: "'m option"

definition leftForNewLeader :: "sched \<Rightarrow> bool" where
  "leftForNewLeader \<sigma> \<longleftrightarrow> sc_deposed \<sigma>"

definition ackMsg :: "'m msg \<Rightarrow> unit act" where
  "ackMsg m \<sigma> = (if leftForNewLeader \<sigma> then (\<sigma>, Inr ()) else emit (AckMsg (msg_Subject m)) \<sigma>)"

definition nakMsg :: "'m msg \<Rightarrow> unit act" where
  "nakMsg m \<sigma> =
     (if leftForNewLeader \<sigma> then (\<sigma>, Inr ())
      else emit (NakMsg (msg_Subject m)
        (nakDelay (case msg_Meta m of None \<Rightarrow> 0 | Some md \<Rightarrow> mm_NumDelivered md))) \<sigma>)"

definition brokerAt :: "'m msg \<Rightarrow> time option" where
  "brokerAt m = (case msg_Meta m of None \<Rightarrow> None | Some md \<Rightarrow> mm_Timestamp md)"

section \<open>Retry policy\<close>

record RetryPolicy =
  rp_MaxAttempts :: int
  rp_RetryDelay :: int
  rp_FailureLimit :: int

fun coalesceInt :: "int \<Rightarrow> int option list \<Rightarrow> int" where
  "coalesceInt d [] = d"
| "coalesceInt d (Some v # vs) = v"
| "coalesceInt d (None # vs) = coalesceInt d vs"

text \<open>\<^verbatim>\<open>int(def.RetryDelay.Seconds())\<close> truncates towards zero.\<close>

definition wholeSeconds :: "int \<Rightarrow> int" where
  "wholeSeconds d = (if d < 0 then - ((- d) div Second) else d div Second)"

definition ResolveRetryPolicy :: "Job \<Rightarrow> Queue \<Rightarrow> Farm \<Rightarrow> RetryPolicy \<Rightarrow> RetryPolicy" where
  "ResolveRetryPolicy job queue farm def =
     (let mx = coalesceInt (rp_MaxAttempts def) [job_MaxAttempts job, queue_MaxAttempts queue, farm_MaxAttempts farm];
          mx = (if mx < 1 then 1 else mx);
          delaySec = coalesceInt (wholeSeconds (rp_RetryDelay def))
            [job_RetryDelaySeconds job, queue_RetryDelaySeconds queue, farm_RetryDelaySeconds farm];
          delaySec = (if delaySec < 0 then 0 else delaySec);
          limit = coalesceInt (rp_FailureLimit def)
            [job_FailureLimit job, queue_FailureLimit queue, farm_FailureLimit farm];
          limit = (if limit < 0 then 0 else limit)
      in \<lparr> rp_MaxAttempts = mx, rp_RetryDelay = delaySec * Second, rp_FailureLimit = limit \<rparr>)"

definition RetryDefaults :: "Config \<Rightarrow> RetryPolicy" where
  "RetryDefaults cfg = \<lparr> rp_MaxAttempts = cfg_DefaultMaxAttempts cfg, rp_RetryDelay = cfg_RetryDelay cfg,
     rp_FailureLimit = cfg_DefaultFailureLimit cfg \<rparr>"

end
