(* ===== verification/SchedDeps.thy ===== *)
theory SchedDeps
  imports SchedBase DepsModel
begin

text \<open>
  Dependencies between jobs (\<^verbatim>\<open>scheduler/jobdeps.go\<close>): a job submitted with upstream jobs is blocked until all
  of them completed; when one ends otherwise the blocked job is canceled, and with it what depends
  on it.
\<close>

section \<open>Releasing and cancelling one blocked job\<close>

definition canceledTaskEvent :: "time \<Rightarrow> Task \<Rightarrow> event" where
  "canceledTaskEvent now t =
     NotifyTask (taskEvent (task_JobID t) (task_ID t) (task_Name t) TaskStatusCanceled now)"

definition releaseBlockedJob :: "Job \<Rightarrow> unit act" where
  "releaseBlockedJob job =
     andThen (onStore (\<lambda>c now. ReleaseBlockedJob c (job_ID job) now)) (\<lambda>released.
     if \<not> released then ret ()
     else andThen (onStore (\<lambda>c now. ResolveDependencies c (job_ID job) now)) (\<lambda>_.
          andThen (WakeQueue (job_QueueID job)) (\<lambda>_.
          andThen (asks sc_clock) (\<lambda>now.
          emit (NotifyJob (jobEvent (job_ID job) (job_status_string JobStatusPending) now))))))"

definition cancelBlockedJob :: "string \<Rightarrow> unit act" where
  "cancelBlockedJob jobID =
     andThen (asks sc_clock) (\<lambda>now.
     andThen (onStore (\<lambda>c now. CancelBlockedJob c jobID FailureReasonUpstreamFailed now)) (\<lambda>(canceled, tasks).
     if \<not> canceled then ret ()
     else andThen (forEach (\<lambda>t. emit (canceledTaskEvent now t)) tasks) (\<lambda>_.
          emit (NotifyJob (jobEvent jobID (job_status_string JobStatusCanceled) now)))))"

section \<open>Deciding\<close>

datatype blocked_fate = LeaveBlocked | CancelBlocked | ReleaseBlocked Job

text \<open>The loop over the upstream jobs of \<^verbatim>\<open>reconcileBlockedJob\<close>, from \<open>allCompleted\<close> on.\<close>

fun upstreamsFate :: "store \<Rightarrow> Job \<Rightarrow> bool \<Rightarrow> string list \<Rightarrow> blocked_fate" where
  "upstreamsFate s job allCompleted [] = (if \<not> allCompleted then LeaveBlocked else ReleaseBlocked job)"
| "upstreamsFate s job allCompleted (uid # uids) =
     (case GetJob uid s of
        Inl e \<Rightarrow> CancelBlocked
      | Inr up \<Rightarrow>
          (case job_Status up of
             JobStatusCompleted \<Rightarrow> upstreamsFate s job allCompleted uids
           | JobStatusFailed \<Rightarrow> CancelBlocked
           | JobStatusCanceled \<Rightarrow> CancelBlocked
           | _ \<Rightarrow> upstreamsFate s job False uids))"

definition blockedFate :: "string \<Rightarrow> store \<Rightarrow> blocked_fate" where
  "blockedFate jobID s =
     (case GetJob jobID s of
        Inl e \<Rightarrow> LeaveBlocked
      | Inr job \<Rightarrow>
          if job_Status job \<noteq> JobStatusBlocked then LeaveBlocked
          else upstreamsFate s job True (ListJobDependencyIDs jobID s))"

section \<open>The cascade\<close>

definition blockedJobs :: "store \<Rightarrow> nat" where
  "blockedJobs s = tcount (\<lambda>j. job_Status j = JobStatusBlocked) (st_jobs s)"

lemma tcount_tput_drop:
  assumes "tget m k = Some w" "p w" "\<not> p v"
  shows "tcount p (tput k v m) < tcount p m"
  using assms
proof (induction m)
  case (Cons x m)
  obtain a b where "x = (a, b)" by fastforce
  then show ?case using Cons by (auto simp: tcount_alt tput_def tget_def split: if_splits)
qed (simp add: tget_def)

lemma resolveLoop_jobs: "st_jobs (fst (resolveLoop c clock m sts n s)) = st_jobs s"
proof (induction sts arbitrary: n s)
  case (Cons st sts)
  have "st_jobs (fst (ReleaseStep c i clock s)) = st_jobs s" for i s
    by (simp add: ReleaseStep_def movePendingStep_def fenced_def transitionPendingTasksLocked_def
        transitionPendingTasksWhereLocked_def Let_def split: option.split)
  then show ?case using Cons by (simp split: prod.split sum.split) (metis fst_conv)
qed simp

lemma ResolveDependencies_jobs: "st_jobs (fst (ResolveDependencies c jid clock s)) = st_jobs s"
  by (simp add: ResolveDependencies_def resolveLoop_jobs Let_def)

lemma cancelBlockedJob_store:
  "sc_store (fst (cancelBlockedJob i \<sigma>)) =
     fst (CancelBlockedJob (sc_ctx \<sigma>) i FailureReasonUpstreamFailed (sc_clock \<sigma>) (sc_store \<sigma>))"
  "isl (snd (cancelBlockedJob i \<sigma>)) \<longleftrightarrow>
     isl (snd (CancelBlockedJob (sc_ctx \<sigma>) i FailureReasonUpstreamFailed (sc_clock \<sigma>) (sc_store \<sigma>)))"
  by (auto simp: cancelBlockedJob_def act_simps split: sum.split)

lemma releaseBlockedJob_jobs:
  "st_jobs (sc_store (fst (releaseBlockedJob job \<sigma>))) =
     st_jobs (fst (ReleaseBlockedJob (sc_ctx \<sigma>) (job_ID job) (sc_clock \<sigma>) (sc_store \<sigma>)))"
  by (auto simp: releaseBlockedJob_def act_simps ResolveDependencies_jobs split: sum.split)

lemma cancelBlockedJob_fewer:
  assumes "blockedFate i (sc_store \<sigma>) = CancelBlocked" "cancelBlockedJob i \<sigma> = (\<sigma>', Inr u)"
  shows "blockedJobs (sc_store \<sigma>') < blockedJobs (sc_store \<sigma>)"
proof -
  obtain j where j: "tget (st_jobs (sc_store \<sigma>)) i = Some j" "job_Status j = JobStatusBlocked"
    using assms(1) by (auto simp: blockedFate_def GetJob_def split: option.splits if_splits)
  have "\<not> isl (snd (CancelBlockedJob (sc_ctx \<sigma>) i FailureReasonUpstreamFailed (sc_clock \<sigma>) (sc_store \<sigma>)))"
    using cancelBlockedJob_store(2) [of i \<sigma>] assms(2) by simp
  then show ?thesis
    using j cancelBlockedJob_store(1) [of i \<sigma>] assms(2)
    by (auto simp: CancelBlockedJob_def fenced_def transitionPendingTasksWhereLocked_def Let_def blockedJobs_def
        intro!: tcount_tput_drop split: option.splits)
qed

lemma releaseBlockedJob_fewer:
  assumes "releaseBlockedJob job \<sigma> = (\<sigma>', r)"
  shows "blockedJobs (sc_store \<sigma>') \<le> blockedJobs (sc_store \<sigma>)"
  using releaseBlockedJob_jobs [of job \<sigma>] assms
  by (auto simp: blockedJobs_def ReleaseBlockedJob_def fenced_def Let_def
      intro!: less_imp_le [OF tcount_tput_drop] split: option.splits if_splits)

text \<open>
  \<^verbatim>\<open>ReconcileDependents\<close>, \<^verbatim>\<open>reconcileBlockedJob\<close> and \<^verbatim>\<open>cancelAndCascade\<close> call each other.  The recursion is unfolded
  into a list of jobs still to look at: cancelling a job puts its dependents in front.  Every
  cancellation leaves fewer blocked jobs, so the cascade ends.
\<close>

function reconcileWork :: "string list \<Rightarrow> unit act" where
  "reconcileWork [] \<sigma> = (\<sigma>, Inr ())"
| "reconcileWork (i # work) \<sigma> =
     (case blockedFate i (sc_store \<sigma>) of
        LeaveBlocked \<Rightarrow> reconcileWork work \<sigma>
      | CancelBlocked \<Rightarrow>
          (case cancelBlockedJob i \<sigma> of
             (\<sigma>', Inl e) \<Rightarrow> (\<sigma>', Inl e)
           | (\<sigma>', Inr _) \<Rightarrow> reconcileWork (ListDependents i (sc_store \<sigma>') @ work) \<sigma>')
      | ReleaseBlocked job \<Rightarrow>
          (case releaseBlockedJob job \<sigma> of
             (\<sigma>', Inl e) \<Rightarrow> (\<sigma>', Inl e)
           | (\<sigma>', Inr _) \<Rightarrow> reconcileWork work \<sigma>'))"
  by pat_completeness auto
termination
proof (relation "measures [\<lambda>(w, \<sigma>). blockedJobs (sc_store \<sigma>), \<lambda>(w, \<sigma>). length w]", goal_cases)
  case (3 i work \<sigma> \<sigma>' r u)
  then show ?case using cancelBlockedJob_fewer [of i \<sigma> \<sigma>' u] by simp
next
  case (4 i work \<sigma> job \<sigma>' r u)
  then have "releaseBlockedJob job \<sigma> = (\<sigma>', Inr u)" by simp
  then show ?case using releaseBlockedJob_fewer [of job \<sigma> \<sigma>' "Inr u"] by (simp add: order_le_less)
qed auto

text \<open>Its context argument is \<open>sc_ctx\<close>: a handler passes on the one it runs under, and a call from the API runs
  \<open>under\<close> the context of the request.\<close>

definition ReconcileDependents :: "string \<Rightarrow> unit act" where
  "ReconcileDependents upstreamJobID \<sigma> = reconcileWork (ListDependents upstreamJobID (sc_store \<sigma>)) \<sigma>"

definition reconcileBlockedJob :: "string \<Rightarrow> unit act" where
  "reconcileBlockedJob jobID = reconcileWork [jobID]"

definition cancelAndCascade :: "string \<Rightarrow> unit act" where
  "cancelAndCascade jobID = andThen (cancelBlockedJob jobID) (\<lambda>_. ReconcileDependents jobID)"

definition sweepBlockedJobs :: "unit act" where
  "sweepBlockedJobs =
     andThen (asks (\<lambda>\<sigma>. ListBlockedJobs (sc_store \<sigma>))) (\<lambda>blocked.
     forEach (\<lambda>job. andThen (catch (reconcileBlockedJob (job_ID job))) (\<lambda>r.
       if r = Inl ErrFenced then throw ErrFenced else ret ())) blocked)"

text \<open>The unfolded recursion satisfies the equations of the code.\<close>

lemma reconcileWork_append:
  "reconcileWork (xs @ ys) \<sigma> = andThen (reconcileWork xs) (\<lambda>_. reconcileWork ys) \<sigma>"
  by (induction xs \<sigma> rule: reconcileWork.induct)
    (auto simp: andThen_def split: blocked_fate.split prod.split sum.split)

lemma ReconcileDependents_eq:
  "ReconcileDependents up \<sigma> = forEach reconcileBlockedJob (ListDependents up (sc_store \<sigma>)) \<sigma>"
proof -
  have "reconcileWork is \<sigma> = forEach reconcileBlockedJob is \<sigma>" for "is"
  proof (induction "is" arbitrary: \<sigma>)
    case (Cons i "is")
    show ?case
      using reconcileWork_append [of "[i]" "is" \<sigma>] Cons.IH
      by (simp add: reconcileBlockedJob_def andThen_def del: reconcileWork.simps split: prod.split sum.split)
  qed simp
  then show ?thesis by (simp add: ReconcileDependents_def)
qed

lemma reconcileBlockedJob_eq:
  "reconcileBlockedJob jobID \<sigma> =
     (case blockedFate jobID (sc_store \<sigma>) of
        LeaveBlocked \<Rightarrow> (\<sigma>, Inr ())
      | CancelBlocked \<Rightarrow> cancelAndCascade jobID \<sigma>
      | ReleaseBlocked job \<Rightarrow> releaseBlockedJob job \<sigma>)"
  by (auto simp: reconcileBlockedJob_def cancelAndCascade_def ReconcileDependents_def andThen_def
      split: blocked_fate.split prod.split sum.split)

end
