(* ===== verification/SchedTasks.thy ===== *)
theory SchedTasks
  imports SchedDeps
begin

text \<open>
  The handlers of task reports (\<^verbatim>\<open>scheduler/taskstatus.go\<close>, \<^verbatim>\<open>failure.go\<close>) and the user's actions on tasks and
  jobs (\<^verbatim>\<open>cancellation.go\<close>, \<^verbatim>\<open>retry.go\<close>).
\<close>

section \<open>Completion of steps and jobs\<close>

definition checkJobCompletion :: "string \<Rightarrow> unit act" where
  "checkJobCompletion jobID =
     andThen (onStore (\<lambda>c now. FinalizeJob c jobID now)) (\<lambda>(status, changed).
     case status of
       None \<Rightarrow> ret ()
     | Some st \<Rightarrow>
         andThen (asks sc_clock) (\<lambda>now.
         andThen (if changed then emit (NotifyJob (jobEvent jobID (job_status_string st) now)) else ret ()) (\<lambda>_.
         andThen (catch (ReconcileDependents jobID)) (\<lambda>r.
         if r = Inl ErrFenced then throw ErrFenced else ret ()))))"

definition propagateStepDependencies :: "string \<Rightarrow> step_status \<Rightarrow> unit act" where
  "propagateStepDependencies jobID newStepStatus =
     (if newStepStatus = StepStatusCompleted
      then andThen (onStore (\<lambda>c now. ResolveDependencies c jobID now)) (\<lambda>n.
           if 0 < n then notifyQueueForJob jobID else ret ())
      else andThen (onStore (\<lambda>c now. CancelDependents c jobID now)) (\<lambda>(n, canceledTasks).
           andThen (asks sc_clock) (\<lambda>now.
           forEach (\<lambda>t. emit (canceledTaskEvent now t)) canceledTasks)))"

definition checkStepCompletion :: "string \<Rightarrow> string \<Rightarrow> unit act" where
  "checkStepCompletion stepID jobID =
     andThen (onStore (\<lambda>c now. FinalizeStep c stepID now)) (\<lambda>(status, changed).
     case status of
       None \<Rightarrow> ret ()
     | Some st \<Rightarrow>
         andThen (propagateStepDependencies jobID st) (\<lambda>_. checkJobCompletion jobID))"

section \<open>Running reports\<close>

definition publishCancel :: "TaskCancelMsg \<Rightarrow> string \<Rightarrow> unit act" where
  "publishCancel m workerID = emit (PublishTaskCancel workerID m)"

definition maybePromoteJobRunning :: "string \<Rightarrow> unit act" where
  "maybePromoteJobRunning jobID =
     andThen (asks sc_clock) (\<lambda>now.
     andThen (catch (onStore (\<lambda>c now. PromoteJobRunning c jobID now))) (\<lambda>r.
     andThen (stopIfFenced r) (\<lambda>stop.
     if stop then ret ()
     else (case r of
             Inl e \<Rightarrow> ret ()
           | Inr promoted \<Rightarrow>
               if \<not> promoted then ret ()
               else emit (NotifyJob (jobEvent jobID (job_status_string JobStatusRunning) now))))))"

definition reportedAt :: "TaskStatusMsg \<Rightarrow> time \<Rightarrow> time" where
  "reportedAt m clock = (case sm_At m of None \<Rightarrow> clock | Some at \<Rightarrow> at)"

definition snapshotProgress :: "TaskAttempt \<Rightarrow> TaskStatusMsg \<Rightarrow> time \<Rightarrow> AttemptProgress" where
  "snapshotProgress attempt m clock =
     \<lparr> ap_AttemptID = att_ID attempt, ap_TaskID = sm_TaskID m, ap_Progress = sm_LastProgress m,
       ap_StatusText = SanitizeStatusText (sm_Message m), ap_At = reportedAt m clock \<rparr>"

definition staleRunning :: "TaskAttempt \<Rightarrow> TaskStatusMsg \<Rightarrow> string \<Rightarrow> unit act" where
  "staleRunning attempt m jobID =
     andThen (asks sc_clock) (\<lambda>now.
     publishCancel \<lparr> cm_TaskID = sm_TaskID m, cm_AttemptID = att_ID attempt, cm_JobID = jobID, cm_CanceledAt = now \<rparr>
       (att_WorkerID attempt))"

definition handleRunningSnapshot :: "TaskAttempt \<Rightarrow> TaskStatusMsg \<Rightarrow> AttemptProgress \<Rightarrow> bool act" where
  "handleRunningSnapshot attempt m p =
     andThen (asks sc_clock) (\<lambda>now.
     andThen (catch (onStore (\<lambda>c _. RecordAttemptProgress c p))) (\<lambda>r.
     case r of
       Inl e \<Rightarrow> if e = ErrNotFound then ret True else throw e
     | Inr (outcome, jobID) \<Rightarrow>
         (case outcome of
            ProgressRecorded \<Rightarrow>
              andThen (emit (NotifyTask ((taskEvent jobID (sm_TaskID m) [] TaskStatusRunning now)
                \<lparr>te_WorkerID := att_WorkerID attempt, te_Progress := ap_Progress p,
                 te_StatusText := ap_StatusText p\<rparr>))) (\<lambda>_. ret True)
          | ProgressNotLive \<Rightarrow> andThen (staleRunning attempt m jobID) (\<lambda>_. ret True)
          | ProgressTaskAssigned \<Rightarrow> ret False
          | ProgressOutOfOrder \<Rightarrow> ret True)))"

definition recordSnapshotAfterStart :: "AttemptProgress \<Rightarrow> unit act" where
  "recordSnapshotAfterStart p =
     andThen (catch (onStore (\<lambda>c _. RecordAttemptProgress c p))) warnUnlessStopped"

text \<open>\<^verbatim>\<open>handleTaskRunning\<close> from the call of \<^verbatim>\<open>StartTaskAttempt\<close> on.\<close>

definition startReported :: "TaskAttempt \<Rightarrow> TaskStatusMsg \<Rightarrow> AttemptProgress option \<Rightarrow> unit act" where
  "startReported attempt m snap =
     andThen (onStore (\<lambda>c now. StartTaskAttempt c (att_ID attempt) (sm_TaskID m) (sm_SessionID m) now)) (\<lambda>started.
     if \<not> started then staleRunning attempt m (sm_JobID m)
     else andThen (catch (reading (GetTask (sm_TaskID m)))) (\<lambda>r.
          case r of
            Inl e \<Rightarrow> ret ()
          | Inr task \<Rightarrow>
              andThen (asks sc_clock) (\<lambda>now.
              let ev = (taskEvent (task_JobID task) (task_ID task) (task_Name task) TaskStatusRunning now)
                         \<lparr>te_WorkerID := att_WorkerID attempt\<rparr>
              in andThen (case snap of None \<Rightarrow> ret () | Some p \<Rightarrow> recordSnapshotAfterStart p) (\<lambda>_.
                 andThen (emit (NotifyTask (case snap of
                     None \<Rightarrow> ev | Some p \<Rightarrow> ev\<lparr>te_Progress := ap_Progress p, te_StatusText := ap_StatusText p\<rparr>))) (\<lambda>_.
                 maybePromoteJobRunning (task_JobID task))))))"

definition handleTaskRunning :: "TaskAttempt \<Rightarrow> TaskStatusMsg \<Rightarrow> unit act" where
  "handleTaskRunning attempt m =
     (if sm_LastProgress m \<noteq> None \<or> sm_Message m \<noteq> []
      then andThen (asks sc_clock) (\<lambda>now.
           let p = snapshotProgress attempt m now
           in andThen (handleRunningSnapshot attempt m p) (\<lambda>done.
              if done then ret () else startReported attempt m (Some p)))
      else startReported attempt m None)"

section \<open>Terminal reports\<close>

definition failureReasonOrFallback :: "string \<Rightarrow> int option \<Rightarrow> task_status \<Rightarrow> string" where
  "failureReasonOrFallback msg exitCode status =
     (if msg \<noteq> [] then msg
      else if status = TaskStatusFailed
      then (case exitCode of Some n \<Rightarrow> ''failed (exit '' @ Itoa n @ '')'' | None \<Rightarrow> ''failed'')
      else [])"

definition evictAttempt :: "string \<Rightarrow> unit act" where
  "evictAttempt attemptID = change (\<lambda>\<sigma>. \<sigma>\<lparr>sc_attemptCache := tdel attemptID (sc_attemptCache \<sigma>)\<rparr>)"

definition handleTaskTerminal ::
  "TaskAttempt \<Rightarrow> TaskStatusMsg \<Rightarrow> task_status \<Rightarrow> attempt_status \<Rightarrow> time \<Rightarrow> unit act" where
  "handleTaskTerminal attempt m taskStatus attemptStatus at =
     (let reason = (if taskStatus = TaskStatusFailed \<or> taskStatus = TaskStatusCanceled
                    then failureReasonOrFallback (sm_Message m) (sm_ExitCode m) taskStatus else []);
          ac = \<lparr> ac_AttemptID = att_ID attempt, ac_TaskID = sm_TaskID m, ac_TaskStatus = taskStatus,
                 ac_AttemptStatus = attemptStatus, ac_ExitCode = sm_ExitCode m, ac_SessionID = sm_SessionID m,
                 ac_Message = sm_Message m, ac_FailureReason = reason, ac_EndedAt = at \<rparr>
      in andThen (onStore (\<lambda>c now. CompleteTaskAttempt c ac now)) (\<lambda>res.
         andThen (evictAttempt (att_ID attempt)) (\<lambda>_.
         andThen (reading (GetTask (sm_TaskID m))) (\<lambda>task.
         andThen (notifyQueueForJob (task_JobID task)) (\<lambda>_.
         if cr_Rejected res then throw ErrInvalidTransition
         else andThen (asks sc_clock) (\<lambda>now.
              andThen (emit (NotifyTask ((taskEvent (task_JobID task) (task_ID task) (task_Name task) taskStatus now)
                \<lparr>te_WorkerID := att_WorkerID attempt\<rparr>))) (\<lambda>_.
              checkStepCompletion (task_StepID task) (task_JobID task))))))))"

section \<open>Failure reports\<close>

definition notifyTaskReclaimed :: "Task \<Rightarrow> unit act" where
  "notifyTaskReclaimed task =
     andThen (asks sc_clock) (\<lambda>now.
     andThen (emit (NotifyTask (taskEvent (task_JobID task) (task_ID task) (task_Name task) TaskStatusReady now))) (\<lambda>_.
     notifyQueueForJob (task_JobID task)))"

text \<open>\<^verbatim>\<open>reclaimAttempt\<close>; where the code returns true beside an error, the error alone is kept.\<close>

definition reclaimAttempt :: "string \<Rightarrow> string \<Rightarrow> bool act" where
  "reclaimAttempt attemptID taskID =
     andThen (onStore (\<lambda>c now. ReclaimTaskAttempt c attemptID taskID now)) (\<lambda>reclaimed.
     andThen (evictAttempt attemptID) (\<lambda>_.
     if \<not> reclaimed then ret False
     else andThen (reading (GetTask taskID)) (\<lambda>task.
          andThen (notifyTaskReclaimed task) (\<lambda>_. ret True))))"

definition handleTaskShutdown :: "TaskAttempt \<Rightarrow> TaskStatusMsg \<Rightarrow> unit act" where
  "handleTaskShutdown attempt m = andThen (reclaimAttempt (att_ID attempt) (sm_TaskID m)) (\<lambda>_. ret ())"

definition scheduleRetryWake :: "string \<Rightarrow> int \<Rightarrow> unit act" where
  "scheduleRetryWake queueID delay \<sigma> =
     (if delay \<le> 0 then WakeQueue queueID \<sigma>
      else if sc_stopped \<sigma> then (\<sigma>, Inr ())
      else (\<sigma>\<lparr>sc_retryWakes := sc_retryWakes \<sigma> @ [(queueID, sc_clock \<sigma> + delay)]\<rparr>, Inr ()))"

text \<open>A timer that fires leaves the list and wakes its queue.\<close>

definition fireRetryWake :: "string \<times> time \<Rightarrow> unit act" where
  "fireRetryWake w \<sigma> = WakeQueue (fst w) (\<sigma>\<lparr>sc_retryWakes := remove1 w (sc_retryWakes \<sigma>)\<rparr>)"

definition stopRetryWakeTimers :: "unit act" where
  "stopRetryWakeTimers = change (\<lambda>\<sigma>. \<sigma>\<lparr>sc_retryWakes := []\<rparr>)"

definition retryTaskAfterFailure ::
  "Task \<Rightarrow> Job \<Rightarrow> TaskStatusMsg \<Rightarrow> RetryPolicy \<Rightarrow> time \<Rightarrow> unit act" where
  "retryTaskAfterFailure task job m policy at =
     andThen (onStore (\<lambda>c _. RequeueTaskForRetry c (sm_TaskID m) (sm_AttemptID m) (at + rp_RetryDelay policy) at)) (\<lambda>requeued.
     if \<not> requeued then ret ()
     else andThen (emit (NotifyTask (taskEvent (task_JobID task) (task_ID task) (task_Name task) TaskStatusReady at))) (\<lambda>_.
          scheduleRetryWake (job_QueueID job) (rp_RetryDelay policy)))"

definition parkJobAtFailureLimit :: "string \<Rightarrow> int \<Rightarrow> time \<Rightarrow> unit act" where
  "parkJobAtFailureLimit jobID failureLimit at =
     andThen (onStore (\<lambda>c _. ParkJob c jobID (''failure limit reached ('' @ Itoa failureLimit @ '')'') at)) (\<lambda>_.
     emit (NotifyJob (jobEvent jobID (job_status_string JobStatusPaused) at)))"

definition failureReportStillCurrent :: "string \<Rightarrow> string \<Rightarrow> bool act" where
  "failureReportStillCurrent taskID attemptID =
     andThen (reading (GetTaskAttempt attemptID)) (\<lambda>cur.
     if att_Status cur \<noteq> AttemptStatusFailed then ret False
     else andThen (reading (LatestTaskAttempt taskID)) (\<lambda>latest. ret (att_ID latest = attemptID)))"

definition parkedAt :: "RetryPolicy \<Rightarrow> int \<Rightarrow> bool" where
  "parkedAt policy jobFailed \<longleftrightarrow> 0 < rp_FailureLimit policy \<and> rp_FailureLimit policy \<le> jobFailed"

text \<open>\<^verbatim>\<open>handleTaskFailed\<close> once the failure is recorded and the report known to be current.\<close>

definition decideFailure ::
  "TaskAttempt \<Rightarrow> TaskStatusMsg \<Rightarrow> time \<Rightarrow> Task \<Rightarrow> Job \<Rightarrow> RetryPolicy \<Rightarrow> int \<Rightarrow> int \<Rightarrow> unit act" where
  "decideFailure attempt m at task job policy taskFailed jobFailed =
     (let parked = parkedAt policy jobFailed
      in if \<not> parked \<and> taskFailed < rp_MaxAttempts policy
         then retryTaskAfterFailure task job m policy at
         else andThen (if parked then parkJobAtFailureLimit (task_JobID task) (rp_FailureLimit policy) at else ret ()) (\<lambda>_.
              handleTaskTerminal attempt m TaskStatusFailed AttemptStatusFailed at))"

definition handleTaskFailed :: "TaskAttempt \<Rightarrow> TaskStatusMsg \<Rightarrow> time \<Rightarrow> unit act" where
  "handleTaskFailed attempt m at =
     (if sm_Message m = MessageWorkerShutdown then handleTaskShutdown attempt m
      else
        andThen (reading (GetTask (sm_TaskID m))) (\<lambda>task.
        andThen (reading (GetJob (task_JobID task))) (\<lambda>job.
        andThen (reading (GetQueue (job_QueueID job))) (\<lambda>queue.
        andThen (reading (GetFarm (job_FarmID job))) (\<lambda>farm.
        andThen (asks (\<lambda>\<sigma>. ResolveRetryPolicy job queue farm (RetryDefaults (sc_cfg \<sigma>)))) (\<lambda>policy.
        andThen (onStore (\<lambda>c now. RecordTaskFailure c (att_ID attempt) (sm_TaskID m) (sm_ExitCode m) (sm_SessionID m)
                   (sm_Message m) at now)) (\<lambda>(taskFailed, jobFailed, firstClose).
        andThen (evictAttempt (att_ID attempt)) (\<lambda>_.
        andThen (if firstClose then ret True else failureReportStillCurrent (sm_TaskID m) (att_ID attempt)) (\<lambda>proceed.
        if \<not> proceed then ret ()
        else decideFailure attempt m at task job policy taskFailed jobFailed)))))))))"

section \<open>Task reports\<close>

definition processTaskStatus :: "string \<Rightarrow> TaskStatusMsg \<Rightarrow> unit act" where
  "processTaskStatus subjectWorkerID m =
     andThen (catch (reading (GetTaskAttempt (sm_AttemptID m)))) (\<lambda>r.
     case r of
       Inl e \<Rightarrow> if e = ErrNotFound then ret () else throw e
     | Inr attempt \<Rightarrow>
         if att_TaskID attempt \<noteq> sm_TaskID m then ret ()
         else if subjectWorkerID \<noteq> att_WorkerID attempt then ret ()
         else
           andThen (asks (\<lambda>\<sigma>. reportedAt m (sc_clock \<sigma>))) (\<lambda>at.
           if sm_Status m = ''running'' then handleTaskRunning attempt m
           else if sm_Status m = ''succeeded''
           then handleTaskTerminal attempt m TaskStatusSucceeded AttemptStatusSucceeded at
           else if sm_Status m = ''failed'' then handleTaskFailed attempt m at
           else if sm_Status m = ''canceled''
           then handleTaskTerminal attempt m TaskStatusCanceled AttemptStatusCanceled at
           else ret ()))"

definition handleTaskStatusMessage :: "TaskStatusMsg msg \<Rightarrow> unit act" where
  "handleTaskStatusMessage msg =
     (case msg_Data msg of
        None \<Rightarrow> ackMsg msg
      | Some m \<Rightarrow>
          if sm_Version m \<noteq> ProtocolVersion then ackMsg msg
          else if sm_TaskID m = [] \<or> sm_AttemptID m = [] then ackMsg msg
          else (case ParseWorkerSubject (msg_Subject msg) of
                  None \<Rightarrow> ackMsg msg
                | Some (subjectWorkerID, _) \<Rightarrow>
                    andThen (catch (processTaskStatus subjectWorkerID m)) (\<lambda>r.
                    andThen (stopIfFenced r) (\<lambda>stop.
                    if stop then ret ()
                    else (case r of
                            Inr _ \<Rightarrow> ackMsg msg
                          | Inl e \<Rightarrow> if e = ErrInvalidTransition then ackMsg msg else nakMsg msg)))))"

section \<open>Cancellation\<close>

text \<open>The API calls the operations of this and the next section with the context of the request it serves, which
  carries no leader epoch; all that they do to the store, they do under that context.\<close>

definition publishCancelSignals :: "Task list \<Rightarrow> time \<Rightarrow> unit act" where
  "publishCancelSignals activeTasks canceledAt =
     forEach (\<lambda>t. if task_AssignedWorkerID t = [] then ret ()
        else publishCancel \<lparr> cm_TaskID = task_ID t, cm_AttemptID = [], cm_JobID = task_JobID t, cm_CanceledAt = canceledAt \<rparr>
          (task_AssignedWorkerID t)) activeTasks"

definition CancelJob :: "ctx \<Rightarrow> string \<Rightarrow> unit act" where
  "CancelJob ctx jobID = under ctx (
     andThen (asks sc_clock) (\<lambda>now.
     andThen (onStore (\<lambda>c now. CancelJobExecution c jobID FailureReasonCanceledByUser now)) (\<lambda>activeTasks.
     publishCancelSignals activeTasks now)))"

definition CancelTask :: "ctx \<Rightarrow> string \<Rightarrow> unit act" where
  "CancelTask ctx taskID = under ctx (
     andThen (asks sc_clock) (\<lambda>now.
     andThen (onStore (\<lambda>c now. CancelTaskExecution c taskID FailureReasonCanceledByUser now)) (\<lambda>(prior, canceled).
     if \<not> canceled then ret ()
     else andThen (publishCancelSignals [prior] now) (\<lambda>_.
          andThen (catch (checkStepCompletion (task_StepID prior) (task_JobID prior))) (\<lambda>_. ret ())))))"

section \<open>Retry\<close>

definition retry :: "ctx \<Rightarrow> string \<Rightarrow> string list option \<Rightarrow> nat act" where
  "retry ctx jobID taskIDs = under ctx (
     andThen (asks sc_clock) (\<lambda>now.
     andThen (onStore (\<lambda>c now. RetryTasks c jobID taskIDs now)) (\<lambda>revived.
     if revived = [] then ret 0
     else
       andThen (onStore (\<lambda>c now. ResolveDependencies c jobID now)) (\<lambda>_.
       andThen (onStore (\<lambda>c now. CancelDependents c jobID now)) (\<lambda>(_, canceledTasks).
       andThen (checkJobCompletion jobID) (\<lambda>_.
       andThen (forEach (\<lambda>rt.
         andThen (catch (reading (GetTask (task_ID rt)))) (\<lambda>r.
         emit (NotifyTask (taskEvent jobID (task_ID rt) (task_Name rt)
           (case r of Inr cur \<Rightarrow> task_Status cur | Inl _ \<Rightarrow> TaskStatusPending) now)))) revived) (\<lambda>_.
       andThen (forEach (\<lambda>ct. emit (NotifyTask (taskEvent jobID (task_ID ct) (task_Name ct) (task_Status ct) now)))
         (filter (\<lambda>ct. task_ID ct \<notin> set (map task_ID revived)) canceledTasks)) (\<lambda>_.
       andThen (catch (reading (GetJob jobID))) (\<lambda>r.
       andThen (case r of
           Inr job \<Rightarrow> emit (NotifyJob ((jobEvent jobID (job_status_string (job_Status job)) now)
             \<lparr>je_Name := job_Name job, je_Owner := job_Owner job, je_QueueID := job_QueueID job\<rparr>))
         | Inl _ \<Rightarrow> ret ()) (\<lambda>_.
       andThen (notifyQueueForJob jobID) (\<lambda>_.
       ret (length revived))))))))))))"

definition RetryJob :: "ctx \<Rightarrow> string \<Rightarrow> nat act" where
  "RetryJob ctx jobID = retry ctx jobID None"

definition RetryTask :: "ctx \<Rightarrow> string \<Rightarrow> unit act" where
  "RetryTask ctx taskID =
     andThen (reading (GetTask taskID)) (\<lambda>task.
     andThen (retry ctx (task_JobID task) (Some [taskID])) (\<lambda>_. ret ()))"

end
