(* ===== verification/SchedWorkers.thy ===== *)
theory SchedWorkers
  imports SchedTasks
begin

text \<open>
  Workers in the scheduler (\<^verbatim>\<open>scheduler/scheduler.go\<close>): registration, heartbeats, deregistration; the periodic
  sweeps; the reconciliation of attempts with what the workers report
  (\<^verbatim>\<open>attemptreconcile.go\<close>); ingestion of task logs (\<^verbatim>\<open>logingest.go\<close>); and the repair at startup.
\<close>

section \<open>Reconciling reported attempts\<close>

definition maxReportedAttempts :: nat where "maxReportedAttempts = 4096"

definition freshLocked :: "reconciler \<Rightarrow> workerReport \<Rightarrow> time \<Rightarrow> bool" where
  "freshLocked r rep now \<longleftrightarrow> now - rep_receivedAt rep \<le> rec_skew r"

text \<open>The warnings a skewed report causes are logging only; such a report is ignored.\<close>

definition recordReport :: "string \<Rightarrow> time \<Rightarrow> time \<Rightarrow> string list \<Rightarrow> reconciler \<Rightarrow> reconciler" where
  "recordReport workerID workerAt receivedAt attemptIDs r =
     (let d = receivedAt - workerAt
      in if d > rec_skew r \<or> d < - rec_skew r then r
         else if (case tget (rec_reports r) workerID of Some prev \<Rightarrow> workerAt < rep_workerAt prev | None \<Rightarrow> False)
         then r
         else r\<lparr>rec_lastSeen := fold (\<lambda>i m. tput i receivedAt m) attemptIDs (rec_lastSeen r),
                rec_reports := tput workerID \<lparr> rep_workerAt = workerAt, rep_receivedAt = receivedAt,
                                               rep_attempts = attemptIDs \<rparr> (rec_reports r)\<rparr>)"

definition pruneLocked :: "time \<Rightarrow> reconciler \<Rightarrow> reconciler" where
  "pruneLocked now r =
     r\<lparr>rec_lastSeen := tkeep (\<lambda>i seen. \<not> now - seen > 2 * rec_grace r) (rec_lastSeen r),
       rec_reports := tkeep (\<lambda>w rep. \<not> now - rep_receivedAt rep > 2 * rec_grace r) (rec_reports r)\<rparr>"

definition attemptDue :: "reconciler \<Rightarrow> time \<Rightarrow> OpenAttempt \<Rightarrow> bool" where
  "attemptDue r now a =
     (case tget (rec_reports r) (oa_WorkerID a) of
        None \<Rightarrow> False
      | Some rep \<Rightarrow>
          if \<not> freshLocked r rep now then False
          else if oa_AttemptID a \<in> set (rep_attempts rep) then False
          else
            let since = (case tget (rec_lastSeen r) (oa_AttemptID a) of
                           Some seen \<Rightarrow> if oa_CreatedAt a < seen then seen else oa_CreatedAt a
                         | None \<Rightarrow> oa_CreatedAt a)
            in rec_grace r \<le> rep_receivedAt rep - since)"

definition due :: "OpenAttempt list \<Rightarrow> time \<Rightarrow> reconciler \<Rightarrow> OpenAttempt list \<times> reconciler" where
  "due opn now r = (filter (attemptDue r now) opn, pruneLocked now r)"

record heldAttempt =
  held_workerID :: string
  held_receivedAt :: time

text \<open>The map of \<^verbatim>\<open>held\<close>, filled in the order of the list of reports.\<close>

definition held :: "time \<Rightarrow> reconciler \<Rightarrow> heldAttempt table" where
  "held now r =
     fold (\<lambda>(w, rep) out.
         if \<not> freshLocked r rep now then out
         else fold (\<lambda>i out. tput i \<lparr> held_workerID = w, held_receivedAt = rep_receivedAt rep \<rparr> out) (rep_attempts rep) out)
       (rec_reports r) []"

definition cancelClosedAttempt :: "string \<times> heldAttempt \<Rightarrow> unit act" where
  "cancelClosedAttempt ah =
     (let attemptID = fst ah; h = snd ah
      in andThen (asks sc_clock) (\<lambda>now.
         andThen (catch (reading (GetTaskAttempt attemptID))) (\<lambda>r.
         case r of
           Inl e \<Rightarrow>
             if e = ErrNotFound
             then publishCancel \<lparr> cm_TaskID = [], cm_AttemptID = attemptID, cm_JobID = [], cm_CanceledAt = now \<rparr> (held_workerID h)
             else warnUnlessStopped r
         | Inr a \<Rightarrow>
             if (case att_EndedAt a of Some ended \<Rightarrow> \<not> ended < held_receivedAt h | None \<Rightarrow> False) then ret ()
             else andThen (catch (reading (GetTask (att_TaskID a)))) (\<lambda>rt.
                  case rt of
                    Inl e \<Rightarrow> warnUnlessStopped rt
                  | Inr task \<Rightarrow>
                      publishCancel \<lparr> cm_TaskID = att_TaskID a, cm_AttemptID = attemptID, cm_JobID = task_JobID task,
                                      cm_CanceledAt = now \<rparr> (held_workerID h)))))"

definition cancelClosedAttempts :: "heldAttempt table \<Rightarrow> unit act" where
  "cancelClosedAttempts h = loopUntil (\<lambda>ah. unlessDeposed (cancelClosedAttempt ah)) h"

definition reclaimUnreportedAttempt :: "OpenAttempt \<Rightarrow> unit act" where
  "reclaimUnreportedAttempt a =
     andThen (catch (reclaimAttempt (oa_AttemptID a) (oa_TaskID a))) warnUnlessStopped"

text \<open>\<^verbatim>\<open>reconcileAttempts\<close>.  When the server is deposed in the loop over the due attempts the code returns there;
  here the second loop, which checks first, does nothing.\<close>

definition reconcileAttempts :: "unit act" where
  "reconcileAttempts \<sigma> =
     (case sc_reconciler \<sigma> of
        None \<Rightarrow> (\<sigma>, Inr ())
      | Some r \<Rightarrow>
          let now = sc_clock \<sigma>
          in if now - sc_startedAt \<sigma> < cfg_ReconcileGrace (sc_cfg \<sigma>) then (\<sigma>, Inr ())
             else
               let hd0 = held now r;
                   opn = ListOpenAttempts (sc_store \<sigma>);
                   (dues, r') = due opn now r
               in andThen (loopUntil (\<lambda>a. unlessDeposed (reclaimUnreportedAttempt a)) dues) (\<lambda>_.
                  cancelClosedAttempts (fold (\<lambda>a h. tdel (oa_AttemptID a) h) opn hd0))
                  (\<sigma>\<lparr>sc_reconciler := Some r'\<rparr>))"

section \<open>Registration\<close>

record RegisterMsg =
  rm_Version :: string
  rm_WorkerID :: string
  rm_InstanceID :: string
  rm_FarmID :: string
  rm_QueueID :: string
  rm_Name :: string
  rm_Hostname :: string
  rm_IPAddress :: string
  rm_ComputeLocation :: string
  rm_OS :: string
  rm_OSVersion :: string
  rm_Arch :: string
  rm_WorkerVersion :: string
  rm_CPUCount :: int
  rm_RAMMb :: int
  rm_GPUInfo :: GPUInfo
  rm_Tags :: "(string \<times> string) list"
  rm_ExprLimits :: WorkerExprLimits
  rm_Extensions :: "string list"

definition registeredWorker :: "RegisterMsg \<Rightarrow> time option \<Rightarrow> time \<Rightarrow> Worker" where
  "registeredWorker m brokerTime now =
     \<lparr> worker_ID = rm_WorkerID m, worker_FarmID = rm_FarmID m, worker_QueueID = rm_QueueID m,
       worker_Name = rm_Name m, worker_Hostname = rm_Hostname m, worker_IPAddress = rm_IPAddress m,
       worker_ComputeLocation = rm_ComputeLocation m, worker_OS = rm_OS m, worker_OSVersion = rm_OSVersion m,
       worker_Arch = rm_Arch m, worker_Version = rm_WorkerVersion m, worker_InstanceID = rm_InstanceID m,
       worker_RegistrationBrokerAt = brokerTime, worker_HeartbeatBrokerAt = None,
       worker_CPUCount = rm_CPUCount m, worker_RAMMb = rm_RAMMb m, worker_GPUInfo = rm_GPUInfo m,
       worker_Tags = rm_Tags m, worker_ExprLimits = rm_ExprLimits m, worker_Extensions = rm_Extensions m,
       worker_Status = WorkerStatusOnline, worker_Disabled = False, worker_LastHeartbeatAt = Some now,
       worker_RegisteredAt = 0, worker_UpdatedAt = 0 \<rparr>"

definition reclaimOfflineWorkerTasks :: "Task list \<Rightarrow> unit act" where
  "reclaimOfflineWorkerTasks reclaimed =
     (if reclaimed = [] then ret ()
      else change (\<lambda>\<sigma>. \<sigma>\<lparr>sc_waiters := notifyAll (sc_waiters \<sigma>)\<rparr>))"

definition ensureComputeLocation :: "(nat \<Rightarrow> string) \<Rightarrow> string \<Rightarrow> unit act" where
  "ensureComputeLocation uuid name =
     (if name = [] then ret ()
      else andThen (catch (reading (GetComputeLocationByName name))) (\<lambda>r.
           case r of
             Inr _ \<Rightarrow> ret ()
           | Inl e \<Rightarrow>
               if e \<noteq> ErrNotFound then ret ()
               else andThen (newID uuid) (\<lambda>i.
                    andThen (asks sc_clock) (\<lambda>now.
                    andThen (catch (onStore (\<lambda>c now. CreateComputeLocation c
                      \<lparr> cl_ID = i, cl_Name = name, cl_Description = [], cl_CreatedAt = now, cl_UpdatedAt = now \<rparr> now))) (\<lambda>rc.
                    andThen (stopIfFenced rc) (\<lambda>_. ret ()))))))"

definition touchWorkerCredential :: "string \<Rightarrow> unit act" where
  "touchWorkerCredential workerID =
     andThen (catch (onStore (\<lambda>c now. TouchWorkerCredential c workerID now))) (\<lambda>r.
     andThen (stopIfFenced r) (\<lambda>_. ret ()))"

definition handleWorkerRegister :: "(nat \<Rightarrow> string) \<Rightarrow> RegisterMsg msg \<Rightarrow> string \<Rightarrow> unit act" where
  "handleWorkerRegister uuid msg subjectWorkerID =
     (case msg_Data msg of
        None \<Rightarrow> ackMsg msg
      | Some m \<Rightarrow>
          if rm_Version m \<noteq> ProtocolVersion then ackMsg msg
          else if rm_WorkerID m \<noteq> subjectWorkerID then ackMsg msg
          else
            andThen (catch (onStore (\<lambda>c now. RegisterWorker c (registeredWorker m (brokerAt msg) now) now))) (\<lambda>r.
            if r = Inl ErrStaleRegistration then ackMsg msg
            else andThen (stopIfFenced r) (\<lambda>stop.
              if stop then ret ()
              else (case r of
                      Inl e \<Rightarrow> nakMsg msg
                    | Inr (stored, reclaimed) \<Rightarrow>
                        andThen (reclaimOfflineWorkerTasks reclaimed) (\<lambda>_.
                        andThen (ensureComputeLocation uuid (rm_ComputeLocation m)) (\<lambda>_.
                        andThen (asks (\<lambda>\<sigma>. cfg_NATSAuthEnabled (sc_cfg \<sigma>))) (\<lambda>auth.
                        andThen (if auth then touchWorkerCredential (rm_WorkerID m) else ret ()) (\<lambda>_.
                        andThen (emit (NotifyWorker \<lparr> we_WorkerID = rm_WorkerID m, we_Name = rm_Name m,
                          we_Hostname = rm_Hostname m, we_FarmID = rm_FarmID m,
                          we_Status = worker_status_string (EffectiveStatus stored) \<rparr>)) (\<lambda>_.
                        ackMsg msg)))))))))"

section \<open>Deregistration and heartbeats\<close>

record DeregisterMsg =
  dm_WorkerID :: string
  dm_InstanceID :: string

definition handleWorkerDeregister :: "DeregisterMsg msg \<Rightarrow> string \<Rightarrow> unit act" where
  "handleWorkerDeregister msg subjectWorkerID =
     (case msg_Data msg of
        None \<Rightarrow> ackMsg msg
      | Some m \<Rightarrow>
          if dm_WorkerID m \<noteq> subjectWorkerID then ackMsg msg
          else
            andThen (catch (onStore (\<lambda>c now. OfflineWorker c (dm_WorkerID m) (dm_InstanceID m) now))) (\<lambda>r.
            andThen (stopIfFenced r) (\<lambda>stop.
            if stop then ret ()
            else (case r of
                    Inl e \<Rightarrow> ackMsg msg
                  | Inr (reclaimed, offlined) \<Rightarrow>
                      if \<not> offlined then ackMsg msg
                      else andThen (reclaimOfflineWorkerTasks reclaimed) (\<lambda>_.
                           andThen (catch (reading (GetWorker (dm_WorkerID m)))) (\<lambda>rw.
                           andThen (emit (NotifyWorker \<lparr> we_WorkerID = dm_WorkerID m, we_Name = [], we_Hostname = [],
                             we_FarmID = [], we_Status = worker_status_string
                               (case rw of Inr w \<Rightarrow> EffectiveStatus w | Inl _ \<Rightarrow> WorkerStatusOffline) \<rparr>)) (\<lambda>_.
                           ackMsg msg)))))))"

record HeartbeatMsg =
  hm_Version :: string
  hm_WorkerID :: string
  hm_At :: "time option"
  hm_AttemptsReported :: bool
  hm_ActiveAttemptIDs :: "string list"

definition handleWorkerHeartbeat :: "HeartbeatMsg msg \<Rightarrow> string \<Rightarrow> unit act" where
  "handleWorkerHeartbeat msg subjectWorkerID =
     (case msg_Data msg of
        None \<Rightarrow> ackMsg msg
      | Some m \<Rightarrow>
          if hm_Version m \<noteq> ProtocolVersion then ackMsg msg
          else if hm_WorkerID m \<noteq> subjectWorkerID then ackMsg msg
          else
            andThen (asks sc_clock) (\<lambda>received.
            let at = (case hm_At m of None \<Rightarrow> received | Some a \<Rightarrow> a);
                stamp = brokerAt msg;
                seen = (case stamp of None \<Rightarrow> received | Some t \<Rightarrow> t)
            in andThen (catch (onStore (\<lambda>c now. UpdateWorkerHeartbeat c (hm_WorkerID m) seen stamp now))) (\<lambda>r.
               case r of
                 Inl e \<Rightarrow> andThen (stopIfFenced r) (\<lambda>stop. if stop then ret () else nakMsg msg)
               | Inr _ \<Rightarrow>
                   andThen (change (\<lambda>\<sigma>.
                     case sc_reconciler \<sigma> of
                       None \<Rightarrow> \<sigma>
                     | Some rc \<Rightarrow>
                         if \<not> hm_AttemptsReported m \<or> maxReportedAttempts < length (hm_ActiveAttemptIDs m) then \<sigma>
                         else \<sigma>\<lparr>sc_reconciler := Some (recordReport (hm_WorkerID m) at received (hm_ActiveAttemptIDs m) rc)\<rparr>)) (\<lambda>_.
                   ackMsg msg))))"

section \<open>Sweeps\<close>

definition latest :: "time \<Rightarrow> time \<Rightarrow> time" where
  "latest a b = (if a < b then b else a)"

definition livenessDeferred :: "sched \<Rightarrow> bool" where
  "livenessDeferred \<sigma> =
     (case sc_busUp \<sigma> of
        None \<Rightarrow> False
      | Some None \<Rightarrow> True
      | Some (Some up) \<Rightarrow> sc_clock \<sigma> - latest up (sc_startedAt \<sigma>) < cfg_BusReconnectGrace (sc_cfg \<sigma>))"

definition sweepStaleWorkers :: "unit act" where
  "sweepStaleWorkers \<sigma> =
     (if livenessDeferred \<sigma> then (\<sigma>, Inr ())
      else
        let cutoff = sc_clock \<sigma> - cfg_WorkerTimeout (sc_cfg \<sigma>)
        in loopUntil (\<lambda>w.
             andThen (catch (onStore (\<lambda>c now. OfflineStaleWorker c (worker_ID w) cutoff now))) (\<lambda>r.
             andThen (stopIfFenced r) (\<lambda>stop.
             if stop then ret True
             else (case r of
                     Inl e \<Rightarrow> ret False
                   | Inr (reclaimed, marked) \<Rightarrow>
                       if \<not> marked then ret False
                       else andThen (emit (NotifyWorker \<lparr> we_WorkerID = worker_ID w, we_Name = worker_Name w,
                              we_Hostname = worker_Hostname w, we_FarmID = worker_FarmID w,
                              we_Status = worker_status_string (EffectiveStatus (w\<lparr>worker_Status := WorkerStatusOffline\<rparr>)) \<rparr>)) (\<lambda>_.
                            andThen (reclaimOfflineWorkerTasks reclaimed) (\<lambda>_. ret False))))))
             (ListStaleWorkers cutoff (sc_store \<sigma>)) \<sigma>)"

definition removedStatus :: string where "removedStatus = ''removed''"

definition sweepRetiredWorkers :: "unit act" where
  "sweepRetiredWorkers \<sigma> =
     (if cfg_OfflineWorkerRetention (sc_cfg \<sigma>) \<le> 0 then (\<sigma>, Inr ())
      else
        let cutoff = sc_clock \<sigma> - cfg_OfflineWorkerRetention (sc_cfg \<sigma>)
        in andThen (catch (onStore (\<lambda>c _. DeleteOfflineWorkersBefore c cutoff))) (\<lambda>r.
           case r of
             Inl e \<Rightarrow> warnUnlessStopped r
           | Inr removed \<Rightarrow>
               forEach (\<lambda>w. emit (NotifyWorker \<lparr> we_WorkerID = worker_ID w, we_Name = worker_Name w,
                 we_Hostname = worker_Hostname w, we_FarmID = worker_FarmID w, we_Status = removedStatus \<rparr>)) removed) \<sigma>)"

definition sweepRetiredJobs :: "unit act" where
  "sweepRetiredJobs \<sigma> =
     (if cfg_JobRetention (sc_cfg \<sigma>) \<le> 0 then (\<sigma>, Inr ())
      else
        let now = sc_clock \<sigma>; cutoff = now - cfg_JobRetention (sc_cfg \<sigma>)
        in andThen (catch (onStore (\<lambda>c _. DeleteTerminalJobsBefore c cutoff (cfg_JobRetentionIncludeFailed (sc_cfg \<sigma>))))) (\<lambda>r.
           andThen (warnUnlessStopped r) (\<lambda>_.
           forEach (\<lambda>(i, name, farm, queue). emit (NotifyJob ((jobEvent i removedStatus now)
             \<lparr>je_Name := name, je_QueueID := queue\<rparr>))) (case r of Inr removed \<Rightarrow> removed | Inl _ \<Rightarrow> []))) \<sigma>)"

definition reapStaleAssignedTasks :: "unit act" where
  "reapStaleAssignedTasks \<sigma> =
     (if livenessDeferred \<sigma> then (\<sigma>, Inr ())
      else
        let cutoff = sc_clock \<sigma> - cfg_AssignedTaskTimeout (sc_cfg \<sigma>)
        in andThen (catch (onStore (\<lambda>c now. ReclaimStaleAssignedTasks c cutoff now))) (\<lambda>r.
           andThen (forEach notifyTaskReclaimed (case r of Inr reclaimed \<Rightarrow> reclaimed | Inl _ \<Rightarrow> [])) (\<lambda>_.
           warnUnlessStopped r)) \<sigma>)"

definition demoteStalledJobs :: "unit act" where
  "demoteStalledJobs =
     andThen (catch (onStore (\<lambda>c now. DemoteStalledJobs c now))) (\<lambda>r.
     andThen (asks sc_clock) (\<lambda>now.
     andThen (forEach (\<lambda>jobID. emit (NotifyJob (jobEvent jobID (job_status_string JobStatusPending) now)))
       (case r of Inr demoted \<Rightarrow> demoted | Inl _ \<Rightarrow> [])) (\<lambda>_.
     warnUnlessStopped r)))"

definition sweepBlockedJobsOnce :: "unit act" where
  "sweepBlockedJobsOnce = andThen (catch sweepBlockedJobs) warnUnlessStopped"

text \<open>Only the wake-ups of the queue-depth gauge are modelled; the gauges themselves are metrics.\<close>

definition refreshQueueDepthGauge :: "unit act" where
  "refreshQueueDepthGauge \<sigma> =
     forEach (\<lambda>(queueID, n). if 0 < n then WakeQueue queueID else ret ())
       (CountReadyTasksByQueue (cfg_FarmID (sc_cfg \<sigma>)) (sc_clock \<sigma>) (sc_store \<sigma>)) \<sigma>"

section \<open>Task logs\<close>

record LogChunkMsg =
  lm_TaskID :: string
  lm_AttemptID :: string
  lm_SeqNum :: int
  lm_At :: "time option"
  lm_Stream :: string
  lm_Data :: string

definition persistLogChunkFailed :: "LogChunkMsg msg \<Rightarrow> LogChunkMsg \<Rightarrow> store_error \<Rightarrow> unit act" where
  "persistLogChunkFailed msg m e =
     andThen (stopIfFenced (Inl e :: unit sres)) (\<lambda>stop.
     if stop then ret ()
     else andThen (evictAttempt (lm_AttemptID m)) (\<lambda>_.
          if e = ErrConflict then ackMsg msg else nakMsg msg))"

definition storeLogChunk :: "(nat \<Rightarrow> string) \<Rightarrow> LogChunkMsg msg \<Rightarrow> LogChunkMsg \<Rightarrow> unit act" where
  "storeLogChunk uuid msg m =
     andThen (newID uuid) (\<lambda>i.
     andThen (asks sc_clock) (\<lambda>now.
     let at = (case lm_At m of None \<Rightarrow> now | Some t \<Rightarrow> t);
         log = \<lparr> log_ID = i, log_TaskID = lm_TaskID m, log_AttemptID = lm_AttemptID m, log_SeqNum = lm_SeqNum m,
                 log_NATSSeq = (case msg_Meta msg of None \<Rightarrow> 0 | Some md \<Rightarrow> mm_Stream md), log_At = at,
                 log_ReceivedAt = 0, log_Stream = (if lm_Stream m = ''stderr'' then ''stderr'' else ''stdout''),
                 log_Data = lm_Data m \<rparr>
     in andThen (catch (onStore (\<lambda>c _. CreateTaskLog c log))) (\<lambda>r.
        case r of
          Inl e \<Rightarrow> persistLogChunkFailed msg m e
        | Inr _ \<Rightarrow>
            andThen (emit (NotifyLog \<lparr> le_TaskID = lm_TaskID m, le_AttemptID = lm_AttemptID m, le_SeqNum = lm_SeqNum m,
              le_Stream = lm_Stream m, le_Data = lm_Data m, le_At = at \<rparr>)) (\<lambda>_. ackMsg msg))))"

definition cacheOwner :: "string \<Rightarrow> TaskAttempt \<Rightarrow> unit act" where
  "cacheOwner attemptID a =
     change (\<lambda>\<sigma>. \<sigma>\<lparr>sc_attemptCache := cachePut attemptID (att_WorkerID a) (att_TaskID a) (sc_attemptCache \<sigma>)\<rparr>)"

text \<open>\<^verbatim>\<open>handleLogChunk\<close> once the owner of the attempt is known.\<close>

definition acceptLogChunk :: "(nat \<Rightarrow> string) \<Rightarrow> LogChunkMsg msg \<Rightarrow> LogChunkMsg \<Rightarrow> string \<Rightarrow> attemptOwner \<Rightarrow> unit act" where
  "acceptLogChunk uuid msg m subjectWorkerID owner =
     (if own_taskID owner \<noteq> lm_TaskID m then ackMsg msg
      else if subjectWorkerID \<noteq> own_workerID owner then ackMsg msg
      else storeLogChunk uuid msg m)"

definition handleLogChunk :: "(nat \<Rightarrow> string) \<Rightarrow> LogChunkMsg msg \<Rightarrow> unit act" where
  "handleLogChunk uuid msg =
     (case msg_Data msg of
        None \<Rightarrow> ackMsg msg
      | Some m \<Rightarrow>
          if lm_TaskID m = [] \<or> lm_AttemptID m = [] then ackMsg msg
          else (case ParseWorkerSubject (msg_Subject msg) of
                  None \<Rightarrow> ackMsg msg
                | Some (subjectWorkerID, _) \<Rightarrow>
                    andThen (asks (\<lambda>\<sigma>. tget (sc_attemptCache \<sigma>) (lm_AttemptID m))) (\<lambda>cached.
                    case cached of
                      Some owner \<Rightarrow> acceptLogChunk uuid msg m subjectWorkerID owner
                    | None \<Rightarrow>
                        andThen (catch (reading (GetTaskAttempt (lm_AttemptID m)))) (\<lambda>r.
                        case r of
                          Inl e \<Rightarrow> if e = ErrNotFound then ackMsg msg else nakMsg msg
                        | Inr a \<Rightarrow>
                            andThen (cacheOwner (lm_AttemptID m) a) (\<lambda>_.
                            acceptLogChunk uuid msg m subjectWorkerID
                              \<lparr> own_workerID = att_WorkerID a, own_taskID = att_TaskID a \<rparr>)))))"

section \<open>Repair at startup\<close>

definition reconcileStuckSteps :: "unit act" where
  "reconcileStuckSteps \<sigma> =
     loopUntil (\<lambda>step.
       andThen (asks (\<lambda>\<sigma>. sc_stopped \<sigma> \<or> sc_deposed \<sigma>)) (\<lambda>halt.
       if halt then ret True
       else andThen (catch (checkStepCompletion (step_ID step) (step_JobID step))) (\<lambda>r.
            stopIfFenced r))) (ListStuckSteps (sc_store \<sigma>)) \<sigma>"

definition jobHasOpenStep :: "string \<Rightarrow> store \<Rightarrow> bool" where
  "jobHasOpenStep jobID s \<longleftrightarrow> (\<exists>st \<in> set (ListSteps jobID s). \<not> StepStatus_IsTerminal (step_Status st))"

definition reconcilePendingJob :: "string \<Rightarrow> unit act" where
  "reconcilePendingJob jobID =
     andThen (catch (propagateStepDependencies jobID StepStatusCompleted)) (\<lambda>r1.
     if isl r1 then warnUnlessStopped r1
     else andThen (catch (propagateStepDependencies jobID StepStatusFailed)) (\<lambda>r2.
          if isl r2 then warnUnlessStopped r2
          else andThen (asks (\<lambda>\<sigma>. jobHasOpenStep jobID (sc_store \<sigma>))) (\<lambda>opn.
               if opn then ret ()
               else andThen (catch (checkJobCompletion jobID)) warnUnlessStopped)))"

definition reconcilePendingSteps :: "unit act" where
  "reconcilePendingSteps \<sigma> =
     loopUntil (\<lambda>jobID.
       andThen (asks (\<lambda>\<sigma>. sc_stopped \<sigma> \<or> sc_deposed \<sigma>)) (\<lambda>halt.
       if halt then ret True
       else andThen (reconcilePendingJob jobID) (\<lambda>_. ret False))) (ListJobIDsWithPendingSteps (sc_store \<sigma>)) \<sigma>"

end
