(* ===== verification/GoFloat.thy ===== *)
theory GoFloat
  imports Complex_Main GoStrings
begin

text \<open>
  The part of Go's floating-point arithmetic the sources use: \<^verbatim>\<open>float64\<close> values with comparison, conversion
  of integers, and \<^verbatim>\<open>strconv.ParseFloat\<close>.  A finite value is the rational number it stands for; rounding is
  to the nearest value with 53 significant bits, ties to even.  \<open>ParseFloat\<close> reads decimal and hexadecimal
  literals, infinities and NaN; underscores, which Go accepts inside hexadecimal literals, are
  refused.
\<close>

datatype float64 = Fin rat | PInf | NInf | NaN

text \<open>The number of binary digits, and the exponent of the leading one.\<close>

function bitLen :: "int \<Rightarrow> int" where
  "bitLen n = (if n \<le> 0 then 0 else bitLen (n div 2) + 1)"
  by pat_completeness auto
termination by (relation "measure nat") auto

declare bitLen.simps [simp del]

definition binExp :: "rat \<Rightarrow> int" where
  "binExp a =
     (if 1 \<le> a then bitLen \<lfloor>a\<rfloor> - 1 else - bitLen (\<lceil>1 / a\<rceil> - 1))"

definition twoPow :: "int \<Rightarrow> rat" where
  "twoPow e = (if 0 \<le> e then 2 ^ nat e else 1 / 2 ^ nat (- e))"

definition roundHalfEven :: "rat \<Rightarrow> int" where
  "roundHalfEven q =
     (let n = \<lfloor>q\<rfloor>; d = q - of_int n
      in if d < 1 / 2 then n else if 1 / 2 < d then n + 1 else if even n then n else n + 1)"

definition roundFloat :: "rat \<Rightarrow> float64" where
  "roundFloat r =
     (if r = 0 then Fin 0
      else
        let a = \<bar>r\<bar>; u = max (binExp a - 52) (-1074); v = of_int (roundHalfEven (a / twoPow u)) * twoPow u
        in if twoPow 1024 \<le> v then (if 0 < r then PInf else NInf) else Fin (if 0 < r then v else - v))"

definition floatOfInt :: "int \<Rightarrow> float64" where
  "floatOfInt n = roundFloat (of_int n)"

fun floatLess :: "float64 \<Rightarrow> float64 \<Rightarrow> bool" where
  "floatLess NaN _ = False"
| "floatLess _ NaN = False"
| "floatLess (Fin a) (Fin b) = (a < b)"
| "floatLess (Fin a) PInf = True"
| "floatLess (Fin a) NInf = False"
| "floatLess NInf NInf = False"
| "floatLess NInf _ = True"
| "floatLess PInf _ = False"

section \<open>ParseFloat\<close>

definition digitValue :: "int \<Rightarrow> char \<Rightarrow> int option" where
  "digitValue base c =
     (let n = of_char c :: int;
          v = (if 48 \<le> n \<and> n \<le> 57 then n - 48
               else if 97 \<le> n \<and> n \<le> 102 then n - 87
               else if 65 \<le> n \<and> n \<le> 70 then n - 55 else 99)
      in if v < base then Some v else None)"

text \<open>Digits at the front: their number, their value and the rest.\<close>

fun readDigits :: "int \<Rightarrow> nat \<Rightarrow> int \<Rightarrow> string \<Rightarrow> nat \<times> int \<times> string" where
  "readDigits base k v [] = (k, v, [])"
| "readDigits base k v (c # s) =
     (case digitValue base c of
        None \<Rightarrow> (k, v, c # s)
      | Some d \<Rightarrow> readDigits base (k + 1) (v * base + d) s)"

definition readSign :: "string \<Rightarrow> bool \<times> string" where
  "readSign s =
     (case s of
        [] \<Rightarrow> (False, [])
      | c # t \<Rightarrow> if c = CHR ''-'' then (True, t) else if c = CHR ''+'' then (False, t) else (False, s))"

text \<open>An exponent: its mark, a sign and at least one digit, to the end of the string.\<close>

definition readExponent :: "char \<Rightarrow> string \<Rightarrow> int option" where
  "readExponent mark s =
     (case s of
        [] \<Rightarrow> None
      | c # t \<Rightarrow>
          if asciiLower c \<noteq> mark then None
          else
            let (neg, t) = readSign t; (k, v, rest) = readDigits 10 0 0 t
            in if k = 0 \<or> rest \<noteq> [] then None else Some (if neg then - v else v))"

definition readFloat :: "int \<Rightarrow> char \<Rightarrow> string \<Rightarrow> rat option" where
  "readFloat base mark s =
     (let (k1, v1, s1) = readDigits base 0 0 s;
          (k2, v2, s2) = (case s1 of
                            c # t \<Rightarrow> if c = CHR ''.'' then readDigits base 0 v1 t else (0, v1, s1)
                          | [] \<Rightarrow> (0, v1, s1));
          mant = (of_int v2 :: rat) / of_int base ^ k2
      in if k1 + k2 = 0 then None
         else if s2 = [] then (if base = 10 then Some mant else None)
         else (case readExponent mark s2 of
                 None \<Rightarrow> None
               | Some e \<Rightarrow> Some (if base = 10 then (if 0 \<le> e then mant * 10 ^ nat e else mant / 10 ^ nat (- e))
                                else mant * twoPow e)))"

definition signed :: "bool \<Rightarrow> rat \<Rightarrow> rat" where
  "signed neg r = (if neg then - r else r)"

text \<open>A value out of range is an error.\<close>

definition ParseFloat :: "string \<Rightarrow> float64 option" where
  "ParseFloat s =
     (let (neg, t) = readSign s; l = map asciiLower t
      in if l = ''inf'' \<or> l = ''infinity'' then Some (if neg then NInf else PInf)
         else if map asciiLower s = ''nan'' then Some NaN
         else
           (case (if HasPrefix l ''0x'' then readFloat 16 CHR ''p'' (drop 2 t) else readFloat 10 CHR ''e'' t) of
              None \<Rightarrow> None
            | Some r \<Rightarrow> (case roundFloat (signed neg r) of Fin v \<Rightarrow> Some (Fin v) | _ \<Rightarrow> None)))"

end
