(* ===== verification/SchedMatch.thy ===== *)
theory SchedMatch
  imports SchedWorkers GoFloat
begin

text \<open>
  Which worker may run which task: the matcher (\<^verbatim>\<open>scheduler/matcher.go\<close>), the concurrency policy
  (\<^verbatim>\<open>policy.go\<close>), the EXPR limits (\<^verbatim>\<open>exprcaps.go\<close>) and the extensions a worker enforces (\<^verbatim>\<open>extcaps.go\<close>).
\<close>

section \<open>Eligibility\<close>

datatype matchRejection =
    rejectFarm
  | rejectQueue
  | rejectComputeLocation
  | rejectAmountRequirement
  | rejectAttributeRequirement
  | rejectUsagePool

fun matchRejection_String :: "matchRejection option \<Rightarrow> string" where
  "matchRejection_String (Some rejectFarm) = ''farm mismatch''"
| "matchRejection_String (Some rejectQueue) = ''queue affinity''"
| "matchRejection_String (Some rejectComputeLocation) = ''compute location mismatch''"
| "matchRejection_String (Some rejectAmountRequirement) = ''amount requirement not met''"
| "matchRejection_String (Some rejectAttributeRequirement) = ''attribute requirement not met''"
| "matchRejection_String (Some rejectUsagePool) = ''usage pool at capacity''"
| "matchRejection_String None = ''eligible''"

definition hasPrefixFold :: "string \<Rightarrow> string \<Rightarrow> bool" where
  "hasPrefixFold s pre \<longleftrightarrow> length pre \<le> length s \<and> EqualFold (take (length pre) s) pre"

definition cutPrefixFold :: "string \<Rightarrow> string \<Rightarrow> string option" where
  "cutPrefixFold s pre = (if hasPrefixFold s pre then Some (drop (length pre) s) else None)"

definition workerAmountValue :: "string \<Rightarrow> Worker \<Rightarrow> int option" where
  "workerAmountValue name w =
     (if name = ''amount.worker.vcpu'' then Some (worker_CPUCount w)
      else if name = ''amount.worker.memory.mb'' then Some (worker_RAMMb w)
      else if name = ''amount.worker.gpu.count'' then Some (gpu_Count (worker_GPUInfo w))
      else if name = ''amount.worker.gpu.memory.mb'' then Some (gpu_VRAMMb (worker_GPUInfo w))
      else None)"

definition satisfiesAmount :: "StepAmountRequirement \<Rightarrow> int \<Rightarrow> bool" where
  "satisfiesAmount req workerVal =
     (let fval = floatOfInt workerVal
      in (case amt_Min req of
            None \<Rightarrow> True
          | Some s \<Rightarrow> (case ParseFloat s of None \<Rightarrow> False | Some minVal \<Rightarrow> \<not> floatLess fval minVal)) \<and>
         (case amt_Max req of
            None \<Rightarrow> True
          | Some s \<Rightarrow> (case ParseFloat s of None \<Rightarrow> False | Some maxVal \<Rightarrow> \<not> floatLess maxVal fval)))"

fun checkAmounts :: "StepAmountRequirement list \<Rightarrow> Worker \<Rightarrow> matchRejection option" where
  "checkAmounts [] worker = None"
| "checkAmounts (req # amts) worker =
     (if hasPrefixFold (amt_Name req) ''amount.worker.usagepool.'' then checkAmounts amts worker
      else if \<not> satisfiesAmount req (case workerAmountValue (ToLower (amt_Name req)) worker of
                                      Some v \<Rightarrow> v | None \<Rightarrow> 0)
      then Some rejectAmountRequirement
      else checkAmounts amts worker)"

definition osFamily :: "string \<Rightarrow> string" where
  "osFamily workerOS = (let family = ToLower workerOS in if family = ''darwin'' then ''macos'' else family)"

definition cpuArch :: "string \<Rightarrow> string" where
  "cpuArch workerArch = (let arch = ToLower workerArch in if arch = ''amd64'' then ''x86_64'' else arch)"

definition tagValueFold :: "(string \<times> string) list \<Rightarrow> string \<Rightarrow> string" where
  "tagValueFold tags key =
     (case tget tags key of
        Some v \<Rightarrow> v
      | None \<Rightarrow> (case find (\<lambda>(k, v). EqualFold k key) tags of Some (k, v) \<Rightarrow> v | None \<Rightarrow> []))"

definition workerAttributeValue :: "Worker \<Rightarrow> string \<Rightarrow> string" where
  "workerAttributeValue worker name =
     (let l = ToLower name
      in if l = ''attr.worker.os.family'' then osFamily (worker_OS worker)
         else if l = ''attr.worker.os.version'' then worker_OSVersion worker
         else if l = ''attr.worker.cpu.arch'' then cpuArch (worker_Arch worker)
         else if l = ''attr.worker.computelocation'' then worker_ComputeLocation worker
         else (case cutPrefixFold name ''attr.worker.tag.'' of
                 Some key \<Rightarrow> tagValueFold (worker_Tags worker) key | None \<Rightarrow> []))"

fun checkAttributes :: "StepAttributeRequirement list \<Rightarrow> Worker \<Rightarrow> matchRejection option" where
  "checkAttributes [] worker = None"
| "checkAttributes (req # attrs) worker =
     (let val = workerAttributeValue worker (attr_Name req)
      in if attr_AnyOf req \<noteq> [] \<and> \<not> (\<exists>accepted \<in> set (attr_AnyOf req). EqualFold val accepted)
         then Some rejectAttributeRequirement
         else if \<exists>required \<in> set (attr_AllOf req). \<not> EqualFold val required
         then Some rejectAttributeRequirement
         else checkAttributes attrs worker)"

fun checkUsagePools :: "string list \<Rightarrow> UsagePool table \<Rightarrow> nat table \<Rightarrow> matchRejection option" where
  "checkUsagePools [] pools activeCounts = None"
| "checkUsagePools (name # names) pools activeCounts =
     (let lk = ToLower name
      in (case tget pools lk of
            None \<Rightarrow> Some rejectUsagePool
          | Some pool \<Rightarrow>
              if pool_MaxConcurrent pool \<le> 0 then checkUsagePools names pools activeCounts
              else if pool_MaxConcurrent pool \<le> int (tgetz 0 activeCounts lk) then Some rejectUsagePool
              else checkUsagePools names pools activeCounts))"

text \<open>\<open>None\<close> is \<^verbatim>\<open>rejectNone, true\<close>.\<close>

definition workerEligible ::
  "Worker \<Rightarrow> Job \<Rightarrow> Step \<Rightarrow> UsagePool table \<Rightarrow> nat table \<Rightarrow> matchRejection option" where
  "workerEligible worker job step pools activeCounts =
     (if worker_FarmID worker \<noteq> [] \<and> worker_FarmID worker \<noteq> job_FarmID job then Some rejectFarm
      else if worker_QueueID worker \<noteq> [] \<and> worker_QueueID worker \<noteq> job_QueueID job then Some rejectQueue
      else if step_ComputeLocation step \<noteq> [] \<and> step_ComputeLocation step \<noteq> worker_ComputeLocation worker
      then Some rejectComputeLocation
      else (case step_HostRequirements step of
              None \<Rightarrow> None
            | Some hr \<Rightarrow>
                (case checkAmounts (hr_Amounts hr) worker of
                   Some r \<Rightarrow> Some r
                 | None \<Rightarrow>
                     (case checkAttributes (hr_Attributes hr) worker of
                        Some r \<Rightarrow> Some r
                      | None \<Rightarrow> checkUsagePools (hr_UsagePools hr) pools activeCounts))))"

definition WorkerEligible :: "Worker \<Rightarrow> Job \<Rightarrow> Step \<Rightarrow> UsagePool table \<Rightarrow> nat table \<Rightarrow> bool" where
  "WorkerEligible worker job step pools activeCounts \<longleftrightarrow> workerEligible worker job step pools activeCounts = None"

definition WorkerEligibleWithReason ::
  "Worker \<Rightarrow> Job \<Rightarrow> Step \<Rightarrow> UsagePool table \<Rightarrow> nat table \<Rightarrow> string \<times> bool" where
  "WorkerEligibleWithReason worker job step pools activeCounts =
     (let r = workerEligible worker job step pools activeCounts in (matchRejection_String r, r = None))"

section \<open>Concurrency policy\<close>

text \<open>\<^verbatim>\<open>policyGate\<close>: whether the policy blocks; the in-memory store's counts never fail.\<close>

definition policyGate :: "store \<Rightarrow> Job \<Rightarrow> Queue \<Rightarrow> Farm \<Rightarrow> bool" where
  "policyGate s job queue farm =
     (if 0 < queue_MaxConcurrentTasks queue \<and>
         queue_MaxConcurrentTasks queue \<le> int (CountActiveTasksInQueue (job_QueueID job) s) then False
      else if 0 < farm_MaxConcurrentTasks farm \<and>
              farm_MaxConcurrentTasks farm \<le> int (CountActiveTasksInFarm (job_FarmID job) s) then False
      else True)"

section \<open>EXPR limits and extensions\<close>

definition legacyWorkerExprCaps :: WorkerExprLimits where
  "legacyWorkerExprCaps = \<lparr> wel_OperationLimit = 1000000, wel_MemoryLimit = 20000000,
     wel_AssignmentPositions = 10000, wel_AssignmentRetainedBytes = 20000000, wel_LetRetainedBytes = 10000000 \<rparr>"

definition workerExprCapsOrLegacy :: "WorkerExprLimits \<Rightarrow> WorkerExprLimits" where
  "workerExprCapsOrLegacy c =
     (let d = legacyWorkerExprCaps;
          c = (if wel_OperationLimit c \<le> 0 then c\<lparr>wel_OperationLimit := wel_OperationLimit d\<rparr> else c);
          c = (if wel_MemoryLimit c \<le> 0 then c\<lparr>wel_MemoryLimit := wel_MemoryLimit d\<rparr> else c);
          c = (if wel_AssignmentPositions c \<le> 0 then c\<lparr>wel_AssignmentPositions := wel_AssignmentPositions d\<rparr> else c);
          c = (if wel_AssignmentRetainedBytes c \<le> 0
               then c\<lparr>wel_AssignmentRetainedBytes := wel_AssignmentRetainedBytes d\<rparr> else c)
      in if wel_LetRetainedBytes c \<le> 0 then c\<lparr>wel_LetRetainedBytes := wel_LetRetainedBytes d\<rparr> else c)"

text \<open>One clause of the shortfall message, with its two numbers.\<close>

definition shortClause :: "bool \<Rightarrow> string \<Rightarrow> int \<Rightarrow> string \<Rightarrow> int \<Rightarrow> string \<Rightarrow> string list" where
  "shortClause short a n b m c = (if short then [a @ Itoa n @ b @ Itoa m @ c] else [])"

definition exprCapShortfall :: "WorkerExprLimits \<Rightarrow> ExprLimits \<Rightarrow> string" where
  "exprCapShortfall caps srv =
     (let c = workerExprCapsOrLegacy caps;
          short =
            shortClause (wel_AssignmentPositions c < el_TemplatePositions srv)
              ''resolves at most '' (wel_AssignmentPositions c)
              '' expression positions per assignment but this server accepts templates costing up to ''
              (el_TemplatePositions srv) '' (expr.assignment_positions vs openjd.expr_template_positions)'' @
            shortClause (wel_OperationLimit c < el_SubmissionOperations srv)
              ''allows '' (wel_OperationLimit c)
              '' operations per expression evaluation but this server accepts expressions costing up to ''
              (el_SubmissionOperations srv) '' (expr.operation_limit vs openjd.expr_operation_limit)'' @
            shortClause (wel_MemoryLimit c < el_SubmissionMemoryBytes srv)
              ''allows '' (wel_MemoryLimit c)
              '' live bytes per expression evaluation but this server accepts expressions holding up to ''
              (el_SubmissionMemoryBytes srv) '' (expr.memory_limit vs openjd.expr_memory_limit)'' @
            shortClause (wel_AssignmentRetainedBytes c < el_TemplateRetainedBytes srv)
              ''lets let: bindings retain '' (wel_AssignmentRetainedBytes c)
              '' bytes per assignment but this server accepts templates retaining up to ''
              (el_TemplateRetainedBytes srv)
              '' (expr.assignment_retained_bytes vs openjd.expr_template_retained_bytes)'' @
            shortClause (wel_LetRetainedBytes c < el_TemplateRetainedBytes srv)
              ''lets one symbol table hold '' (wel_LetRetainedBytes c)
              '' live bytes but this server accepts templates whose let: bindings retain up to ''
              (el_TemplateRetainedBytes srv) '' (expr.let_retained_bytes vs openjd.expr_template_retained_bytes)''
      in if short = [] then []
         else ''worker EXPR limits are tighter than this server's: it '' @ Join short ''; '' @
              ''. A job accepted under the server's limits would fail on this worker once per task, '' @
              ''so it is not offered EXPR work'')"

definition ExtensionEXPR :: string where "ExtensionEXPR = ''EXPR''"
definition extensionsKey :: string where "extensionsKey = ''extensions''"
definition ExtensionLogChecks :: string where "ExtensionLogChecks = ''SQI_LOG_CHECKS''"

definition WorkerEnforcedExtensions :: "string list" where
  "WorkerEnforcedExtensions = [ExtensionLogChecks]"

definition jobMayUseEXPR :: "Job \<Rightarrow> bool" where
  "jobMayUseEXPR job \<longleftrightarrow> Contains (job_RawTemplate job) ExtensionEXPR \<and> Contains (job_RawTemplate job) extensionsKey"

definition jobUsesEXPR :: "Job \<Rightarrow> bool" where
  "jobUsesEXPR job =
     (let (declared, recorded) = DeclaresExtension job ExtensionEXPR
      in if recorded then declared else jobMayUseEXPR job)"

definition exprCapsBlock :: "string \<Rightarrow> Job \<Rightarrow> string" where
  "exprCapsBlock workerShortfall job =
     (if workerShortfall = [] \<or> \<not> jobUsesEXPR job then [] else workerShortfall)"

definition workerExprShortfall :: "sched \<Rightarrow> Worker \<Rightarrow> string" where
  "workerExprShortfall \<sigma> worker = exprCapShortfall (worker_ExprLimits worker) (cfg_ExprLimits (sc_cfg \<sigma>))"

definition workerExtensionBlock :: "Worker \<Rightarrow> Job \<Rightarrow> string" where
  "workerExtensionBlock worker job =
     (case find (\<lambda>name. let (declared, recorded) = DeclaresExtension job name
                       in recorded \<and> declared \<and> name \<notin> set (worker_Extensions worker)) WorkerEnforcedExtensions of
        Some name \<Rightarrow> ''worker does not enforce '' @ name @ ''; upgrade sqi-worker''
      | None \<Rightarrow> [])"

definition workerCompatBlock :: "string \<Rightarrow> Worker \<Rightarrow> Job \<Rightarrow> string" where
  "workerCompatBlock exprShortfall worker job =
     (let reason = exprCapsBlock exprShortfall job
      in if reason \<noteq> [] then reason else workerExtensionBlock worker job)"

section \<open>Usage pools of a step\<close>

definition buildUsageContext :: "Step \<Rightarrow> store \<Rightarrow> UsagePool table \<times> nat table" where
  "buildUsageContext step s =
     (case step_HostRequirements step of
        None \<Rightarrow> ([], [])
      | Some hr \<Rightarrow>
          if hr_UsagePools hr = [] then ([], [])
          else
            let pools = fold (\<lambda>p m. tput (ToLower (pool_Name p)) p m) (ListUsagePools s) [];
                counts = fold (\<lambda>name m.
                  let lk = ToLower name
                  in (case tget pools lk of
                        None \<Rightarrow> m | Some pool \<Rightarrow> tput lk (ActiveClaimCount (pool_ID pool) s) m)) (hr_UsagePools hr) []
            in (pools, counts))"

fun buildClaims :: "(nat \<Rightarrow> string) \<Rightarrow> UsagePool table \<Rightarrow> string list \<Rightarrow> UsagePoolClaim list act" where
  "buildClaims uuid pools [] = ret []"
| "buildClaims uuid pools (name # names) =
     (case tget pools (ToLower name) of
        None \<Rightarrow> buildClaims uuid pools names
      | Some pool \<Rightarrow>
          andThen (newID uuid) (\<lambda>i.
          andThen (buildClaims uuid pools names) (\<lambda>claims.
          ret (\<lparr> upc_ClaimID = i, upc_PoolID = pool_ID pool, upc_PoolName = pool_Name pool \<rparr> # claims))))"

definition buildUsageClaims :: "(nat \<Rightarrow> string) \<Rightarrow> Step \<Rightarrow> UsagePool table \<Rightarrow> UsagePoolClaim list act" where
  "buildUsageClaims uuid step pools =
     (case step_HostRequirements step of
        None \<Rightarrow> ret []
      | Some hr \<Rightarrow> buildClaims uuid pools (hr_UsagePools hr))"

section \<open>Unschedulable tasks\<close>

definition onlineWorkers :: "sched \<Rightarrow> Worker list" where
  "onlineWorkers \<sigma> =
     page_Items (ListWorkers \<lparr> lwo_FarmID = cfg_FarmID (sc_cfg \<sigma>), lwo_QueueID = [], lwo_ComputeLocation = [],
       lwo_Status = Some WorkerStatusOnline, lwo_Search = [], lwo_IncludeUnaffiliated = True,
       lwo_SortBy = WorkerSortByHostname, lwo_SortDir = SortAsc,
       lwo_Pagination = \<lparr> pg_Limit = MaxLimit, pg_Offset = 0 \<rparr> \<rparr> (sc_store \<sigma>))"

fun lastReason ::
  "sched \<Rightarrow> Job \<Rightarrow> Step \<Rightarrow> UsagePool table \<Rightarrow> nat table \<Rightarrow> Worker list \<Rightarrow> string \<Rightarrow> string option" where
  "lastReason \<sigma> job step pools counts [] reason = Some reason"
| "lastReason \<sigma> job step pools counts (w # ws) reason =
     (let (r, ok) = WorkerEligibleWithReason w job step pools counts
      in if \<not> ok then lastReason \<sigma> job step pools counts ws r
         else
           let compat = workerCompatBlock (workerExprShortfall \<sigma> w) w job
           in if compat \<noteq> [] then lastReason \<sigma> job step pools counts ws compat else None)"

definition evaluateSchedulability :: "sched \<Rightarrow> Task \<Rightarrow> Worker list \<Rightarrow> string" where
  "evaluateSchedulability \<sigma> task workers =
     (if workers = [] then ''no online workers''
      else (case GetJob (task_JobID task) (sc_store \<sigma>) of
              Inl e \<Rightarrow> []
            | Inr job \<Rightarrow>
                (case GetStep (task_StepID task) (sc_store \<sigma>) of
                   Inl e \<Rightarrow> []
                 | Inr step \<Rightarrow>
                     let (pools, counts) = buildUsageContext step (sc_store \<sigma>)
                     in (case lastReason \<sigma> job step pools counts workers [] of
                           None \<Rightarrow> [] | Some r \<Rightarrow> ''no eligible online worker: '' @ r))))"

definition reconcileTaskSchedulability :: "Task \<Rightarrow> Worker list \<Rightarrow> unit act" where
  "reconcileTaskSchedulability task workers =
     andThen (asks (\<lambda>\<sigma>. evaluateSchedulability \<sigma> task workers)) (\<lambda>reason.
     if reason = task_UnschedulableReason task then ret ()
     else andThen (catch (onStore (\<lambda>c now. SetTaskUnschedulableReason c (task_ID task) reason now))) (\<lambda>r.
          andThen (stopIfFenced r) (\<lambda>stop.
          if stop then ret ()
          else (case r of
                  Inl e \<Rightarrow> ret ()
                | Inr written \<Rightarrow>
                    if \<not> written then ret ()
                    else andThen (asks sc_clock) (\<lambda>now.
                         emit (NotifyTask ((taskEvent (task_JobID task) (task_ID task) (task_Name task) (task_Status task) now)
                           \<lparr>te_WorkerID := task_AssignedWorkerID task, te_UnschedulableReason := reason\<rparr>)))))))"

definition sweepUnschedulable :: "unit act" where
  "sweepUnschedulable \<sigma> =
     (if cfg_UnschedulableGrace (sc_cfg \<sigma>) \<le> 0 then (\<sigma>, Inr ())
      else
        let cutoff = sc_clock \<sigma> - cfg_UnschedulableGrace (sc_cfg \<sigma>);
            ready = ListReadyTasks (cfg_FarmID (sc_cfg \<sigma>)) (sc_clock \<sigma>) (nat MaxLimit) (sc_store \<sigma>);
            workers = onlineWorkers \<sigma>
        in loopUntil (\<lambda>task. unlessDeposed
             (if task_UnschedulableReason task = [] \<and> cutoff < task_UpdatedAt task then ret ()
              else reconcileTaskSchedulability task workers)) ready \<sigma>)"

end
