(* ===== verification/SchedLease.thy ===== *)
theory SchedLease
  imports SchedMatch
begin

text \<open>
  Handing out work (\<^verbatim>\<open>scheduler/lease.go\<close>).  A request that finds no work is parked: its handler is split at the
  wait, into \<open>handleLeaseRequest\<close> up to it and \<open>resumeLease\<close> after it.  The payload sent to the worker
  (\<^verbatim>\<open>assign.go\<close>) is built by the argument \<open>build\<close>, which may fail.  A wrapped error keeps its kind.
\<close>

record leaseRequest =
  lrq_WorkerID :: string
  lrq_InstanceID :: string

record leaseGateData =
  lgd_job :: Job
  lgd_step :: Step
  lgd_queue :: Queue
  lgd_pools :: "UsagePool table"
  lgd_activeCounts :: "nat table"

type_synonym 'p builder = "Task \<Rightarrow> Worker \<Rightarrow> Job \<Rightarrow> Step \<Rightarrow> Queue \<Rightarrow> string \<Rightarrow> time \<Rightarrow> store \<Rightarrow> 'p sres"

text \<open>What the handler does: it replies with a batch, replies with nothing after \<open>leaseRefusalDelay\<close>, or parks
  the request on a channel of the queue's or of the disabled worker's registry.\<close>

datatype 'p lease_answer =
    LeaseReply "'p list"
  | LeaseRefused
  | LeaseParked string nat
  | LeaseParkedDisabled nat

definition fullMachineCost :: "Task \<Rightarrow> Worker \<Rightarrow> int" where
  "fullMachineCost task worker =
     (case task_RequiredCores task of
        Some n \<Rightarrow> if n < 1 then 1 else n
      | None \<Rightarrow> if 0 < worker_CPUCount worker then worker_CPUCount worker else 1)"

definition leaseFromUnregisteredInstance :: "Worker \<Rightarrow> string \<Rightarrow> bool" where
  "leaseFromUnregisteredInstance w instanceID \<longleftrightarrow>
     \<not> (worker_InstanceID w = [] \<or> instanceID = [] \<or> worker_InstanceID w = instanceID)"

text \<open>The gates read the store and write nothing: \<open>None\<close> is a skipped task.\<close>

definition leaseGatesPass :: "Task \<Rightarrow> Worker \<Rightarrow> string \<Rightarrow> store \<Rightarrow> leaseGateData option sres" where
  "leaseGatesPass task worker exprShortfall s =
     (case GetJob (task_JobID task) s of
        Inl e \<Rightarrow> Inl e
      | Inr job \<Rightarrow>
          if job_Status job = JobStatusPaused \<or> JobStatus_IsTerminal (job_Status job) then Inr None
          else if workerCompatBlock exprShortfall worker job \<noteq> [] then Inr None
          else (case GetStep (task_StepID task) s of
                  Inl e \<Rightarrow> Inl e
                | Inr step \<Rightarrow>
                    (case GetQueue (job_QueueID job) s of
                       Inl e \<Rightarrow> Inl e
                     | Inr queue \<Rightarrow>
                         (case GetFarm (job_FarmID job) s of
                            Inl e \<Rightarrow> Inl e
                          | Inr farm \<Rightarrow>
                              if \<not> policyGate s job queue farm then Inr None
                              else
                                let (pools, activeCounts) = buildUsageContext step s
                                in if \<not> WorkerEligible worker job step pools activeCounts then Inr None
                                   else Inr (Some \<lparr> lgd_job = job, lgd_step = step, lgd_queue = queue,
                                     lgd_pools = pools, lgd_activeCounts = activeCounts \<rparr>)))))"

text \<open>What follows the store's answer: the owner of a new attempt is cached and its payload built.\<close>

definition deliverLease ::
  "'p builder \<Rightarrow> Task \<Rightarrow> Worker \<Rightarrow> leaseGateData \<Rightarrow> int \<Rightarrow> LeaseResult \<Rightarrow> ('p \<times> int) option act" where
  "deliverLease build task worker gd cost res =
     (case (res_Outcome res, res_Attempt res) of
        (LeaseLeased, Some attempt) \<Rightarrow>
          andThen (change (\<lambda>\<sigma>. \<sigma>\<lparr>sc_attemptCache :=
            cachePut (att_ID attempt) (att_WorkerID attempt) (att_TaskID attempt) (sc_attemptCache \<sigma>)\<rparr>)) (\<lambda>_.
          andThen (asks sc_clock) (\<lambda>now.
          andThen (reading (build task worker (lgd_job gd) (lgd_step gd) (lgd_queue gd) (att_ID attempt) now)) (\<lambda>payload.
          ret (Some (payload, cost)))))
      | _ \<Rightarrow> ret None)"

definition leaseOne :: "(nat \<Rightarrow> string) \<Rightarrow> Task \<Rightarrow> Worker \<Rightarrow> leaseGateData \<Rightarrow> LeaseResult act" where
  "leaseOne uuid task worker gd =
     andThen (newID uuid) (\<lambda>attemptID.
     andThen (buildUsageClaims uuid (lgd_step gd) (lgd_pools gd)) (\<lambda>claims.
     onStore (\<lambda>c now. LeaseTask c \<lparr> req_TaskID = task_ID task, req_WorkerID = worker_ID worker,
       req_AttemptID = attemptID, req_Now = now, req_Claims = claims \<rparr>)))"

definition tryLeaseTask ::
  "(nat \<Rightarrow> string) \<Rightarrow> 'p builder \<Rightarrow> Task \<Rightarrow> Worker \<Rightarrow> int \<Rightarrow> string \<Rightarrow> ('p \<times> int) option act" where
  "tryLeaseTask uuid build task worker free exprShortfall =
     (let cost = fullMachineCost task worker
      in if free < cost then ret None
         else andThen (reading (leaseGatesPass task worker exprShortfall)) (\<lambda>pass.
           case pass of
             None \<Rightarrow> ret None
           | Some gd \<Rightarrow> andThen (leaseOne uuid task worker gd) (deliverLease build task worker gd cost)))"

text \<open>The loop over the candidates returns the batch so far together with the error that ended it.\<close>

fun leaseLoop ::
  "(nat \<Rightarrow> string) \<Rightarrow> 'p builder \<Rightarrow> Worker \<Rightarrow> string \<Rightarrow> Task list \<Rightarrow> int \<Rightarrow> 'p list \<Rightarrow>
   ('p list \<times> store_error option) act" where
  "leaseLoop uuid build worker exprShortfall [] free batch = ret (batch, None)"
| "leaseLoop uuid build worker exprShortfall (task # candidates) free batch =
     (if free \<le> 0 then ret (batch, None)
      else andThen (catch (tryLeaseTask uuid build task worker free exprShortfall)) (\<lambda>r.
        case r of
          Inl e \<Rightarrow> ret (batch, Some e)
        | Inr None \<Rightarrow> leaseLoop uuid build worker exprShortfall candidates free batch
        | Inr (Some (payload, cost)) \<Rightarrow>
            leaseLoop uuid build worker exprShortfall candidates (free - cost) (batch @ [payload])))"

definition fullCores :: "Worker \<Rightarrow> int" where
  "fullCores worker = (if worker_CPUCount worker \<le> 0 then 1 else worker_CPUCount worker)"

definition selectLeaseBatch ::
  "(nat \<Rightarrow> string) \<Rightarrow> 'p builder \<Rightarrow> Worker \<Rightarrow> ('p list \<times> store_error option) act" where
  "selectLeaseBatch uuid build worker \<sigma> =
     (let full = fullCores worker;
          free = full - CommittedCores (worker_ID worker) full (sc_store \<sigma>)
      in if free \<le> 0 then (\<sigma>, Inr ([], None))
         else
           let candidates = ListReadyTasks (cfg_FarmID (sc_cfg \<sigma>)) (sc_clock \<sigma>)
                 (nat (cfg_AssignBatchSize (sc_cfg \<sigma>))) (sc_store \<sigma>)
           in leaseLoop uuid build worker (workerExprShortfall \<sigma> worker) candidates free [] \<sigma>)"

text \<open>A selection that was fenced off ends the term; the batch leased before is delivered either way.\<close>

definition batchOrStop :: "'p list \<times> store_error option \<Rightarrow> unit act" where
  "batchOrStop r = (case snd r of None \<Rightarrow> ret () | Some e \<Rightarrow> warnUnlessStopped (Inl e :: unit sres))"

definition leaseAfterPark ::
  "(nat \<Rightarrow> string) \<Rightarrow> 'p builder \<Rightarrow> string \<Rightarrow> string \<Rightarrow> 'p list act" where
  "leaseAfterPark uuid build workerID instanceID \<sigma> =
     (if sc_deposed \<sigma> then (\<sigma>, Inr [])
      else (case GetWorker workerID (sc_store \<sigma>) of
              Inl e \<Rightarrow> (\<sigma>, Inr [])
            | Inr w \<Rightarrow>
                if worker_Disabled w \<or> worker_Status w = WorkerStatusOffline \<or>
                   leaseFromUnregisteredInstance w instanceID
                then (\<sigma>, Inr [])
                else andThen (selectLeaseBatch uuid build w) (\<lambda>r. andThen (batchOrStop r) (\<lambda>_. ret (fst r))) \<sigma>))"

definition handleLeaseRequest ::
  "(nat \<Rightarrow> string) \<Rightarrow> 'p builder \<Rightarrow> string \<Rightarrow> string \<Rightarrow> leaseRequest option \<Rightarrow> 'p lease_answer act" where
  "handleLeaseRequest uuid build workerID queueID data \<sigma> =
     (if sc_deposed \<sigma> then (\<sigma>, Inr LeaseRefused)
      else (case data of
              None \<Rightarrow> (\<sigma>, Inr (LeaseReply []))
            | Some req \<Rightarrow>
                if lrq_WorkerID req = [] \<or> lrq_WorkerID req \<noteq> workerID then (\<sigma>, Inr (LeaseReply []))
                else (case GetWorker workerID (sc_store \<sigma>) of
                        Inl e \<Rightarrow> (\<sigma>, Inr (LeaseReply []))
                      | Inr worker \<Rightarrow>
                          if worker_Disabled worker
                          then
                            let (ch, reg) = enterWait workerID (sc_disabledWaiters \<sigma>)
                            in (\<sigma>\<lparr>sc_disabledWaiters := reg\<rparr>, Inr (LeaseParkedDisabled ch))
                          else if leaseFromUnregisteredInstance worker (lrq_InstanceID req)
                          then (\<sigma>, Inr LeaseRefused)
                          else andThen (selectLeaseBatch uuid build worker) (\<lambda>r.
                               andThen (batchOrStop r) (\<lambda>_.
                               if snd r \<noteq> None \<or> fst r \<noteq> [] then ret (LeaseReply (fst r))
                               else (\<lambda>\<sigma>.
                                 let (ch, reg) = enterWait queueID (sc_waiters \<sigma>)
                                 in (\<sigma>\<lparr>sc_waiters := reg\<rparr>, Inr (LeaseParked queueID ch))))) \<sigma>)))"

text \<open>After the wait of the request \<open>req\<close>, answered \<open>parked\<close>: its channel was closed (\<open>woken\<close>), or the wait
  ran into its timeout or the end of the term.\<close>

fun resumeLease ::
  "(nat \<Rightarrow> string) \<Rightarrow> 'p builder \<Rightarrow> string \<Rightarrow> leaseRequest \<Rightarrow> 'p lease_answer \<Rightarrow> bool \<Rightarrow> 'p list act" where
  "resumeLease uuid build workerID req (LeaseParked queueID ch) woken =
     (if woken then leaseAfterPark uuid build workerID (lrq_InstanceID req)
      else andThen (change (\<lambda>\<sigma>. \<sigma>\<lparr>sc_waiters := removeWaiter queueID ch (sc_waiters \<sigma>)\<rparr>)) (\<lambda>_. ret []))"
| "resumeLease uuid build workerID req (LeaseParkedDisabled ch) woken =
     (if woken then leaseAfterPark uuid build workerID (lrq_InstanceID req)
      else andThen (change (\<lambda>\<sigma>. \<sigma>\<lparr>sc_disabledWaiters := removeWaiter workerID ch (sc_disabledWaiters \<sigma>)\<rparr>))
             (\<lambda>_. ret []))"
| "resumeLease uuid build workerID req (LeaseReply batch) woken = ret batch"
| "resumeLease uuid build workerID req LeaseRefused woken = ret []"

end
