(* ===== verification/SchedSystem.thy ===== *)
theory SchedSystem
  imports SchedLease
begin

text \<open>
  The scheduler as a whole (\<^verbatim>\<open>scheduler/scheduler.go\<close>): the routing of worker messages, the periodic sweep,
  what \<^verbatim>\<open>Run\<close> does before it serves, and the transition system of all of its inputs.
\<close>

section \<open>Routing\<close>

text \<open>The payload of a worker message is decoded by the handler its subject selects; \<open>worker_body\<close> holds what
  each of the three would decode.\<close>

record worker_body =
  wb_register :: "RegisterMsg option"
  wb_heartbeat :: "HeartbeatMsg option"
  wb_deregister :: "DeregisterMsg option"

definition with_data :: "'m msg \<Rightarrow> 'n option \<Rightarrow> 'n msg" where
  "with_data m d = \<lparr> msg_Subject = msg_Subject m, msg_Meta = msg_Meta m, msg_Data = d \<rparr>"

definition discardUnexpectedSubject :: "'m msg \<Rightarrow> unit act" where
  "discardUnexpectedSubject msg = ackMsg msg"

definition handleWorkerMessage :: "(nat \<Rightarrow> string) \<Rightarrow> worker_body msg \<Rightarrow> unit act" where
  "handleWorkerMessage uuid msg =
     (case ParseWorkerSubject (msg_Subject msg) of
        None \<Rightarrow> discardUnexpectedSubject msg
      | Some (workerID, _) \<Rightarrow>
          if HasPrefix (msg_Subject msg) (SubjectWorkerRegisterPrefix @ ''.'')
          then handleWorkerRegister uuid (with_data msg (Option.bind (msg_Data msg) wb_register)) workerID
          else if HasPrefix (msg_Subject msg) (SubjectWorkerHeartbeatPrefix @ ''.'')
          then handleWorkerHeartbeat (with_data msg (Option.bind (msg_Data msg) wb_heartbeat)) workerID
          else if HasPrefix (msg_Subject msg) (SubjectWorkerDeregisterPrefix @ ''.'')
          then handleWorkerDeregister (with_data msg (Option.bind (msg_Data msg) wb_deregister)) workerID
          else discardUnexpectedSubject msg)"

section \<open>The sweep and the start\<close>

text \<open>The gauges the sweep ends with only set metrics, but for the queue depths, which wake the queues.\<close>

definition sweepOnce :: "unit act" where
  "sweepOnce = loopUntil unlessDeposed
     [sweepStaleWorkers, sweepRetiredWorkers, sweepRetiredJobs, reapStaleAssignedTasks, reconcileAttempts,
      demoteStalledJobs, sweepUnschedulable, sweepBlockedJobsOnce, refreshQueueDepthGauge]"

text \<open>\<^verbatim>\<open>Run\<close> up to the point where it serves lease requests.\<close>

definition startRun :: "unit act" where
  "startRun =
     andThen (change (\<lambda>\<sigma>. \<sigma>\<lparr>sc_startedAt := sc_clock \<sigma>\<rparr>)) (\<lambda>_.
     andThen reconcileStuckSteps (\<lambda>_. reconcilePendingSteps))"

section \<open>The transition system\<close>

datatype 'p input =
    GotWorkerMessage "worker_body msg"
  | GotTaskStatus "TaskStatusMsg msg"
  | GotLogChunk "LogChunkMsg msg"
  | GotLeaseRequest string string "leaseRequest option"
  | LeaseResumed string leaseRequest "'p lease_answer" bool
  | SweepTick
  | RunStarts
  | RetryWakeFires "string \<times> time"
  | RunEnds
  | AskCancelJob string
  | AskCancelTask string
  | AskRetryJob string
  | AskRetryTask string
  | AskReconcile string
  | AskWakeQueue string
  | AskWakeWorker string
  | ClockMoves time
  | BusChanges "time option option"
  | OtherWrites store_op

definition dropResult :: "'a act \<Rightarrow> unit act" where
  "dropResult m \<sigma> = (fst (m \<sigma>), Inr ())"

text \<open>What a user asks for through the API is done under the context of the HTTP request, without an epoch.\<close>

primrec react :: "(nat \<Rightarrow> string) \<Rightarrow> 'p builder \<Rightarrow> 'p input \<Rightarrow> unit act" where
  "react uuid build (GotWorkerMessage msg) = handleWorkerMessage uuid msg"
| "react uuid build (GotTaskStatus msg) = handleTaskStatusMessage msg"
| "react uuid build (GotLogChunk msg) = handleLogChunk uuid msg"
| "react uuid build (GotLeaseRequest w q d) = dropResult (handleLeaseRequest uuid build w q d)"
| "react uuid build (LeaseResumed w req ans woken) = dropResult (resumeLease uuid build w req ans woken)"
| "react uuid build SweepTick = sweepOnce"
| "react uuid build RunStarts = startRun"
| "react uuid build (RetryWakeFires wk) = fireRetryWake wk"
| "react uuid build RunEnds = stopRetryWakeTimers"
| "react uuid build (AskCancelJob j) = dropResult (CancelJob None j)"
| "react uuid build (AskCancelTask t) = dropResult (CancelTask None t)"
| "react uuid build (AskRetryJob j) = dropResult (RetryJob None j)"
| "react uuid build (AskRetryTask t) = dropResult (RetryTask None t)"
| "react uuid build (AskReconcile j) = under None (ReconcileDependents j)"
| "react uuid build (AskWakeQueue q) = WakeQueue q"
| "react uuid build (AskWakeWorker w) = WakeWorker w"
| "react uuid build (ClockMoves t) = change (\<lambda>\<sigma>. \<sigma>\<lparr>sc_clock := t\<rparr>)"
| "react uuid build (BusChanges b) = change (\<lambda>\<sigma>. \<sigma>\<lparr>sc_busUp := b\<rparr>)"
| "react uuid build (OtherWrites op) = change (\<lambda>\<sigma>. \<sigma>\<lparr>sc_store := exec op (sc_store \<sigma>)\<rparr>)"

text \<open>The other writers of the store (the API, the submitter, the elector) keep its callers' obligations and
  lease nothing: only the scheduler does.\<close>

definition leases :: "store_op \<Rightarrow> bool" where
  "leases op \<longleftrightarrow> (case op of AttemptOp (OpLease _ _) \<Rightarrow> True | _ \<Rightarrow> False)"

definition input_ok :: "'p input \<Rightarrow> sched \<Rightarrow> bool" where
  "input_ok i \<sigma> \<longleftrightarrow> (case i of OtherWrites op \<Rightarrow> op_ok op (sc_store \<sigma>) \<and> \<not> leases op | _ \<Rightarrow> True)"

text \<open>The inputs the scheduler handles under its own context: all but the writes of the others and what the API asks for.\<close>

definition ownInput :: "'p input \<Rightarrow> bool" where
  "ownInput i \<longleftrightarrow> (case i of AskCancelJob _ \<Rightarrow> False | AskCancelTask _ \<Rightarrow> False | AskRetryJob _ \<Rightarrow> False | AskRetryTask _ \<Rightarrow> False
     | AskReconcile _ \<Rightarrow> False | OtherWrites _ \<Rightarrow> False | _ \<Rightarrow> True)"

abbreviation sched_step :: "(nat \<Rightarrow> string) \<Rightarrow> 'p builder \<Rightarrow> 'p input \<Rightarrow> sched \<Rightarrow> sched" where
  "sched_step uuid build i \<sigma> \<equiv> fst (react uuid build i \<sigma>)"

end
