(* ===== verification/SchedSteady.thy ===== *)
theory SchedSteady
  imports SchedSystem StoreProps
begin

text \<open>
  The scheduler writes the store through its operations only: whatever a handler does to it is a sequence of
  \<open>exec\<close> steps that keep the callers' obligations \<open>op_ok\<close> and carry the scheduler's own leader epoch.
\<close>

section \<open>Sequences of store operations\<close>

definition quiet :: "ctx \<Rightarrow> store_op \<Rightarrow> store \<Rightarrow> bool" where
  "quiet c op s \<longleftrightarrow> op_ok op s \<and> op_ctx op = c \<and> \<not> leases op"

definition mine :: "ctx \<Rightarrow> store_op \<Rightarrow> store \<Rightarrow> bool" where
  "mine c op s \<longleftrightarrow> op_ok op s \<and> op_ctx op = c"

abbreviation writes :: "ctx \<Rightarrow> store \<Rightarrow> store \<Rightarrow> bool" where
  "writes c s s' \<equiv> reach s exec (quiet c) s'"

lemma quiet_mine: "quiet c op s \<Longrightarrow> mine c op s"
  by (simp add: quiet_def mine_def)

lemma writes_issues: "writes c s s' \<Longrightarrow> reach s exec (mine c) s'"
  by (rule reach_mono [OF _ quiet_mine])

lemma issues_inv: "reach s exec (mine c) s' \<Longrightarrow> exec_inv s \<Longrightarrow> exec_inv s'"
  by (induction rule: reach.induct) (auto simp: mine_def exec_inv_exec)

lemma writesI:
  assumes "fst (r :: store \<times> 'a) = exec op s" "op_ok op s" "op_ctx op = c" "\<not> leases op"
  shows "writes c s (fst r)"
  unfolding assms(1) using assms by (intro reach_one) (simp add: quiet_def)

lemma leases_restructures: "leases op \<Longrightarrow> restructures op"
  by (auto simp: leases_def restructures_def split: store_op.splits attempt_op.splits)

text \<open>Only a lease brings a new attempt.\<close>

lemma deleteJob_attempts:
  "exec_inv s \<Longrightarrow> tget (st_taskAttempts s) k = None \<Longrightarrow> tget (st_taskAttempts (deleteJobLocked i s)) k = None"
  using deleteJobLocked_get(2) [of s i k] by (cases "tget (st_taskAttempts (deleteJobLocked i s)) k") auto

lemma deleteExpired_attempts:
  "exec_inv s \<Longrightarrow> tget (st_taskAttempts s) k = None \<Longrightarrow>
    tget (st_taskAttempts (fst (deleteExpired cutoff b ids s))) k = None"
proof (induction ids arbitrary: s)
  case (Cons i ids)
  show ?case
    using Cons.IH [OF exec_inv_deleteJobLocked deleteJob_attempts, OF Cons.prems(1) Cons.prems] Cons.IH [OF Cons.prems]
    by (auto simp: Let_def case_prod_unfold split: option.split)
qed simp

lemma CreateJobSubmission_attempts:
  assumes "submission_ok sub"
  shows "st_taskAttempts (fst (CreateJobSubmission c sub clock s)) = st_taskAttempts s"
proof (cases "snd (CreateJobSubmission c sub clock s)")
  case (Inl e)
  then show ?thesis using CreateJobSubmission_refused [of c sub clock s] by (metis prod.collapse)
next
  case (Inr out)
  then show ?thesis using CreateJobSubmission_adds [OF _ assms] by (metis adds_job_def prod.collapse)
qed

lemma quiet_attempts:
  assumes inv: "exec_inv s" and q: "quiet c op s" and none: "tget (st_taskAttempts s) k = None"
  shows "tget (st_taskAttempts (exec op s)) k = None"
proof (cases "restructures op")
  case False
  have "attempt_moves (st_taskAttempts s) (st_taskAttempts (exec op s))"
    using exec_moves [OF inv _ False] q by (simp add: quiet_def sound_move_def moved_def)
  then have "rel_option (\<lambda>a a'. attempt_key a' = attempt_key a \<and>
      (att_Status a' = AttemptStatusRunning \<longrightarrow> att_Status a = AttemptStatusRunning)) None (tget (st_taskAttempts (exec op s)) k)"
    unfolding attempt_moves_def none [symmetric] by blast
  then show ?thesis by simp
next
  case True
  then obtain j where j: "op = JobOp j" using q
    by (cases op) (auto simp: quiet_def leases_def restructures_def split: attempt_op.splits)
  show ?thesis
  proof (cases j)
    case (OpSubmit c' sub clock)
    then show ?thesis using q none CreateJobSubmission_attempts by (simp add: j quiet_def op_ok_def)
  next
    case (OpUpdateJob c' job clock)
    then show ?thesis using none by (auto simp: j UpdateJob_def fenced_def Let_def split: option.split)
  next
    case (OpDeleteJob c' jid)
    then show ?thesis
      using none deleteJob_attempts [OF inv none] by (auto simp: j DeleteJob_def fenced_def split: option.split)
  next
    case (OpExpireJobs c' cutoff b)
    then show ?thesis
      using none deleteExpired_attempts [OF inv none]
      by (auto simp: j DeleteTerminalJobsBefore_def fenced_def case_prod_unfold Let_def split: option.split)
  qed (use True j in \<open>simp_all add: restructures_def\<close>)
qed

lemma writes_attempts:
  "writes c s s' \<Longrightarrow> exec_inv s \<Longrightarrow> tget (st_taskAttempts s) k = None \<Longrightarrow> tget (st_taskAttempts s') k = None"
proof (induction rule: reach.induct)
  case (reach_step s' op)
  have "exec_inv s'" by (rule issues_inv [OF writes_issues [OF reach_step.hyps(1)] reach_step.prems(1)])
  then show ?case using quiet_attempts [OF _ reach_step.hyps(2)] reach_step by blast
qed

section \<open>Steady actions\<close>

text \<open>The identifiers still to be drawn name no attempt.\<close>

definition fresh :: "(nat \<Rightarrow> string) \<Rightarrow> sched \<Rightarrow> bool" where
  "fresh uuid \<sigma> \<longleftrightarrow> (\<forall>n \<ge> sc_next \<sigma>. tget (st_taskAttempts (sc_store \<sigma>)) (uuid n) = None)"

definition follows :: "(nat \<Rightarrow> string) \<Rightarrow> sched \<Rightarrow> sched \<Rightarrow> bool" where
  "follows uuid \<sigma> \<sigma>' \<longleftrightarrow>
     reach (sc_store \<sigma>) exec (mine (sc_ctx \<sigma>)) (sc_store \<sigma>') \<and> fresh uuid \<sigma>' \<and> sc_ctx \<sigma>' = sc_ctx \<sigma>"

definition sound :: "(nat \<Rightarrow> string) \<Rightarrow> sched \<Rightarrow> bool" where
  "sound uuid \<sigma> \<longleftrightarrow> exec_inv (sc_store \<sigma>) \<and> fresh uuid \<sigma>"

definition steady :: "(nat \<Rightarrow> string) \<Rightarrow> 'a act \<Rightarrow> bool" where
  "steady uuid m \<longleftrightarrow> (\<forall>\<sigma>. sound uuid \<sigma> \<longrightarrow> follows uuid \<sigma> (fst (m \<sigma>)))"

lemma steadyD: "steady uuid m \<Longrightarrow> sound uuid \<sigma> \<Longrightarrow> follows uuid \<sigma> (fst (m \<sigma>))"
  by (simp add: steady_def)

lemma steadyI: "(\<And>\<sigma>. sound uuid \<sigma> \<Longrightarrow> follows uuid \<sigma> (fst (m \<sigma>))) \<Longrightarrow> steady uuid m"
  by (simp add: steady_def)

lemma follows_sound: "follows uuid \<sigma> \<sigma>' \<Longrightarrow> sound uuid \<sigma> \<Longrightarrow> sound uuid \<sigma>'"
  by (auto simp: follows_def sound_def intro: issues_inv)

lemma follows_trans: "follows uuid \<sigma> \<sigma>1 \<Longrightarrow> follows uuid \<sigma>1 \<sigma>2 \<Longrightarrow> follows uuid \<sigma> \<sigma>2"
  by (auto simp: follows_def intro: reach_trans)

lemma follows_same:
  "sound uuid \<sigma> \<Longrightarrow> sc_store \<sigma>' = sc_store \<sigma> \<Longrightarrow> sc_ctx \<sigma>' = sc_ctx \<sigma> \<Longrightarrow> sc_next \<sigma> \<le> sc_next \<sigma>' \<Longrightarrow> follows uuid \<sigma> \<sigma>'"
  by (auto simp: follows_def sound_def fresh_def intro: reach_init)

lemma follows_writes:
  assumes "sound uuid \<sigma>" "writes (sc_ctx \<sigma>) (sc_store \<sigma>) (sc_store \<sigma>')" "sc_ctx \<sigma>' = sc_ctx \<sigma>"
    "sc_next \<sigma> \<le> sc_next \<sigma>'"
  shows "follows uuid \<sigma> \<sigma>'"
  using assms writes_attempts [OF assms(2)] writes_issues [OF assms(2)]
  by (auto simp: follows_def sound_def fresh_def)

named_theorems steady_rules

lemma steady_andThen [steady_rules]:
  assumes "steady uuid m" "\<And>x. steady uuid (f x)"
  shows "steady uuid (andThen m f)"
proof (rule steadyI)
  fix \<sigma> assume s: "sound uuid \<sigma>"
  have m: "follows uuid \<sigma> (fst (m \<sigma>))" by (rule steadyD [OF assms(1) s])
  show "follows uuid \<sigma> (fst (andThen m f \<sigma>))"
    using m follows_trans [OF m steadyD [OF assms(2) follows_sound [OF m s]]] by (simp add: fst_andThen split: sum.split)
qed

text \<open>The continuation may rely on what the first action returned.\<close>

lemma steady_andThen_post:
  assumes "steady uuid m"
    "\<And>\<sigma> \<sigma>' x. sound uuid \<sigma> \<Longrightarrow> m \<sigma> = (\<sigma>', Inr x) \<Longrightarrow> sound uuid \<sigma>' \<Longrightarrow> follows uuid \<sigma>' (fst (f x \<sigma>'))"
  shows "steady uuid (andThen m f)"
proof (rule steadyI)
  fix \<sigma> assume s: "sound uuid \<sigma>"
  obtain \<sigma>' r where m: "m \<sigma> = (\<sigma>', r)" by fastforce
  have f: "follows uuid \<sigma> \<sigma>'" using steadyD [OF assms(1) s] m by simp
  show "follows uuid \<sigma> (fst (andThen m f \<sigma>))"
    using f assms(2) [OF s _ follows_sound [OF f s]] m by (cases r) (auto simp: fst_andThen intro: follows_trans)
qed

lemma steady_catch [steady_rules]: "steady uuid m \<Longrightarrow> steady uuid (catch m)"
  by (simp add: steady_def catch_def case_prod_unfold)

lemma steady_onStore:
  assumes "\<And>c now s. exec_inv s \<Longrightarrow> writes c s (fst (F c now s))"
  shows "steady uuid (onStore F)"
proof (rule steadyI)
  fix \<sigma> assume s: "sound uuid \<sigma>"
  then show "follows uuid \<sigma> (fst (onStore F \<sigma>))"
    using assms by (intro follows_writes) (simp_all add: onStore_def case_prod_unfold Let_def sound_def)
qed

lemma steady_change:
  assumes "\<And>\<sigma>. sc_store (f \<sigma>) = sc_store \<sigma> \<and> sc_ctx (f \<sigma>) = sc_ctx \<sigma> \<and> sc_next (f \<sigma>) = sc_next \<sigma>"
  shows "steady uuid (change f)"
  by (rule steadyI) (simp add: change_def follows_same assms)

lemma steady_primitives [steady_rules]:
  "steady uuid (ret x)" "steady uuid (throw e)" "steady uuid (asks g)" "steady uuid (reading h)" "steady uuid (emit ev)"
  "steady uuid (newID u)"
  by (rule steadyI, simp add: act_defs newID_def follows_same)+

lemma steady_asksD:
  assumes "\<And>x. steady uuid (f x)"
  shows "steady uuid (\<lambda>\<sigma>. f (g \<sigma>) \<sigma>)"
  using assms by (simp add: steady_def)

lemma forEach_andThen:
  "forEach f [] = ret ()" "forEach f (x # xs) = andThen (f x) (\<lambda>_. forEach f xs)"
  by (auto simp: fun_eq_iff ret_def andThen_def split: prod.split sum.split)

lemma loopUntil_andThen:
  "loopUntil f [] = ret ()"
  "loopUntil f (x # xs) = andThen (f x) (\<lambda>stop. if stop then ret () else loopUntil f xs)"
  by (auto simp: fun_eq_iff ret_def andThen_def split: prod.split sum.split)

lemma steady_forEach [steady_rules]: "(\<And>x. steady uuid (f x)) \<Longrightarrow> steady uuid (forEach f xs)"
  by (induction xs) (simp_all only: forEach_andThen steady_primitives steady_andThen)

lemma steady_if [steady_rules]: "steady uuid m \<Longrightarrow> steady uuid m' \<Longrightarrow> steady uuid (if b then m else m')"
  by simp

lemma steady_loopUntil [steady_rules]: "(\<And>x. steady uuid (f x)) \<Longrightarrow> steady uuid (loopUntil f xs)"
proof (induction xs)
  case (Cons x xs)
  then show ?case unfolding loopUntil_andThen by (intro steady_rules) simp_all
qed (simp only: loopUntil_andThen steady_primitives)

text \<open>A call with a context of its own writes under that context.\<close>

definition issues_as :: "(nat \<Rightarrow> string) \<Rightarrow> ctx \<Rightarrow> 'a act \<Rightarrow> bool" where
  "issues_as uuid c m \<longleftrightarrow> (\<forall>\<sigma>. sound uuid \<sigma> \<longrightarrow>
     reach (sc_store \<sigma>) exec (mine c) (sc_store (fst (m \<sigma>))) \<and> fresh uuid (fst (m \<sigma>)) \<and> sc_ctx (fst (m \<sigma>)) = sc_ctx \<sigma>)"

lemma issues_as_under:
  assumes "steady uuid m"
  shows "issues_as uuid c (under c m)"
  unfolding issues_as_def
proof (intro allI impI)
  fix \<sigma> assume "sound uuid \<sigma>"
  then have "sound uuid (\<sigma>\<lparr>sc_ctx := c\<rparr>)" by (simp add: sound_def fresh_def)
  from steadyD [OF assms this]
  show "reach (sc_store \<sigma>) exec (mine c) (sc_store (fst (under c m \<sigma>))) \<and> fresh uuid (fst (under c m \<sigma>)) \<and>
      sc_ctx (fst (under c m \<sigma>)) = sc_ctx \<sigma>"
    by (simp add: under_def case_prod_unfold follows_def fresh_def)
qed

lemma issues_as_after_reading: "(\<And>x. issues_as uuid c (f x)) \<Longrightarrow> issues_as uuid c (andThen (reading g) f)"
  by (simp add: issues_as_def sound_def act_simps reach_init split: sum.split)

lemma issues_as_then_ret: "issues_as uuid c m \<Longrightarrow> issues_as uuid c (andThen m (\<lambda>x. ret (h x)))"
  by (simp add: issues_as_def act_simps split: sum.split)

end
