(* ===== verification/SchedEffects.thy ===== *)
theory SchedEffects
  imports SchedSteady
begin

text \<open>
  Every handler of the scheduler is steady: it reaches the store through its operations alone, keeps their
  obligations and leaves fresh the identifiers still to be drawn.
\<close>

section \<open>The store operations the scheduler calls\<close>

lemma op_writes:
  "writes c s (fst (ReleaseBlockedJob c j now s))"
  "writes c s (fst (CancelBlockedJob c j r now s))"
  "writes c s (fst (ReleaseStep c i now s))"
  "writes c s (fst (CancelPendingStep c i r now s))"
  "writes c s (fst (SetTaskUnschedulableReason c i r now s))"
  "writes c s (fst (FinalizeJob c j now s))"
  "writes c s (fst (FinalizeStep c i now s))"
  "writes c s (fst (PromoteJobRunning c j now s))"
  "writes c s (fst (RecordAttemptProgress c p s))"
  "writes c s (fst (StartTaskAttempt c a i sess now s))"
  "writes c s (fst (ReclaimTaskAttempt c a i now s))"
  "writes c s (fst (ParkJob c j r now s))"
  "writes c s (fst (RecordTaskFailure c a i ec sess msg stamp now s))"
  "writes c s (fst (CancelJobExecution c j r now s))"
  "writes c s (fst (CancelTaskExecution c i r now s))"
  "writes c s (fst (RetryTasks c j ids now s))"
  "writes c s (fst (CreateComputeLocation c l now s))"
  "writes c s (fst (TouchWorkerCredential c w now s))"
  "writes c s (fst (RegisterWorker c x now s))"
  "writes c s (fst (OfflineWorker c w inst now s))"
  "writes c s (fst (UpdateWorkerHeartbeat c w stamp bat now s))"
  "writes c s (fst (OfflineStaleWorker c w cutoff now s))"
  "writes c s (fst (DeleteOfflineWorkersBefore c cutoff s))"
  "writes c s (fst (DeleteTerminalJobsBefore c cutoff b s))"
  "writes c s (fst (ReclaimStaleAssignedTasks c cutoff now s))"
  "writes c s (fst (DemoteStalledJobs c now s))"
  "writes c s (fst (CreateTaskLog c lg s))"
  subgoal by (rule writesI [where op = "StepOp (OpReleaseBlocked c j now)"]) (simp_all add: op_ok_def leases_def)
  subgoal by (rule writesI [where op = "StepOp (OpCancelBlocked c j r now)"]) (simp_all add: op_ok_def leases_def)
  subgoal by (rule writesI [where op = "StepOp (OpReleaseStep c i now)"]) (simp_all add: op_ok_def leases_def)
  subgoal by (rule writesI [where op = "StepOp (OpCancelPendingStep c i r now)"]) (simp_all add: op_ok_def leases_def)
  subgoal by (rule writesI [where op = "AttemptOp (OpUnschedulable c i r now)"]) (simp_all add: op_ok_def leases_def)
  subgoal by (rule writesI [where op = "StepOp (OpFinalizeJob c j now)"]) (simp_all add: op_ok_def leases_def)
  subgoal by (rule writesI [where op = "StepOp (OpFinalizeStep c i now)"]) (simp_all add: op_ok_def leases_def)
  subgoal by (rule writesI [where op = "JobOp (OpPromote c j now)"]) (simp_all add: op_ok_def leases_def)
  subgoal by (rule writesI [where op = "AttemptOp (OpProgress c p)"]) (simp_all add: op_ok_def leases_def)
  subgoal by (rule writesI [where op = "AttemptOp (OpStart c a i sess now)"]) (simp_all add: op_ok_def leases_def)
  subgoal by (rule writesI [where op = "AttemptOp (OpReclaim c a i now)"]) (simp_all add: op_ok_def leases_def)
  subgoal by (rule writesI [where op = "JobOp (OpPark c j r now)"]) (simp_all add: op_ok_def leases_def)
  subgoal by (rule writesI [where op = "AttemptOp (OpFailure c a i ec sess msg stamp now)"]) (simp_all add: op_ok_def leases_def)
  subgoal by (rule writesI [where op = "StepOp (OpCancelJob c j r now)"]) (simp_all add: op_ok_def leases_def)
  subgoal by (rule writesI [where op = "AttemptOp (OpCancelTask c i r now)"]) (simp_all add: op_ok_def leases_def)
  subgoal by (rule writesI [where op = "StepOp (OpRetry c j ids now)"]) (simp_all add: op_ok_def leases_def)
  subgoal by (rule writesI [where op = "CatalogOp (OpCreateCompute c l now)"]) (simp_all add: op_ok_def leases_def)
  subgoal by (rule writesI [where op = "AccountOp (OpTouchCredential c w now)"]) (simp_all add: op_ok_def leases_def)
  subgoal by (rule writesI [where op = "WorkerOp (OpRegister c x now)"]) (simp_all add: op_ok_def leases_def)
  subgoal by (rule writesI [where op = "WorkerOp (OpOffline c w inst now)"]) (simp_all add: op_ok_def leases_def)
  subgoal by (rule writesI [where op = "WorkerOp (OpHeartbeat c w stamp bat now)"]) (simp_all add: op_ok_def leases_def)
  subgoal by (rule writesI [where op = "WorkerOp (OpOfflineStale c w cutoff now)"]) (simp_all add: op_ok_def leases_def)
  subgoal by (rule writesI [where op = "WorkerOp (OpExpireWorkers c cutoff)"]) (simp_all add: op_ok_def leases_def)
  subgoal by (rule writesI [where op = "JobOp (OpExpireJobs c cutoff b)"]) (simp_all add: op_ok_def leases_def)
  subgoal by (rule writesI [where op = "AttemptOp (OpReclaimStale c cutoff now)"]) (simp_all add: op_ok_def leases_def)
  subgoal by (rule writesI [where op = "JobOp (OpDemote c now)"]) (simp_all add: op_ok_def leases_def)
  subgoal by (rule writesI [where op = "ConfigOp (OpLog c lg)"]) (simp_all add: op_ok_def leases_def)
  done

lemma writes_trans: "writes c s u \<Longrightarrow> writes c u v \<Longrightarrow> writes c s v"
  by (rule reach_trans)

lemma resolveLoop_writes: "writes c s (fst (resolveLoop c now m sts n s))"
proof (induction sts arbitrary: n s)
  case (Cons st sts)
  show ?case
    using writes_trans [OF op_writes(3) [where c = c and s = s and i = "step_ID st" and now = now] Cons.IH] Cons.IH op_writes(3) [where c = c and s = s and i = "step_ID st" and now = now]
    by (auto split: prod.split sum.split)
qed (simp add: reach_init)

lemma cancelPass_writes: "writes c s (fst (cancelPass c now sts acc s))"
proof (induction sts arbitrary: acc s)
  case (Cons st sts)
  obtain m n ts p where acc: "acc = (m, n, ts, p)" by (cases acc) auto
  show ?case
    using writes_trans [OF op_writes(4) [where c = c and s = s and i = "step_ID st" and r = FailureReasonUpstreamFailed and now = now] Cons.IH] Cons.IH
      op_writes(4) [where c = c and s = s and i = "step_ID st" and r = FailureReasonUpstreamFailed and now = now]
    by (auto simp: acc split: prod.split sum.split)
qed (simp add: reach_init)

lemma cancelLoop_writes: "writes c s (fst (cancelLoop c now steps m n ts s))"
proof (induction c now steps m n ts s rule: cancelLoop.induct)
  case (1 c now steps m n ts s)
  have w: "writes c s (fst (cancelPass c now steps (m, n, ts, False) s))" by (rule cancelPass_writes)
  obtain s' r where p: "cancelPass c now steps (m, n, ts, False) s = (s', r)" by fastforce
  show ?case
  proof (cases r)
    case (Inl e)
    then show ?thesis using w p by (simp add: cancelLoop.simps [of c])
  next
    case (Inr acc)
    obtain m' n' ts' pr where acc: "acc = (m', n', ts', pr)" by (cases acc) auto
    have "pr \<Longrightarrow> writes c s' (fst (cancelLoop c now steps m' n' ts' s'))"
      using 1 [OF p [symmetric] Inr acc [symmetric] refl refl] by simp
    then show ?thesis using w p Inr acc writes_trans by (auto simp: cancelLoop.simps [of c])
  qed
qed

lemma deps_writes:
  "writes c s (fst (ResolveDependencies c j now s))" "writes c s (fst (CancelDependents c j now s))"
  by (simp_all add: ResolveDependencies_def CancelDependents_def Let_def resolveLoop_writes cancelLoop_writes)

lemma steady_case [steady_rules]:
  "(\<And>e. r = Inl e \<Longrightarrow> steady uuid (f e)) \<Longrightarrow> (\<And>x. r = Inr x \<Longrightarrow> steady uuid (g x)) \<Longrightarrow>
    steady uuid (case r of Inl e \<Rightarrow> f e | Inr x \<Rightarrow> g x)"
  "(d = None \<Longrightarrow> steady uuid a) \<Longrightarrow> (\<And>y. d = Some y \<Longrightarrow> steady uuid (h y)) \<Longrightarrow>
    steady uuid (case d of None \<Rightarrow> a | Some y \<Rightarrow> h y)"
  "(\<And>y z. pr = (y, z) \<Longrightarrow> steady uuid (k y z)) \<Longrightarrow> steady uuid (case pr of (y, z) \<Rightarrow> k y z)"
  "steady uuid (l x) \<Longrightarrow> steady uuid (let y = x in l y)"
  by (auto split: sum.split option.split prod.split)

lemma steady_progress [steady_rules]:
  "steady uuid a \<Longrightarrow> steady uuid b \<Longrightarrow> steady uuid d \<Longrightarrow> steady uuid e \<Longrightarrow>
    steady uuid (case oc of ProgressRecorded \<Rightarrow> a | ProgressNotLive \<Rightarrow> b | ProgressTaskAssigned \<Rightarrow> d | ProgressOutOfOrder \<Rightarrow> e)"
  by (cases oc) simp_all

declare steady_onStore [steady_rules] op_writes [steady_rules] deps_writes [steady_rules]

section \<open>Helpers\<close>

lemma steady_fence [steady_rules]:
  "steady uuid (stopIfFenced r)" "steady uuid (warnUnlessStopped r)" "steady uuid (ackMsg msg)" "steady uuid (nakMsg msg)"
  "steady uuid (WakeQueue q)" "steady uuid (WakeWorker w)"
proof -
  have f: "steady uuid fencedOff"
    by (rule steadyI) (simp add: fencedOff_def act_defs follows_same)
  show s: "steady uuid (stopIfFenced r)" for r :: "'x sres"
    unfolding stopIfFenced_def by (intro steady_rules f)
  show "steady uuid (warnUnlessStopped r)"
    unfolding warnUnlessStopped_def by (intro steady_rules s)
  show "steady uuid (ackMsg msg)" "steady uuid (nakMsg msg)"
    by (rule steadyI, simp add: ackMsg_def nakMsg_def act_defs follows_same)+
  show "steady uuid (WakeQueue q)" "steady uuid (WakeWorker w)"
    unfolding WakeQueue_def WakeWorker_def by (rule steady_change, simp add: Let_def)+
qed

lemma steady_notifyQueueForJob [steady_rules]: "steady uuid (notifyQueueForJob j)"
  unfolding notifyQueueForJob_def by (intro steady_rules)

lemma steady_unlessDeposed [steady_rules]: "steady uuid m \<Longrightarrow> steady uuid (unlessDeposed m)"
  unfolding unlessDeposed_def by (intro steady_rules)

lemma steady_evict [steady_rules]: "steady uuid (evictAttempt a)"
  unfolding evictAttempt_def by (rule steady_change) simp

text \<open>For actions written with the state in hand.\<close>

lemma follows_loops:
  "sound uuid \<sigma> \<Longrightarrow> (\<And>x. steady uuid (f x)) \<Longrightarrow> follows uuid \<sigma> (fst (loopUntil f xs \<sigma>))"
  "sound uuid \<sigma> \<Longrightarrow> (\<And>x. steady uuid (g x)) \<Longrightarrow> follows uuid \<sigma> (fst (forEach g xs \<sigma>))"
  "sound uuid \<sigma> \<Longrightarrow> steady uuid m \<Longrightarrow> (\<And>x. steady uuid (h x)) \<Longrightarrow> follows uuid \<sigma> (fst (andThen m h \<sigma>))"
  "sound uuid \<sigma> \<Longrightarrow> follows uuid \<sigma> (fst (\<sigma>, r))"
  by (auto intro!: steadyD steady_rules simp: follows_same)

section \<open>Job dependencies\<close>

lemma steady_blocked [steady_rules]:
  "steady uuid (releaseBlockedJob job)" "steady uuid (cancelBlockedJob j)"
  unfolding releaseBlockedJob_def cancelBlockedJob_def by (intro steady_rules)+

lemma follows_then:
  assumes "m \<sigma> = (\<sigma>', r)" "steady uuid m" "sound uuid \<sigma>" "\<And>x. r = Inr x \<Longrightarrow> sound uuid \<sigma>' \<Longrightarrow> follows uuid \<sigma>' (fst (f x \<sigma>'))"
  shows "follows uuid \<sigma> (fst (case r of Inl e \<Rightarrow> (\<sigma>', Inl e) | Inr x \<Rightarrow> f x \<sigma>'))"
proof -
  have f: "follows uuid \<sigma> \<sigma>'" using steadyD [OF assms(2,3)] assms(1) by simp
  show ?thesis
    using f follows_trans [OF f assms(4)] follows_sound [OF f assms(3)] by (simp split: sum.split)
qed

lemma follows_reconcileWork: "sound uuid \<sigma> \<Longrightarrow> follows uuid \<sigma> (fst (reconcileWork w \<sigma>))"
proof (induction w \<sigma> rule: reconcileWork.induct)
  case (2 i work \<sigma>)
  show ?case
  proof (cases "blockedFate i (sc_store \<sigma>)")
    case LeaveBlocked
    then show ?thesis using 2(1) 2(4) by simp
  next
    case CancelBlocked
    obtain \<sigma>' r where c: "cancelBlockedJob i \<sigma> = (\<sigma>', r)" by fastforce
    show ?thesis
      using follows_then [OF c steady_blocked(2) 2(4), of "\<lambda>_ \<sigma>. reconcileWork (ListDependents i (sc_store \<sigma>) @ work) \<sigma>"]
        2(2) [OF CancelBlocked c [symmetric]] CancelBlocked c by simp
  next
    case (ReleaseBlocked job)
    obtain \<sigma>' r where c: "releaseBlockedJob job \<sigma> = (\<sigma>', r)" by fastforce
    show ?thesis
      using follows_then [OF c steady_blocked(1) 2(4), of "\<lambda>_ \<sigma>. reconcileWork work \<sigma>"]
        2(3) [OF ReleaseBlocked c [symmetric]] ReleaseBlocked c by simp
  qed
qed (simp add: follows_same)

lemma steady_deps [steady_rules]:
  "steady uuid (ReconcileDependents j)" "steady uuid (reconcileBlockedJob j)" "steady uuid sweepBlockedJobs"
proof -
  show b: "steady uuid (reconcileBlockedJob j)" for j
    unfolding reconcileBlockedJob_def by (rule steadyI) (rule follows_reconcileWork)
  show "steady uuid (ReconcileDependents j)"
    by (rule steadyI) (simp add: ReconcileDependents_def follows_reconcileWork)
  show "steady uuid sweepBlockedJobs"
    unfolding sweepBlockedJobs_def by (intro steady_rules b)
qed

section \<open>Task reports\<close>

lemma steady_completion [steady_rules]:
  "steady uuid (checkJobCompletion j)" "steady uuid (propagateStepDependencies j st)" "steady uuid (checkStepCompletion i j)"
proof -
  show c: "steady uuid (checkJobCompletion j)" for j
    unfolding checkJobCompletion_def by (intro steady_rules)
  show p: "steady uuid (propagateStepDependencies j st)" for j st
    unfolding propagateStepDependencies_def by (intro steady_rules)
  show "steady uuid (checkStepCompletion i j)"
    unfolding checkStepCompletion_def by (intro steady_rules c p)
qed

lemma steady_running [steady_rules]: "steady uuid (handleTaskRunning a m)"
  unfolding handleTaskRunning_def startReported_def handleRunningSnapshot_def recordSnapshotAfterStart_def
    maybePromoteJobRunning_def staleRunning_def publishCancel_def
  by (intro steady_rules)

lemma steady_terminal:
  assumes "status \<noteq> AttemptStatusRunning"
  shows "steady uuid (handleTaskTerminal a m ts status stamp)"
proof -
  have "writes c s (fst (CompleteTaskAttempt c ac now s))" if "ac_AttemptStatus ac \<noteq> AttemptStatusRunning" for c ac now s
    by (rule writesI [where op = "AttemptOp (OpComplete c ac now)"]) (simp_all add: that op_ok_def leases_def)
  then show ?thesis
    unfolding handleTaskTerminal_def Let_def using assms by (intro steady_rules) simp_all
qed

lemma steady_reclaimAttempt [steady_rules]: "steady uuid (reclaimAttempt a i)" "steady uuid (notifyTaskReclaimed task)"
  unfolding reclaimAttempt_def notifyTaskReclaimed_def by (intro steady_rules)+

lemma steady_scheduleRetryWake [steady_rules]: "steady uuid (scheduleRetryWake q d)"
  by (rule steadyI) (simp add: scheduleRetryWake_def follows_same)

subsection \<open>A failed attempt is closed before its task is requeued\<close>

definition closed_attempt :: "string \<Rightarrow> store \<Rightarrow> bool" where
  "closed_attempt aid s \<longleftrightarrow>
     (case tget (st_taskAttempts s) aid of Some a \<Rightarrow> att_Status a \<noteq> AttemptStatusRunning | None \<Rightarrow> True)"

lemma RecordTaskFailure_closes:
  assumes "RecordTaskFailure c aid i ec sess msg stamp now s = (s', Inr r)"
  shows "closed_attempt aid s'"
  using assms
  by (auto simp: RecordTaskFailure_def fenced_def closed_attempt_def Let_def failAttemptRow_def
      releaseAttemptClaimsLocked_def split: option.splits if_splits)

lemma follows_retry:
  assumes "sound uuid \<sigma>" "closed_attempt (sm_AttemptID m) (sc_store \<sigma>)"
  shows "follows uuid \<sigma> (fst (retryTaskAfterFailure task job m policy stamp \<sigma>))"
proof -
  have "writes c (sc_store \<sigma>) (fst (RequeueTaskForRetry c (sm_TaskID m) (sm_AttemptID m) after stamp (sc_store \<sigma>)))" for c after
    by (rule writesI [where op = "AttemptOp (OpRequeue c (sm_TaskID m) (sm_AttemptID m) after stamp)"])
      (use assms(2) in \<open>simp_all add: op_ok_def leases_def closed_attempt_def\<close>)
  then have f: "follows uuid \<sigma> (fst (onStore (\<lambda>c _. RequeueTaskForRetry c (sm_TaskID m) (sm_AttemptID m)
      (stamp + rp_RetryDelay policy) stamp) \<sigma>))"
    by (intro follows_writes) (simp_all add: assms onStore_def case_prod_unfold)
  have k: "steady uuid (if \<not> requeued then ret ()
     else andThen (emit (NotifyTask (taskEvent (task_JobID task) (task_ID task) (task_Name task) TaskStatusReady stamp))) (\<lambda>_.
          scheduleRetryWake (job_QueueID job) (rp_RetryDelay policy)))" for requeued
    by (intro steady_rules)
  show ?thesis
    using f follows_trans [OF f steadyD [OF k follows_sound [OF f assms(1)]]]
    by (simp add: retryTaskAfterFailure_def fst_andThen split: sum.split)
qed

lemma follows_decideFailure:
  assumes "sound uuid \<sigma>" "closed_attempt (sm_AttemptID m) (sc_store \<sigma>)"
  shows "follows uuid \<sigma> (fst (decideFailure a m stamp task job policy tf jf \<sigma>))"
proof -
  have "steady uuid (andThen (if parkedAt policy jf then parkJobAtFailureLimit (task_JobID task) (rp_FailureLimit policy) stamp
      else ret ()) (\<lambda>_. handleTaskTerminal a m TaskStatusFailed AttemptStatusFailed stamp))"
    unfolding parkJobAtFailureLimit_def by (intro steady_rules steady_terminal) simp
  then show ?thesis
    using follows_retry [OF assms] assms(1) by (simp add: decideFailure_def Let_def steadyD)
qed

lemma follows_andThen:
  assumes "sound uuid \<sigma>" "steady uuid m" "\<And>x \<sigma>'. m \<sigma> = (\<sigma>', Inr x) \<Longrightarrow> sound uuid \<sigma>' \<Longrightarrow> follows uuid \<sigma>' (fst (f x \<sigma>'))"
  shows "follows uuid \<sigma> (fst (andThen m f \<sigma>))"
proof -
  obtain \<sigma>' r where m: "m \<sigma> = (\<sigma>', r)" by fastforce
  have f: "follows uuid \<sigma> \<sigma>'" using steadyD [OF assms(2,1)] m by simp
  show ?thesis
    using f follows_trans [OF f assms(3)] m follows_sound [OF f assms(1)] by (cases r) (simp_all add: fst_andThen)
qed

lemma steady_failureReportStillCurrent [steady_rules]: "steady uuid (failureReportStillCurrent i a)"
  unfolding failureReportStillCurrent_def by (intro steady_rules)

lemma failureReportStillCurrent_store: "sc_store (fst (failureReportStillCurrent i a \<sigma>)) = sc_store \<sigma>"
  by (simp add: failureReportStillCurrent_def act_simps split: sum.split)

lemma steady_failed:
  assumes id: "att_ID a = sm_AttemptID m"
  shows "steady uuid (handleTaskFailed a m stamp)"
proof -
  let ?cont = "\<lambda>task job policy (tf, jf, first). andThen (evictAttempt (att_ID a)) (\<lambda>_.
        andThen (if first then ret True else failureReportStillCurrent (sm_TaskID m) (att_ID a)) (\<lambda>proceed.
        if \<not> proceed then ret () else decideFailure a m stamp task job policy tf jf))"
  have k: "follows uuid \<sigma> (fst (?cont task job policy r \<sigma>))"
    if "sound uuid \<sigma>" "closed_attempt (sm_AttemptID m) (sc_store \<sigma>)" for \<sigma> r task job policy
  proof (cases r)
    case (fields tf jf first)
    show ?thesis
      unfolding fields prod.case
    proof (intro follows_andThen [OF that(1)] follows_andThen steady_rules; assumption?)
      fix x \<sigma>1 proceed \<sigma>2
      assume 1: "evictAttempt (att_ID a) \<sigma> = (\<sigma>1, Inr x)" and "sound uuid \<sigma>1"
        and 2: "(if first then ret True else failureReportStillCurrent (sm_TaskID m) (att_ID a)) \<sigma>1 = (\<sigma>2, Inr proceed)"
        and s2: "sound uuid \<sigma>2"
      have "sc_store \<sigma>2 = sc_store \<sigma>"
        using 1 2 failureReportStillCurrent_store [of "sm_TaskID m" "att_ID a" \<sigma>1]
        by (auto simp: evictAttempt_def change_def ret_def split: if_splits)
      then show "follows uuid \<sigma>2 (fst ((if \<not> proceed then ret () else decideFailure a m stamp task job policy tf jf) \<sigma>2))"
        using s2 that(2) by (simp add: follows_decideFailure follows_same ret_def)
    qed
  qed
  have shut: "steady uuid (handleTaskShutdown a m)" unfolding handleTaskShutdown_def by (intro steady_rules)
  have post: "closed_attempt (sm_AttemptID m) (sc_store \<sigma>')"
    if "onStore (\<lambda>c now. RecordTaskFailure c (att_ID a) (sm_TaskID m) (sm_ExitCode m) (sm_SessionID m) (sm_Message m)
      stamp now) \<sigma> = (\<sigma>', Inr r)" for \<sigma> \<sigma>' r
    using that by (auto simp: onStore_def id split: prod.splits dest: RecordTaskFailure_closes)
  show ?thesis
    unfolding handleTaskFailed_def
    by (intro steady_if shut steady_andThen steady_primitives steady_andThen_post [where f = "?cont _ _ _"] k post)
      (intro steady_rules)
qed

lemma steady_processTaskStatus [steady_rules]: "steady uuid (processTaskStatus w m)"
proof -
  have k: "steady uuid (if att_TaskID a \<noteq> sm_TaskID m then ret ()
         else if w \<noteq> att_WorkerID a then ret ()
         else
           andThen (asks (\<lambda>\<sigma>. reportedAt m (sc_clock \<sigma>))) (\<lambda>stamp.
           if sm_Status m = ''running'' then handleTaskRunning a m
           else if sm_Status m = ''succeeded''
           then handleTaskTerminal a m TaskStatusSucceeded AttemptStatusSucceeded stamp
           else if sm_Status m = ''failed'' then handleTaskFailed a m stamp
           else if sm_Status m = ''canceled''
           then handleTaskTerminal a m TaskStatusCanceled AttemptStatusCanceled stamp
           else ret ()))" if "att_ID a = sm_AttemptID m" for a
    by (intro steady_rules steady_terminal steady_failed that) simp_all
  show ?thesis
    unfolding processTaskStatus_def
  proof (rule steady_andThen_post, goal_cases)
    case (2 \<sigma> \<sigma>' r)
    show ?case
    proof (cases r)
      case (Inl e)
      then show ?thesis using 2(3) by (simp add: ret_def throw_def follows_same)
    next
      case (Inr a)
      have "att_ID a = sm_AttemptID m"
        using 2 Inr exec_inv_attID [of "sc_store \<sigma>" "sm_AttemptID m" a]
        by (auto simp: act_defs sound_def GetTaskAttempt_def split: option.splits)
      then show ?thesis using steadyD [OF k 2(3)] Inr by simp
    qed
  qed (intro steady_rules)
qed

lemma steady_handlers [steady_rules]: "steady uuid (handleTaskStatusMessage msg)"
  unfolding handleTaskStatusMessage_def by (intro steady_rules)

lemma caller_requests:
  "issues_as uuid c (CancelJob c j)" "issues_as uuid c (CancelTask c i)" "issues_as uuid c (retry c j ids)"
  unfolding CancelJob_def CancelTask_def retry_def publishCancelSignals_def publishCancel_def
  by (intro issues_as_under steady_rules)+

lemma caller_retries: "issues_as uuid c (RetryJob c j)" "issues_as uuid c (RetryTask c i)"
  unfolding RetryJob_def RetryTask_def by (intro issues_as_after_reading issues_as_then_ret caller_requests)+

section \<open>Workers and sweeps\<close>

lemma steady_reclaimOffline [steady_rules]: "steady uuid (reclaimOfflineWorkerTasks ts)"
  unfolding reclaimOfflineWorkerTasks_def by (intro steady_rules steady_change) simp

lemma steady_workers [steady_rules]:
  "steady uuid (handleWorkerRegister u rmsg w)" "steady uuid (handleWorkerDeregister dmsg w)"
  unfolding handleWorkerRegister_def ensureComputeLocation_def touchWorkerCredential_def handleWorkerDeregister_def
  by (intro steady_rules)+

lemma steady_heartbeat [steady_rules]: "steady uuid (handleWorkerHeartbeat hmsg w)"
  unfolding handleWorkerHeartbeat_def
  by (intro steady_rules steady_change) (simp split: option.split)

lemma steady_logs [steady_rules]: "steady uuid (handleLogChunk u lmsg)"
  unfolding handleLogChunk_def acceptLogChunk_def storeLogChunk_def persistLogChunkFailed_def cacheOwner_def
  by (intro steady_rules steady_change) simp

lemma steady_sweeps [steady_rules]:
  "steady uuid demoteStalledJobs" "steady uuid sweepBlockedJobsOnce"
  "steady uuid (reconcileTaskSchedulability task ws)" "steady uuid (reconcilePendingJob j)"
  "steady uuid (cancelClosedAttempts h)" "steady uuid (reclaimUnreportedAttempt oa)"
  unfolding demoteStalledJobs_def sweepBlockedJobsOnce_def reconcileTaskSchedulability_def reconcilePendingJob_def
    cancelClosedAttempts_def cancelClosedAttempt_def publishCancel_def reclaimUnreportedAttempt_def Let_def
  by (intro steady_rules)+

lemma steady_sweep_loops [steady_rules]:
  "steady uuid sweepStaleWorkers" "steady uuid sweepUnschedulable" "steady uuid refreshQueueDepthGauge"
  "steady uuid reconcileStuckSteps" "steady uuid reconcilePendingSteps" "steady uuid sweepRetiredWorkers"
  "steady uuid sweepRetiredJobs" "steady uuid reapStaleAssignedTasks"
  unfolding sweepStaleWorkers_def [abs_def] sweepUnschedulable_def [abs_def] refreshQueueDepthGauge_def [abs_def]
    reconcileStuckSteps_def [abs_def] reconcilePendingSteps_def [abs_def] sweepRetiredWorkers_def [abs_def]
    sweepRetiredJobs_def [abs_def] reapStaleAssignedTasks_def [abs_def] Let_def
  by (rule steadyI, (split if_split, intro conjI impI)?, (intro follows_loops steady_rules; assumption)+)+

lemma steady_reconcileAttempts [steady_rules]: "steady uuid reconcileAttempts"
proof (rule steadyI)
  fix \<sigma> assume s: "sound uuid \<sigma>"
  have k: "steady uuid (andThen (loopUntil (\<lambda>a. unlessDeposed (reclaimUnreportedAttempt a)) dues) (\<lambda>_. cancelClosedAttempts h))" for dues h
    by (intro steady_rules)
  have f: "follows uuid \<sigma> (\<sigma>\<lparr>sc_reconciler := r\<rparr>)" for r by (rule follows_same [OF s]) simp_all
  show "follows uuid \<sigma> (fst (reconcileAttempts \<sigma>))"
    using follows_same [OF s] follows_trans [OF f steadyD [OF k follows_sound [OF f s]]]
    by (simp add: reconcileAttempts_def Let_def case_prod_unfold split: option.split)
qed

section \<open>Leases\<close>

lemma LeaseTask_attempts:
  "tget (st_taskAttempts s) k = None \<Longrightarrow> k \<noteq> req_AttemptID req \<Longrightarrow>
    tget (st_taskAttempts (fst (LeaseTask c req s))) k = None"
  by (auto simp: LeaseTask_def fenced_def leaseWrite_def Let_def split: option.split sum.split)

lemma follows_lease:
  assumes "inj uuid" "sound uuid \<sigma>" "n < sc_next \<sigma>" "tget (st_taskAttempts (sc_store \<sigma>)) (uuid n) = None"
  shows "follows uuid \<sigma> (fst (onStore (\<lambda>c now. LeaseTask c \<lparr> req_TaskID = i, req_WorkerID = w, req_AttemptID = uuid n,
      req_Now = now, req_Claims = cl \<rparr>) \<sigma>))" (is "follows uuid \<sigma> (fst (onStore ?F \<sigma>))")
proof -
  let ?req = "\<lparr> req_TaskID = i, req_WorkerID = w, req_AttemptID = uuid n, req_Now = sc_clock \<sigma>, req_Claims = cl \<rparr>"
  have st: "sc_store (fst (onStore ?F \<sigma>)) = exec (AttemptOp (OpLease (sc_ctx \<sigma>) ?req)) (sc_store \<sigma>)"
    by (simp add: onStore_def case_prod_unfold)
  have "reach (sc_store \<sigma>) exec (mine (sc_ctx \<sigma>)) (sc_store (fst (onStore ?F \<sigma>)))"
    unfolding st by (rule reach_one) (simp add: mine_def op_ok_def assms(4))
  moreover have "uuid m \<noteq> uuid n" if "sc_next \<sigma> \<le> m" for m
    using injD [OF assms(1), of m n] assms(3) that by auto
  ultimately show ?thesis
    using assms(2) by (auto simp: follows_def sound_def fresh_def onStore_def case_prod_unfold intro!: LeaseTask_attempts)
qed

lemma buildClaims_frame:
  "sc_store (fst (buildClaims uuid pools ns \<sigma>)) = sc_store \<sigma> \<and> sc_next \<sigma> \<le> sc_next (fst (buildClaims uuid pools ns \<sigma>))"
proof (induction ns arbitrary: \<sigma>)
  case (Cons n ns)
  show ?case
    using Cons.IH [of \<sigma>] Cons.IH [of "\<sigma>\<lparr>sc_next := sc_next \<sigma> + 1\<rparr>"]
    by (simp add: act_simps newID_def split: option.split sum.split)
qed (simp add: ret_def)

lemma steady_buildClaims [steady_rules]: "steady uuid (buildClaims u pools ns)"
  by (induction ns) (auto intro!: steady_rules split: option.split)

lemma buildUsageClaims_frame:
  assumes "buildUsageClaims uuid st pools \<sigma> = (\<sigma>', r)"
  shows "sc_store \<sigma>' = sc_store \<sigma>" "sc_next \<sigma> \<le> sc_next \<sigma>'"
  using assms buildClaims_frame [of uuid pools _ \<sigma>] by (auto simp: buildUsageClaims_def ret_def split: option.splits) (metis fst_conv)+

lemma steady_deliverLease [steady_rules]: "steady uuid (deliverLease build task worker gd cost res)"
  unfolding deliverLease_def by (auto intro!: steady_rules steady_change split: lease_outcome.split option.split)

lemma steady_leaseOne:
  assumes "inj uuid"
  shows "steady uuid (leaseOne uuid task worker gd)"
proof (rule steadyI)
  fix \<sigma> assume s: "sound uuid \<sigma>"
  have b: "steady uuid (buildUsageClaims uuid (lgd_step gd) (lgd_pools gd))"
    unfolding buildUsageClaims_def by (intro steady_rules)
  show "follows uuid \<sigma> (fst (leaseOne uuid task worker gd \<sigma>))"
    unfolding leaseOne_def
  proof (intro follows_andThen [OF s] steady_primitives follows_andThen b; assumption?)
    fix aid \<sigma>1 claims \<sigma>2
    assume 1: "newID uuid \<sigma> = (\<sigma>1, Inr aid)" and s2: "sound uuid \<sigma>2"
      and 2: "buildUsageClaims uuid (lgd_step gd) (lgd_pools gd) \<sigma>1 = (\<sigma>2, Inr claims)"
    have fr: "tget (st_taskAttempts (sc_store \<sigma>2)) (uuid (sc_next \<sigma>)) = None" "sc_next \<sigma> < sc_next \<sigma>2"
      and aid: "aid = uuid (sc_next \<sigma>)"
      using 1 s buildUsageClaims_frame [OF 2] by (auto simp: newID_def sound_def fresh_def)
    show "follows uuid \<sigma>2 (fst (onStore (\<lambda>c now. LeaseTask c \<lparr> req_TaskID = task_ID task, req_WorkerID = worker_ID worker,
        req_AttemptID = aid, req_Now = now, req_Claims = claims \<rparr>) \<sigma>2))"
      unfolding aid by (rule follows_lease [OF assms s2 fr(2,1)])
  qed
qed

lemma steady_tryLeaseTask:
  assumes "inj uuid"
  shows "steady uuid (tryLeaseTask uuid build task w free sf)"
  unfolding tryLeaseTask_def by (intro steady_rules steady_leaseOne assms)

lemma steady_leaseLoop:
  assumes "inj uuid"
  shows "steady uuid (leaseLoop uuid build w sf ts free batch)"
proof (induction ts arbitrary: free batch)
  case (Cons task ts)
  show ?case
    unfolding leaseLoop.simps by (intro steady_rules steady_tryLeaseTask assms Cons.IH)
qed (simp add: steady_primitives)

lemma steady_selectLeaseBatch:
  assumes "inj uuid"
  shows "steady uuid (selectLeaseBatch uuid build w)"
  by (rule steadyI) (simp add: selectLeaseBatch_def Let_def follows_same steadyD [OF steady_leaseLoop [OF assms]])

lemma steady_batchOrStop [steady_rules]: "steady uuid (batchOrStop r)"
  unfolding batchOrStop_def by (intro steady_rules)

lemma steady_leaseAfterPark:
  assumes "inj uuid"
  shows "steady uuid (leaseAfterPark uuid build w inst)"
  unfolding leaseAfterPark_def [abs_def]
  by (rule steadyI) (auto simp: follows_same split: sum.split intro!: follows_loops(3) steady_selectLeaseBatch assms steady_rules)

lemma steady_handleLeaseRequest:
  assumes "inj uuid"
  shows "steady uuid (handleLeaseRequest uuid build w q d)"
proof -
  have p: "steady uuid (\<lambda>\<sigma>. let (ch, reg) = enterWait q (sc_waiters \<sigma>) in (\<sigma>\<lparr>sc_waiters := reg\<rparr>, Inr (LeaseParked q ch)))"
    by (rule steadyI) (simp add: Let_def case_prod_unfold follows_same)
  show ?thesis
    unfolding handleLeaseRequest_def [abs_def]
    by (rule steadyI) (auto simp: Let_def case_prod_unfold follows_same split: option.split sum.split
      intro!: follows_loops(3) steady_selectLeaseBatch assms steady_rules p [unfolded case_prod_unfold Let_def])
qed

lemma steady_resumeLease:
  assumes "inj uuid"
  shows "steady uuid (resumeLease uuid build w req ans woken)"
  by (cases ans) (auto intro!: steady_rules steady_change steady_leaseAfterPark assms)

section \<open>The whole scheduler\<close>

lemma steady_dropResult: "steady uuid m \<Longrightarrow> steady uuid (dropResult m)"
  by (simp add: steady_def dropResult_def)

lemma steady_handleWorkerMessage [steady_rules]: "steady uuid (handleWorkerMessage u wmsg)"
  unfolding handleWorkerMessage_def discardUnexpectedSubject_def by (intro steady_rules)

lemma steady_sweepOnce [steady_rules]: "steady uuid sweepOnce" "steady uuid startRun"
proof -
  show "steady uuid startRun"
    unfolding startRun_def by (intro steady_rules steady_change) simp
  show "steady uuid sweepOnce"
    unfolding sweepOnce_def loopUntil_andThen by (intro steady_rules)
qed

lemma steady_react:
  assumes "inj uuid" "ownInput i"
  shows "steady uuid (react uuid build i)"
proof (cases i)
  case (RetryWakeFires wk)
  have "follows uuid \<sigma> (fst (fireRetryWake wk \<sigma>))" if "sound uuid \<sigma>" for \<sigma>
    using that by (intro follows_same) (simp_all add: fireRetryWake_def)
  then show ?thesis using RetryWakeFires by (simp add: steadyI)
qed (use assms(2) in \<open>auto simp: ownInput_def stopRetryWakeTimers_def intro!: steady_rules steady_dropResult steady_change
    steady_handleLeaseRequest steady_resumeLease assms(1)\<close>)

lemma issues_as_dropResult: "issues_as uuid c m \<Longrightarrow> issues_as uuid c (dropResult m)"
  by (simp add: issues_as_def dropResult_def)

lemma caller_react:
  assumes "\<not> ownInput i" "\<And>op. i \<noteq> OtherWrites op"
  shows "issues_as uuid None (react uuid build i)"
  using assms by (cases i) (auto simp: ownInput_def intro!: issues_as_dropResult caller_requests caller_retries
      issues_as_under steady_rules)

end
