(* ===== verification/SchedBlocked.thy ===== *)
theory SchedBlocked
  imports SchedEffects DepsFacts
begin

text \<open>
  The sweep over blocked jobs leaves none behind whose fate is decided: each one that is still blocked waits for
  an upstream job that is itself neither completed nor lost.
\<close>

section \<open>The fate of a blocked job\<close>

text \<open>What of an upstream job matters to its dependents.\<close>

datatype upstream_view = Lost | Done | Open

fun upstreamView :: "Job option \<Rightarrow> upstream_view" where
  "upstreamView None = Lost"
| "upstreamView (Some j) =
     (case job_Status j of JobStatusCompleted \<Rightarrow> Done | JobStatusFailed \<Rightarrow> Lost | JobStatusCanceled \<Rightarrow> Lost | _ \<Rightarrow> Open)"

abbreviation viewOf :: "store \<Rightarrow> string \<Rightarrow> upstream_view" where
  "viewOf s u \<equiv> upstreamView (tget (st_jobs s) u)"

lemma upstreamsFate_view:
  "upstreamsFate s job b us =
     (if \<exists>u \<in> set us. viewOf s u = Lost then CancelBlocked
      else if b \<and> (\<forall>u \<in> set us. viewOf s u = Done) then ReleaseBlocked job else LeaveBlocked)"
proof (induction us arbitrary: b)
  case (Cons u us)
  show ?case
  proof (cases "tget (st_jobs s) u")
    case None
    then show ?thesis by (simp add: GetJob_def)
  next
    case (Some j)
    then show ?thesis by (cases "job_Status j") (simp_all add: GetJob_def Cons.IH)
  qed
qed simp

definition isBlocked :: "string \<Rightarrow> store \<Rightarrow> bool" where
  "isBlocked i s \<longleftrightarrow> (\<exists>j. tget (st_jobs s) i = Some j \<and> job_Status j = JobStatusBlocked)"

definition upstreamsOf :: "string \<Rightarrow> store \<Rightarrow> string set" where
  "upstreamsOf i s = set (tgetz [] (st_jobDependencies s) i)"

definition decided :: "store \<Rightarrow> string set" where
  "decided s = {i. blockedFate i s \<noteq> LeaveBlocked}"

lemma decided_iff:
  "i \<in> decided s \<longleftrightarrow> isBlocked i s \<and>
     ((\<exists>u \<in> upstreamsOf i s. viewOf s u = Lost) \<or> (\<forall>u \<in> upstreamsOf i s. viewOf s u = Done))"
  by (auto simp: decided_def blockedFate_def isBlocked_def GetJob_def upstreamsFate_view upstreamsOf_def
      ListJobDependencyIDs_def split: option.split)

lemma ListDependents_iff: "u \<in> upstreamsOf k s \<Longrightarrow> k \<in> set (ListDependents u s)"
  unfolding upstreamsOf_def ListDependents_def tgetz_def tget_def
  by (auto split: option.splits dest: map_of_SomeD [OF sym] intro!: image_eqI [where x = "(k, _)"])

section \<open>One cancellation, one release\<close>

lemma cancelled_decided:
  assumes "st_jobs s' = tput i j (st_jobs s)" "st_jobDependencies s' = st_jobDependencies s"
    "job_Status j \<noteq> JobStatusBlocked"
  shows "decided s' \<subseteq> decided s - {i} \<union> set (ListDependents i s')"
proof
  fix k assume k: "k \<in> decided s'"
  have ki: "k \<noteq> i" using k assms by (auto simp: decided_iff isBlocked_def)
  have u: "upstreamsOf k s' = upstreamsOf k s" by (simp add: upstreamsOf_def assms(2))
  show "k \<in> decided s - {i} \<union> set (ListDependents i s')"
  proof (cases "i \<in> upstreamsOf k s'")
    case True
    then show ?thesis by (simp add: ListDependents_iff)
  next
    case False
    then have v: "v \<in> upstreamsOf k s \<Longrightarrow> viewOf s' v = viewOf s v" for v using u by (auto simp: assms(1))
    have "k \<in> decided s"
      using k ki v unfolding decided_iff u isBlocked_def assms(1) by (auto simp del: upstreamView.simps)
    then show ?thesis using ki by simp
  qed
qed

lemma released_decided:
  assumes "st_jobs s' = tput i j (st_jobs s)" "st_jobDependencies s' = st_jobDependencies s"
    "isBlocked i s" "job_Status j = JobStatusPending"
  shows "decided s' \<subseteq> decided s - {i}"
proof
  fix k assume k: "k \<in> decided s'"
  have ki: "k \<noteq> i" using k assms by (auto simp: decided_iff isBlocked_def)
  have u: "upstreamsOf k s' = upstreamsOf k s" by (simp add: upstreamsOf_def assms(2))
  have v: "viewOf s' v = viewOf s v" for v using assms(3,4) by (auto simp: assms(1) isBlocked_def)
  have "isBlocked k s' = isBlocked k s" using ki by (simp add: isBlocked_def assms(1))
  then have "k \<in> decided s" using k unfolding decided_iff u v by simp
  then show "k \<in> decided s - {i}" using ki by simp
qed

text \<open>The leader's epoch is still its own.\<close>

definition unfenced :: "sched \<Rightarrow> bool" where
  "unfenced \<sigma> \<longleftrightarrow> fenceLocked (sc_ctx \<sigma>) (sc_store \<sigma>) = None"

lemma fenceLocked_leadership: "st_leadership s' = st_leadership s \<Longrightarrow> fenceLocked c s' = fenceLocked c s"
  by (cases c) (simp_all add: fenceLocked_def)

lemma ReleaseStep_frame:
  "st_leadership (fst (ReleaseStep c i now s)) = st_leadership s"
  "st_jobDependencies (fst (ReleaseStep c i now s)) = st_jobDependencies s"
  "tget (st_steps (fst (ReleaseStep c i now s))) k = None \<longleftrightarrow> tget (st_steps s) k = None"
  by (simp_all add: ReleaseStep_def movePendingStep_def fenced_def transitionPendingTasksLocked_def
      transitionPendingTasksWhereLocked_def Let_def split: option.split)

lemma resolveLoop_ok:
  assumes "fenceLocked c s = None" "\<forall>st \<in> set sts. tget (st_steps s) (step_ID st) \<noteq> None"
  shows "\<exists>k. snd (resolveLoop c now m sts n s) = Inr k"
    and "st_leadership (fst (resolveLoop c now m sts n s)) = st_leadership s"
    and "st_jobDependencies (fst (resolveLoop c now m sts n s)) = st_jobDependencies s"
proof -
  have "(\<exists>k. snd (resolveLoop c now m sts n s) = Inr k) \<and>
      st_leadership (fst (resolveLoop c now m sts n s)) = st_leadership s \<and>
      st_jobDependencies (fst (resolveLoop c now m sts n s)) = st_jobDependencies s"
    using assms
  proof (induction sts arbitrary: n s)
    case (Cons st sts)
    obtain s' r where r: "ReleaseStep c (step_ID st) now s = (s', r)" by fastforce
    have s': "st_leadership s' = st_leadership s" "st_jobDependencies s' = st_jobDependencies s"
      "tget (st_steps s') k = None \<longleftrightarrow> tget (st_steps s) k = None" for k
      using ReleaseStep_frame [of c "step_ID st" now s] r by auto
    have f: "fenceLocked c s' = None" using Cons.prems(1) fenceLocked_leadership [OF s'(1)] by simp
    have "\<not> isl r"
      using r Cons.prems
      by (auto simp: ReleaseStep_def movePendingStep_def fenced_def Let_def split: option.splits prod.splits if_splits)
    then show ?case
      using Cons.IH [OF Cons.prems(1)] Cons.IH [OF f] Cons.prems(2) s' r by (cases r) auto
  qed simp
  then show "\<exists>k. snd (resolveLoop c now m sts n s) = Inr k"
    and "st_leadership (fst (resolveLoop c now m sts n s)) = st_leadership s"
    and "st_jobDependencies (fst (resolveLoop c now m sts n s)) = st_jobDependencies s" by blast+
qed

lemma ResolveDependencies_ok:
  assumes "exec_inv s" "fenceLocked c s = None"
  shows "\<exists>k. snd (ResolveDependencies c j now s) = Inr k"
    and "st_leadership (fst (ResolveDependencies c j now s)) = st_leadership s"
    and "st_jobDependencies (fst (ResolveDependencies c j now s)) = st_jobDependencies s"
proof -
  have "\<forall>st \<in> set (ListSteps j s). tget (st_steps s) (step_ID st) \<noteq> None"
    using ListSteps_iff [OF steps_keyed_inv [OF assms(1)]] by auto
  then show "\<exists>k. snd (ResolveDependencies c j now s) = Inr k"
    and "st_leadership (fst (ResolveDependencies c j now s)) = st_leadership s"
    and "st_jobDependencies (fst (ResolveDependencies c j now s)) = st_jobDependencies s"
    using resolveLoop_ok [OF assms(2)] by (simp_all add: ResolveDependencies_def Let_def)
qed

lemma cancelBlockedJob_effect:
  assumes "unfenced \<sigma>" "isBlocked i (sc_store \<sigma>)"
  shows "\<exists>\<sigma>' j. cancelBlockedJob i \<sigma> = (\<sigma>', Inr ()) \<and> unfenced \<sigma>' \<and> job_Status j = JobStatusCanceled \<and>
    st_jobs (sc_store \<sigma>') = tput i j (st_jobs (sc_store \<sigma>)) \<and>
    st_jobDependencies (sc_store \<sigma>') = st_jobDependencies (sc_store \<sigma>)"
proof -
  let ?s = "sc_store \<sigma>" and ?\<sigma> = "fst (cancelBlockedJob i \<sigma>)"
  let ?c = "CancelBlockedJob (sc_ctx \<sigma>) i FailureReasonUpstreamFailed (sc_clock \<sigma>) ?s"
  obtain j where j: "tget (st_jobs ?s) i = Some j" "job_Status j = JobStatusBlocked"
    using assms(2) by (auto simp: isBlocked_def)
  note f = assms(1) [unfolded unfenced_def]
  have c: "\<not> isl (snd ?c)" "st_jobs (fst ?c) = tput i (j\<lparr>job_Status := JobStatusCanceled, job_CompletedAt := Some (sc_clock \<sigma>),
      job_UpdatedAt := sc_clock \<sigma>\<rparr>) (st_jobs ?s)" "st_jobDependencies (fst ?c) = st_jobDependencies ?s"
    "st_leadership (fst ?c) = st_leadership ?s"
    by (simp_all add: CancelBlockedJob_def fenced_def f j Let_def transitionPendingTasksWhereLocked_def)
  have "sc_ctx ?\<sigma> = sc_ctx \<sigma>" by (auto simp: cancelBlockedJob_def act_simps split: sum.split)
  then have "unfenced ?\<sigma>"
    using f fenceLocked_leadership [OF c(4)] by (simp add: unfenced_def cancelBlockedJob_store(1))
  moreover have "snd (cancelBlockedJob i \<sigma>) = Inr ()"
    using c(1) cancelBlockedJob_store(2) [of i \<sigma>] by (cases "snd (cancelBlockedJob i \<sigma>)") auto
  ultimately show ?thesis
    using c(2,3) by (intro exI [of _ ?\<sigma>] exI [of _ "j\<lparr>job_Status := JobStatusCanceled, job_CompletedAt := Some (sc_clock \<sigma>),
      job_UpdatedAt := sc_clock \<sigma>\<rparr>"]) (simp add: prod_eq_iff cancelBlockedJob_store(1))
qed

lemma releaseBlockedJob_effect:
  assumes "unfenced \<sigma>" "exec_inv (sc_store \<sigma>)" "blockedFate i (sc_store \<sigma>) = ReleaseBlocked job"
  shows "\<exists>\<sigma>' j. releaseBlockedJob job \<sigma> = (\<sigma>', Inr ()) \<and> unfenced \<sigma>' \<and> job_Status j = JobStatusPending \<and>
    st_jobs (sc_store \<sigma>') = tput i j (st_jobs (sc_store \<sigma>)) \<and>
    st_jobDependencies (sc_store \<sigma>') = st_jobDependencies (sc_store \<sigma>)"
proof -
  let ?s = "sc_store \<sigma>"
  obtain j where job: "tget (st_jobs ?s) i = Some j" "job_Status j = JobStatusBlocked" "job_ID job = job_ID j"
    and ups: "\<And>u. u \<in> upstreamsOf i ?s \<Longrightarrow> viewOf ?s u = Done"
    using assms(3) that
    by (auto simp: blockedFate_def GetJob_def upstreamsFate_view upstreamsOf_def ListJobDependencyIDs_def
        split: option.splits if_splits)
  have id: "job_ID job = i" using exec_inv_jobID [OF assms(2) job(1)] job(3) by simp
  have dn: "tget (st_jobs ?s) u \<noteq> None \<and> job_Status (the (tget (st_jobs ?s) u)) = JobStatusCompleted"
    if "u \<in> set (tgetz [] (st_jobDependencies ?s) i)" for u
    using ups [of u] that by (cases "tget (st_jobs ?s) u") (auto simp: upstreamsOf_def split: job_status.splits)
  let ?s1 = "?s\<lparr>st_jobs := tput i (j\<lparr>job_Status := JobStatusPending, job_UpdatedAt := sc_clock \<sigma>\<rparr>) (st_jobs ?s)\<rparr>"
  have r: "ReleaseBlockedJob (sc_ctx \<sigma>) i (sc_clock \<sigma>) ?s = (?s1, Inr True)"
    using assms(1) job dn by (force simp: ReleaseBlockedJob_def fenced_def unfenced_def split: option.splits)
  have inv: "exec_inv ?s1"
    using issues_inv [OF writes_issues [OF op_writes(1) [where c = "sc_ctx \<sigma>" and j = i and now = "sc_clock \<sigma>"]] assms(2)]
    by (simp add: r)
  have f: "fenceLocked (sc_ctx \<sigma>) ?s1 = None" using assms(1) fenceLocked_leadership [of ?s1 ?s] by (simp add: unfenced_def)
  note ok = ResolveDependencies_ok [OF inv f, of i "sc_clock \<sigma>"] ResolveDependencies_jobs [of "sc_ctx \<sigma>" i "sc_clock \<sigma>" ?s1]
  obtain s2 k where d: "ResolveDependencies (sc_ctx \<sigma>) i (sc_clock \<sigma>) ?s1 = (s2, Inr k)"
    using ok(1) by (metis prod.collapse)
  let ?\<sigma> = "fst (releaseBlockedJob job \<sigma>)"
  have e: "snd (releaseBlockedJob job \<sigma>) = Inr ()" "sc_store ?\<sigma> = s2" "sc_ctx ?\<sigma> = sc_ctx \<sigma>"
    using r d by (simp_all add: releaseBlockedJob_def id act_simps)
  have "unfenced ?\<sigma>" using f fenceLocked_leadership [OF ok(2)] d by (simp add: unfenced_def e)
  then show ?thesis
    using ok d e by (intro exI [of _ ?\<sigma>] exI [of _ "j\<lparr>job_Status := JobStatusPending, job_UpdatedAt := sc_clock \<sigma>\<rparr>"])
      (simp add: prod_eq_iff)
qed

section \<open>The cascade and the sweep\<close>

lemma reconcileWork_decided:
  assumes "unfenced \<sigma>" "sound uuid \<sigma>"
  shows "\<exists>\<sigma>'. reconcileWork w \<sigma> = (\<sigma>', Inr ()) \<and> unfenced \<sigma>' \<and> decided (sc_store \<sigma>') \<subseteq> decided (sc_store \<sigma>) - set w"
  using assms
proof (induction w \<sigma> rule: reconcileWork.induct)
  case (2 i work \<sigma>)
  note fen = 2(4) and snd = 2(5)
  show ?case
  proof (cases "blockedFate i (sc_store \<sigma>)")
    case LeaveBlocked
    then have "i \<notin> decided (sc_store \<sigma>)" by (simp add: decided_def)
    then show ?thesis using 2(1) [OF LeaveBlocked fen snd] LeaveBlocked by auto
  next
    case CancelBlocked
    then have "isBlocked i (sc_store \<sigma>)" using decided_iff [of i "sc_store \<sigma>"] by (simp add: decided_def)
    then obtain \<sigma>1 j where c: "cancelBlockedJob i \<sigma> = (\<sigma>1, Inr ())" "unfenced \<sigma>1" "job_Status j = JobStatusCanceled"
      "st_jobs (sc_store \<sigma>1) = tput i j (st_jobs (sc_store \<sigma>))"
      "st_jobDependencies (sc_store \<sigma>1) = st_jobDependencies (sc_store \<sigma>)"
      using cancelBlockedJob_effect [OF fen] by blast
    have "sound uuid \<sigma>1" using follows_sound [OF steadyD [OF steady_blocked(2) snd, of i] snd] c(1) by simp
    then show ?thesis
      using 2(2) [OF CancelBlocked c(1) [symmetric] refl c(2)] cancelled_decided [OF c(4,5)] CancelBlocked c(1,3) by fastforce
  next
    case (ReleaseBlocked job)
    then have b: "isBlocked i (sc_store \<sigma>)" using decided_iff [of i "sc_store \<sigma>"] by (simp add: decided_def)
    obtain \<sigma>1 j where c: "releaseBlockedJob job \<sigma> = (\<sigma>1, Inr ())" "unfenced \<sigma>1" "job_Status j = JobStatusPending"
      "st_jobs (sc_store \<sigma>1) = tput i j (st_jobs (sc_store \<sigma>))"
      "st_jobDependencies (sc_store \<sigma>1) = st_jobDependencies (sc_store \<sigma>)"
      using releaseBlockedJob_effect [OF fen _ ReleaseBlocked] snd unfolding sound_def by blast
    have "sound uuid \<sigma>1" using follows_sound [OF steadyD [OF steady_blocked(1) snd, of job] snd] c(1) by simp
    then show ?thesis
      using 2(3) [OF ReleaseBlocked c(1) [symmetric] refl c(2)] released_decided [OF c(4,5) b c(3)] ReleaseBlocked c(1) by fastforce
  qed
qed simp

lemma sweepLoop_decided:
  assumes "unfenced \<sigma>" "sound uuid \<sigma>"
  shows "\<exists>\<sigma>'. forEach (\<lambda>job. andThen (catch (reconcileBlockedJob (job_ID job))) (\<lambda>r.
      if r = Inl ErrFenced then throw ErrFenced else ret ())) js \<sigma> = (\<sigma>', Inr ()) \<and>
    decided (sc_store \<sigma>') \<subseteq> decided (sc_store \<sigma>) - job_ID ` set js"
  using assms
proof (induction js arbitrary: \<sigma>)
  case (Cons job js)
  obtain \<sigma>1 where r: "reconcileWork [job_ID job] \<sigma> = (\<sigma>1, Inr ())" "unfenced \<sigma>1"
    "decided (sc_store \<sigma>1) \<subseteq> decided (sc_store \<sigma>) - {job_ID job}"
    using reconcileWork_decided [OF Cons.prems, of "[job_ID job]"] by auto
  have "sound uuid \<sigma>1"
    using follows_sound [OF follows_reconcileWork [OF Cons.prems(2)] Cons.prems(2), of "[job_ID job]"] r(1) by simp
  from Cons.IH [OF r(2) this] obtain \<sigma>2 where 2: "forEach (\<lambda>job. andThen (catch (reconcileBlockedJob (job_ID job))) (\<lambda>r.
      if r = Inl ErrFenced then throw ErrFenced else ret ())) js \<sigma>1 = (\<sigma>2, Inr ())"
    "decided (sc_store \<sigma>2) \<subseteq> decided (sc_store \<sigma>1) - job_ID ` set js" by blast
  have "andThen (catch (reconcileBlockedJob (job_ID job))) (\<lambda>r. if r = Inl ErrFenced then throw ErrFenced else ret ()) \<sigma> =
      (\<sigma>1, Inr ())"
    using r(1) by (simp add: reconcileBlockedJob_def andThen_def catch_def ret_def del: reconcileWork.simps)
  then show ?case using 2 r(3) by (intro exI [of _ \<sigma>2]) auto
qed simp

lemma sweepBlockedJobs_decided:
  assumes "unfenced \<sigma>" "sound uuid \<sigma>"
  shows "decided (sc_store (fst (sweepBlockedJobs \<sigma>))) = {}"
proof -
  have "decided (sc_store \<sigma>) \<subseteq> job_ID ` set (ListBlockedJobs (sc_store \<sigma>))"
  proof
    fix i assume "i \<in> decided (sc_store \<sigma>)"
    then obtain j where j: "tget (st_jobs (sc_store \<sigma>)) i = Some j" "job_Status j = JobStatusBlocked"
      by (auto simp: decided_iff isBlocked_def)
    have inv: "exec_inv (sc_store \<sigma>)" using assms(2) by (simp add: sound_def)
    have "j \<in> set (ListBlockedJobs (sc_store \<sigma>))"
      using j exec_inv_table_ok [OF inv] by (auto simp: ListBlockedJobs_def trows_iff)
    then show "i \<in> job_ID ` set (ListBlockedJobs (sc_store \<sigma>))" using exec_inv_jobID [OF inv j(1)] by force
  qed
  then show ?thesis
    using sweepLoop_decided [OF assms, of "ListBlockedJobs (sc_store \<sigma>)"]
    by (fastforce simp: sweepBlockedJobs_def andThen_def asks_def)
qed

end
