(* ===== verification/SchedCores.thy ===== *)
theory SchedCores
  imports SchedEffects
begin

text \<open>
  A batch of leases never commits more cores than the worker has.
\<close>

definition coresOn :: "string \<Rightarrow> int \<Rightarrow> Task \<Rightarrow> int" where
  "coresOn w full t =
     (if task_AssignedWorkerID t \<noteq> w then 0
      else if task_Status t \<noteq> TaskStatusAssigned \<and> task_Status t \<noteq> TaskStatusRunning then 0
      else (case task_RequiredCores t of Some c \<Rightarrow> c | None \<Rightarrow> full))"

lemma CommittedCores_alt: "CommittedCores w full s = sum_list (map (coresOn w full) (trows (st_tasks s)))"
  by (simp add: CommittedCores_def coresOn_def [abs_def])

lemma sum_trows_tput:
  "table_ok m \<Longrightarrow> tget m k = Some v \<Longrightarrow>
    sum_list (map f (trows (tput k v' m))) = sum_list (map f (trows m)) - f v + (f v' :: int)"
proof (induction m)
  case (Cons x m)
  obtain a b where x: "x = (a, b)" by fastforce
  show ?case
  proof (cases "a = k")
    case True
    then have "tput k v' (x # m) = (k, v') # m"
      using Cons.prems(1) by (auto simp: x tput_def)
    then show ?thesis using Cons.prems(2) True by (simp add: x trows_def tget_def)
  next
    case False
    then have "tput k v' (x # m) = x # tput k v' m" by (simp add: x tput_def)
    moreover have "table_ok m" "tget m k = Some v" using Cons.prems False by (auto simp: x table_ok_def tget_def)
    ultimately show ?thesis using Cons.IH by (simp add: trows_def)
  qed
qed (simp add: tget_def)

text \<open>What a lease does to the cores committed on a worker.\<close>

lemma LeaseTask_cores:
  assumes inv: "exec_inv s" and l: "LeaseTask c req s = (s', r)"
  shows "s' = s \<or> (\<exists>t res a. r = Inr res \<and> res_Outcome res = LeaseLeased \<and> res_Attempt res = Some a \<and> tget (st_tasks s) (req_TaskID req) = Some t \<and>
      st_tasks s' = tput (req_TaskID req) (leaseTaskRow req t) (st_tasks s) \<and>
      CommittedCores (req_WorkerID req) full s' =
        CommittedCores (req_WorkerID req) full s + (case task_RequiredCores t of Some n \<Rightarrow> n | None \<Rightarrow> full))"
proof (cases "\<exists>res. r = Inr res \<and> res_Outcome res = LeaseLeased")
  case False
  then show ?thesis using LeaseTask_not_leased [OF l] by blast
next
  case True
  then obtain res where res: "r = Inr res" "res_Outcome res = LeaseLeased" by blast
  obtain t j where g: "lease_granted req s t j" "s' = fst (leaseWrite req t (sort_key upc_PoolID (req_Claims req)) s)"
    and a: "res_Attempt res = Some (snd (leaseWrite req t (sort_key upc_PoolID (req_Claims req)) s))"
    using LeaseTask_leased [OF l [unfolded res(1)] res(2)] by blast
  have t: "tget (st_tasks s) (req_TaskID req) = Some t" and rdy: "task_Status t = TaskStatusReady"
    using g(1) leasableLocked_Ready by (auto simp: lease_granted_def)
  have st: "st_tasks s' = tput (req_TaskID req) (leaseTaskRow req t) (st_tasks s)"
    using exec_inv_taskID [OF inv t] by (simp add: g(2) leaseWrite_def Let_def)
  show ?thesis
    using res a t st sum_trows_tput [OF _ t, of "coresOn (req_WorkerID req) full" "leaseTaskRow req t"] exec_inv_table_ok [OF inv] rdy
    by (simp add: CommittedCores_alt coresOn_def leaseTaskRow_def)
qed

text \<open>The rows keep their core requirement.\<close>

definition same_needs :: "store \<Rightarrow> store \<Rightarrow> bool" where
  "same_needs s s' \<longleftrightarrow> (\<forall>k. map_option task_RequiredCores (tget (st_tasks s') k) = map_option task_RequiredCores (tget (st_tasks s) k))"

definition needs_of :: "Task list \<Rightarrow> store \<Rightarrow> bool" where
  "needs_of ts s \<longleftrightarrow> (\<forall>t \<in> set ts. map_option task_RequiredCores (tget (st_tasks s) (task_ID t)) = Some (task_RequiredCores t))"

lemma needs_of_same: "needs_of ts s \<Longrightarrow> same_needs s s' \<Longrightarrow> needs_of ts s'"
  by (simp add: needs_of_def same_needs_def)

lemma leaseOne_cases:
  assumes "leaseOne uuid task worker gd \<sigma> = (\<sigma>', q)"
  obtains (kept) e where "sc_store \<sigma>' = sc_store \<sigma>" "q = Inl e"
  | (asked) c req where "req_TaskID req = task_ID task" "req_WorkerID req = worker_ID worker"
      "LeaseTask c req (sc_store \<sigma>) = (sc_store \<sigma>', q)"
proof -
  obtain \<sigma>1 aid where 1: "newID uuid \<sigma> = (\<sigma>1, Inr aid)" "sc_store \<sigma>1 = sc_store \<sigma>" by (simp add: newID_def)
  obtain \<sigma>2 r where 2: "buildUsageClaims uuid (lgd_step gd) (lgd_pools gd) \<sigma>1 = (\<sigma>2, r)" by fastforce
  have s2: "sc_store \<sigma>2 = sc_store \<sigma>" using buildUsageClaims_frame(1) [OF 2] 1(2) by simp
  show thesis
  proof (cases r)
    case (Inl e)
    then show thesis using kept assms 1 2 s2 by (auto simp: leaseOne_def andThen_def)
  next
    case (Inr claims)
    let ?req = "\<lparr> req_TaskID = task_ID task, req_WorkerID = worker_ID worker, req_AttemptID = aid,
        req_Now = sc_clock \<sigma>2, req_Claims = claims \<rparr>"
    have "LeaseTask (sc_ctx \<sigma>2) ?req (sc_store \<sigma>) = (sc_store \<sigma>', q)"
      using assms 1 2 Inr s2 by (auto simp: leaseOne_def andThen_def onStore_def split: prod.splits)
    then show thesis by (rule asked [rotated 2]) simp_all
  qed
qed

lemma leaseOne_cores:
  assumes inv: "exec_inv (sc_store \<sigma>)" and needs: "needs_of [task] (sc_store \<sigma>)"
    and q: "leaseOne uuid task worker gd \<sigma> = (\<sigma>', r)"
  shows "same_needs (sc_store \<sigma>) (sc_store \<sigma>') \<and>
    (sc_store \<sigma>' = sc_store \<sigma> \<or>
     (\<exists>res a. r = Inr res \<and> res_Outcome res = LeaseLeased \<and> res_Attempt res = Some a) \<and>
     CommittedCores (worker_ID worker) (fullCores worker) (sc_store \<sigma>') \<le>
       CommittedCores (worker_ID worker) (fullCores worker) (sc_store \<sigma>) + fullMachineCost task worker)"
  using q
proof (cases rule: leaseOne_cases)
  case (asked c req)
  show ?thesis
    using LeaseTask_cores [OF inv asked(3), of "fullCores worker"] needs
    by (auto simp: asked(1,2) same_needs_def needs_of_def fullMachineCost_def fullCores_def leaseTaskRow_def split: option.split)
qed (simp add: same_needs_def)

lemma deliverLease_store: "sc_store (fst (deliverLease build task worker gd cost res \<sigma>)) = sc_store \<sigma>"
  by (auto simp: deliverLease_def act_simps split: lease_outcome.split option.split sum.split)

lemma deliverLease_result:
  "snd (deliverLease build task worker gd cost res \<sigma>) = Inr (Some (p, c)) \<Longrightarrow> c = cost"
  "snd (deliverLease build task worker gd cost res \<sigma>) = Inr None \<Longrightarrow>
    res_Outcome res \<noteq> LeaseLeased \<or> res_Attempt res = None"
  by (auto simp: deliverLease_def act_simps split: lease_outcome.splits option.splits sum.splits)

lemma tryLeaseTask_cores:
  assumes inv: "exec_inv (sc_store \<sigma>)" and needs: "needs_of [task] (sc_store \<sigma>)"
    and q: "tryLeaseTask uuid build task worker free sf \<sigma> = (\<sigma>', r)" and free: "0 \<le> free"
  shows "same_needs (sc_store \<sigma>) (sc_store \<sigma>') \<and> (\<exists>left \<ge> 0.
      CommittedCores (worker_ID worker) (fullCores worker) (sc_store \<sigma>') + left \<le>
        CommittedCores (worker_ID worker) (fullCores worker) (sc_store \<sigma>) + free \<and>
      (\<forall>p c. r = Inr (Some (p, c)) \<longrightarrow> left = free - c) \<and> (r = Inr None \<longrightarrow> left = free))"
proof (cases "\<exists>gd. \<not> free < fullMachineCost task worker \<and> leaseGatesPass task worker sf (sc_store \<sigma>) = Inr (Some gd)")
  case False
  then have "\<sigma>' = \<sigma>" "\<forall>p c. r \<noteq> Inr (Some (p, c))"
    using q by (auto simp: tryLeaseTask_def Let_def andThen_def reading_def ret_def split: sum.splits option.splits if_splits)
  then show ?thesis using free by (auto simp: same_needs_def)
next
  case True
  then obtain gd where g: "\<not> free < fullMachineCost task worker" "leaseGatesPass task worker sf (sc_store \<sigma>) = Inr (Some gd)" by blast
  obtain \<sigma>1 r1 where 1: "leaseOne uuid task worker gd \<sigma> = (\<sigma>1, r1)" by fastforce
  note l = leaseOne_cores [OF inv needs 1]
  have q': "(\<sigma>', r) = (case r1 of Inl e \<Rightarrow> (\<sigma>1, Inl e) | Inr res \<Rightarrow> deliverLease build task worker gd (fullMachineCost task worker) res \<sigma>1)"
    using q g 1 by (auto simp: tryLeaseTask_def Let_def andThen_def reading_def split: sum.splits)
  have st: "sc_store \<sigma>' = sc_store \<sigma>1"
    using q' deliverLease_store [of build task worker gd "fullMachineCost task worker" _ \<sigma>1]
    by (cases r1) (auto simp: prod_eq_iff)
  have some: "c = fullMachineCost task worker" if "r = Inr (Some (p, c))" for p c
    using q' that deliverLease_result(1) [of build task worker gd "fullMachineCost task worker" _ \<sigma>1 p c]
    by (cases r1) (auto simp: prod_eq_iff)
  have none: "sc_store \<sigma>1 = sc_store \<sigma>" if "r = Inr None"
    using q' that l deliverLease_result(2) [of build task worker gd "fullMachineCost task worker" _ \<sigma>1]
    by (cases r1) (auto simp: prod_eq_iff)
  have "0 \<le> fullMachineCost task worker" by (simp add: fullMachineCost_def split: option.split)
  then show ?thesis
    using l some none g(1) free unfolding st
    by (intro conjI exI [of _ "if r = Inr None then free else free - fullMachineCost task worker"]) auto
qed

lemma leaseLoop_cores:
  assumes "inj uuid" "sound uuid \<sigma>" "needs_of ts (sc_store \<sigma>)" "0 \<le> free"
  shows "CommittedCores (worker_ID worker) (fullCores worker) (sc_store (fst (leaseLoop uuid build worker sf ts free batch \<sigma>))) \<le>
    CommittedCores (worker_ID worker) (fullCores worker) (sc_store \<sigma>) + free"
  using assms(2-4)
proof (induction ts arbitrary: \<sigma> free batch)
  case (Cons task ts)
  obtain \<sigma>1 r where tr: "tryLeaseTask uuid build task worker free sf \<sigma> = (\<sigma>1, r)" by fastforce
  have need: "needs_of [task] (sc_store \<sigma>)" "needs_of ts (sc_store \<sigma>)" using Cons.prems(2) by (simp_all add: needs_of_def)
  obtain left where l: "same_needs (sc_store \<sigma>) (sc_store \<sigma>1)" "0 \<le> left"
    "CommittedCores (worker_ID worker) (fullCores worker) (sc_store \<sigma>1) + left \<le>
        CommittedCores (worker_ID worker) (fullCores worker) (sc_store \<sigma>) + free"
    "\<And>p c. r = Inr (Some (p, c)) \<Longrightarrow> left = free - c" "r = Inr None \<Longrightarrow> left = free"
    using tryLeaseTask_cores [OF _ need(1) tr Cons.prems(3)] Cons.prems(1) unfolding sound_def by blast
  have s1: "sound uuid \<sigma>1"
    using follows_sound [OF steadyD [OF steady_tryLeaseTask [OF assms(1)] Cons.prems(1)] Cons.prems(1),
        of build task worker free sf] tr by simp
  note IH = Cons.IH [OF s1 needs_of_same [OF need(2) l(1)]]
  show ?case
  proof (cases "free \<le> 0")
    case True
    then show ?thesis using Cons.prems(3) by (simp add: ret_def)
  next
    case False
    consider e where "r = Inl e" | "r = Inr None" | p c where "r = Inr (Some (p, c))"
      by (metis option.exhaust sum.exhaust surj_pair)
    then show ?thesis
    proof cases
      case (1 e)
      then show ?thesis using tr False l(2,3)
        by (simp add: andThen_def catch_def ret_def)
    next
      case 2
      then show ?thesis using tr False l(3,5) IH [OF l(2), of batch]
        by (simp add: andThen_def catch_def ret_def)
    next
      case (3 p c)
      then show ?thesis using tr False l(3,4) IH [OF l(2), of "batch @ [p]"]
        by (simp add: andThen_def catch_def ret_def)
    qed
  qed
qed (simp add: ret_def)

lemma selectLeaseBatch_cores:
  assumes "inj uuid" "sound uuid \<sigma>"
    and "CommittedCores (worker_ID worker) (fullCores worker) (sc_store \<sigma>) \<le> fullCores worker"
  shows "CommittedCores (worker_ID worker) (fullCores worker) (sc_store (fst (selectLeaseBatch uuid build worker \<sigma>))) \<le>
    fullCores worker"
proof -
  let ?ts = "ListReadyTasks (cfg_FarmID (sc_cfg \<sigma>)) (sc_clock \<sigma>) (nat (cfg_AssignBatchSize (sc_cfg \<sigma>))) (sc_store \<sigma>)"
  have inv: "exec_inv (sc_store \<sigma>)" using assms(2) by (simp add: sound_def)
  have "needs_of ?ts (sc_store \<sigma>)"
    unfolding needs_of_def
  proof
    fix t assume "t \<in> set ?ts"
    then have "t \<in> set (trows (st_tasks (sc_store \<sigma>)))" by (auto simp: ListReadyTasks_def dest: in_set_takeD)
    then obtain k where k: "tget (st_tasks (sc_store \<sigma>)) k = Some t" using exec_inv_table_ok [OF inv] by (auto simp: trows_iff)
    then show "map_option task_RequiredCores (tget (st_tasks (sc_store \<sigma>)) (task_ID t)) = Some (task_RequiredCores t)"
      using exec_inv_taskID [OF inv k] by simp
  qed
  then show ?thesis
    using leaseLoop_cores [OF assms(1,2), of ?ts "fullCores worker - CommittedCores (worker_ID worker) (fullCores worker) (sc_store \<sigma>)"
        worker build "workerExprShortfall \<sigma> worker" "[]"] assms(3)
    by (simp add: selectLeaseBatch_def Let_def)
qed

end
