(* ===== verification/SchedDemo.thy ===== *)
theory SchedDemo
  imports SchedSystem StoreDemo
begin

text \<open>
  A concrete run of the scheduler for the witnesses: a worker registers, asks for work and is leased the first
  task of a job; a second job is blocked on it.
\<close>

definition demo_uuid :: "nat \<Rightarrow> string" where
  "demo_uuid n = replicate (Suc n) CHR ''u''"

definition demo_build :: "string builder" where
  "demo_build task worker job step queue attemptID now s = Inr attemptID"

definition demo_register :: RegisterMsg where
  "demo_register = \<lparr> rm_Version = ProtocolVersion, rm_WorkerID = ''w'', rm_InstanceID = ''i'', rm_FarmID = ''f'', rm_QueueID = [],
     rm_Name = ''w'', rm_Hostname = ''host'', rm_IPAddress = [], rm_ComputeLocation = [], rm_OS = ''linux'', rm_OSVersion = [],
     rm_Arch = ''amd64'', rm_WorkerVersion = [], rm_CPUCount = 2, rm_RAMMb = 1000,
     rm_GPUInfo = \<lparr> gpu_Vendor = [], gpu_Model = [], gpu_VRAMMb = 0, gpu_Count = 0 \<rparr>, rm_Tags = [],
     rm_ExprLimits = legacyWorkerExprCaps, rm_Extensions = [] \<rparr>"

definition demo_message :: "worker_body msg" where
  "demo_message = \<lparr> msg_Subject = WorkerRegisterSubject ''w'', msg_Meta = None,
     msg_Data = Some \<lparr> wb_register = Some demo_register, wb_heartbeat = None, wb_deregister = None \<rparr> \<rparr>"

definition demo_ask :: leaseRequest where
  "demo_ask = \<lparr> lrq_WorkerID = ''w'', lrq_InstanceID = ''i'' \<rparr>"

definition demo_inputs :: "string input list" where
  "demo_inputs = map OtherWrites demo_setup @
     [ClockMoves 100, OtherWrites (JobOp (OpSubmit None demo_blocked 5)), GotWorkerMessage demo_message,
      GotLeaseRequest ''w'' ''q'' (Some demo_ask)]"

definition demo_sched :: sched where
  "demo_sched = run (sched_step demo_uuid demo_build) demo_inputs (NewScheduler DefaultConfig None New)"

lemma inj_demo_uuid: "inj demo_uuid"
  by (rule injI) (metis demo_uuid_def length_replicate nat.inject)

lemma demo_reach: "reach (NewScheduler DefaultConfig None New) (sched_step demo_uuid demo_build) input_ok demo_sched"
  unfolding demo_sched_def by (rule reach_run_init) code_simp

definition demo_worker :: Worker where
  "demo_worker = registeredWorker demo_register None 100"

lemma demo_facts:
  "map (\<lambda>(i, t). (i, task_Status t, task_AssignedWorkerID t)) (st_tasks (sc_store demo_sched)) =
     [(''t1'', TaskStatusAssigned, ''w''), (''t2'', TaskStatusReady, []),
      (''b1'', TaskStatusPending, []), (''b2'', TaskStatusPending, [])] \<and>
   map_option att_WorkerID (tget (st_taskAttempts (sc_store demo_sched)) ''u'') = Some ''w'' \<and>
   CommittedCores (worker_ID demo_worker) (fullCores demo_worker) (sc_store demo_sched) \<le> fullCores demo_worker \<and>
   \<not> sc_deposed demo_sched"
  by code_simp

end
