(* ===== verification/SchedWaiters.thy ===== *)
theory SchedWaiters
  imports SchedBase "HOL-Library.Multiset"
begin

text \<open>
  The registry of parked lease requests (\<^verbatim>\<open>scheduler/waiter.go\<close>) under any sequence of its operations, in
  any interleaving the registry's mutex allows.
\<close>

datatype waiter_op = OpEnter string | OpRemove string nat | OpNotify string | OpNotifyAll

primrec exec_waiter :: "waiter_op \<Rightarrow> waiterRegistry \<Rightarrow> waiterRegistry" where
  "exec_waiter (OpEnter q) r = snd (enterWait q r)"
| "exec_waiter (OpRemove q ch) r = removeWaiter q ch r"
| "exec_waiter (OpNotify q) r = notify q r"
| "exec_waiter OpNotifyAll r = notifyAll r"

text \<open>The channels a registry has parked or closed, with how often.\<close>

definition parked :: "waiterRegistry \<Rightarrow> nat multiset" where
  "parked r = mset (concat (trows (wr_waiters r)))"

definition channels :: "waiterRegistry \<Rightarrow> nat multiset" where
  "channels r = mset (wr_closed r) + parked r"

lemma mset_tput: "mset (concat (trows (tput k v m))) + mset (tgetz [] m k) = mset (concat (trows m)) + mset v"
  unfolding trows_def tput_def tgetz_def tget_def by (induction m) auto

lemma parked_tput:
  "parked (r\<lparr>wr_waiters := tput q chs (wr_waiters r)\<rparr>) + mset (tgetz [] (wr_waiters r) q) = parked r + mset chs"
  by (simp add: parked_def mset_tput)

lemma tgetz_parked: "mset (tgetz [] (wr_waiters r) q) \<subseteq># parked r"
  using mset_tput [of q "[]" "wr_waiters r"] unfolding parked_def by (metis add.right_neutral mset.simps(1) mset_subset_eq_add_right)

lemma channels_enterWait: "channels (snd (enterWait q r)) = add_mset (wr_next r) (channels r)"
proof -
  have "parked (snd (enterWait q r)) = add_mset (wr_next r) (parked r)"
    using parked_tput [where r = r and q = q and chs = "tgetz [] (wr_waiters r) q @ [wr_next r]"] by (simp add: enterWait_def Let_def parked_def)
  then show ?thesis by (simp add: channels_def enterWait_def Let_def)
qed

lemma channels_removeWaiter: "channels (removeWaiter q ch r) \<subseteq># channels r"
proof (cases "tget (wr_waiters r) q")
  case (Some cur)
  have "parked (removeWaiter q ch r) + mset cur = parked r + mset (filter (\<lambda>c. c \<noteq> ch) cur)"
    using parked_tput [where r = r and q = q and chs = "filter (\<lambda>c. c \<noteq> ch) cur"] Some by (simp add: removeWaiter_def tgetz_def)
  then have "parked (removeWaiter q ch r) + mset cur \<subseteq># parked r + mset cur"
    by (simp add: multiset_filter_subset)
  then show ?thesis using Some by (simp add: channels_def removeWaiter_def)
qed (simp add: removeWaiter_def)

lemma channels_notify: "channels (notify q r) = channels r"
  using parked_tput [where r = r and q = q and chs = "[]"] by (simp add: channels_def notify_def Let_def parked_def ac_simps)

lemma channels_notifyAll: "channels (notifyAll r) = channels r"
  by (simp add: channels_def notifyAll_def parked_def trows_def)

text \<open>A channel handed out is in the registry at most once, parked or closed; a later one not at all.\<close>

definition registry_ok :: "waiterRegistry \<Rightarrow> bool" where
  "registry_ok r \<longleftrightarrow> (\<forall>ch. count (channels r) ch \<le> (if ch < wr_next r then 1 else 0))"

lemma registry_ok_mono: "registry_ok r \<Longrightarrow> channels r' \<subseteq># channels r \<Longrightarrow> wr_next r' = wr_next r \<Longrightarrow> registry_ok r'"
  unfolding registry_ok_def by (metis le_trans mset_subset_eq_count)

lemma registry_ok_exec: "registry_ok r \<Longrightarrow> registry_ok (exec_waiter op r)"
proof (cases op)
  case (OpEnter q)
  assume "registry_ok r"
  then have old: "count (channels r) ch \<le> (if ch < wr_next r then 1 else 0)" for ch by (simp add: registry_ok_def)
  have "wr_next (snd (enterWait q r)) = Suc (wr_next r)" by (simp add: enterWait_def Let_def)
  then have "count (channels (snd (enterWait q r))) ch \<le> (if ch < wr_next (snd (enterWait q r)) then 1 else 0)" for ch
    using old [of ch] by (simp add: channels_enterWait split: if_splits)
  then show ?thesis by (simp add: OpEnter registry_ok_def)
next
  case (OpRemove q ch)
  assume "registry_ok r"
  then show ?thesis using channels_removeWaiter [of q ch r]
    by (simp add: OpRemove registry_ok_mono removeWaiter_def split: option.split)
next
  case (OpNotify q)
  assume "registry_ok r"
  then show ?thesis by (rule registry_ok_mono) (simp add: OpNotify channels_notify, simp add: OpNotify notify_def Let_def)
next
  case OpNotifyAll
  assume "registry_ok r"
  then show ?thesis by (rule registry_ok_mono) (simp add: OpNotifyAll channels_notifyAll, simp add: OpNotifyAll notifyAll_def)
qed

lemma distinct_if_counts: "(\<And>x. count (mset xs) x \<le> 1) \<Longrightarrow> distinct xs"
proof (induction xs)
  case (Cons x xs)
  have "count (mset xs) y \<le> 1" for y using Cons.prems [of y] unfolding mset.simps count_add_mset by arith
  moreover have "x \<notin> set xs" using Cons.prems [of x] by (simp flip: count_mset_0_iff)
  ultimately show ?case using Cons.IH by simp
qed simp

lemma run_ok_True: "run_ok step (\<lambda>_ _. True) ops s"
  by (induction ops arbitrary: s) simp_all

interpretation waiters: invariant_of newWaiterRegistry exec_waiter "\<lambda>_ _. True" registry_ok
  by unfold_locales
    (simp add: registry_ok_def channels_def parked_def newWaiterRegistry_def trows_def, simp add: registry_ok_exec)

text \<open>C29. Whatever requests arrive, time out or are notified, in any order, a channel is closed at most once (closing it
  twice would panic), no channel stays parked once it is closed, and none is parked twice.\<close>

theorem waiters_closed_once:
  "let r = run exec_waiter ops newWaiterRegistry
   in distinct (wr_closed r) \<and> distinct (concat (trows (wr_waiters r))) \<and>
      set (wr_closed r) \<inter> set (concat (trows (wr_waiters r))) = {}"
proof -
  let ?r = "run exec_waiter ops newWaiterRegistry"
  have ok: "registry_ok ?r" using waiters.run_inv [OF waiters.inv_init run_ok_True] .
  have "count (channels ?r) ch \<le> 1" for ch
    using spec [OF ok [unfolded registry_ok_def], of ch] by arith
  then have "distinct (wr_closed ?r @ concat (trows (wr_waiters ?r)))"
    by (intro distinct_if_counts) (simp add: channels_def parked_def)
  then show ?thesis by (simp add: Let_def)
qed

end
