(* ===== verification/SchedProps.thy ===== *)
theory SchedProps
  imports SchedBlocked SchedCores SchedDemo SchedWaiters
begin

text \<open>
  The properties of the scheduler, each with an application to a concrete run.
\<close>

section \<open>The scheduler and the store\<close>

lemma sched_sound:
  assumes "inj uuid" "reach (NewScheduler cfg c New) (sched_step uuid build) input_ok \<sigma>"
  shows "sound uuid \<sigma> \<and> reachable (sc_store \<sigma>) \<and> sc_ctx \<sigma> = c"
  using assms(2)
proof induction
  case reach_init
  show ?case by (simp add: NewScheduler_def Let_def sound_def fresh_def exec_inv_New reach.reach_init) (simp add: New_def)
next
  case (reach_step \<sigma> i)
  consider (other) "\<exists>op. i = OtherWrites op" | (own) "ownInput i" | (caller) "\<not> ownInput i" "\<And>op. i \<noteq> OtherWrites op" by blast
  then show ?case
  proof cases
    case other
    then obtain op where op: "i = OtherWrites op" "op_ok op (sc_store \<sigma>)" "\<not> leases op"
      using reach_step.hyps(2) by (auto simp: input_ok_def)
    then have q: "quiet (op_ctx op) op (sc_store \<sigma>)" by (simp add: quiet_def)
    show ?thesis
      using reach_step.IH op(2) quiet_attempts [OF _ q] reach.reach_step [of New exec op_ok "sc_store \<sigma>" op]
      by (auto simp: op(1) change_def sound_def fresh_def exec_inv_exec)
  next
    case own
    then have f: "follows uuid \<sigma> (sched_step uuid build i \<sigma>)"
      using steadyD [OF steady_react [OF assms(1)]] reach_step.IH by blast
    then have "reach (sc_store \<sigma>) exec op_ok (sc_store (sched_step uuid build i \<sigma>))"
      using reach_mono [where ok' = op_ok] unfolding follows_def mine_def by blast
    then show ?thesis
      using f follows_sound [OF f] reach_step.IH reach_trans unfolding follows_def by metis
  next
    case caller
    let ?t = "sched_step uuid build i \<sigma>"
    have f: "reach (sc_store \<sigma>) exec (mine None) (sc_store ?t)" "fresh uuid ?t" "sc_ctx ?t = sc_ctx \<sigma>"
      using caller_react [OF caller] reach_step.IH unfolding issues_as_def by blast+
    then have "reach (sc_store \<sigma>) exec op_ok (sc_store ?t)"
      using reach_mono [where ok' = op_ok] unfolding mine_def by blast
    then show ?thesis
      using f issues_inv [OF f(1)] reach_step.IH reach_trans unfolding sound_def by metis
  qed
qed

text \<open>C23. The scheduler refines the store's transition system.  Whatever messages, lease requests, timers and
  user actions it has reacted to, interleaved with whatever the other writers did to the store, the store is one
  that a sequence of store operations reaches whose obligations were all kept: the attempt of every lease was
  named afresh, every task was requeued only once its failed attempt was closed, every completion was terminal.  So
  all that is proved of reachable stores (claims, attempts, transitions, caps) holds under the scheduler.\<close>

theorem scheduler_refines_store:
  assumes "inj uuid" "reach (NewScheduler cfg c New) (sched_step uuid build) input_ok \<sigma>"
  shows "reachable (sc_store \<sigma>)"
  using sched_sound [OF assms] by simp

theorem scheduler_refines_store_witness:
  "reachable (sc_store demo_sched) \<and>
   map (\<lambda>(i, t). (i, task_Status t)) (st_tasks (sc_store demo_sched)) =
     [(''t1'', TaskStatusAssigned), (''t2'', TaskStatusReady), (''b1'', TaskStatusPending), (''b2'', TaskStatusPending)]"
proof
  show "reachable (sc_store demo_sched)" by (rule scheduler_refines_store [OF inj_demo_uuid demo_reach])
  show "map (\<lambda>(i, t). (i, task_Status t)) (st_tasks (sc_store demo_sched)) =
     [(''t1'', TaskStatusAssigned), (''t2'', TaskStatusReady), (''b1'', TaskStatusPending), (''b2'', TaskStatusPending)]"
    using arg_cong [OF conjunct1 [OF demo_facts], of "map (\<lambda>(i, st, w). (i, st))"] by (simp add: comp_def case_prod_unfold)
qed

lemma issues_stale:
  "reach s exec (mine c) s' \<Longrightarrow> fenceLocked c s \<noteq> None \<Longrightarrow> s' = s"
  by (induction rule: reach.induct) (auto simp: mine_def exec_stale)

lemma own_step_stale:
  assumes "inj uuid" "reach (NewScheduler cfg (Some e) New) (sched_step uuid build) input_ok \<sigma>"
    and "e \<noteq> epoch_of (sc_store \<sigma>)" and "ownInput i"
  shows "sc_store (sched_step uuid build i \<sigma>) = sc_store \<sigma>"
proof -
  have s: "sound uuid \<sigma>" "sc_ctx \<sigma> = Some e" using sched_sound [OF assms(1,2)] by simp_all
  have "reach (sc_store \<sigma>) exec (mine (Some e)) (sc_store (sched_step uuid build i \<sigma>))"
    using steadyD [OF steady_react [OF assms(1,4)] s(1)] s(2) by (simp add: follows_def)
  then show ?thesis using issues_stale fenceLocked_epoch assms(3) by blast
qed

text \<open>C24. A scheduler whose leader epoch has been superseded changes nothing in the store by itself: however many
  worker messages, reports, log chunks, lease requests, timers and sweeps it still handles, none of their writes gets past the
  fence.  What users ask it for through the API (cancel, retry, reconcile) is not part of this: those writes carry
  the request's context, which has no epoch.\<close>

theorem superseded_scheduler_changes_nothing:
  assumes "inj uuid" "reach (NewScheduler cfg (Some e) New) (sched_step uuid build) input_ok \<sigma>"
    and "e \<noteq> epoch_of (sc_store \<sigma>)" and "list_all ownInput inputs"
  shows "sc_store (run (sched_step uuid build) inputs \<sigma>) = sc_store \<sigma>"
  using assms(2-4)
proof (induction inputs arbitrary: \<sigma>)
  case (Cons i inputs)
  have ok: "input_ok i \<sigma>" using Cons.prems(3) by (auto simp: input_ok_def ownInput_def split: input.split)
  have "sc_store (sched_step uuid build i \<sigma>) = sc_store \<sigma>"
    using own_step_stale [OF assms(1) Cons.prems(1,2)] Cons.prems(3) by simp
  then show ?case using Cons.IH [OF reach_step [OF Cons.prems(1) ok]] Cons.prems(2,3) by simp
qed simp

definition stale_inputs :: "string input list" where
  "stale_inputs = map OtherWrites (LeaderOp (OpAcquire ''me'' Second 0) # demo_setup @ [LeaderOp (OpAcquire ''other'' Second 2000000)])"

definition stale_sched :: sched where
  "stale_sched = run (sched_step demo_uuid demo_build) stale_inputs (NewScheduler DefaultConfig (Some 1) New)"

theorem superseded_scheduler_changes_nothing_witness:
  "sc_store (run (sched_step demo_uuid demo_build) [GotWorkerMessage demo_message, SweepTick, RunStarts] stale_sched) =
     sc_store stale_sched"
proof (rule superseded_scheduler_changes_nothing [OF inj_demo_uuid])
  show "reach (NewScheduler DefaultConfig (Some 1) New) (sched_step demo_uuid demo_build) input_ok stale_sched"
    unfolding stale_sched_def by (rule reach_run_init) code_simp
  show "1 \<noteq> epoch_of (sc_store stale_sched)" by code_simp
qed (simp add: ownInput_def)

text \<open>A user's cancel through the same superseded scheduler does land.\<close>

lemma user_cancel_not_fenced:
  "map_option job_Status (tget (st_jobs (sc_store (sched_step demo_uuid demo_build (AskCancelJob ''j'') stale_sched))) ''j'') =
     Some JobStatusCanceled"
  by code_simp

section \<open>Blocked jobs\<close>

text \<open>C25. After a sweep by the current leader no blocked job is left behind.  A job that is still blocked waits
  for an upstream job that exists and is neither completed, failed nor canceled, and none of its upstream jobs is
  missing, failed or canceled: every blocked job whose fate was decided, directly or through a cascade of
  cancellations, has been released or canceled.\<close>

theorem sweep_decides_blocked_jobs:
  assumes "inj uuid" "reach (NewScheduler cfg c New) (sched_step uuid build) input_ok \<sigma>"
    and "fenceLocked c (sc_store \<sigma>) = None" and "s' = sc_store (fst (sweepBlockedJobs \<sigma>))"
    and "tget (st_jobs s') i = Some j" "job_Status j = JobStatusBlocked"
  shows "(\<exists>u \<in> set (ListJobDependencyIDs i s'). \<exists>up. tget (st_jobs s') u = Some up \<and> \<not> JobStatus_IsTerminal (job_Status up)) \<and>
    (\<forall>u \<in> set (ListJobDependencyIDs i s'). \<exists>up. tget (st_jobs s') u = Some up \<and>
      job_Status up \<noteq> JobStatusFailed \<and> job_Status up \<noteq> JobStatusCanceled)"
proof -
  have s: "sound uuid \<sigma>" "unfenced \<sigma>" using sched_sound [OF assms(1,2)] assms(3) by (simp_all add: unfenced_def)
  have "i \<notin> decided s'" using sweepBlockedJobs_decided [OF s(2,1)] assms(4) by simp
  then have 1: "(\<exists>u \<in> upstreamsOf i s'. viewOf s' u \<noteq> Done) \<and> (\<forall>u \<in> upstreamsOf i s'. viewOf s' u \<noteq> Lost)"
    using assms(5,6) by (auto simp: decided_iff isBlocked_def)
  have 2: "viewOf s' u \<noteq> Lost \<longleftrightarrow> (\<exists>up. tget (st_jobs s') u = Some up \<and>
      job_Status up \<noteq> JobStatusFailed \<and> job_Status up \<noteq> JobStatusCanceled)" for u
    by (cases "tget (st_jobs s') u") (auto split: job_status.split)
  have 3: "viewOf s' u \<noteq> Lost \<Longrightarrow> viewOf s' u \<noteq> Done \<Longrightarrow>
      \<exists>up. tget (st_jobs s') u = Some up \<and> \<not> JobStatus_IsTerminal (job_Status up)" for u
    by (cases "tget (st_jobs s') u") (auto split: job_status.splits)
  have "set (ListJobDependencyIDs i s') = upstreamsOf i s'" by (simp add: upstreamsOf_def ListJobDependencyIDs_def)
  then show ?thesis unfolding 2 [symmetric] using 1 3 by blast
qed

lemma demo_swept:
  "map_option job_Status (tget (st_jobs (sc_store (fst (sweepBlockedJobs demo_sched)))) ''b'') = Some JobStatusBlocked"
  by code_simp

theorem sweep_decides_blocked_jobs_witness:
  "\<exists>u \<in> set (ListJobDependencyIDs ''b'' (sc_store (fst (sweepBlockedJobs demo_sched)))).
     \<exists>up. tget (st_jobs (sc_store (fst (sweepBlockedJobs demo_sched)))) u = Some up \<and> \<not> JobStatus_IsTerminal (job_Status up)"
proof -
  obtain j where j: "tget (st_jobs (sc_store (fst (sweepBlockedJobs demo_sched)))) ''b'' = Some j" "job_Status j = JobStatusBlocked"
    using demo_swept by auto
  have "fenceLocked None (sc_store demo_sched) = None" by simp
  from sweep_decides_blocked_jobs [OF inj_demo_uuid demo_reach this refl j] show ?thesis by blast
qed

text \<open>Retrying one task of a blocked job.\<close>

definition retry_inputs :: "string input list" where
  "retry_inputs = map OtherWrites demo_setup @
     [ClockMoves 100, OtherWrites (JobOp (OpSubmit None demo_blocked 5)), OtherWrites (JobOp (OpPause None ''j'' 6)),
      GotWorkerMessage demo_message, AskCancelTask ''b1'', AskRetryTask ''b1'', GotLeaseRequest ''w'' ''q'' (Some demo_ask)]"

text \<open>C27. The documentation promises that the tasks of a blocked job are never leased.  They can be: when one of its
  tasks is canceled and then retried, the dependency resolution that follows the retry looks only at the steps of the job
  and releases the pending step, although an upstream job has not completed.  In the run below the task is
  leased to the worker while its job is blocked and the upstream job is not even running.\<close>

theorem blocked_job_leased_after_task_retry:
  "\<exists>\<sigma>. reach (NewScheduler DefaultConfig None New) (sched_step demo_uuid demo_build) input_ok \<sigma> \<and>
     map_option (\<lambda>t. (task_JobID t, task_Status t, task_AssignedWorkerID t)) (tget (st_tasks (sc_store \<sigma>)) ''b1'') =
       Some (''b'', TaskStatusAssigned, ''w'') \<and>
     map_option job_Status (tget (st_jobs (sc_store \<sigma>)) ''b'') = Some JobStatusBlocked \<and>
     ListJobDependencyIDs ''b'' (sc_store \<sigma>) = [''j''] \<and>
     map_option job_Status (tget (st_jobs (sc_store \<sigma>)) ''j'') = Some JobStatusPaused"
proof (intro exI conjI)
  let ?s = "run (sched_step demo_uuid demo_build) retry_inputs (NewScheduler DefaultConfig None New)"
  show "reach (NewScheduler DefaultConfig None New) (sched_step demo_uuid demo_build) input_ok ?s"
    by (rule reach_run_init) code_simp
  have *: "map_option (\<lambda>t. (task_JobID t, task_Status t, task_AssignedWorkerID t)) (tget (st_tasks (sc_store ?s)) ''b1'') =
       Some (''b'', TaskStatusAssigned, ''w'') \<and>
     map_option job_Status (tget (st_jobs (sc_store ?s)) ''b'') = Some JobStatusBlocked \<and>
     ListJobDependencyIDs ''b'' (sc_store ?s) = [''j''] \<and>
     map_option job_Status (tget (st_jobs (sc_store ?s)) ''j'') = Some JobStatusPaused" by code_simp
  show "map_option (\<lambda>t. (task_JobID t, task_Status t, task_AssignedWorkerID t)) (tget (st_tasks (sc_store ?s)) ''b1'') =
       Some (''b'', TaskStatusAssigned, ''w'')"
    and "map_option job_Status (tget (st_jobs (sc_store ?s)) ''b'') = Some JobStatusBlocked"
    and "ListJobDependencyIDs ''b'' (sc_store ?s) = [''j'']"
    and "map_option job_Status (tget (st_jobs (sc_store ?s)) ''j'') = Some JobStatusPaused" using * by simp_all
qed

section \<open>Leases\<close>

text \<open>C26. A batch of leases never commits more cores than the worker has.  If the tasks in flight on a worker need
  at most its cores (one, for a worker that advertises none), so they do after \<open>selectLeaseBatch\<close>, also when the
  selection ends early in an error: a task whose cost does not fit into what is left is never leased.\<close>

theorem cores_never_overcommitted:
  assumes "inj uuid" "reach (NewScheduler cfg c New) (sched_step uuid build) input_ok \<sigma>"
    and "CommittedCores (worker_ID worker) (fullCores worker) (sc_store \<sigma>) \<le> fullCores worker"
  shows "CommittedCores (worker_ID worker) (fullCores worker) (sc_store (fst (selectLeaseBatch uuid build worker \<sigma>))) \<le>
    fullCores worker"
  using selectLeaseBatch_cores [OF assms(1) _ assms(3)] sched_sound [OF assms(1,2)] by blast

theorem cores_never_overcommitted_witness:
  "CommittedCores (worker_ID demo_worker) (fullCores demo_worker)
     (sc_store (fst (selectLeaseBatch demo_uuid demo_build demo_worker demo_sched))) \<le> fullCores demo_worker"
  by (rule cores_never_overcommitted [OF inj_demo_uuid demo_reach]) (use demo_facts in blast)

section \<open>Reports\<close>

text \<open>C28. A report on an attempt is taken only from the worker that holds it.  On a server that has not been deposed, when the subject a report came in on
  names another worker, or the report pairs the attempt with another task, the message is acknowledged and nothing
  else happens: no store write, no event, no retry, no cancellation.\<close>

theorem foreign_report_ignored:
  assumes "msg_Data msg = Some m" "ParseWorkerSubject (msg_Subject msg) = Some (w, leaf)"
    and "GetTaskAttempt (sm_AttemptID m) (sc_store \<sigma>) = Inr a"
    and "att_WorkerID a \<noteq> w \<or> att_TaskID a \<noteq> sm_TaskID m" and "\<not> sc_deposed \<sigma>"
  shows "handleTaskStatusMessage msg \<sigma> = (\<sigma>\<lparr>sc_events := sc_events \<sigma> @ [AckMsg (msg_Subject msg)]\<rparr>, Inr ())"
proof -
  have "processTaskStatus w m \<sigma> = (\<sigma>, Inr ())"
    using assms(3,4) by (auto simp: processTaskStatus_def andThen_def catch_def reading_def ret_def)
  then show ?thesis
    using assms(1,2,5)
    by (simp add: handleTaskStatusMessage_def andThen_def catch_def stopIfFenced_def ret_def ackMsg_def
        leftForNewLeader_def emit_def change_def)
qed

definition foreign_report :: "TaskStatusMsg msg" where
  "foreign_report = \<lparr> msg_Subject = TaskStatusSubject ''v'' ''j'', msg_Meta = None,
     msg_Data = Some \<lparr> sm_Version = ProtocolVersion, sm_TaskID = ''t1'', sm_AttemptID = ''u'', sm_JobID = ''j'',
       sm_Status = ''failed'', sm_ExitCode = Some 1, sm_SessionID = [], sm_At = None, sm_WorkerID = ''v'',
       sm_LastProgress = None, sm_Message = [] \<rparr> \<rparr>"

theorem foreign_report_ignored_witness:
  "handleTaskStatusMessage foreign_report demo_sched =
     (demo_sched\<lparr>sc_events := sc_events demo_sched @ [AckMsg (TaskStatusSubject ''v'' ''j'')]\<rparr>, Inr ())"
proof -
  obtain a where a: "tget (st_taskAttempts (sc_store demo_sched)) ''u'' = Some a" "att_WorkerID a = ''w''"
    using demo_facts by auto
  have p: "ParseWorkerSubject (msg_Subject foreign_report) = Some (''v'', ''j'')" by code_simp
  show ?thesis
    using foreign_report_ignored [OF _ p, of _ demo_sched a] a demo_facts
    by (simp add: foreign_report_def GetTaskAttempt_def)
qed

end
