(* ===== verification/GoInts.thy ===== *)
theory GoInts
  imports GoFloat "HOL-Library.Signed_Division"
begin

text \<open>
  Go's \<^verbatim>\<open>int\<close> on a 64-bit machine, and the parts of \<^verbatim>\<open>strconv\<close> and \<^verbatim>\<open>strings\<close> that read integers.  A value
  is a mathematical integer; \<open>i64\<close> wraps the result of an operation that can overflow, \<open>sdiv\<close> and \<open>smod\<close>
  truncate towards zero as \<^verbatim>\<open>/\<close> and \<^verbatim>\<open>%\<close> do.
\<close>

named_theorems i64_simps \<open>arithmetic on values that fit\<close>

definition MaxInt :: int where "MaxInt = 9223372036854775807"
definition MinInt :: int where "MinInt = - 9223372036854775808"

definition isInt :: "int \<Rightarrow> bool" where
  "isInt n \<longleftrightarrow> MinInt \<le> n \<and> n \<le> MaxInt"

definition i64 :: "int \<Rightarrow> int" where
  "i64 n = (n + 9223372036854775808) mod 18446744073709551616 - 9223372036854775808"

lemma i64_id [i64_simps]: "isInt n \<Longrightarrow> i64 n = n"
  by (simp add: isInt_def MinInt_def MaxInt_def i64_def)

lemma isInt_i64: "isInt (i64 n)"
proof -
  have "0 \<le> (n + 9223372036854775808) mod 18446744073709551616" by simp
  moreover have "(n + 9223372036854775808) mod 18446744073709551616 < 18446744073709551616" by simp
  ultimately show ?thesis by (simp add: isInt_def MinInt_def MaxInt_def i64_def)
qed

lemma i64_small: "\<bar>n\<bar> < 9223372036854775808 \<Longrightarrow> i64 n = n"
  by (rule i64_id) (simp add: isInt_def MinInt_def MaxInt_def abs_less_iff)

lemma i64_wrap:
  assumes "isInt a" "isInt b"
  shows "i64 (a - b) =
    (if a - b > MaxInt then a - b - 18446744073709551616
     else if a - b < MinInt then a - b + 18446744073709551616 else a - b)"
proof -
  let ?n = "a - b + 9223372036854775808"
  have r: "- 9223372036854775807 \<le> ?n" "?n \<le> 27670116110564327423"
    using assms by (simp_all add: isInt_def MinInt_def MaxInt_def)
  consider "?n < 0" | "0 \<le> ?n" "?n < 18446744073709551616" | "18446744073709551616 \<le> ?n" by linarith
  then have "?n mod 18446744073709551616 =
      (if ?n < 0 then ?n + 18446744073709551616
       else if ?n < 18446744073709551616 then ?n else ?n - 18446744073709551616)"
  proof cases
    case 1
    have "?n mod 18446744073709551616 = (?n + 18446744073709551616) mod 18446744073709551616" by (simp only: mod_add_self2)
    also have "\<dots> = ?n + 18446744073709551616" using 1 r by (intro mod_pos_pos_trivial) simp_all
    finally show ?thesis using 1 by simp
  next
    case 3
    have "?n mod 18446744073709551616 = (?n - 18446744073709551616) mod 18446744073709551616" by (simp only: minus_mod_self2)
    also have "\<dots> = ?n - 18446744073709551616" using 3 r by (intro mod_pos_pos_trivial) simp_all
    finally show ?thesis using 3 by simp
  qed simp
  then show ?thesis by (simp add: i64_def MinInt_def MaxInt_def split: if_splits)
qed

section \<open>Truncating division\<close>

lemma sdiv_nonneg: "0 \<le> a \<Longrightarrow> 0 < b \<Longrightarrow> a sdiv b = a div (b :: int)"
  by (simp add: signed_divide_int_def sgn_if)

lemma smod_nonneg: "0 \<le> a \<Longrightarrow> 0 < b \<Longrightarrow> a smod b = a mod (b :: int)"
  by (simp add: signed_modulo_int_def sgn_if)

lemma smod_0_iff: "b \<noteq> 0 \<Longrightarrow> a smod b = 0 \<longleftrightarrow> (b :: int) dvd a"
  by (auto simp: signed_modulo_int_def sgn_if dvd_eq_mod_eq_0 [symmetric])

lemma sdiv_exact: "(b :: int) dvd a \<Longrightarrow> a sdiv b = a div b"
  by (simp add: signed_divide_int_eq_divide_int)

lemma abs_smod_less: "b \<noteq> 0 \<Longrightarrow> \<bar>a smod b\<bar> < \<bar>b :: int\<bar>"
  by (simp add: signed_modulo_int_def abs_mult abs_sgn_eq)

section \<open>Reading integers\<close>

text \<open>\<^verbatim>\<open>strconv.Atoi\<close>, and \<^verbatim>\<open>strconv.ParseInt\<close> with base 10 and 64 bits.\<close>

definition Atoi :: "string \<Rightarrow> int option" where
  "Atoi s =
     (let (neg, t) = readSign s; (k, v, rest) = readDigits 10 0 0 t; n = (if neg then - v else v)
      in if k = 0 \<or> rest \<noteq> [] \<or> \<not> isInt n then None else Some n)"

lemma digitValue_digitChar: "n < 10 \<Longrightarrow> digitValue 10 (digitChar n) = Some (int n)"
proof -
  assume "n < 10"
  then have "(of_char (digitChar n) :: int) = 48 + int n"
    unfolding digitChar_def by (subst of_nat_of_char [symmetric]) simp
  then show ?thesis using \<open>n < 10\<close> by (simp add: digitValue_def Let_def)
qed

lemma readDigits_natDigits:
  "readDigits 10 k v (natDigits n @ s) =
     readDigits 10 (k + length (natDigits n)) (v * 10 ^ length (natDigits n) + int n) s"
proof (induction n arbitrary: s rule: natDigits.induct)
  case (1 n)
  show ?case
  proof (cases "n < 10")
    case True
    then show ?thesis by (simp add: natDigits.simps [of n] digitValue_digitChar)
  next
    case False
    have "int n = int (n div 10) * 10 + int (n mod 10)" by (metis div_mult_mod_eq of_nat_add of_nat_mult of_nat_numeral)
    then show ?thesis
      using False 1 [OF False, of "digitChar (n mod 10) # s"]
      by (simp add: natDigits.simps [of n] digitValue_digitChar algebra_simps)
  qed
qed

lemma natDigits_not_Nil [simp]: "natDigits n \<noteq> []"
  by (subst natDigits.simps) simp

definition isDigit :: "char \<Rightarrow> bool" where
  "isDigit c \<longleftrightarrow> c \<in> set ''0123456789''"

lemma isDigit_digitChar: "d < 10 \<Longrightarrow> isDigit (digitChar d)"
proof -
  have "\<forall>d \<in> set [0..<10]. isDigit (digitChar d)" by code_simp
  then show "d < 10 \<Longrightarrow> isDigit (digitChar d)" by simp
qed

lemma natDigits_digits: "c \<in> set (natDigits n) \<Longrightarrow> isDigit c"
proof (induction n rule: natDigits.induct)
  case (1 n)
  then show ?case by (subst (asm) (2) natDigits.simps) (auto simp: isDigit_digitChar split: if_splits)
qed

lemma Atoi_Itoa: "isInt n \<Longrightarrow> Atoi (Itoa n) = Some n"
proof -
  assume n: "isInt n"
  have r: "readDigits 10 0 0 (natDigits m) = (length (natDigits m), int m, [])" for m
    using readDigits_natDigits [of 0 0 m "[]"] by simp
  have "readSign (natDigits m) = (False, natDigits m)" for m
    using natDigits_digits [of "hd (natDigits m)" m]
    by (cases "natDigits m") (auto simp: readSign_def isDigit_def)
  then show ?thesis using n by (auto simp: Atoi_def Itoa_def readSign_def r Let_def)
qed

text \<open>The text of an integer: a digit or a minus, then digits, the last of them a digit.\<close>

lemma Itoa_text:
  obtains c t where "Itoa n = c # t" "isDigit c \<or> c = CHR ''-''" "\<And>x. x \<in> set t \<Longrightarrow> isDigit x" "isDigit (last (c # t))"
proof (cases "n < 0")
  case True
  have "isDigit (last (natDigits (nat (- n))))" using last_in_set [OF natDigits_not_Nil] by (rule natDigits_digits)
  then show ?thesis using that [of "CHR ''-''" "natDigits (nat (- n))"] True natDigits_digits by (auto simp: Itoa_def)
next
  case False
  obtain c t where ct: "natDigits (nat n) = c # t" by (cases "natDigits (nat n)") auto
  have d: "isDigit x" if "x \<in> set (c # t)" for x using natDigits_digits that by (metis ct)
  then show ?thesis using that [of c t] False ct last_in_set [of "c # t"] by (auto simp: Itoa_def)
qed

section \<open>White space\<close>

text \<open>The encodings of the runes \<^verbatim>\<open>unicode.IsSpace\<close> accepts.  A rune at either end of a string is one of them exactly
  when the string has its encoding there.\<close>

definition spaces :: "string list" where
  "spaces = [[CHR 0x20], [CHR 0x09], [CHR 0x0A], [CHR 0x0B], [CHR 0x0C], [CHR 0x0D],
     [CHR 0xC2, CHR 0x85], [CHR 0xC2, CHR 0xA0], [CHR 0xE1, CHR 0x9A, CHR 0x80],
     [CHR 0xE2, CHR 0x80, CHR 0x80], [CHR 0xE2, CHR 0x80, CHR 0x81], [CHR 0xE2, CHR 0x80, CHR 0x82],
     [CHR 0xE2, CHR 0x80, CHR 0x83], [CHR 0xE2, CHR 0x80, CHR 0x84], [CHR 0xE2, CHR 0x80, CHR 0x85],
     [CHR 0xE2, CHR 0x80, CHR 0x86], [CHR 0xE2, CHR 0x80, CHR 0x87], [CHR 0xE2, CHR 0x80, CHR 0x88],
     [CHR 0xE2, CHR 0x80, CHR 0x89], [CHR 0xE2, CHR 0x80, CHR 0x8A], [CHR 0xE2, CHR 0x80, CHR 0xA8],
     [CHR 0xE2, CHR 0x80, CHR 0xA9], [CHR 0xE2, CHR 0x80, CHR 0xAF], [CHR 0xE2, CHR 0x81, CHR 0x9F],
     [CHR 0xE3, CHR 0x80, CHR 0x80]]"

lemma spaces_not_Nil: "[] \<notin> set spaces"
  by (simp add: spaces_def)

text \<open>Dropping every leading occurrence of one of some words.\<close>

function trimWords :: "string list \<Rightarrow> string \<Rightarrow> string" where
  "trimWords ws s =
     (case find (\<lambda>w. w \<noteq> [] \<and> HasPrefix s w) ws of
        None \<Rightarrow> s
      | Some w \<Rightarrow> trimWords ws (drop (length w) s))"
  by pat_completeness auto
termination
  by (relation "measure (\<lambda>(ws, s). length s)") (auto simp: find_Some_iff HasPrefix_iff)

declare trimWords.simps [simp del]

definition TrimSpace :: "string \<Rightarrow> string" where
  "TrimSpace s = rev (trimWords (map rev spaces) (rev (trimWords spaces s)))"

lemma trimWords_id: "(\<And>w. w \<in> set ws \<Longrightarrow> w \<noteq> [] \<Longrightarrow> s = [] \<or> hd w \<noteq> hd s) \<Longrightarrow> trimWords ws s = s"
  apply (subst trimWords.simps)
  apply (cases "find (\<lambda>w. w \<noteq> [] \<and> HasPrefix s w) ws")
   apply simp
  apply (auto simp: find_Some_iff HasPrefix_iff)
  by (metis append_is_Nil_conv hd_append2 nth_mem)

text \<open>Characters that neither start nor end white space.\<close>

definition plain :: "char \<Rightarrow> bool" where
  "plain c \<longleftrightarrow> isDigit c \<or> c = CHR ''-''"

lemma TrimSpace_plain: "s \<noteq> [] \<Longrightarrow> plain (hd s) \<Longrightarrow> plain (last s) \<Longrightarrow> TrimSpace s = s"
proof -
  assume s: "s \<noteq> []" "plain (hd s)" "plain (last s)"
  have "\<forall>w \<in> set spaces. \<not> plain (hd w) \<and> \<not> plain (last w)" by (simp add: spaces_def plain_def isDigit_def)
  then have ends: "hd w \<noteq> hd s \<and> last w \<noteq> last s" if "w \<in> set spaces" for w using s that by metis
  then have "trimWords spaces s = s" by (intro trimWords_id) simp
  moreover have "trimWords (map rev spaces) (rev s) = rev s"
    using ends s(1) by (intro trimWords_id) (auto simp: hd_rev)
  ultimately show ?thesis by (simp add: TrimSpace_def)
qed

section \<open>Searching and splitting\<close>

definition LastIndexByte :: "string \<Rightarrow> char \<Rightarrow> nat option" where
  "LastIndexByte s c = (if c \<in> set s then Some (length s - Suc (length (takeWhile (\<lambda>x. x \<noteq> c) (rev s)))) else None)"

lemma LastIndexByte_last: "c \<notin> set b \<Longrightarrow> LastIndexByte (a @ c # b) c = Some (length a)"
proof -
  assume "c \<notin> set b"
  then have "takeWhile (\<lambda>x. x \<noteq> c) (rev b @ c # rev a) = rev b" by (subst takeWhile_append2) auto
  then show ?thesis by (simp add: LastIndexByte_def)
qed

lemma splitFrom_sep: "sep \<notin> set a \<Longrightarrow> splitFrom sep cur (a @ sep # s) = (rev cur @ a) # splitFrom sep [] s"
  by (induction a arbitrary: cur) auto

lemma splitFrom_rest: "sep \<notin> set a \<Longrightarrow> splitFrom sep cur a = [rev cur @ a]"
  by (induction a arbitrary: cur) auto

lemma Split_Join: "ps \<noteq> [] \<Longrightarrow> (\<And>p. p \<in> set ps \<Longrightarrow> sep \<notin> set p) \<Longrightarrow> Split (Join ps [sep]) sep = ps"
  unfolding Split_def by (induction ps "[sep]" rule: Join.induct) (simp_all add: splitFrom_sep splitFrom_rest)

end
