(* ===== verification/IntRange.thy ===== *)
theory IntRange
  imports GoInts
begin

text \<open>
  Integer range expressions (\<^verbatim>\<open>openjd/intrange/intrange.go\<close>): the elements of an expression such as
  \<^verbatim>\<open>1,3,7-10:2\<close>, how many values one has, what they are, and the parser.
\<close>

section \<open>Elements\<close>

record Range =
  r_Start :: int
  r_End :: int
  r_Step :: int

record Policy =
  PositiveStepOnly :: bool
  AscendingOnly :: bool

definition Range_String :: "Range \<Rightarrow> string" where
  "Range_String r =
     (if r_Start r = r_End r then Itoa (r_Start r)
      else if r_Step r = 1 then Itoa (r_Start r) @ ''-'' @ Itoa (r_End r)
      else Itoa (r_Start r) @ ''-'' @ Itoa (r_End r) @ '':'' @ Itoa (r_Step r))"

definition effStep :: "Range \<Rightarrow> int" where
  "effStep r = (if r_Step r = 0 then 1 else r_Step r)"

definition Count :: "Range \<Rightarrow> int" where
  "Count r =
     (let step = effStep r; span = i64 (r_End r - r_Start r)
      in if 0 < span \<and> r_End r < r_Start r \<or> span < 0 \<and> r_Start r < r_End r then MaxInt
         else if (0 < span) \<noteq> (0 < step) then 1
         else if span = MinInt \<and> step = - 1 then MaxInt
         else let count = span sdiv step in if count = MaxInt then MaxInt else i64 (count + 1))"

text \<open>The two loops of \<^verbatim>\<open>Iterate\<close>; each leaves when the next value would not fit, so the addition never wraps.\<close>

function iterateUp :: "int \<Rightarrow> int \<Rightarrow> int \<Rightarrow> int \<Rightarrow> int list" where
  "iterateUp start stop step v =
     (if 0 < step \<and> (v \<le> stop \<or> v = start)
      then v # (if MaxInt - step < v then [] else iterateUp start stop step (v + step))
      else [])"
  by pat_completeness auto
termination by (relation "measure (\<lambda>(start, stop, step, v). nat (MaxInt - v))") auto

function iterateDown :: "int \<Rightarrow> int \<Rightarrow> int \<Rightarrow> int \<Rightarrow> int list" where
  "iterateDown start stop step v =
     (if step < 0 \<and> (stop \<le> v \<or> v = start)
      then v # (if v < MinInt - step then [] else iterateDown start stop step (v + step))
      else [])"
  by pat_completeness auto
termination by (relation "measure (\<lambda>(start, stop, step, v). nat (v - MinInt))") auto

declare iterateUp.simps [simp del] iterateDown.simps [simp del]

definition Iterate :: "Range \<Rightarrow> int list" where
  "Iterate r =
     (if Count r = MaxInt then []
      else if 0 < effStep r then iterateUp (r_Start r) (r_End r) (effStep r) (r_Start r)
      else iterateDown (r_Start r) (r_End r) (effStep r) (r_Start r))"

section \<open>Parsing\<close>

datatype range_error =
    ExpressionEmpty
  | EmptyValue
  | StepNeedsRange string
  | StepNotPositive string
  | StepZero string
  | StartAfterEnd int int
  | InvalidInteger string
  | InvalidStart string
  | InvalidEnd string

text \<open>\<^verbatim>\<open>splitRange\<close>: the bounds, or a single integer.  The separator is the first minus after position 0.\<close>

definition splitRange :: "string \<Rightarrow> range_error + (int \<times> int option)" where
  "splitRange text =
     (let s = TrimSpace text
      in if s = [] then Inl EmptyValue
         else
           let sepIdx = Suc (length (takeWhile (\<lambda>c. c \<noteq> CHR ''-'') (tl s)))
           in if sepIdx = length s
              then (case Atoi s of None \<Rightarrow> Inl (InvalidInteger s) | Some n \<Rightarrow> Inr (n, None))
              else
                (case Atoi (TrimSpace (take sepIdx s)) of
                   None \<Rightarrow> Inl (InvalidStart (take sepIdx s))
                 | Some st \<Rightarrow>
                     (case Atoi (TrimSpace (drop (sepIdx + 1) s)) of
                        None \<Rightarrow> Inl (InvalidEnd (drop (sepIdx + 1) s))
                      | Some en \<Rightarrow> Inr (st, Some en))))"

definition parseStep :: "string \<Rightarrow> Policy \<Rightarrow> range_error + int" where
  "parseStep stepText p =
     (if stepText = [] then Inr 1
      else
        (case Atoi (TrimSpace stepText) of
           None \<Rightarrow> Inl (if PositiveStepOnly p then StepNotPositive stepText else StepZero stepText)
         | Some step \<Rightarrow>
             if step = 0 then Inl (if PositiveStepOnly p then StepNotPositive stepText else StepZero stepText)
             else if PositiveStepOnly p \<and> step < 0 then Inl (StepNotPositive stepText)
             else Inr step))"

definition parseElement :: "string \<Rightarrow> Policy \<Rightarrow> range_error + Range" where
  "parseElement text p =
     (let (s, stepText) = (case LastIndexByte text CHR '':'' of
                             Some idx \<Rightarrow> (take idx text, drop (idx + 1) text)
                           | None \<Rightarrow> (text, []))
      in case splitRange s of
           Inl e \<Rightarrow> Inl e
         | Inr (start, None) \<Rightarrow>
             if stepText \<noteq> [] then Inl (StepNeedsRange stepText)
             else Inr \<lparr> r_Start = start, r_End = start, r_Step = 1 \<rparr>
         | Inr (start, Some stop) \<Rightarrow>
             (case parseStep stepText p of
                Inl e \<Rightarrow> Inl e
              | Inr step \<Rightarrow>
                  if AscendingOnly p \<and> stop < start then Inl (StartAfterEnd start stop)
                  else Inr \<lparr> r_Start = start, r_End = stop, r_Step = step \<rparr>))"

fun parseParts :: "string list \<Rightarrow> Policy \<Rightarrow> range_error + Range list" where
  "parseParts [] p = Inr []"
| "parseParts (part # parts) p =
     (if TrimSpace part = [] then parseParts parts p
      else
        (case parseElement (TrimSpace part) p of
           Inl e \<Rightarrow> Inl e
         | Inr r \<Rightarrow> (case parseParts parts p of Inl e \<Rightarrow> Inl e | Inr rs \<Rightarrow> Inr (r # rs))))"

definition ParseWithPolicy :: "string \<Rightarrow> Policy \<Rightarrow> range_error + Range list" where
  "ParseWithPolicy s p =
     (if TrimSpace s = [] then Inl ExpressionEmpty
      else
        (case parseParts (Split s CHR '','') p of
           Inl e \<Rightarrow> Inl e
         | Inr rs \<Rightarrow> if rs = [] then Inl ExpressionEmpty else Inr rs))"

definition Parse :: "string \<Rightarrow> range_error + Range list" where
  "Parse s = ParseWithPolicy s \<lparr> PositiveStepOnly = False, AscendingOnly = False \<rparr>"

end
