(* ===== verification/IntRangeProps.thy ===== *)
theory IntRangeProps
  imports IntRange
begin

text \<open>
  What the range elements denote: the count and the values against the specification's set, and the round trip
  between elements and their text.
\<close>

section \<open>Values\<close>

definition wf_range :: "Range \<Rightarrow> bool" where
  "wf_range r \<longleftrightarrow> isInt (r_Start r) \<and> isInt (r_End r) \<and> isInt (r_Step r)"

definition trueCount :: "Range \<Rightarrow> int" where
  "trueCount r =
     (let span = r_End r - r_Start r; step = effStep r
      in if (0 < span) \<noteq> (0 < step) then 1 else span div step + 1)"

text \<open>The set the specification gives: the start, and every later term that has not passed the end.\<close>

definition denotes :: "Range \<Rightarrow> int set" where
  "denotes r = insert (r_Start r)
     {x. \<exists>m > 0. x = r_Start r + m * effStep r \<and> (if 0 < effStep r then x \<le> r_End r else r_End r \<le> x)}"

lemma effStep_not_0 [simp]: "effStep r \<noteq> 0"
  by (simp add: effStep_def)

lemma div_same_sign:
  assumes "b \<noteq> 0" "(0 < a) = (0 < b)"
  shows "0 \<le> a div b" "a div b \<le> \<bar>a\<bar>" "a sdiv b = a div (b :: int)"
proof -
  have pos: "0 \<le> c div d \<and> c div d \<le> c" if "0 \<le> c" "0 < d" for c d :: int
    using that zdiv_mono2 [of c 1 d] by (simp add: pos_imp_zdiv_nonneg_iff)
  show "0 \<le> a div b" "a div b \<le> \<bar>a\<bar>"
    using assms pos [of a b] pos [of "- a" "- b"] by (cases "0 < b"; simp)+
  show "a sdiv b = a div b" using assms by (cases "0 < b") (auto simp: signed_divide_int_def sgn_if)
qed

lemma div_bound: "b < - 1 \<Longrightarrow> a \<le> 0 \<Longrightarrow> a div b \<le> - a div (2 :: int)"
  using zdiv_mono2 [of "- a" 2 "- b"] by simp

lemma trueCount_pos: "1 \<le> trueCount r"
  using div_same_sign(1) [of "effStep r" "r_End r - r_Start r"] by (auto simp: trueCount_def Let_def)

lemma Count_eq:
  assumes "wf_range r"
  shows "Count r = (if isInt (r_End r - r_Start r) then min MaxInt (trueCount r) else MaxInt)"
proof (cases "isInt (r_End r - r_Start r)")
  case True
  let ?span = "r_End r - r_Start r" and ?step = "effStep r"
  have i: "i64 ?span = ?span" using True by (rule i64_id)
  show ?thesis
  proof (cases "(0 < ?span) = (0 < ?step)")
    case same: True
    define q where "q = ?span div ?step"
    have q: "0 \<le> q" "q \<le> \<bar>?span\<bar>" "?span sdiv ?step = q"
      unfolding q_def using div_same_sign [OF effStep_not_0 same] by simp_all
    have C: "Count r = (if ?span = MinInt \<and> ?step = - 1 then MaxInt else if q = MaxInt then MaxInt else i64 (q + 1))"
      unfolding Count_def Let_def i q(3) using same by auto
    have "q < MaxInt \<Longrightarrow> i64 (q + 1) = q + 1" using q(1) by (intro i64_id) (simp add: isInt_def MinInt_def)
    moreover have "MaxInt \<le> q" if "?span = MinInt" "?step = - 1"
      unfolding that q_def by (simp add: MinInt_def MaxInt_def)
    moreover have "q \<le> MaxInt" if "\<not> (?span = MinInt \<and> ?step = - 1)"
    proof (cases "?span = MinInt")
      case True
      then have "?step < - 1" using that same effStep_not_0 [of r] unfolding MinInt_def by linarith
      then show ?thesis using div_bound [of ?step ?span] unfolding q_def True by (simp add: MinInt_def MaxInt_def)
    next
      case False
      then have "\<bar>?span\<bar> \<le> MaxInt" using True unfolding isInt_def MinInt_def MaxInt_def by linarith
      then show ?thesis using q(2) by linarith
    qed
    ultimately have "Count r = min MaxInt (q + 1)" unfolding C by (cases "q < MaxInt") (auto simp: min_def)
    then show ?thesis using True same by (simp add: trueCount_def q_def)
  next
    case False
    then show ?thesis using True by (auto simp: Count_def Let_def i trueCount_def MaxInt_def)
  qed
next
  case False
  let ?d = "r_End r - r_Start r"
  have w: "i64 ?d = (if ?d > MaxInt then ?d - 18446744073709551616
     else if ?d < MinInt then ?d + 18446744073709551616 else ?d)"
    using assms i64_wrap by (simp add: wf_range_def)
  have "0 < i64 ?d \<and> r_End r < r_Start r \<or> i64 ?d < 0 \<and> r_Start r < r_End r"
    using False assms unfolding w wf_range_def isInt_def MinInt_def MaxInt_def by arith
  then show ?thesis using False by (simp add: Count_def Let_def)
qed

text \<open>The values, with the loops as lists of multiples.\<close>

lemma iterateUp_eq:
  assumes "0 < step" "start \<le> v" "stop \<le> MaxInt" "v \<le> stop"
  shows "iterateUp start stop step v = map (\<lambda>m. v + int m * step) [0..<nat ((stop - v) div step + 1)]"
  using assms
proof (induction start stop step v rule: iterateUp.induct)
  case (1 start stop step v)
  show ?case
  proof (cases "v + step \<le> stop")
    case True
    have "(stop - v) div step = (stop - (v + step)) div step + 1"
      using 1(2) div_add_self2 [of step "stop - (v + step)"] by simp
    moreover have "0 \<le> (stop - (v + step)) div step" using True 1(2) by (simp add: pos_imp_zdiv_nonneg_iff)
    ultimately have n: "nat ((stop - v) div step + 1) = Suc (nat ((stop - (v + step)) div step + 1))" by linarith
    have "iterateUp start stop step v = v # iterateUp start stop step (v + step)"
      using 1 True by (subst iterateUp.simps) auto
    then show ?thesis using 1 True unfolding n by (simp add: map_upt_Suc algebra_simps del: upt_Suc)
  next
    case False
    then have "(stop - v) div step = 0" using 1 by (intro div_pos_pos_trivial) auto
    moreover have "iterateUp start stop step v = [v]"
      using 1 False by (subst iterateUp.simps) (auto simp: iterateUp.simps [of start stop step "v + step"])
    ultimately show ?thesis by simp
  qed
qed

lemma iterateDown_eq:
  assumes "step < 0" "v \<le> start" "MinInt \<le> stop" "stop \<le> v"
  shows "iterateDown start stop step v = map (\<lambda>m. v + int m * step) [0..<nat ((stop - v) div step + 1)]"
  using assms
proof (induction start stop step v rule: iterateDown.induct)
  case (1 start stop step v)
  show ?case
  proof (cases "stop \<le> v + step")
    case True
    have "(stop - v) div step = (stop - (v + step)) div step + 1"
      using 1(2) div_add_self2 [of step "stop - (v + step)"] by simp
    moreover have "0 \<le> (stop - (v + step)) div step" using True 1(2) by (simp add: neg_imp_zdiv_nonneg_iff)
    ultimately have n: "nat ((stop - v) div step + 1) = Suc (nat ((stop - (v + step)) div step + 1))" by linarith
    have "iterateDown start stop step v = v # iterateDown start stop step (v + step)"
      using 1 True by (subst iterateDown.simps) auto
    then show ?thesis using 1 True unfolding n by (simp add: map_upt_Suc algebra_simps del: upt_Suc)
  next
    case False
    then have "(stop - v) div step = 0" using 1 by (intro div_neg_neg_trivial) auto
    moreover have "iterateDown start stop step v = [v]"
      using 1 False by (subst iterateDown.simps) (auto simp: iterateDown.simps [of start stop step "v + step"])
    ultimately show ?thesis by simp
  qed
qed

definition term_list :: "Range \<Rightarrow> int list" where
  "term_list r = map (\<lambda>m. r_Start r + int m * effStep r) [0..<nat (trueCount r)]"

lemma Iterate_eq:
  assumes "wf_range r" "Count r \<noteq> MaxInt"
  shows "Iterate r = term_list r"
proof (cases "0 < effStep r")
  case True
  show ?thesis
  proof (cases "r_Start r \<le> r_End r")
    case le: True
    have "trueCount r = (r_End r - r_Start r) div effStep r + 1"
      using True le by (cases "r_Start r = r_End r") (auto simp: trueCount_def)
    then show ?thesis
      using assms le True by (simp add: Iterate_def term_list_def iterateUp_eq wf_range_def isInt_def)
  next
    case False
    then show ?thesis
      using assms True
      by (simp add: Iterate_def term_list_def trueCount_def iterateUp.simps [of _ _ _ "r_Start r"]
          iterateUp.simps [of _ _ _ "r_Start r + effStep r"])
  qed
next
  case False
  then have neg: "effStep r < 0" using effStep_not_0 [of r] by linarith
  show ?thesis
  proof (cases "r_End r \<le> r_Start r")
    case True
    then show ?thesis
      using assms neg False by (simp add: Iterate_def term_list_def iterateDown_eq wf_range_def isInt_def trueCount_def)
  next
    case gt: False
    then show ?thesis
      using assms neg
      by (simp add: Iterate_def term_list_def trueCount_def iterateDown.simps [of _ _ _ "r_Start r"]
          iterateDown.simps [of _ _ _ "r_Start r + effStep r"])
  qed
qed

lemma le_div_int:
  "0 < b \<Longrightarrow> m \<le> a div b \<longleftrightarrow> m * b \<le> (a :: int)"
  "b < 0 \<Longrightarrow> m \<le> a div b \<longleftrightarrow> (a :: int) \<le> m * b"
  using div_mult_self1 [of b a "- m"] pos_imp_zdiv_nonneg_iff [of b "a + - m * b"] neg_imp_zdiv_nonneg_iff [of b "a + - m * b"]
  by auto

lemma less_trueCount:
  assumes "0 \<le> m"
  shows "m < trueCount r \<longleftrightarrow>
    m = 0 \<or> (if 0 < effStep r then r_Start r + m * effStep r \<le> r_End r else r_End r \<le> r_Start r + m * effStep r)"
proof (cases "(0 < r_End r - r_Start r) = (0 < effStep r)")
  case True
  then have t: "m < trueCount r \<longleftrightarrow> m \<le> (r_End r - r_Start r) div effStep r" by (auto simp: trueCount_def)
  show ?thesis
  proof (cases "0 < effStep r")
    case pos: True
    show ?thesis unfolding t le_div_int(1) [OF pos] using pos True by auto
  next
    case False
    then have neg: "effStep r < 0" using effStep_not_0 [of r] by linarith
    show ?thesis unfolding t le_div_int(2) [OF neg] using neg True by auto
  qed
next
  case False
  have "m * effStep r < 0" if "m \<noteq> 0" "effStep r < 0" using that assms by (simp add: mult_pos_neg)
  moreover have "0 < m * effStep r" if "m \<noteq> 0" "0 < effStep r" using that assms by simp
  moreover have "effStep r < 0 \<or> 0 < effStep r" using effStep_not_0 [of r] by linarith
  ultimately show ?thesis using False assms by (fastforce simp: trueCount_def)
qed

lemma set_term_list: "set (term_list r) = denotes r"
proof -
  have "set (term_list r) = (\<lambda>m. r_Start r + m * effStep r) ` {m. 0 \<le> m \<and> m < trueCount r}"
  proof (intro set_eqI iffI)
    fix x assume "x \<in> (\<lambda>m. r_Start r + m * effStep r) ` {m. 0 \<le> m \<and> m < trueCount r}"
    then obtain m where "0 \<le> m" "m < trueCount r" "x = r_Start r + m * effStep r" by auto
    then show "x \<in> set (term_list r)" by (auto simp: term_list_def intro!: image_eqI [of _ _ "nat m"])
  qed (auto simp: term_list_def zless_nat_eq_int_zless)
  also have "\<dots> = denotes r" unfolding denotes_def using less_trueCount [of _ r] by force
  finally show ?thesis .
qed

lemma distinct_term_list: "distinct (term_list r)"
  unfolding term_list_def by (simp add: distinct_map inj_on_def)

lemma length_term_list: "int (length (term_list r)) = trueCount r"
  using trueCount_pos [of r] by (simp add: term_list_def)

text \<open>C30. The values of a range element are those of the specification.  Unless its count saturates, \<open>Iterate\<close> yields
  each member of the specification's set once, and \<open>Count\<close> is their number.  The count saturates only when the distance of the
  bounds does not fit an \<^verbatim>\<open>int\<close> or there are that many values; then nothing is materialized.\<close>

theorem range_values_as_specified:
  assumes "isInt (r_Start r)" "isInt (r_End r)" "isInt (r_Step r)"
  shows "if Count r = MaxInt
    then Iterate r = [] \<and> (\<not> isInt (r_End r - r_Start r) \<or> MaxInt \<le> int (card (denotes r)))
    else set (Iterate r) = denotes r \<and> distinct (Iterate r) \<and> Count r = int (length (Iterate r))"
proof (cases "Count r = MaxInt")
  case True
  have "int (card (denotes r)) = trueCount r"
    using distinct_card [OF distinct_term_list [of r]] length_term_list [of r] by (simp add: set_term_list)
  then show ?thesis using True Count_eq [of r] assms by (auto simp: wf_range_def Iterate_def min_def split: if_splits)
next
  case False
  have wf: "wf_range r" using assms by (simp add: wf_range_def)
  have "Count r = trueCount r" using False Count_eq [OF wf] by (auto simp: min_def split: if_splits)
  then show ?thesis
    using False Iterate_eq [OF wf False] by (simp add: set_term_list distinct_term_list length_term_list)
qed

theorem range_values_as_specified_witness:
  "set (Iterate \<lparr> r_Start = 1, r_End = 10, r_Step = 3 \<rparr>) = denotes \<lparr> r_Start = 1, r_End = 10, r_Step = 3 \<rparr> \<and>
   Iterate \<lparr> r_Start = 1, r_End = 10, r_Step = 3 \<rparr> = [1, 4, 7, 10]"
proof -
  have v: "Iterate \<lparr> r_Start = 1, r_End = 10, r_Step = 3 \<rparr> = [1, 4, 7, 10]"
    and c: "Count \<lparr> r_Start = 1, r_End = 10, r_Step = 3 \<rparr> \<noteq> MaxInt" by code_simp+
  from range_values_as_specified [of "\<lparr> r_Start = 1, r_End = 10, r_Step = 3 \<rparr>"] c v show ?thesis
    by (simp add: isInt_def MinInt_def MaxInt_def)
qed

section \<open>Text\<close>

lemma plain_digit: "isDigit c \<Longrightarrow> plain c"
  by (simp add: plain_def)

lemma digit_other: "isDigit c \<Longrightarrow> c \<noteq> CHR ''-'' \<and> c \<noteq> CHR '':'' \<and> c \<noteq> CHR '',''"
  by (auto simp: isDigit_def)

lemma Itoa_chars: "c \<in> set (Itoa n) \<Longrightarrow> isDigit c \<or> c = CHR ''-''"
  by (rule Itoa_text [of n]) auto

lemma Itoa_ends: "Itoa n \<noteq> []" "plain (hd (Itoa n))" "plain (last (Itoa n))"
  by (rule Itoa_text [of n], auto simp: plain_def)+

lemma TrimSpace_Itoa [simp]: "TrimSpace (Itoa n) = Itoa n"
  by (intro TrimSpace_plain Itoa_ends)

lemma takeWhile_Itoa: "takeWhile (\<lambda>c. c \<noteq> CHR ''-'') (tl (Itoa n)) = tl (Itoa n)"
  by (rule Itoa_text [of n]) (auto simp: takeWhile_eq_all_conv dest: digit_other)

lemma splitRange_single: "isInt n \<Longrightarrow> splitRange (Itoa n) = Inr (n, None)"
  using Itoa_ends(1) [of n] by (simp add: splitRange_def takeWhile_Itoa Atoi_Itoa)

lemma splitRange_pair:
  assumes "isInt a" "isInt b"
  shows "splitRange (Itoa a @ CHR ''-'' # Itoa b) = Inr (a, Some b)"
proof -
  let ?s = "Itoa a @ CHR ''-'' # Itoa b"
  have trim: "TrimSpace ?s = ?s" using Itoa_ends [of a] Itoa_ends [of b] by (intro TrimSpace_plain) simp_all
  have "takeWhile (\<lambda>c. c \<noteq> CHR ''-'') (tl ?s) = tl (Itoa a)"
    using Itoa_ends(1) [of a] takeWhile_Itoa [of a] by (simp add: takeWhile_tail takeWhile_append2 takeWhile_eq_all_conv)
  moreover have "Suc (length (tl (Itoa a))) = length (Itoa a)" using Itoa_ends(1) [of a] by simp
  ultimately show ?thesis
    using assms Itoa_ends(1) by (simp add: splitRange_def trim Atoi_Itoa del: length_tl)
qed

text \<open>Elements whose text determines them, and that a policy admits.\<close>

definition canonical :: "Range \<Rightarrow> bool" where
  "canonical r \<longleftrightarrow> wf_range r \<and> r_Step r \<noteq> 0 \<and> (r_Start r = r_End r \<longrightarrow> r_Step r = 1)"

definition admits :: "Policy \<Rightarrow> Range \<Rightarrow> bool" where
  "admits p r \<longleftrightarrow> (PositiveStepOnly p \<longrightarrow> 0 < r_Step r) \<and> (AscendingOnly p \<longrightarrow> r_Start r \<le> r_End r)"

lemma no_colon: "CHR '':'' \<notin> set (Itoa n)" "CHR '','' \<notin> set (Itoa n)"
  using Itoa_chars [of _ n] digit_other by blast+

lemma parseElement_String:
  assumes "canonical r" "admits p r"
  shows "parseElement (Range_String r) p = Inr r"
proof -
  have i: "isInt (r_Start r)" "isInt (r_End r)" "isInt (r_Step r)" using assms by (simp_all add: canonical_def wf_range_def)
  have c: "LastIndexByte (Itoa a @ CHR ''-'' # Itoa b @ CHR '':'' # Itoa d) CHR '':'' =
      Some (length (Itoa a @ CHR ''-'' # Itoa b))" for a b d
    using LastIndexByte_last [OF no_colon(1), of "Itoa a @ CHR ''-'' # Itoa b" d] by simp
  consider "r_Start r = r_End r" | "r_Start r \<noteq> r_End r" "r_Step r = 1" | "r_Start r \<noteq> r_End r" "r_Step r \<noteq> 1" by blast
  then show ?thesis
  proof cases
    case 1
    then show ?thesis
      using assms i by (cases r) (simp add: Range_String_def parseElement_def LastIndexByte_def no_colon splitRange_single canonical_def)
  next
    case 2
    then show ?thesis
      using assms i by (cases r) (auto simp: Range_String_def parseElement_def LastIndexByte_def no_colon splitRange_pair
          parseStep_def admits_def)
  next
    case 3
    have "Itoa (r_Step r) \<noteq> []" by (rule Itoa_ends)
    then show ?thesis
      using 3 assms i by (cases r) (auto simp: Range_String_def parseElement_def c splitRange_pair
          parseStep_def admits_def canonical_def Atoi_Itoa)
  qed
qed

lemma Range_String_ends:
  "Range_String r \<noteq> []" "plain (hd (Range_String r))" "plain (last (Range_String r))" "CHR '','' \<notin> set (Range_String r)"
  using Itoa_ends [of "r_Start r"] Itoa_ends [of "r_End r"] Itoa_ends [of "r_Step r"]
  by (simp_all add: Range_String_def no_colon)

text \<open>The element a text stands for: the step of a single value is lost in print, where it has no meaning.\<close>

definition normal :: "Range \<Rightarrow> Range" where
  "normal r = (if r_Start r = r_End r then r\<lparr>r_Step := 1\<rparr> else r)"

lemma denotes_normal: "r_Step r \<noteq> 0 \<Longrightarrow> denotes (normal r) = denotes r"
  by (auto simp: denotes_def normal_def effStep_def zero_less_mult_iff mult_le_0_iff zero_le_mult_iff)

lemma Range_String_normal: "Range_String (normal r) = Range_String r"
  by (simp add: Range_String_def normal_def)

text \<open>What the parser yields.\<close>

definition parsed :: "Policy \<Rightarrow> Range \<Rightarrow> bool" where
  "parsed p r \<longleftrightarrow> wf_range r \<and> r_Step r \<noteq> 0 \<and> admits p r"

lemma Atoi_isInt: "Atoi s = Some n \<Longrightarrow> isInt n"
  by (auto simp: Atoi_def Let_def split: prod.splits if_splits)

lemma splitRange_isInt: "splitRange s = Inr (a, b) \<Longrightarrow> isInt a \<and> (\<forall>n. b = Some n \<longrightarrow> isInt n)"
  by (auto simp: splitRange_def Let_def dest: Atoi_isInt split: if_splits option.splits)

lemma isInt_one: "isInt 1"
  by (simp add: isInt_def MinInt_def MaxInt_def)

lemma parseStep_isInt: "parseStep s p = Inr n \<Longrightarrow> isInt n \<and> n \<noteq> 0 \<and> (PositiveStepOnly p \<longrightarrow> 0 < n)"
  by (auto simp: parseStep_def isInt_one dest: Atoi_isInt split: if_splits option.splits)

lemma parseElement_parsed: "parseElement s p = Inr r \<Longrightarrow> parsed p r"
  by (auto simp: parseElement_def Let_def parsed_def wf_range_def admits_def isInt_one
      dest!: splitRange_isInt parseStep_isInt split: prod.splits sum.splits option.splits if_splits)

lemma parseParts_parsed: "parseParts parts p = Inr rs \<Longrightarrow> r \<in> set rs \<Longrightarrow> parsed p r"
  by (induction parts arbitrary: rs) (auto dest: parseElement_parsed split: if_splits sum.splits)

lemma parsed_normal: "parsed p r \<Longrightarrow> canonical (normal r) \<and> admits p (normal r)"
  by (simp add: parsed_def normal_def canonical_def admits_def wf_range_def isInt_one)

lemma parseParts_String:
  "(\<And>r. r \<in> set rs \<Longrightarrow> parsed p r) \<Longrightarrow> parseParts (map Range_String rs) p = Inr (map normal rs)"
proof (induction rs)
  case (Cons r rs)
  have "parseElement (Range_String r) p = Inr (normal r)"
    using parseElement_String [of "normal r" p] parsed_normal [of p r] Cons.prems [of r] by (simp add: Range_String_normal)
  then show ?case using Cons by (simp add: TrimSpace_plain Range_String_ends)
qed simp

lemma Join_ends: "ps \<noteq> [] \<Longrightarrow> (\<And>q. q \<in> set ps \<Longrightarrow> q \<noteq> [] \<and> plain (hd q) \<and> plain (last q)) \<Longrightarrow>
  Join ps [sep] \<noteq> [] \<and> plain (hd (Join ps [sep])) \<and> plain (last (Join ps [sep]))"
  by (induction ps "[sep]" rule: Join.induct) auto

text \<open>C31. Parsing, printing and parsing again.  The elements a parse yields under a policy, written in the grammar's own
  notation and joined by commas, parse under that policy to the same elements, but for the step of an element whose bounds are
  equal, which print does not show and which becomes 1; they denote the same values, and their text is the same again.\<close>

theorem range_text_roundtrip:
  assumes "ParseWithPolicy text p = Inr rs"
  shows "ParseWithPolicy (Join (map Range_String rs) '','') p = Inr (map normal rs) \<and>
    map denotes (map normal rs) = map denotes rs \<and> map Range_String (map normal rs) = map Range_String rs"
proof -
  let ?s = "Join (map Range_String rs) '',''"
  have rs: "rs \<noteq> []" "parseParts (Split text CHR '','') p = Inr rs"
    using assms by (auto simp: ParseWithPolicy_def split: if_splits sum.splits)
  note parsed = parseParts_parsed [OF rs(2)]
  have "?s \<noteq> [] \<and> plain (hd ?s) \<and> plain (last ?s)" using rs(1) by (intro Join_ends) (auto simp: Range_String_ends)
  moreover have "Split ?s CHR '','' = map Range_String rs" using rs(1) by (intro Split_Join) (auto simp: Range_String_ends)
  ultimately have "ParseWithPolicy ?s p = Inr (map normal rs)"
    using rs(1) by (simp add: ParseWithPolicy_def TrimSpace_plain parseParts_String [OF parsed])
  then show ?thesis using parsed by (auto simp: Range_String_normal denotes_normal parsed_def)
qed

theorem range_text_roundtrip_witness:
  "ParseWithPolicy '' -5 - -1:2 , 7-7:3'' \<lparr> PositiveStepOnly = True, AscendingOnly = True \<rparr> =
     Inr [\<lparr> r_Start = - 5, r_End = - 1, r_Step = 2 \<rparr>, \<lparr> r_Start = 7, r_End = 7, r_Step = 3 \<rparr>] \<and>
   ParseWithPolicy ''-5--1:2,7'' \<lparr> PositiveStepOnly = True, AscendingOnly = True \<rparr> =
     Inr [\<lparr> r_Start = - 5, r_End = - 1, r_Step = 2 \<rparr>, \<lparr> r_Start = 7, r_End = 7, r_Step = 1 \<rparr>]"
proof -
  let ?rs = "[\<lparr> r_Start = - 5, r_End = - 1, r_Step = 2 \<rparr>, \<lparr> r_Start = 7, r_End = 7, r_Step = 3 \<rparr>] :: Range list"
  have p: "ParseWithPolicy '' -5 - -1:2 , 7-7:3'' \<lparr> PositiveStepOnly = True, AscendingOnly = True \<rparr> = Inr ?rs" by code_simp
  moreover have "Join (map Range_String ?rs) '','' = ''-5--1:2,7''" by code_simp
  ultimately show ?thesis using range_text_roundtrip [OF p] by (simp add: normal_def)
qed

end
