(* ===== verification/RangeExpr.thy ===== *)
theory RangeExpr
  imports IntRangeProps
begin

text \<open>
  The range expressions of task parameters (\<^verbatim>\<open>openjd/range.go\<close>): expansion with its resource bound, the
  check that mirrors it without materializing values, and the detection of overlapping elements by the Chinese
  Remainder Theorem.
\<close>

definition maxRangeValues :: int where "maxRangeValues = 10000000"

definition openjdRangePolicy :: Policy where
  "openjdRangePolicy = \<lparr> PositiveStepOnly = True, AscendingOnly = True \<rparr>"

datatype expr_error =
    EmptyExpression
  | BadExpression string range_error
  | ExpressionTooLarge string
  | NoValues string

text \<open>The empty list is the nil slice of an expression whose parts are all empty.\<close>

definition parseIntRangeElements :: "string \<Rightarrow> expr_error + Range list" where
  "parseIntRangeElements expr =
     (if TrimSpace expr = [] then Inl EmptyExpression
      else
        (case ParseWithPolicy expr openjdRangePolicy of
           Inl e \<Rightarrow> if e = ExpressionEmpty then Inr [] else Inl (BadExpression expr e)
         | Inr ranges \<Rightarrow> Inr ranges))"

text \<open>\<open>None\<close> is \<^verbatim>\<open>0, false\<close>.\<close>

fun sumCounts :: "int \<Rightarrow> Range list \<Rightarrow> int option" where
  "sumCounts tot [] = Some tot"
| "sumCounts tot (r # ranges) =
     (let c = Count r
      in if maxRangeValues < c then None
         else let tot' = i64 (tot + c)
           in if maxRangeValues < tot' then None else sumCounts tot' ranges)"

definition sumRangeCounts :: "Range list \<Rightarrow> int option" where
  "sumRangeCounts ranges = sumCounts 0 ranges"

fun firstSeen :: "int list \<Rightarrow> int list \<Rightarrow> int list" where
  "firstSeen result [] = result"
| "firstSeen result (v # vs) = firstSeen (if v \<in> set result then result else result @ [v]) vs"

definition parseIntRangeExpr :: "string \<Rightarrow> expr_error + int list" where
  "parseIntRangeExpr expr =
     (case parseIntRangeElements expr of
        Inl e \<Rightarrow> Inl e
      | Inr ranges \<Rightarrow>
          (case sumRangeCounts ranges of
             None \<Rightarrow> Inl (ExpressionTooLarge expr)
           | Some tot \<Rightarrow>
               let result = firstSeen [] (concat (map Iterate ranges))
               in if result = [] then Inl (NoValues expr) else Inr result))"

definition intRangeExprCount :: "string \<Rightarrow> int option" where
  "intRangeExprCount expr =
     (case parseIntRangeElements expr of Inl e \<Rightarrow> None | Inr ranges \<Rightarrow> sumRangeCounts ranges)"

text \<open>\<open>None\<close> is the nil error.\<close>

definition validateIntRangeExpr :: "string \<Rightarrow> expr_error option" where
  "validateIntRangeExpr expr =
     (case parseIntRangeElements expr of
        Inl e \<Rightarrow> Some e
      | Inr ranges \<Rightarrow>
          (case sumRangeCounts ranges of
             None \<Rightarrow> Some (ExpressionTooLarge expr)
           | Some tot \<Rightarrow> if tot = 0 then Some (NoValues expr) else None))"

section \<open>Overlap\<close>

definition modPos :: "int \<Rightarrow> int \<Rightarrow> int" where
  "modPos a m = (let r = a smod m in if r < 0 then i64 (r + m) else r)"

function gcdLoop :: "int \<Rightarrow> int \<Rightarrow> int" where
  "gcdLoop a b = (if b \<noteq> 0 then gcdLoop b (a smod b) else a)"
  by pat_completeness auto
termination by (relation "measure (\<lambda>(a, b). nat \<bar>b\<bar>)") (auto simp: abs_smod_less)

declare gcdLoop.simps [simp del]

definition gcdInt :: "int \<Rightarrow> int \<Rightarrow> int" where
  "gcdInt a b = (let g = gcdLoop a b in if g < 0 then i64 (- g) else g)"

function extGCD :: "int \<Rightarrow> int \<Rightarrow> int \<times> int \<times> int" where
  "extGCD a b =
     (if b = 0 then (a, 1, 0)
      else let (g, x1, y1) = extGCD b (a smod b) in (g, y1, i64 (x1 - i64 (i64 (a sdiv b) * y1))))"
  by pat_completeness auto
termination by (relation "measure (\<lambda>(a, b). nat \<bar>b\<bar>)") (auto simp: abs_smod_less)

declare extGCD.simps [simp del]

definition modInverse :: "int \<Rightarrow> int \<Rightarrow> int" where
  "modInverse a m = (if m = 1 then 0 else let (_, x, _) = extGCD (modPos a m) m in modPos x m)"

definition rangesIntersect :: "Range \<Rightarrow> Range \<Rightarrow> bool" where
  "rangesIntersect a b =
     (let aStep = (if r_Step a \<le> 0 then 1 else r_Step a);
          bStep = (if r_Step b \<le> 0 then 1 else r_Step b)
      in if r_End a < r_Start a \<or> r_End b < r_Start b then False
         else
           let lo = max (r_Start a) (r_Start b); hi = min (r_End a) (r_End b)
           in if hi < lo then False
              else
                let g = gcdInt aStep bStep; diff = i64 (r_Start b - r_Start a)
                in if diff smod g \<noteq> 0 then False
                   else
                     let lcm = i64 (i64 (aStep sdiv g) * bStep);
                         m = i64 (bStep sdiv g);
                         inv = modInverse (i64 (aStep sdiv g) smod m) m;
                         t = modPos (i64 (modPos (i64 (diff sdiv g)) m * inv)) m;
                         x0 = i64 (r_Start a + i64 (aStep * t));
                         v = i64 (lo + modPos (i64 (x0 - lo)) lcm)
                     in v \<le> hi)"

fun anyIntersect :: "Range list \<Rightarrow> bool" where
  "anyIntersect [] \<longleftrightarrow> False"
| "anyIntersect (r # ranges) \<longleftrightarrow> (\<exists>s \<in> set ranges. rangesIntersect r s) \<or> anyIntersect ranges"

definition intRangeHasOverlap :: "string \<Rightarrow> expr_error + bool" where
  "intRangeHasOverlap expr =
     (if Contains expr ''{{'' then Inr False
      else (case parseIntRangeElements expr of Inl e \<Rightarrow> Inl e | Inr ranges \<Rightarrow> Inr (anyIntersect ranges)))"

section \<open>Expansion\<close>

lemma set_firstSeen [simp]: "set (firstSeen result vs) = set result \<union> set vs"
  by (induction vs arbitrary: result) auto

lemma distinct_firstSeen: "distinct result \<Longrightarrow> distinct (firstSeen result vs)"
  by (induction vs arbitrary: result) auto

lemma firstSeen_distinct: "distinct (result @ vs) \<Longrightarrow> firstSeen result vs = result @ vs"
  by (induction vs arbitrary: result) auto

lemma firstSeen_Nil [simp]: "firstSeen result vs = [] \<longleftrightarrow> result = [] \<and> vs = []"
  by (metis set_firstSeen set_empty Un_empty)

text \<open>What the policy lets through.\<close>

definition good :: "Range \<Rightarrow> bool" where
  "good r \<longleftrightarrow> wf_range r \<and> 0 < r_Step r \<and> r_Start r \<le> r_End r"

lemma parseElement_good: "parseElement s openjdRangePolicy = Inr r \<Longrightarrow> good r"
  by (auto simp: parseElement_def openjdRangePolicy_def good_def wf_range_def isInt_def MinInt_def MaxInt_def
      dest!: parseStep_isInt splitRange_isInt split: if_splits option.splits sum.splits prod.splits)

lemma parseParts_good: "parseParts ps openjdRangePolicy = Inr rs \<Longrightarrow> r \<in> set rs \<Longrightarrow> good r"
  by (induction ps arbitrary: rs) (auto split: if_splits sum.splits dest: parseElement_good)

lemma parseIntRangeElements_good: "parseIntRangeElements e = Inr rs \<Longrightarrow> r \<in> set rs \<Longrightarrow> good r"
  by (auto simp: parseIntRangeElements_def ParseWithPolicy_def split: if_splits sum.splits dest: parseParts_good)

end
