(* ===== verification/RangeProps.thy ===== *)
theory RangeProps
  imports RangeExpr
begin

text \<open>
  The properties of range expressions: expansion, the check that mirrors it, and overlap.
\<close>

section \<open>Expansion\<close>

lemma good_Count: "good r \<Longrightarrow> 1 \<le> Count r"
  using Count_eq [of r] trueCount_pos [of r] by (auto simp: good_def MaxInt_def min_def)

lemma good_Iterate:
  assumes "good r" "Count r \<le> maxRangeValues"
  shows "Iterate r = term_list r" "Count r = int (length (Iterate r))"
proof -
  have "Count r \<noteq> MaxInt" using assms(2) by (simp add: maxRangeValues_def MaxInt_def)
  moreover from this have "Count r = trueCount r"
    using Count_eq [of r] assms(1) by (auto simp: good_def min_def split: if_splits)
  ultimately show "Iterate r = term_list r" "Count r = int (length (Iterate r))"
    using Iterate_eq [of r] assms(1) length_term_list [of r] by (simp_all add: good_def)
qed

lemma sumCounts_Some:
  assumes "sumCounts acc rs = Some n" "\<And>r. r \<in> set rs \<Longrightarrow> good r" "0 \<le> acc" "acc \<le> maxRangeValues"
  shows "n = acc + (\<Sum>r \<leftarrow> rs. int (length (Iterate r))) \<and> n \<le> maxRangeValues \<and> (\<forall>r \<in> set rs. Iterate r = term_list r)"
  using assms
proof (induction rs arbitrary: acc)
  case (Cons r rs)
  have c: "Count r \<le> maxRangeValues" using Cons.prems(1) by (auto simp: Let_def split: if_splits)
  have one: "1 \<le> Count r" using Cons.prems(2) good_Count by simp
  then have i: "i64 (acc + Count r) = acc + Count r"
    using c Cons.prems(3,4) by (intro i64_small) (simp add: maxRangeValues_def)
  then have n: "sumCounts (acc + Count r) rs = Some n" "acc + Count r \<le> maxRangeValues"
    using Cons.prems(1) c by (auto simp: Let_def split: if_splits)
  have "good r" using Cons.prems(2) by simp
  note r = good_Iterate [OF this c]
  have "n = acc + Count r + (\<Sum>r \<leftarrow> rs. int (length (Iterate r))) \<and> n \<le> maxRangeValues \<and> (\<forall>r \<in> set rs. Iterate r = term_list r)"
    using Cons.prems(2,3) one by (intro Cons.IH n) auto
  then show ?case using r by simp
qed simp

lemma int_sum_list: "int (sum_list (map f xs)) = (\<Sum>x \<leftarrow> xs. int (f x))"
  by (induction xs) simp_all

lemma sumRangeCounts_Some:
  assumes "parseIntRangeElements e = Inr rs" "sumRangeCounts rs = Some n"
  shows "n = int (length (concat (map Iterate rs)))" "n \<le> maxRangeValues" "set (concat (map Iterate rs)) = (\<Union>r \<in> set rs. denotes r)"
    "concat (map Iterate rs) = [] \<longleftrightarrow> rs = []"
proof -
  have *: "n = (\<Sum>r \<leftarrow> rs. int (length (Iterate r))) \<and> n \<le> maxRangeValues \<and> (\<forall>r \<in> set rs. Iterate r = term_list r)"
    using sumCounts_Some [of 0 rs n] assms parseIntRangeElements_good
    by (simp add: sumRangeCounts_def maxRangeValues_def)
  show "n = int (length (concat (map Iterate rs)))" "n \<le> maxRangeValues"
    using * by (simp_all add: length_concat comp_def int_sum_list)
  show "set (concat (map Iterate rs)) = (\<Union>r \<in> set rs. denotes r)" using * set_term_list by auto
  have "denotes r \<noteq> {}" for r by (simp add: denotes_def)
  then have "Iterate r \<noteq> []" if "r \<in> set rs" for r using * that set_term_list [of r] by force
  then show "concat (map Iterate rs) = [] \<longleftrightarrow> rs = []" by (cases rs) auto
qed

text \<open>C32. Expanding a range expression yields, each once, exactly the values its elements denote, at least one and at most
  ten million; where no value repeats they come in the order of the elements, and their number is the arithmetic
  count \<open>intRangeExprCount\<close> gives without materializing them.\<close>

theorem range_expression_expanded:
  assumes "parseIntRangeExpr e = Inr vs"
  shows "\<exists>rs. parseIntRangeElements e = Inr rs \<and> set vs = (\<Union>r \<in> set rs. denotes r) \<and> distinct vs \<and>
    vs \<noteq> [] \<and> int (length vs) \<le> maxRangeValues \<and>
    (distinct (concat (map Iterate rs)) \<longrightarrow>
       vs = concat (map Iterate rs) \<and> intRangeExprCount e = Some (int (length vs)))"
proof -
  obtain rs n where p: "parseIntRangeElements e = Inr rs" "sumRangeCounts rs = Some n"
    and vs: "vs = firstSeen [] (concat (map Iterate rs))" "vs \<noteq> []"
    using assms by (auto simp: parseIntRangeExpr_def Let_def split: sum.splits option.splits if_splits)
  note s = sumRangeCounts_Some [OF p]
  have d: "distinct vs" using vs(1) distinct_firstSeen [of "[]"] by simp
  have e: "set vs = set (concat (map Iterate rs))" using vs(1) by simp
  have "length vs \<le> length (concat (map Iterate rs))"
    using distinct_card [OF d] card_length [of "concat (map Iterate rs)"] unfolding e by simp
  then have "int (length vs) \<le> maxRangeValues" using s(1,2) by linarith
  moreover have "vs = concat (map Iterate rs) \<and> intRangeExprCount e = Some (int (length vs))"
    if "distinct (concat (map Iterate rs))"
    using that vs(1) firstSeen_distinct [of "[]"] p s(1) by (simp add: intRangeExprCount_def)
  ultimately show ?thesis using p(1) vs(2) d e s(3) by blast
qed

theorem range_expression_expanded_witness:
  "\<exists>rs. parseIntRangeElements ''1-5:2,4'' = Inr rs \<and> set [1, 3, 5, 4] = (\<Union>r \<in> set rs. denotes r)"
proof -
  have "parseIntRangeExpr ''1-5:2,4'' = Inr [1, 3, 5, 4]" by code_simp
  from range_expression_expanded [OF this] show ?thesis by blast
qed

text \<open>C33. Validating a range expression is the same as expanding it: \<open>validateIntRangeExpr\<close> reports an error exactly when
  \<open>parseIntRangeExpr\<close> does, and the same one, although it never materializes the values.\<close>

theorem validation_mirrors_expansion:
  "validateIntRangeExpr e = (case parseIntRangeExpr e of Inl err \<Rightarrow> Some err | Inr vs \<Rightarrow> None)"
proof (cases "parseIntRangeElements e")
  case (Inr rs)
  show ?thesis
  proof (cases "sumRangeCounts rs")
    case (Some n)
    note s = sumRangeCounts_Some [OF Inr Some]
    have "n = 0 \<longleftrightarrow> concat (map Iterate rs) = []" unfolding s(1) by simp
    then show ?thesis
      by (simp add: validateIntRangeExpr_def parseIntRangeExpr_def Inr Some Let_def del: concat_eq_Nil_conv)
  qed (simp add: validateIntRangeExpr_def parseIntRangeExpr_def Inr)
qed (simp add: validateIntRangeExpr_def parseIntRangeExpr_def)

section \<open>Overlap\<close>

lemma gcdLoop_eq: "0 \<le> a \<Longrightarrow> 0 \<le> b \<Longrightarrow> gcdLoop a b = gcd a b"
proof (induction a b rule: gcdLoop.induct)
  case (1 a b)
  show ?case
  proof (cases "b = 0")
    case False
    then have "gcdLoop a b = gcd b (a mod b)" using 1 by (simp add: gcdLoop.simps [of a b] smod_nonneg)
    then show ?thesis by (simp add: gcd_red_int [symmetric])
  qed (use 1 in \<open>simp add: gcdLoop.simps [of a 0]\<close>)
qed

lemma gcdInt_eq: "0 \<le> a \<Longrightarrow> 0 \<le> b \<Longrightarrow> gcdInt a b = gcd a b"
  unfolding gcdInt_def Let_def by (simp only: gcdLoop_eq gcd_ge_0_int [THEN leD] if_False)

lemma modPos_eq: "0 < m \<Longrightarrow> m \<le> MaxInt \<Longrightarrow> modPos a m = a mod m"
proof -
  assume m: "0 < m" "m \<le> MaxInt"
  have b: "\<bar>a smod m\<bar> < m" using m abs_smod_less [of m a] by simp
  then have "a smod m < 0 \<Longrightarrow> i64 (a smod m + m) = a smod m + m"
    using m by (intro i64_id) (auto simp: isInt_def MinInt_def)
  then have "modPos a m = (if a smod m < 0 then a smod m + m else a smod m)" by (simp add: modPos_def Let_def)
  also have "\<dots> = a mod m"
  proof (cases "0 \<le> a")
    case True
    then show ?thesis using m pos_mod_sign [of m a, THEN leD] by (simp only: smod_nonneg if_False)
  next
    case False
    then have "a smod m = - (- a mod m)" using m by (simp add: signed_modulo_int_def sgn_if)
    moreover have "a mod m = (if - a mod m = 0 then 0 else m - (- a mod m))"
      using zmod_zminus1_eq_if [of "- a" m] by simp
    moreover have "0 \<le> - a mod m" using m(1) by (rule pos_mod_sign)
    ultimately show ?thesis by (auto split: if_splits)
  qed
  finally show ?thesis .
qed

text \<open>The Bezout coefficients stay within the operands, so none of the arithmetic on them wraps.\<close>

lemma extGCD_eq:
  assumes "0 \<le> a" "0 \<le> b" "a \<le> 4611686018427387904" "b \<le> 4611686018427387904" "extGCD a b = (g, x, y)"
  shows "g = gcd a b \<and> a * x + b * y = g \<and> \<bar>x\<bar> \<le> max 1 b \<and> \<bar>y\<bar> \<le> max 1 a"
  using assms
proof (induction a b arbitrary: g x y rule: extGCD.induct)
  case (1 a b)
  show ?case
  proof (cases "b = 0")
    case True
    then show ?thesis using 1 by (simp add: extGCD.simps [of a 0])
  next
    case False
    then have b: "0 < b" using 1 by simp
    obtain g' x1 y1 where r: "extGCD b (a mod b) = (g', x1, y1)" by (metis prod_cases3)
    have m: "0 \<le> a mod b" "a mod b \<le> b" using b by (simp_all add: less_imp_le)
    have IH: "g' = gcd b (a mod b)" "b * x1 + (a mod b) * y1 = g'" "\<bar>x1\<bar> \<le> max 1 (a mod b)" "\<bar>y1\<bar> \<le> b"
      using "1.IH" [OF False, of g' x1 y1] r b m "1.prems" by (simp_all add: smod_nonneg max_def)
    have q: "0 \<le> a div b" "a div b \<le> a" using b "1.prems" zdiv_mono2 [of a 1 b] by (simp_all add: pos_imp_zdiv_nonneg_iff)
    have p: "\<bar>a div b * y1\<bar> \<le> a div b * b" using q IH(4) by (simp add: abs_mult mult_left_mono)
    have le: "a div b * b + a mod b = a" by simp
    have pa: "\<bar>a div b * y1\<bar> \<le> a" using p le m(1) by linarith
    have y: "\<bar>x1 - a div b * y1\<bar> \<le> max 1 a"
    proof (cases "a mod b = 0")
      case True
      then have "y1 = 0" "x1 = 1" using r b by (simp_all add: extGCD.simps [of b 0])
      then show ?thesis by simp
    next
      case False
      then have "\<bar>x1\<bar> \<le> a mod b" using IH(3) m by (simp add: max_def split: if_splits)
      then show ?thesis using p le by linarith
    qed
    have "i64 (a div b) = a div b" using q "1.prems"(3) by (intro i64_small) linarith
    moreover have "i64 (a div b * y1) = a div b * y1" using pa "1.prems"(3) by (intro i64_small) linarith
    moreover have "i64 (x1 - a div b * y1) = x1 - a div b * y1"
      using y "1.prems"(3) by (intro i64_small) linarith
    ultimately have step: "extGCD a b = (g', y1, x1 - a div b * y1)"
      using False b r "1.prems"(1) by (simp add: extGCD.simps [of a b] smod_nonneg sdiv_nonneg)
    have "g = g'" "x = y1" "y = x1 - a div b * y1" using step "1.prems"(5) by simp_all
    moreover have "a * y1 = a div b * b * y1 + a mod b * y1" by (metis le distrib_right)
    then have "a * y1 + b * (x1 - a div b * y1) = g'" using IH(2) by (simp add: algebra_simps)
    ultimately show ?thesis using IH(1,4) y by (simp add: gcd_red_int [symmetric])
  qed
qed

lemma modInverse_eq:
  assumes "0 < m" "m \<le> 4611686018427387904" "0 \<le> a" "a < m" "gcd a m = 1"
  shows "0 \<le> modInverse a m" "modInverse a m < m" "(a * modInverse a m) mod m = 1 mod m"
proof -
  obtain g x y where e: "extGCD a m = (g, x, y)" by (metis prod_cases3)
  have g: "a * x + m * y = 1" using extGCD_eq [of a m g x y] e assms by simp
  have v: "modInverse a m = (if m = 1 then 0 else x mod m)"
    using assms e by (simp add: modInverse_def modPos_eq MaxInt_def)
  show "0 \<le> modInverse a m" "modInverse a m < m" using assms unfolding v by auto
  have "(a * (x mod m)) mod m = (a * x + m * y) mod m" by (simp add: mod_mult_right_eq)
  then show "(a * modInverse a m) mod m = 1 mod m" unfolding v g by simp
qed

text \<open>The arithmetic of the solution, over mathematical integers.\<close>

lemma crt_solution:
  fixes a b sa sb iv :: int
  assumes "0 < a" "0 < b" "g = gcd a b" "g dvd sb - sa" "m = b div g" "(a div g mod m * iv) mod m = 1 mod m"
  shows "b dvd sa + a * (((sb - sa) div g mod m * iv) mod m) - sb"
proof -
  let ?A = "a div g" and ?D = "(sb - sa) div g" and ?t = "((sb - sa) div g mod m * iv) mod m"
  have g: "g dvd a" "g dvd b" "g \<noteq> 0" using assms(1-3) by auto
  have e: "g * ?A = a" "g * m = b" "g * ?D = sb - sa" using g assms(4,5) by auto
  have "(?A * ?t) mod m = (?A * (?D * iv)) mod m" by (simp add: mod_simps)
  also have "\<dots> = (?D * (?A mod m * iv mod m)) mod m" by (simp add: mod_simps ac_simps)
  also have "\<dots> = ?D mod m" unfolding assms(6) by (simp add: mod_simps)
  finally have "m dvd ?A * ?t - ?D" by (simp add: mod_eq_dvd_iff)
  then have "g * m dvd g * (?A * ?t - ?D)" by (rule mult_dvd_mono [OF dvd_refl])
  moreover have "g * (?A * ?t - ?D) = g * ?A * ?t - g * ?D" by (simp only: right_diff_distrib mult.assoc)
  then have "g * (?A * ?t - ?D) = sa + a * ?t - sb" unfolding e by linarith
  ultimately show ?thesis unfolding e by metis
qed

lemma least_in_class:
  fixes L lo hi x0 :: int
  assumes "0 < L"
  shows "lo + (x0 - lo) mod L \<le> hi \<longleftrightarrow> (\<exists>w. lo \<le> w \<and> w \<le> hi \<and> L dvd w - x0)"
proof
  assume "lo + (x0 - lo) mod L \<le> hi"
  moreover have "L dvd lo + (x0 - lo) mod L - x0"
    by (metis add_diff_eq add.commute diff_diff_eq2 mod_eq_dvd_iff mod_mod_trivial minus_diff_eq)
  ultimately show "\<exists>w. lo \<le> w \<and> w \<le> hi \<and> L dvd w - x0" using assms by (intro exI [of _ "lo + (x0 - lo) mod L"]) simp
next
  assume "\<exists>w. lo \<le> w \<and> w \<le> hi \<and> L dvd w - x0"
  then obtain w where w: "lo \<le> w" "w \<le> hi" "L dvd w - x0" by blast
  have "(x0 - lo) mod L = (w - lo) mod L"
    using w(3) by (metis diff_diff_eq2 diff_add_cancel mod_eq_dvd_iff dvd_minus_iff minus_diff_eq add_diff_cancel_right')
  also have "\<dots> \<le> w - lo" using w(1) assms by (simp add: zmod_le_nonneg_dividend)
  finally show "lo + (x0 - lo) mod L \<le> hi" using w(2) by linarith
qed

lemma lcm_parts: "0 < a \<Longrightarrow> 0 < b \<Longrightarrow> a div gcd a b * b dvd z \<longleftrightarrow> a dvd z \<and> b dvd (z :: int)"
proof -
  assume ab: "0 < a" "0 < b"
  have "gcd a b * (a div gcd a b * b) = gcd a b * lcm a b"
    using ab prod_gcd_lcm_int [of a b] by (simp add: mult.assoc [symmetric])
  moreover have "gcd a b \<noteq> 0" using ab by simp
  ultimately have "lcm a b = a div gcd a b * b" by (metis mult_left_cancel)
  then show ?thesis by (metis lcm_least_iff)
qed

lemma denotes_good: "good r \<Longrightarrow> x \<in> denotes r \<longleftrightarrow> r_Start r \<le> x \<and> x \<le> r_End r \<and> r_Step r dvd x - r_Start r"
proof -
  assume g: "good r"
  then have s: "effStep r = r_Step r" "0 < r_Step r" by (auto simp: good_def effStep_def)
  show ?thesis
  proof
    assume "x \<in> denotes r"
    then show "r_Start r \<le> x \<and> x \<le> r_End r \<and> r_Step r dvd x - r_Start r" using g s by (auto simp: denotes_def good_def)
  next
    assume x: "r_Start r \<le> x \<and> x \<le> r_End r \<and> r_Step r dvd x - r_Start r"
    then obtain m where m: "x - r_Start r = r_Step r * m" by (auto simp: dvd_def)
    then have "0 \<le> m" using x s(2) by (metis diff_ge_0_iff_ge zero_le_mult_iff not_less)
    then show "x \<in> denotes r"
      using x m s by (cases "m = 0") (auto simp: denotes_def intro!: exI [of _ m] simp: algebra_simps)
  qed
qed

text \<open>Elements on which none of the intermediate results wraps.\<close>

definition moderate :: "Range \<Rightarrow> bool" where
  "moderate r \<longleftrightarrow> r_Step r \<le> 2147483648 \<and> \<bar>r_Start r\<bar> \<le> 2305843009213693952 \<and> \<bar>r_End r\<bar> \<le> 2305843009213693952"

lemma div_le_self: "0 \<le> a \<Longrightarrow> 0 < b \<Longrightarrow> 0 \<le> a div b \<and> a div b \<le> (a :: int)"
  using zdiv_mono2 [of a 1 b] by (simp add: pos_imp_zdiv_nonneg_iff)

lemma mult_bound: "0 \<le> x \<Longrightarrow> x \<le> 2147483648 \<Longrightarrow> 0 \<le> y \<Longrightarrow> y \<le> 2147483648 \<Longrightarrow>
    0 \<le> x * y \<and> x * y \<le> (4611686018427387904 :: int)"
  using mult_mono [of x 2147483648 y 2147483648] by simp

lemma rangesIntersect_moderate:
  assumes "good r" "good s" "moderate r" "moderate s"
    and g: "g = gcd (r_Step r) (r_Step s)" and D: "D = r_Start s - r_Start r" and m: "m = r_Step s div g"
    and lo: "lo = max (r_Start r) (r_Start s)" and hi: "hi = min (r_End r) (r_End s)" and le: "lo \<le> hi"
    and dvd: "g dvd D"
  obtains iv where "(r_Step r div g mod m * iv) mod m = 1 mod m"
    "rangesIntersect r s \<longleftrightarrow>
       lo + (r_Start r + r_Step r * ((D div g mod m * iv) mod m) - lo) mod (r_Step r div g * r_Step s) \<le> hi"
proof -
  let ?a = "r_Step r" and ?b = "r_Step s"
  define iv where "iv = modInverse (?a div g mod m) m"
  define t where "t = (D div g mod m * iv) mod m"
  have pos: "0 < ?a" "?a \<le> 2147483648" "0 < ?b" "?b \<le> 2147483648" using assms(1-4) by (simp_all add: good_def moderate_def)
  have g0: "0 < g" "g dvd ?a" "g dvd ?b" unfolding g using pos by simp_all
  have A: "0 < ?a div g" "?a div g \<le> 2147483648" and M: "0 < m" "m \<le> 2147483648"
    using pos g0 div_le_self [of ?a g] div_le_self [of ?b g]
    by (simp_all add: m pos_imp_zdiv_pos_iff zdvd_imp_le)
  have cop: "gcd (?a div g mod m) m = 1"
    unfolding m g using pos by (simp add: gcd.commute [of "_ mod _"] gcd_red_int [symmetric] gcd.commute div_gcd_coprime coprime_imp_gcd_eq_1)
  have iv: "0 \<le> iv" "iv < m" "(?a div g mod m * iv) mod m = 1 mod m"
    unfolding iv_def using M A cop by (auto intro!: modInverse_eq)
  have t: "0 \<le> t" "t < m" using M by (simp_all add: t_def)
  have bounds: "\<bar>D\<bar> \<le> 4611686018427387904" "\<bar>lo\<bar> \<le> 2305843009213693952" "r_Start r \<le> lo" "\<bar>r_Start r\<bar> \<le> 2305843009213693952"
    "lo - r_Start r \<le> 4611686018427387904"
    using assms(3,4) unfolding D lo moderate_def by auto
  have L: "0 < ?a div g * ?b" "?a div g * ?b \<le> 4611686018427387904" using A pos mult_bound [of "?a div g" ?b] by simp_all
  have at: "0 \<le> ?a * t" "?a * t \<le> 4611686018427387904" using pos t M mult_bound [of ?a t] by simp_all
  have dm: "0 \<le> D div g mod m" "D div g mod m < m" using M by simp_all
  have e: "i64 D = D" "i64 (?a div g) = ?a div g" "i64 (?a div g * ?b) = ?a div g * ?b" "i64 m = m"
    "i64 (?a * t) = ?a * t" "i64 (r_Start r + ?a * t) = r_Start r + ?a * t"
    "i64 (r_Start r + ?a * t - lo) = r_Start r + ?a * t - lo"
    "i64 (D div g mod m * iv) = D div g mod m * iv"
    using bounds A L M at mult_bound [of "D div g mod m" iv] dm iv by (auto intro!: i64_small)
  obtain k where k: "D = g * k" using dvd by (auto simp: dvd_def)
  then have "\<bar>D div g\<bar> \<le> \<bar>D\<bar>" using g0(1) mult_right_mono [of 1 g "\<bar>k\<bar>"] by (simp add: abs_mult)
  then have eD: "i64 (D div g) = D div g" using bounds by (intro i64_small) linarith
  have ev: "i64 (lo + (r_Start r + ?a * t - lo) mod (?a div g * ?b)) = lo + (r_Start r + ?a * t - lo) mod (?a div g * ?b)"
    using bounds L pos_mod_bound [of "?a div g * ?b" "r_Start r + ?a * t - lo"] pos_mod_sign [of "?a div g * ?b" "r_Start r + ?a * t - lo"]
    by (intro i64_small) linarith
  have "rangesIntersect r s \<longleftrightarrow> lo + (r_Start r + ?a * t - lo) mod (?a div g * ?b) \<le> hi"
    unfolding rangesIntersect_def Let_def lo [symmetric] hi [symmetric] D [symmetric]
    using assms(1,2) le pos g0 dvd M A L
    by (simp add: good_def gcdInt_eq g [symmetric] e eD ev smod_0_iff sdiv_exact m [symmetric] smod_nonneg modPos_eq MaxInt_def
        iv_def [symmetric] t_def [symmetric])
  then show ?thesis using that iv(3) t_def by blast
qed

lemma rangesIntersect_iff:
  assumes "good r" "good s" "moderate r" "moderate s"
  shows "rangesIntersect r s \<longleftrightarrow> denotes r \<inter> denotes s \<noteq> {}"
proof -
  let ?a = "r_Step r" and ?b = "r_Step s" and ?D = "r_Start s - r_Start r"
  let ?lo = "max (r_Start r) (r_Start s)" and ?hi = "min (r_End r) (r_End s)" and ?g = "gcd (r_Step r) (r_Step s)"
  have pos: "0 < ?a" "0 < ?b" using assms(1,2) by (simp_all add: good_def)
  have den: "denotes r \<inter> denotes s \<noteq> {} \<longleftrightarrow>
      (\<exists>w. ?lo \<le> w \<and> w \<le> ?hi \<and> ?a dvd w - r_Start r \<and> ?b dvd w - r_Start s)"
    using denotes_good [OF assms(1)] denotes_good [OF assms(2)] by auto
  have dist: "i64 ?D = ?D" using assms(3,4) by (intro i64_small) (auto simp: moderate_def)
  consider "?hi < ?lo" | "?lo \<le> ?hi" "\<not> ?g dvd ?D" | "?lo \<le> ?hi" "?g dvd ?D" by linarith
  then show ?thesis
  proof cases
    case 1
    then show ?thesis using den by (auto simp: rangesIntersect_def Let_def)
  next
    case 2
    have "?g dvd ?D" if "?a dvd w - r_Start r" "?b dvd w - r_Start s" for w
    proof -
      have "?g dvd w - r_Start r" "?g dvd w - r_Start s" using that by (meson dvd_trans gcd_dvd1 gcd_dvd2)+
      from dvd_diff [OF this] show ?thesis by simp
    qed
    then show ?thesis using 2 pos den dist assms(1,2) by (auto simp: rangesIntersect_def Let_def gcdInt_eq smod_0_iff)
  next
    case 3
    obtain iv where iv: "(?a div ?g mod (?b div ?g) * iv) mod (?b div ?g) = 1 mod (?b div ?g)" and
      eq: "rangesIntersect r s \<longleftrightarrow> ?lo + (r_Start r + ?a * ((?D div ?g mod (?b div ?g) * iv) mod (?b div ?g)) - ?lo)
        mod (?a div ?g * ?b) \<le> ?hi"
      using rangesIntersect_moderate [OF assms refl refl refl refl refl 3] by blast
    define x0 where "x0 = r_Start r + ?a * ((?D div ?g mod (?b div ?g) * iv) mod (?b div ?g))"
    have x0: "?a dvd x0 - r_Start r" "?b dvd x0 - r_Start s"
      unfolding x0_def using crt_solution [OF pos refl 3(2) refl iv] by simp_all
    have L: "0 < ?a div ?g * ?b" using pos by (simp add: pos_imp_zdiv_pos_iff zdvd_imp_le)
    have "rangesIntersect r s \<longleftrightarrow> (\<exists>w. ?lo \<le> w \<and> w \<le> ?hi \<and> ?a dvd w - x0 \<and> ?b dvd w - x0)"
      unfolding eq x0_def [symmetric] least_in_class [OF L] lcm_parts [OF pos] ..
    moreover have "?a dvd w - x0 \<longleftrightarrow> ?a dvd w - r_Start r" "?b dvd w - x0 \<longleftrightarrow> ?b dvd w - r_Start s" for w
      using x0 dvd_add_left_iff [of ?a "x0 - r_Start r" "w - x0"] dvd_add_left_iff [of ?b "x0 - r_Start s" "w - x0"] by simp_all
    ultimately show ?thesis unfolding den by simp
  qed
qed

lemma pairs_Cons:
  "(\<exists>i j. i < j \<and> j < length (r # rs) \<and> P ((r # rs) ! i) ((r # rs) ! j)) \<longleftrightarrow>
    (\<exists>j < length rs. P r (rs ! j)) \<or> (\<exists>i j. i < j \<and> j < length rs \<and> P (rs ! i) (rs ! j))" (is "?l \<longleftrightarrow> ?r")
proof
  assume ?l
  then obtain i j where ij: "i < j" "j < length (r # rs)" "P ((r # rs) ! i) ((r # rs) ! j)" by blast
  obtain k where k: "j = Suc k" using ij(1) by (cases j) auto
  show ?r
  proof (cases i)
    case 0
    then show ?thesis using ij k by auto
  next
    case (Suc h)
    then show ?thesis using ij k by auto
  qed
next
  assume ?r
  then show ?l by (metis Suc_less_eq length_Cons nth_Cons_0 nth_Cons_Suc zero_less_Suc)
qed

lemma anyIntersect_iff:
  assumes "\<And>r. r \<in> set rs \<Longrightarrow> good r \<and> moderate r"
  shows "anyIntersect rs \<longleftrightarrow> (\<exists>i j. i < j \<and> j < length rs \<and> denotes (rs ! i) \<inter> denotes (rs ! j) \<noteq> {})"
  using assms
proof (induction rs)
  case (Cons r rs)
  have "rangesIntersect r s \<longleftrightarrow> denotes r \<inter> denotes s \<noteq> {}" if "s \<in> set rs" for s
    using Cons.prems [of r] Cons.prems [of s] that by (intro rangesIntersect_iff) simp_all
  then have "(\<exists>s \<in> set rs. rangesIntersect r s) \<longleftrightarrow> (\<exists>j < length rs. denotes r \<inter> denotes (rs ! j) \<noteq> {})"
    by (metis in_set_conv_nth)
  moreover note pairs_Cons [of r rs "\<lambda>r s. denotes r \<inter> denotes s \<noteq> {}"]
  ultimately show ?case using Cons.IH Cons.prems by simp
qed simp

text \<open>C34. Overlap is decided exactly, without materializing a value: for an expression whose steps are at most 2 to the 31 and
  whose bounds are at most 2 to the 61 in absolute value, \<open>intRangeHasOverlap\<close> reports an overlap exactly when two different elements
  denote a common value.  The solution by the Chinese Remainder Theorem is right and none of its machine arithmetic wraps.\<close>

theorem overlap_decided:
  assumes "parseIntRangeElements e = Inr rs" "\<not> Contains e ''{{''" "\<forall>r \<in> set rs. moderate r"
  shows "intRangeHasOverlap e = Inr (\<exists>i j. i < j \<and> j < length rs \<and> denotes (rs ! i) \<inter> denotes (rs ! j) \<noteq> {})"
  using anyIntersect_iff [of rs] parseIntRangeElements_good [OF assms(1)] assms by (simp add: intRangeHasOverlap_def)

theorem overlap_decided_witness:
  "let rs = [\<lparr> r_Start = 1, r_End = 10, r_Step = 2 \<rparr>, \<lparr> r_Start = 2, r_End = 10, r_Step = 2 \<rparr>]
   in \<not> (\<exists>i j. i < j \<and> j < length rs \<and> denotes (rs ! i) \<inter> denotes (rs ! j) \<noteq> {})"
proof -
  have "parseIntRangeElements ''1-10:2,2-10:2'' =
      Inr [\<lparr> r_Start = 1, r_End = 10, r_Step = 2 \<rparr>, \<lparr> r_Start = 2, r_End = 10, r_Step = 2 \<rparr>]"
    and "\<not> Contains ''1-10:2,2-10:2'' ''{{''" by code_simp+
  note overlap_decided [OF this]
  moreover have "intRangeHasOverlap ''1-10:2,2-10:2'' = Inr False" by code_simp
  ultimately show ?thesis by (simp add: moderate_def Let_def)
qed

text \<open>The bound is needed: with larger steps the machine arithmetic wraps and the answer is wrong: the two elements below denote only the values
  0 and 1, which expansion yields, and yet they are reported to overlap, because the least common multiple of the steps does
  not fit an \<^verbatim>\<open>int\<close>.\<close>

lemma overlap_wrong_on_overflow:
  "parseIntRangeExpr ''0-10:3000000000,1-10:4000000003'' = Inr [0, 1] \<and>
   intRangeHasOverlap ''0-10:3000000000,1-10:4000000003'' = Inr True"
  by code_simp

end
