(* ===== verification/GoFormat.thy ===== *)
theory GoFormat
  imports GoInts
begin

text \<open>
  \<^verbatim>\<open>strconv.FormatFloat(f, 'g', -1, 64)\<close>: the fewest decimal digits that read back as the same \<^verbatim>\<open>float64\<close>, the
  closest such decimal when there are two, with an exponent when it is less than -4 or at least 6.  The sign is an
  argument, because the rational number of a finite value does not tell negative zero from zero.
\<close>

definition tenPow :: "int \<Rightarrow> rat" where
  "tenPow e = (if 0 \<le> e then 10 ^ nat e else 1 / 10 ^ nat (- e))"

text \<open>The position of the decimal point: the number of digits before it, or minus the zeros after it.\<close>

definition decPoint :: "rat \<Rightarrow> int" where
  "decPoint a =
     (if 1 \<le> a then int (length (natDigits (nat \<lfloor>a\<rfloor>)))
      else let k = int (length (natDigits (nat (\<lceil>1 / a\<rceil> - 1)))) in if tenPow (1 - k) \<le> a then 2 - k else 1 - k)"

text \<open>The decimals of \<open>n\<close> digits next to \<open>a\<close>, the closer one first.\<close>

definition neighbours :: "rat \<Rightarrow> int \<Rightarrow> int \<Rightarrow> int list" where
  "neighbours a dp n =
     (let q = a * tenPow (n - dp); lo = \<lfloor>q\<rfloor>; near = roundHalfEven q
      in if near = lo then [lo, lo + 1] else [lo + 1, lo])"

fun shortestFrom :: "rat \<Rightarrow> int \<Rightarrow> int \<Rightarrow> nat \<Rightarrow> int \<times> int" where
  "shortestFrom a dp n 0 = (roundHalfEven (a * tenPow (n - dp)), n)"
| "shortestFrom a dp n (Suc k) =
     (case find (\<lambda>d. roundFloat (of_int d * tenPow (dp - n)) = Fin a) (neighbours a dp n) of
        Some d \<Rightarrow> (d, n)
      | None \<Rightarrow> shortestFrom a dp (n + 1) k)"

text \<open>The digits without trailing zeros, and the position of the point.\<close>

definition shortestDigits :: "rat \<Rightarrow> string \<times> int" where
  "shortestDigits a =
     (if a = 0 then ([], 0)
      else
        let dp = decPoint a; (d, n) = shortestFrom a dp 1 16; ds = natDigits (nat d)
        in (rev (dropWhile (\<lambda>c. c = CHR ''0'') (rev ds)), dp + int (length ds) - n))"

definition fmtE :: "string \<Rightarrow> int \<Rightarrow> string" where
  "fmtE ds e =
     (let es = natDigits (nat \<bar>e\<bar>)
      in take 1 ds @ (if 1 < length ds then ''.'' @ drop 1 ds else []) @ ''e'' @ (if e < 0 then ''-'' else ''+'') @
         (if length es < 2 then ''0'' else []) @ es)"

definition fmtF :: "string \<Rightarrow> int \<Rightarrow> string" where
  "fmtF ds dp =
     (let whole = (if 0 < dp then take (nat dp) ds @ replicate (nat dp - length ds) CHR ''0'' else ''0'');
          frac = (if 0 < dp then drop (nat dp) ds else if ds = [] then [] else replicate (nat (- dp)) CHR ''0'' @ ds)
      in whole @ (if frac = [] then [] else ''.'' @ frac))"

fun FormatFloat :: "bool \<Rightarrow> float64 \<Rightarrow> string" where
  "FormatFloat neg NaN = ''NaN''"
| "FormatFloat neg PInf = ''+Inf''"
| "FormatFloat neg NInf = ''-Inf''"
| "FormatFloat neg (Fin a) =
     (let (ds, dp) = shortestDigits \<bar>a\<bar>; e = dp - 1
      in (if neg then ''-'' else []) @ (if e < -4 \<or> 6 \<le> e then fmtE ds e else fmtF ds dp))"

end
