(* ===== verification/Expand.thy ===== *)
theory Expand
  imports RangeExpr GoFormat
begin

text \<open>
  The expansion of a step's parameter space into tasks (\<^verbatim>\<open>openjd/expand.go\<close>): the values of one parameter,
  chunks of integers, combination expressions, and the caps on the number of tasks.  The lengths of slices are natural
  numbers; the products of them that decide a cap are machine integers.
\<close>

type_synonym TaskParams = "string table"

record TaskChunks =
  tc_DefaultTaskCount :: int
  tc_TargetRuntimeSeconds :: "int option"
  tc_DefaultTaskCountExpr :: "string option"
  tc_TargetRuntimeSecondsExpr :: "string option"
  tc_RangeConstraint :: string

record TaskParamDefinition =
  tp_Name :: string
  tp_Type :: string
  tp_RangeExpr :: "string option"
  tp_RangeList :: "string list"
  tp_Chunks :: "TaskChunks option"

record StepParameterSpace =
  ps_TaskParameterDefinitions :: "TaskParamDefinition list"
  ps_Combination :: "string option"

definition TaskParamTypeInt :: string where "TaskParamTypeInt = ''INT''"
definition TaskParamTypeFloat :: string where "TaskParamTypeFloat = ''FLOAT''"
definition TaskParamTypeString :: string where "TaskParamTypeString = ''STRING''"
definition TaskParamTypePath :: string where "TaskParamTypePath = ''PATH''"
definition TaskParamTypeChunkInt :: string where "TaskParamTypeChunkInt = ''CHUNK[INT]''"

datatype comb_error =
    UnexpectedToken string nat
  | UnexpectedEnd
  | ExpectedName string
  | NestedTooDeeply
  | UnclosedParenthesis
  | ExpectedExpression string
  | ExpectedCommaOrParen string
  | GroupTooSmall
  | UndeclaredParameter string
  | GroupLengthMismatch nat nat nat
  | FuelExhausted

datatype expand_error =
    RangeError expr_error
  | RangeListEmpty
  | InvalidFloat string
  | InvalidIntegerItem string
  | InvalidIntegerInRange string
  | RangeProducesNothing
  | ChunkCountUnresolved string
  | UnknownType string
  | BadParameter string expand_error
  | BadCombination comb_error
  | TooManyTasks
  | JobTooManyTasks int

section \<open>Chunks\<close>

definition formatContiguousChunk :: "int list \<Rightarrow> string" where
  "formatContiguousChunk vals = Itoa (hd vals) @ ''-'' @ Itoa (last vals)"

text \<open>The run being read, its last value and the rest.\<close>

fun runsFrom :: "int list \<Rightarrow> int \<Rightarrow> int list \<Rightarrow> int list list" where
  "runsFrom seg prev [] = [seg]"
| "runsFrom seg prev (v # vals) =
     (if v \<noteq> i64 (prev + 1) then seg # runsFrom [v] v vals else runsFrom (seg @ [v]) v vals)"

definition consecutiveRuns :: "int list \<Rightarrow> int list list" where
  "consecutiveRuns vals = (case vals of [] \<Rightarrow> [] | v # vs \<Rightarrow> runsFrom [v] v vs)"

text \<open>How far the run with a given step goes on after \<open>prev\<close>.\<close>

fun runLength :: "int \<Rightarrow> int \<Rightarrow> int list \<Rightarrow> nat" where
  "runLength step prev [] = 0"
| "runLength step prev (v # vals) = (if i64 (v - prev) = step then Suc (runLength step v vals) else 0)"

function chunkParts :: "int list \<Rightarrow> string list" where
  "chunkParts [] = []"
| "chunkParts [v] = [Itoa v]"
| "chunkParts (v # w # vals) =
     (let step = i64 (w - v)
      in if step \<le> 0 then Itoa v # chunkParts (w # vals)
         else
           let more = runLength step w vals; stop = (w # vals) ! more
           in if more = 0 then Itoa v # Itoa w # chunkParts vals
              else if step = 1 then (Itoa v @ ''-'' @ Itoa stop) # chunkParts (drop more vals)
              else (Itoa v @ ''-'' @ Itoa stop @ '':'' @ Itoa step) # chunkParts (drop more vals))"
  by pat_completeness auto
termination by (relation "measure length") auto

definition formatNoncontiguousChunk :: "int list \<Rightarrow> string" where
  "formatNoncontiguousChunk vals = Join (chunkParts vals) '',''"

text \<open>The loop over the \<open>k\<close> chunks of a run of \<open>n\<close> values; \<open>todo\<close> chunks are left.\<close>

fun chunkLoop :: "'a list \<Rightarrow> nat \<Rightarrow> nat \<Rightarrow> nat \<Rightarrow> nat \<Rightarrow> nat \<Rightarrow> 'a list list" where
  "chunkLoop seg n k i start 0 = []"
| "chunkLoop seg n k i start (Suc todo) =
     (let stop = ((i + 1) * n + k - 1) div k
      in take (stop - start) (drop start seg) # chunkLoop seg n k (i + 1) stop todo)"

definition chunkRun :: "nat \<Rightarrow> 'a list \<Rightarrow> 'a list list" where
  "chunkRun chunkSize seg =
     (let n = length seg; k = (n - 1) div chunkSize + 1 in chunkLoop seg n k 0 0 k)"

definition chunkValues :: "int list \<Rightarrow> int \<Rightarrow> bool \<Rightarrow> string list" where
  "chunkValues vals chunkSize contiguous =
     (let runs = (if contiguous then consecutiveRuns vals else [vals]);
          format = (if contiguous then formatContiguousChunk else formatNoncontiguousChunk)
      in concat (map (\<lambda>seg. map format (chunkRun (nat chunkSize) seg)) runs))"

fun parseItems :: "string list \<Rightarrow> expand_error + int list" where
  "parseItems [] = Inr []"
| "parseItems (s # items) =
     (case Atoi (TrimSpace s) of
        None \<Rightarrow> Inl (InvalidIntegerInRange s)
      | Some n \<Rightarrow> (case parseItems items of Inl e \<Rightarrow> Inl e | Inr ns \<Rightarrow> Inr (n # ns)))"

definition expandChunkInt :: "TaskParamDefinition \<Rightarrow> expand_error + string list" where
  "expandChunkInt tp =
     (case Option.bind (tp_Chunks tp) tc_DefaultTaskCountExpr of
        Some e \<Rightarrow> Inl (ChunkCountUnresolved e)
      | None \<Rightarrow>
          (case (case tp_RangeExpr tp of
                   Some expr \<Rightarrow> map_sum RangeError id (parseIntRangeExpr expr)
                 | None \<Rightarrow> parseItems (tp_RangeList tp)) of
             Inl e \<Rightarrow> Inl e
           | Inr vals \<Rightarrow>
               if vals = [] then Inl RangeProducesNothing
               else
                 let chunkSize = (case tp_Chunks tp of
                                    Some c \<Rightarrow> if 0 < tc_DefaultTaskCount c then tc_DefaultTaskCount c else 1
                                  | None \<Rightarrow> 1);
                     contiguous = (case tp_Chunks tp of
                                     Some c \<Rightarrow> tc_RangeConstraint c \<noteq> ''NONCONTIGUOUS''
                                   | None \<Rightarrow> True)
                 in Inr (chunkValues vals chunkSize contiguous)))"

section \<open>One parameter\<close>

fun parseIntList :: "string list \<Rightarrow> expand_error + string list" where
  "parseIntList [] = Inr []"
| "parseIntList (s # items) =
     (case Atoi (TrimSpace s) of
        None \<Rightarrow> Inl (InvalidIntegerItem s)
      | Some n \<Rightarrow> (case parseIntList items of Inl e \<Rightarrow> Inl e | Inr out \<Rightarrow> Inr (Itoa n # out)))"

definition validateIntList :: "string list \<Rightarrow> expand_error + string list" where
  "validateIntList items = (if items = [] then Inl RangeListEmpty else parseIntList items)"

fun parseFloatList :: "string list \<Rightarrow> expand_error + string list" where
  "parseFloatList [] = Inr []"
| "parseFloatList (s # items) =
     (let t = TrimSpace s
      in case ParseFloat t of
           None \<Rightarrow> Inl (InvalidFloat s)
         | Some f \<Rightarrow>
             (case parseFloatList items of
                Inl e \<Rightarrow> Inl e
              | Inr out \<Rightarrow> Inr (FormatFloat (fst (readSign t)) f # out)))"

definition validateFloatList :: "string list \<Rightarrow> expand_error + string list" where
  "validateFloatList items = (if items = [] then Inl RangeListEmpty else parseFloatList items)"

definition expandTaskParam :: "TaskParamDefinition \<Rightarrow> expand_error + string list" where
  "expandTaskParam tp =
     (if tp_Type tp = TaskParamTypeInt then
        (case tp_RangeExpr tp of
           Some expr \<Rightarrow> map_sum RangeError (map Itoa) (parseIntRangeExpr expr)
         | None \<Rightarrow> validateIntList (tp_RangeList tp))
      else if tp_Type tp = TaskParamTypeChunkInt then expandChunkInt tp
      else if tp_Type tp = TaskParamTypeFloat then validateFloatList (tp_RangeList tp)
      else if tp_Type tp = TaskParamTypeString \<or> tp_Type tp = TaskParamTypePath then
        (if tp_RangeList tp = [] then Inl RangeListEmpty else Inr (tp_RangeList tp))
      else Inl (UnknownType (tp_Type tp)))"

section \<open>Combination expressions\<close>

datatype combNode = combIdent string | combProduct "combNode list" | combAssoc "combNode list"

definition isIdentChar :: "char \<Rightarrow> bool" where
  "isIdentChar c \<longleftrightarrow>
     (let n = (of_char c :: nat)
      in 65 \<le> n \<and> n \<le> 90 \<or> 97 \<le> n \<and> n \<le> 122 \<or> 48 \<le> n \<and> n \<le> 57 \<or> n = 95)"

text \<open>\<^verbatim>\<open>identifierRE\<close>: a letter or underscore, then identifier characters.\<close>

definition isIdentifier :: "string \<Rightarrow> bool" where
  "isIdentifier s \<longleftrightarrow> s \<noteq> [] \<and> \<not> isDigit (hd s) \<and> list_all isIdentChar s"

text \<open>Go's conversion of a byte to a string: the UTF-8 encoding of the code point with that number.\<close>

definition stringOfByte :: "char \<Rightarrow> string" where
  "stringOfByte c =
     (let n = (of_char c :: nat)
      in if n < 128 then [c] else [char_of (192 + n div 64), char_of (128 + n mod 64)])"

function tokenizeComb :: "string \<Rightarrow> string list" where
  "tokenizeComb [] = []"
| "tokenizeComb (c # expr) =
     (if c \<in> set [CHR '' '', CHR 0x09] then tokenizeComb expr
      else if c \<in> set ''*(),'' then [c] # tokenizeComb expr
      else if isIdentChar c
      then (c # takeWhile isIdentChar expr) # tokenizeComb (dropWhile isIdentChar expr)
      else stringOfByte c # tokenizeComb expr)"
  by pat_completeness auto
termination by (relation "measure length") (auto simp: length_dropWhile_le le_imp_less_Suc)

text \<open>The recursive-descent parser on the tokens that are left.  Each call takes one unit of fuel from its caller.\<close>

function parseExpr :: "nat \<Rightarrow> nat \<Rightarrow> string list \<Rightarrow> comb_error + (combNode \<times> string list)"
  and parseCombElement :: "nat \<Rightarrow> nat \<Rightarrow> string list \<Rightarrow> comb_error + (combNode \<times> string list)"
  and parseStars :: "nat \<Rightarrow> nat \<Rightarrow> combNode list \<Rightarrow> string list \<Rightarrow> comb_error + (combNode \<times> string list)"
  and parseGroup :: "nat \<Rightarrow> nat \<Rightarrow> combNode list \<Rightarrow> string list \<Rightarrow> comb_error + (combNode list \<times> string list)" where
  "parseExpr fuel depth ts =
     (case fuel of
        0 \<Rightarrow> Inl FuelExhausted
      | Suc n \<Rightarrow>
          (case parseCombElement n depth ts of
             Inl e \<Rightarrow> Inl e
           | Inr (left, rest) \<Rightarrow>
               if rest = [] \<or> hd rest \<noteq> ''*'' then Inr (left, rest) else parseStars n depth [left] rest))"
| "parseCombElement fuel depth ts =
     (case fuel of
        0 \<Rightarrow> Inl FuelExhausted
      | Suc n \<Rightarrow>
          if ts = [] then Inl UnexpectedEnd
          else if hd ts = ''('' then
            (if 64 < depth + 1 then Inl NestedTooDeeply
             else
               (case parseGroup n (depth + 1) [] (tl ts) of
                  Inl e \<Rightarrow> Inl e
                | Inr (children, rest) \<Rightarrow>
                    if length children < 2 then Inl GroupTooSmall else Inr (combAssoc children, rest)))
          else if \<not> isIdentifier (hd ts) then Inl (ExpectedName (hd ts))
          else Inr (combIdent (hd ts), tl ts))"
| "parseStars fuel depth children ts =
     (case fuel of
        0 \<Rightarrow> Inl FuelExhausted
      | Suc n \<Rightarrow>
          if ts = [] \<or> hd ts \<noteq> ''*'' then Inr (combProduct children, ts)
          else
            (case parseCombElement n depth (tl ts) of
               Inl e \<Rightarrow> Inl e
             | Inr (right, rest) \<Rightarrow> parseStars n depth (children @ [right]) rest))"
| "parseGroup fuel depth children ts =
     (case fuel of
        0 \<Rightarrow> Inl FuelExhausted
      | Suc n \<Rightarrow>
          if ts = [] then Inl UnclosedParenthesis
          else if hd ts = '')'' \<or> hd ts = '','' then Inl (ExpectedExpression (hd ts))
          else
            (case parseExpr n depth ts of
               Inl e \<Rightarrow> Inl e
             | Inr (child, rest) \<Rightarrow>
                 if rest = [] then Inl UnclosedParenthesis
                 else if hd rest = '')'' then Inr (children @ [child], tl rest)
                 else if hd rest \<noteq> '','' then Inl (ExpectedCommaOrParen (hd rest))
                 else parseGroup n depth (children @ [child]) (tl rest)))"
  by pat_completeness auto
termination
  by (relation "measure (\<lambda>x. case x of
      Inl (Inl (n, _)) \<Rightarrow> n | Inl (Inr (n, _)) \<Rightarrow> n | Inr (Inl (n, _)) \<Rightarrow> n | Inr (Inr (n, _)) \<Rightarrow> n)") simp_all

declare parseExpr.simps [simp del] parseCombElement.simps [simp del] parseStars.simps [simp del] parseGroup.simps [simp del]

definition parseCombinationExpr :: "string \<Rightarrow> comb_error + combNode" where
  "parseCombinationExpr expr =
     (let tokens = tokenizeComb expr
      in case parseExpr (3 * length tokens + 2) 0 tokens of
           Inl e \<Rightarrow> Inl e
         | Inr (node, []) \<Rightarrow> Inr node
         | Inr (node, t # rest) \<Rightarrow> Inl (UnexpectedToken t (length tokens - length (t # rest))))"

fun collectIdents :: "combNode \<Rightarrow> string list" where
  "collectIdents (combIdent name) = [name]"
| "collectIdents (combProduct children) = concat (map collectIdents children)"
| "collectIdents (combAssoc children) = concat (map collectIdents children)"

definition combinationIdentifiers :: "string \<Rightarrow> comb_error + (string list \<times> combNode)" where
  "combinationIdentifiers expr =
     (case parseCombinationExpr expr of Inl e \<Rightarrow> Inl e | Inr tree \<Rightarrow> Inr (collectIdents tree, tree))"

section \<open>Counting\<close>

definition maxTasksPerStep :: int where "maxTasksPerStep = 1000000"
definition maxTasksPerJob :: int where "maxTasksPerJob = maxTasksPerStep"

text \<open>\<open>None\<close> is \<^verbatim>\<open>ok = false\<close>.\<close>

definition mulSaturate :: "int \<Rightarrow> int \<Rightarrow> int option" where
  "mulSaturate a b =
     (if a = 0 \<or> b = 0 then Some 0
      else let product = i64 (a * b) in if i64 (product sdiv b) \<noteq> a then None else Some product)"

fun countCombNode :: "combNode \<Rightarrow> string list table \<Rightarrow> int option"
  and countProduct :: "int \<Rightarrow> combNode list \<Rightarrow> string list table \<Rightarrow> int option" where
  "countCombNode (combIdent name) values = Some (int (length (tgetz [] values name)))"
| "countCombNode (combProduct children) values = countProduct 1 children values"
| "countCombNode (combAssoc []) values = Some 0"
| "countCombNode (combAssoc (child # children)) values = countCombNode child values"
| "countProduct tot [] values = Some tot"
| "countProduct tot (child # children) values =
     (case countCombNode child values of
        None \<Rightarrow> None
      | Some c \<Rightarrow>
          (case mulSaturate tot c of
             None \<Rightarrow> None
           | Some tot' \<Rightarrow> if maxTasksPerStep < tot' then Some tot' else countProduct tot' children values))"

section \<open>Evaluation\<close>

definition copyRow :: "TaskParams \<Rightarrow> TaskParams \<Rightarrow> TaskParams" where
  "copyRow dst src = fold (\<lambda>(k, v) m. tput k v m) src dst"

definition evalIdent :: "string \<Rightarrow> string list table \<Rightarrow> comb_error + TaskParams list" where
  "evalIdent name values =
     (case tget values name of
        None \<Rightarrow> Inl (UndeclaredParameter name)
      | Some vals \<Rightarrow> Inr (map (\<lambda>v. [(name, v)]) vals))"

definition cartesianProduct :: "TaskParams list \<Rightarrow> TaskParams list \<Rightarrow> TaskParams list" where
  "cartesianProduct a b = concat (map (\<lambda>ra. map (\<lambda>rb. copyRow (copyRow [] ra) rb) b) a)"

text \<open>The first group whose length differs from that of group 0.\<close>

fun mismatch :: "nat \<Rightarrow> nat \<Rightarrow> 'a list list \<Rightarrow> comb_error option" where
  "mismatch n i [] = None"
| "mismatch n i (g # groups) =
     (if length g \<noteq> n then Some (GroupLengthMismatch n i (length g)) else mismatch n (i + 1) groups)"

definition zipRows :: "TaskParams list list \<Rightarrow> comb_error + TaskParams list" where
  "zipRows groups =
     (case groups of
        [] \<Rightarrow> Inr []
      | g # gs \<Rightarrow>
          (case mismatch (length g) 1 gs of
             Some e \<Rightarrow> Inl e
           | None \<Rightarrow> Inr (map (\<lambda>i. fold (\<lambda>g merged. copyRow merged (g ! i)) groups []) [0..<length g])))"

fun evalCombNode :: "combNode \<Rightarrow> string list table \<Rightarrow> comb_error + TaskParams list"
  and evalProduct :: "TaskParams list \<Rightarrow> combNode list \<Rightarrow> string list table \<Rightarrow> comb_error + TaskParams list"
  and evalGroup :: "combNode list \<Rightarrow> string list table \<Rightarrow> comb_error + TaskParams list list" where
  "evalCombNode (combIdent name) values = evalIdent name values"
| "evalCombNode (combProduct children) values = evalProduct [[]] children values"
| "evalCombNode (combAssoc children) values =
     (case evalGroup children values of Inl e \<Rightarrow> Inl e | Inr groups \<Rightarrow> zipRows groups)"
| "evalProduct result [] values = Inr result"
| "evalProduct result (child # children) values =
     (case evalCombNode child values of
        Inl e \<Rightarrow> Inl e
      | Inr rows \<Rightarrow> evalProduct (cartesianProduct result rows) children values)"
| "evalGroup [] values = Inr []"
| "evalGroup (child # children) values =
     (case evalCombNode child values of
        Inl e \<Rightarrow> Inl e
      | Inr rows \<Rightarrow> (case evalGroup children values of Inl e \<Rightarrow> Inl e | Inr groups \<Rightarrow> Inr (rows # groups)))"

section \<open>The parameter space\<close>

text \<open>\<^verbatim>\<open>charge\<close>: the budget is nil, or the running total; the result is the new budget and the error.\<close>

definition charge :: "int option \<Rightarrow> int \<Rightarrow> int option \<times> expand_error option" where
  "charge b count =
     (case b of
        None \<Rightarrow> (None, None)
      | Some tot \<Rightarrow>
          let tot' = i64 (tot + count)
          in (Some tot', if maxTasksPerJob < tot' then Some (JobTooManyTasks tot') else None))"

fun paramValues :: "string list table \<Rightarrow> TaskParamDefinition list \<Rightarrow> expand_error + string list table" where
  "paramValues values [] = Inr values"
| "paramValues values (tp # tps) =
     (case expandTaskParam tp of
        Inl e \<Rightarrow> Inl (BadParameter (tp_Name tp) e)
      | Inr vals \<Rightarrow> paramValues (tput (tp_Name tp) vals values) tps)"

definition chargeOne :: "int option \<Rightarrow> int option \<times> (expand_error + TaskParams list)" where
  "chargeOne jobBudget =
     (let (b, e) = charge jobBudget 1 in (b, case e of Some e \<Rightarrow> Inl e | None \<Rightarrow> Inr [[]]))"

definition expandParameterSpace ::
  "StepParameterSpace option \<Rightarrow> int option \<Rightarrow> int option \<times> (expand_error + TaskParams list)" where
  "expandParameterSpace ps jobBudget =
     (case ps of
        None \<Rightarrow> chargeOne jobBudget
      | Some ps \<Rightarrow>
          (case paramValues [] (ps_TaskParameterDefinitions ps) of
             Inl e \<Rightarrow> (jobBudget, Inl e)
           | Inr values \<Rightarrow>
               let expr = (case ps_Combination ps of
                             Some c \<Rightarrow> c
                           | None \<Rightarrow> Join (map tp_Name (ps_TaskParameterDefinitions ps)) ''*'')
               in if expr = [] then chargeOne jobBudget
                  else
                    (case parseCombinationExpr expr of
                       Inl e \<Rightarrow> (jobBudget, Inl (BadCombination e))
                     | Inr tree \<Rightarrow>
                         (case countCombNode tree values of
                            None \<Rightarrow> (jobBudget, Inl TooManyTasks)
                          | Some count \<Rightarrow>
                              if maxTasksPerStep < count then (jobBudget, Inl TooManyTasks)
                              else
                                let (b, e) = charge jobBudget count
                                in (b, case e of
                                         Some e \<Rightarrow> Inl e
                                       | None \<Rightarrow> map_sum BadCombination id (evalCombNode tree values))))))"

definition ExpandParameterSpace :: "StepParameterSpace option \<Rightarrow> expand_error + TaskParams list" where
  "ExpandParameterSpace ps = snd (expandParameterSpace ps None)"

text \<open>\<open>DeriveChunkBounds\<close>: the bounds of a chunk value, added to each row that has it.\<close>

definition chunkBounds :: "string \<Rightarrow> TaskParams \<Rightarrow> TaskParams" where
  "chunkBounds name row =
     (case tget row name of
        None \<Rightarrow> row
      | Some v \<Rightarrow>
          (case parseIntRangeExpr v of
             Inl e \<Rightarrow> row
           | Inr ints \<Rightarrow>
               if ints = [] then row
               else tput (name @ ''.End'') (Itoa (fold max (tl ints) (hd ints)))
                      (tput (name @ ''.Start'') (Itoa (fold min (tl ints) (hd ints))) row)))"

definition DeriveChunkBounds :: "TaskParams list \<Rightarrow> StepParameterSpace option \<Rightarrow> TaskParams list" where
  "DeriveChunkBounds rows ps =
     (case ps of
        None \<Rightarrow> rows
      | Some ps \<Rightarrow>
          fold (\<lambda>tp rows. if tp_Type tp \<noteq> TaskParamTypeChunkInt then rows else map (chunkBounds (tp_Name tp)) rows)
            (ps_TaskParameterDefinitions ps) rows)"

end
