(* ===== verification/ChunkProps.thy ===== *)
theory ChunkProps
  imports Expand RangeProps
begin

text \<open>
  Chunked integer parameters: the chunks partition the values, are as few and as even as the chunk size allows, and
  their texts read back as exactly the values they stand for.
\<close>

section \<open>Even splitting\<close>

text \<open>Where chunk \<open>i\<close> of \<open>k\<close> starts in \<open>n\<close> values.\<close>

definition chunkStart :: "nat \<Rightarrow> nat \<Rightarrow> nat \<Rightarrow> nat" where
  "chunkStart n k i = (i * n + k - 1) div k"

lemma chunkStart_le: "0 < k \<Longrightarrow> chunkStart n k i \<le> q \<longleftrightarrow> i * n \<le> q * k"
  using div_less_iff_less_mult [of k "i * n + k - 1" "Suc q"] by (auto simp: chunkStart_def less_Suc_eq_le)

lemma chunkStart_0 [simp]: "chunkStart n k 0 = 0"
  by (cases k) (simp_all add: chunkStart_def)

lemma chunkStart_k: "0 < k \<Longrightarrow> chunkStart n k k = n"
  using chunkStart_le [of k n k n] chunkStart_le [of k n k "chunkStart n k k"] by (simp add: mult.commute le_antisym)

lemma chunkStart_Suc:
  assumes "0 < k"
  shows "chunkStart n k i + n div k \<le> chunkStart n k (Suc i)"
    "n \<le> c * k \<Longrightarrow> chunkStart n k (Suc i) \<le> chunkStart n k i + c"
proof -
  let ?q = "chunkStart n k (Suc i)"
  have q: "Suc i * n \<le> ?q * k" using chunkStart_le [OF assms, of n "Suc i" ?q] by simp
  have d: "n div k * k \<le> n" by simp
  have "n div k * k \<le> ?q * k" using q d by (metis le_add1 le_trans mult_Suc)
  then have "n div k \<le> ?q" using assms by simp
  moreover have "i * n \<le> ?q * k - n div k * k" using q d unfolding mult_Suc by linarith
  then have "i * n \<le> (?q - n div k) * k" by (simp only: diff_mult_distrib)
  then have "chunkStart n k i \<le> ?q - n div k" using chunkStart_le [OF assms] by blast
  ultimately show "chunkStart n k i + n div k \<le> ?q" by simp
  assume "n \<le> c * k"
  moreover have "i * n \<le> chunkStart n k i * k" using chunkStart_le [OF assms, of n i "chunkStart n k i"] by simp
  ultimately show "?q \<le> chunkStart n k i + c" unfolding chunkStart_le [OF assms] by (simp add: add_mult_distrib)
qed

lemma chunkLoop_Suc:
  "chunkLoop seg n k i start (Suc todo) =
     take (chunkStart n k (Suc i) - start) (drop start seg) # chunkLoop seg n k (Suc i) (chunkStart n k (Suc i)) todo"
  by (simp add: chunkStart_def Let_def)

declare chunkLoop.simps(2) [simp del]

lemma chunkLoop_concat:
  assumes "0 < k" "i + todo = k"
  shows "concat (chunkLoop seg (length seg) k i (chunkStart (length seg) k i) todo) = drop (chunkStart (length seg) k i) seg"
  using assms(2)
proof (induction todo arbitrary: i)
  case 0
  then show ?case using chunkStart_k [OF assms(1)] by simp
next
  case (Suc todo)
  let ?a = "chunkStart (length seg) k i" and ?b = "chunkStart (length seg) k (Suc i)"
  have "?a \<le> ?b" using chunkStart_Suc(1) [OF assms(1), of "length seg" i] by simp
  then have "take (?b - ?a) (drop ?a seg) @ drop ?b seg = drop ?a seg"
    by (metis append_take_drop_id drop_drop le_add_diff_inverse2)
  then show ?case using Suc.IH [of "Suc i"] Suc.prems by (simp add: chunkLoop_Suc)
qed

lemma chunkLoop_lengths:
  assumes "0 < k" "i + todo = k" "c \<in> set (chunkLoop seg (length seg) k i (chunkStart (length seg) k i) todo)"
  shows "length seg div k \<le> length c" "length seg \<le> m * k \<Longrightarrow> length c \<le> m"
proof -
  have "\<exists>j < k. length c = chunkStart (length seg) k (Suc j) - chunkStart (length seg) k j"
    using assms(2,3)
  proof (induction todo arbitrary: i)
    case (Suc todo)
    have "chunkStart (length seg) k (Suc i) \<le> length seg"
      using Suc.prems(1) mult_le_mono1 [of "Suc i" k "length seg"]
      unfolding chunkStart_le [OF assms(1)] by (simp only: mult.commute [of _ k])
    then have "length (take (chunkStart (length seg) k (Suc i) - chunkStart (length seg) k i) (drop (chunkStart (length seg) k i) seg)) =
        chunkStart (length seg) k (Suc i) - chunkStart (length seg) k i" by simp
    moreover have "i < k" using Suc.prems(1) by simp
    ultimately show ?case using Suc.IH [of "Suc i"] Suc.prems unfolding chunkLoop_Suc list.set by (metis add_Suc_shift insert_iff)
  qed simp
  then obtain j where j: "length c = chunkStart (length seg) k (Suc j) - chunkStart (length seg) k j" by blast
  show "length seg div k \<le> length c" using chunkStart_Suc(1) [OF assms(1), of "length seg" j] j by linarith
  show "length seg \<le> m * k \<Longrightarrow> length c \<le> m" using chunkStart_Suc(2) [OF assms(1), of "length seg" m j] j by linarith
qed

lemma length_chunkLoop [simp]: "length (chunkLoop seg n k i start todo) = todo"
  by (induction todo arbitrary: i start) (simp_all add: chunkLoop_Suc)

text \<open>The chunks of one run: they are its parts in order, as few as fit, none empty, none longer than the chunk size, and
  no two lengths differ by more than one.\<close>

lemma chunkRun_parts:
  assumes "0 < cs" "seg \<noteq> []"
  shows "concat (chunkRun cs seg) = seg" "length (chunkRun cs seg) = (length seg - 1) div cs + 1"
    "c \<in> set (chunkRun cs seg) \<Longrightarrow> c \<noteq> [] \<and> length c \<le> cs"
    "c \<in> set (chunkRun cs seg) \<Longrightarrow> d \<in> set (chunkRun cs seg) \<Longrightarrow> length c \<le> length d + 1"
proof -
  define k where "k = (length seg - 1) div cs + 1"
  have "0 < length seg" using assms(2) by simp
  then have k: "0 < k" "k \<le> length seg"
    using div_le_dividend [of "length seg - 1" cs] unfolding k_def by linarith+
  have m: "length seg \<le> cs * k"
    using assms(1) dividend_less_times_div [of cs "length seg - 1"] by (simp add: k_def)
  have e: "chunkRun cs seg = chunkLoop seg (length seg) k 0 (chunkStart (length seg) k 0) k"
    by (simp add: chunkRun_def Let_def k_def)
  show "concat (chunkRun cs seg) = seg" unfolding e using chunkLoop_concat [OF k(1), of 0 k seg] by simp
  show "length (chunkRun cs seg) = (length seg - 1) div cs + 1" unfolding e by (simp add: k_def)
  note l = chunkLoop_lengths [OF k(1), of 0 k _ seg, folded e, simplified]
  have "1 \<le> length seg div k" using k by (simp add: div_greater_zero_iff Suc_leI)
  then show "c \<noteq> [] \<and> length c \<le> cs" if "c \<in> set (chunkRun cs seg)" for c
    using l(1) [OF that] l(2) [OF that m] by auto
  have "length seg \<le> (length seg div k + 1) * k" using k(1) dividend_less_times_div [of k "length seg"] by (simp add: mult.commute)
  then show "length c \<le> length d + 1" if "c \<in> set (chunkRun cs seg)" "d \<in> set (chunkRun cs seg)" for c d
    using l(1) [OF that(2)] l(2) [OF that(1)] by fastforce
qed

section \<open>Runs of consecutive values\<close>

abbreviation consecutive :: "int list \<Rightarrow> bool" where
  "consecutive \<equiv> successively (\<lambda>a b. b = a + 1)"

text \<open>Values whose differences fit an \<^verbatim>\<open>int\<close>.\<close>

definition modest :: "int \<Rightarrow> bool" where
  "modest v \<longleftrightarrow> \<bar>v\<bar> < 4611686018427387904"

lemma modest_i64: "modest v \<Longrightarrow> i64 (v + 1) = v + 1" "modest v \<Longrightarrow> modest w \<Longrightarrow> i64 (w - v) = w - v"
  by (intro i64_small; simp add: modest_def; linarith)+

lemma runsFrom_parts:
  assumes "seg \<noteq> []" "prev = last seg" "consecutive seg" "\<And>v. v \<in> set (seg @ vals) \<Longrightarrow> modest v"
  shows "concat (runsFrom seg prev vals) = seg @ vals \<and> (\<forall>r \<in> set (runsFrom seg prev vals). r \<noteq> [] \<and> consecutive r)"
  using assms
proof (induction vals arbitrary: seg prev)
  case (Cons v vals)
  have p: "i64 (prev + 1) = prev + 1" using Cons.prems(1,2,4) by (intro modest_i64) simp
  show ?case
  proof (cases "v = prev + 1")
    case True
    have "concat (runsFrom (seg @ [v]) v vals) = (seg @ [v]) @ vals \<and>
        (\<forall>r \<in> set (runsFrom (seg @ [v]) v vals). r \<noteq> [] \<and> consecutive r)"
      using Cons.prems True by (intro Cons.IH) (auto simp: successively_append_iff)
    then show ?thesis using True p by simp
  next
    case False
    have "concat (runsFrom [v] v vals) = [v] @ vals \<and> (\<forall>r \<in> set (runsFrom [v] v vals). r \<noteq> [] \<and> consecutive r)"
      using Cons.prems(4) by (intro Cons.IH) auto
    then show ?thesis using False p Cons.prems(1,3) by simp
  qed
qed simp

lemma consecutiveRuns_parts:
  assumes "\<And>v. v \<in> set vals \<Longrightarrow> modest v"
  shows "concat (consecutiveRuns vals) = vals" "r \<in> set (consecutiveRuns vals) \<Longrightarrow> r \<noteq> [] \<and> consecutive r"
  using runsFrom_parts [of "[hd vals]" "hd vals" "tl vals"] assms
  by (auto simp: consecutiveRuns_def split: list.splits)

lemma consecutive_eq: "consecutive vs \<Longrightarrow> vs \<noteq> [] \<Longrightarrow> vs = map (\<lambda>m. hd vs + int m) [0..<length vs]"
proof (induction vs rule: rev_induct)
  case (snoc v vs)
  show ?case
  proof (cases "vs = []")
    case False
    then have IH: "vs = map (\<lambda>m. hd vs + int m) [0..<length vs]" and v: "v = last vs + 1"
      using snoc by (auto simp: successively_append_iff)
    have "last vs = hd vs + int (length vs - 1)" using False by (subst IH) (simp add: last_map)
    then have "v = hd vs + int (length vs)" using v False by (cases vs) simp_all
    then show ?thesis using IH False by simp
  qed simp
qed simp

section \<open>Texts\<close>

text \<open>A text that the parser reads as one element.\<close>

definition spells :: "string \<Rightarrow> Range \<Rightarrow> bool" where
  "spells t r \<longleftrightarrow> t \<noteq> [] \<and> plain (hd t) \<and> plain (last t) \<and> CHR '','' \<notin> set t \<and> parseElement t openjdRangePolicy = Inr r"

lemma spells_single: "isInt v \<Longrightarrow> spells (Itoa v) \<lparr> r_Start = v, r_End = v, r_Step = 1 \<rparr>"
  using Itoa_ends [of v]
  by (simp add: spells_def parseElement_def LastIndexByte_def no_colon splitRange_single)

lemma spells_pair:
  "isInt v \<Longrightarrow> isInt w \<Longrightarrow> v \<le> w \<Longrightarrow> spells (Itoa v @ ''-'' @ Itoa w) \<lparr> r_Start = v, r_End = w, r_Step = 1 \<rparr>"
  using Itoa_ends [of v] Itoa_ends [of w]
  by (simp add: spells_def parseElement_def LastIndexByte_def no_colon splitRange_pair parseStep_def)

lemma spells_step:
  assumes "isInt v" "isInt w" "isInt s" "v < w" "1 < s"
  shows "spells (Itoa v @ ''-'' @ Itoa w @ '':'' @ Itoa s) \<lparr> r_Start = v, r_End = w, r_Step = s \<rparr>"
proof -
  let ?r = "\<lparr> r_Start = v, r_End = w, r_Step = s \<rparr>"
  have "Range_String ?r = Itoa v @ ''-'' @ Itoa w @ '':'' @ Itoa s" using assms by (simp add: Range_String_def)
  then show ?thesis
    using parseElement_String [of ?r openjdRangePolicy] Range_String_ends [of ?r] assms
    by (simp add: spells_def canonical_def wf_range_def admits_def openjdRangePolicy_def)
qed

lemma parseParts_spells: "list_all2 spells ts rs \<Longrightarrow> parseParts ts openjdRangePolicy = Inr rs"
  by (induction rule: list_all2_induct) (simp_all add: spells_def TrimSpace_plain)

lemma parseElements_spells:
  assumes "list_all2 spells ts rs" "ts \<noteq> []"
  shows "parseIntRangeElements (Join ts '','') = Inr rs"
proof -
  have ends: "t \<noteq> [] \<and> plain (hd t) \<and> plain (last t) \<and> CHR '','' \<notin> set t" if "t \<in> set ts" for t
    using assms(1) that by (auto simp: list_all2_conv_all_nth in_set_conv_nth spells_def)
  then have "Join ts '','' \<noteq> [] \<and> plain (hd (Join ts '','')) \<and> plain (last (Join ts '',''))" using assms(2) by (intro Join_ends) auto
  moreover have "Split (Join ts '','') CHR '','' = ts" using assms(2) ends by (intro Split_Join) auto
  moreover have "rs \<noteq> []" using assms by auto
  ultimately show ?thesis
    using parseParts_spells [OF assms(1)] by (simp add: parseIntRangeElements_def ParseWithPolicy_def TrimSpace_plain)
qed

lemma sumCounts_ok:
  assumes "\<And>r. r \<in> set rs \<Longrightarrow> good r \<and> isInt (r_End r - r_Start r)" "0 \<le> acc"
    and "acc + int (length (concat (map term_list rs))) \<le> maxRangeValues"
  shows "\<exists>n. sumCounts acc rs = Some n"
  using assms
proof (induction rs arbitrary: acc)
  case (Cons r rs)
  have l: "int (length (term_list r)) \<le> maxRangeValues" using Cons.prems(2,3) by simp
  have "Count r = int (length (term_list r))"
    using Cons.prems(1) [of r] l Count_eq [of r] unfolding length_term_list
    by (auto simp: good_def min_def maxRangeValues_def MaxInt_def)
  moreover have "i64 (acc + int (length (term_list r))) = acc + int (length (term_list r))"
    using Cons.prems(2,3) by (intro i64_small) (simp add: maxRangeValues_def)
  ultimately show ?case
    using Cons.IH [of "acc + int (length (term_list r))"] Cons.prems l by (simp add: Let_def)
qed simp

lemma parseIntRangeExpr_spells:
  assumes "list_all2 spells ts rs" "ts \<noteq> []" "\<And>r. r \<in> set rs \<Longrightarrow> good r \<and> isInt (r_End r - r_Start r)"
    and "concat (map term_list rs) = vs" "int (length vs) \<le> maxRangeValues"
  shows "parseIntRangeExpr (Join ts '','') = Inr (firstSeen [] vs)"
proof -
  have e: "parseIntRangeElements (Join ts '','') = Inr rs" by (rule parseElements_spells [OF assms(1,2)])
  obtain n where n: "sumRangeCounts rs = Some n"
    using sumCounts_ok [of rs 0] assms(3,4,5) by (auto simp: sumRangeCounts_def)
  have "\<forall>r \<in> set rs. Iterate r = term_list r"
    using sumCounts_Some [of 0 rs n] n assms(3) by (simp add: sumRangeCounts_def maxRangeValues_def)
  then have i: "concat (map Iterate rs) = vs" using assms(4) by (metis map_eq_conv)
  have "rs \<noteq> []" using assms(1,2) by auto
  then have "vs \<noteq> []" using sumRangeCounts_Some(4) [OF e n] i by simp
  then show ?thesis using e n i by (simp add: parseIntRangeExpr_def Let_def)
qed

text \<open>Elements of modest values are admitted and do not saturate.\<close>

definition sized :: "Range \<Rightarrow> bool" where
  "sized r \<longleftrightarrow> good r \<and> isInt (r_End r - r_Start r)"

lemma sized_modest: "modest v \<Longrightarrow> modest w \<Longrightarrow> v \<le> w \<Longrightarrow> 0 < s \<Longrightarrow> isInt s \<Longrightarrow>
    sized \<lparr> r_Start = v, r_End = w, r_Step = s \<rparr>"
  by (auto simp: sized_def good_def wf_range_def isInt_def modest_def MinInt_def MaxInt_def)

lemma modest_isInt: "modest v \<Longrightarrow> isInt v" "modest v \<Longrightarrow> modest w \<Longrightarrow> isInt (w - v)"
  by (auto simp: isInt_def modest_def MinInt_def MaxInt_def)

lemma isInt_1: "isInt 1"
  by (simp add: isInt_def MinInt_def MaxInt_def)

lemma term_list_up:
  assumes "0 < s"
  shows "term_list \<lparr> r_Start = v, r_End = v + int n * s, r_Step = s \<rparr> = map (\<lambda>m. v + int m * s) [0..<Suc n]"
proof -
  have "0 < int n * s \<longleftrightarrow> n \<noteq> 0" using assms by (simp add: zero_less_mult_iff)
  then have "trueCount \<lparr> r_Start = v, r_End = v + int n * s, r_Step = s \<rparr> = int n + 1"
    using assms by (simp add: trueCount_def effStep_def)
  moreover have "nat (int n + 1) = Suc n" by simp
  ultimately show ?thesis using assms by (simp add: term_list_def effStep_def del: upt_Suc)
qed

lemma term_list_single [simp]: "term_list \<lparr> r_Start = v, r_End = v, r_Step = 1 \<rparr> = [v]"
  using term_list_up [of 1 v 0] by simp

lemma runLength_take:
  assumes "\<And>v. v \<in> set (prev # vals) \<Longrightarrow> modest v"
  shows "take (runLength s prev vals) vals = map (\<lambda>m. prev + int (Suc m) * s) [0..<runLength s prev vals] \<and>
    runLength s prev vals \<le> length vals"
  using assms
proof (induction s prev vals rule: runLength.induct)
  case (2 s prev v vals)
  have i: "i64 (v - prev) = v - prev" using 2(2) by (intro modest_i64) simp_all
  show ?case
  proof (cases "v - prev = s")
    case True
    have "i64 (v - prev) = s" using True i by simp
    moreover have "take (runLength s v vals) vals = map (\<lambda>m. v + int (Suc m) * s) [0..<runLength s v vals] \<and>
        runLength s v vals \<le> length vals" using 2 calculation by simp
    ultimately show ?thesis using True by (auto simp: map_upt_Suc algebra_simps simp del: upt_Suc)
  qed (simp add: i)
qed simp

lemma progression_cons:
  assumes "w = v + s"
  shows "map (\<lambda>m. v + int m * s) [0..<Suc (Suc n)] = v # w # map (\<lambda>m. w + int (Suc m) * s) [0..<n]"
  using assms by (simp add: map_upt_Suc algebra_simps del: upt_Suc)

lemma chunkParts_spells:
  assumes "\<And>v. v \<in> set vals \<Longrightarrow> modest v"
  shows "\<exists>rs. list_all2 spells (chunkParts vals) rs \<and> (\<forall>r \<in> set rs. sized r) \<and> concat (map term_list rs) = vals"
  using assms
proof (induction vals rule: chunkParts.induct)
  case (2 v)
  then show ?case
    using spells_single [of v] sized_modest [of v v 1] modest_isInt(1)
    by (intro exI [of _ "[\<lparr> r_Start = v, r_End = v, r_Step = 1 \<rparr>]"]) (simp add: isInt_def MinInt_def MaxInt_def)
next
  case (3 v w vals)
  let ?s = "w - v" and ?one = "\<lambda>v. \<lparr> r_Start = v, r_End = v, r_Step = 1 \<rparr>"
  have m: "modest v" "modest w" and s: "i64 (w - v) = w - v" using "3.prems" by (simp_all add: modest_i64)
  have one: "spells (Itoa x) (?one x) \<and> sized (?one x)" if "modest x" for x
    using that by (simp add: spells_single sized_modest modest_isInt isInt_1)
  let ?n = "runLength ?s w vals"
  consider "?s \<le> 0" | "0 < ?s" "?n = 0" | "0 < ?s" "?n \<noteq> 0" by linarith
  then show ?case
  proof cases
    case 1
    obtain rs where "list_all2 spells (chunkParts (w # vals)) rs" "\<forall>r \<in> set rs. sized r" "concat (map term_list rs) = w # vals"
      using "3.IH"(1) [OF refl] 1 "3.prems" s by auto
    then show ?thesis using 1 s one m by (intro exI [of _ "?one v # rs"]) simp
  next
    case 2
    obtain rs where "list_all2 spells (chunkParts vals) rs" "\<forall>r \<in> set rs. sized r" "concat (map term_list rs) = vals"
      using "3.IH"(2) [OF refl _ refl refl] 2 "3.prems" s by auto
    then show ?thesis using 2 s one m by (intro exI [of _ "?one v # ?one w # rs"]) simp
  next
    case big: 3
    have run: "take ?n vals = map (\<lambda>m. w + int (Suc m) * ?s) [0..<?n]" "?n \<le> length vals"
      using runLength_take [of w vals ?s] "3.prems" by auto
    let ?stop = "(w # vals) ! ?n"
    have stop: "?stop = v + int (Suc ?n) * ?s"
    proof -
      obtain k where k: "?n = Suc k" using big(2) by (cases ?n) auto
      have "vals ! k = take ?n vals ! k" using k by simp
      also have "\<dots> = w + int (Suc k) * ?s" unfolding run(1) using k by (simp del: upt_Suc)
      finally show ?thesis using k by (simp add: algebra_simps)
    qed
    have "?stop \<in> set (w # vals)" using run(2) by (intro nth_mem) simp
    then have ms: "modest ?stop" using "3.prems" by simp
    have lt: "v < ?stop" unfolding stop using big(1) by (simp add: zero_less_mult_iff)
    let ?r = "\<lparr> r_Start = v, r_End = ?stop, r_Step = ?s \<rparr>"
    have r: "term_list ?r @ drop ?n vals = v # w # vals" "sized ?r"
      using term_list_up [OF big(1), of v "Suc ?n"] progression_cons [of w v ?s ?n] run(1) append_take_drop_id [of ?n vals]
        sized_modest [OF m(1) ms] lt big(1) modest_isInt(2) [OF m] unfolding stop by (simp_all del: upt_Suc)
    obtain rs where rs: "list_all2 spells (chunkParts (drop ?n vals)) rs" "\<forall>r \<in> set rs. sized r" "concat (map term_list rs) = drop ?n vals"
      using "3.IH"(3,4) [OF refl _ refl refl] big "3.prems" s by (cases "?s = 1") (auto dest: in_set_dropD)
    have "\<exists>t. chunkParts (v # w # vals) = t # chunkParts (drop ?n vals) \<and> spells t ?r"
      using big s spells_pair [of v ?stop] spells_step [of v ?stop ?s] modest_isInt m ms lt by (cases "?s = 1") (simp_all add: Let_def)
    then show ?thesis using rs r by (intro exI [of _ "?r # rs"]) auto
  qed
qed simp

lemma format_noncontiguous:
  assumes "\<And>v. v \<in> set c \<Longrightarrow> modest v" "c \<noteq> []" "int (length c) \<le> maxRangeValues"
  shows "parseIntRangeExpr (formatNoncontiguousChunk c) = Inr (firstSeen [] c)"
proof -
  obtain rs where rs: "list_all2 spells (chunkParts c) rs" "\<forall>r \<in> set rs. sized r" "concat (map term_list rs) = c"
    using chunkParts_spells [OF assms(1)] by blast
  have "chunkParts c \<noteq> []" using rs(1,3) assms(2) by auto
  then show ?thesis
    unfolding formatNoncontiguousChunk_def using rs assms(3) by (intro parseIntRangeExpr_spells) (auto simp: sized_def)
qed

lemma format_contiguous:
  assumes "\<And>v. v \<in> set c \<Longrightarrow> modest v" "c \<noteq> []" "consecutive c" "int (length c) \<le> maxRangeValues"
  shows "parseIntRangeExpr (formatContiguousChunk c) = Inr c" "distinct c"
proof -
  let ?r = "\<lparr> r_Start = hd c, r_End = last c, r_Step = 1 \<rparr>"
  obtain n where n: "length c = Suc n" using assms(2) by (cases c) auto
  have c: "c = map (\<lambda>m. hd c + int m * 1) [0..<Suc n]" using consecutive_eq [OF assms(3,2)] n by simp
  have last: "last c = hd c + int n * 1" by (subst c) simp
  have m: "modest (hd c)" "modest (last c)" using assms(1,2) by simp_all
  have "term_list ?r = c" using term_list_up [of 1 "hd c" n] c unfolding last by simp
  moreover show d: "distinct c" by (subst c) (simp add: distinct_map inj_on_def del: upt_Suc)
  moreover have "spells (formatContiguousChunk c) ?r"
    unfolding formatContiguousChunk_def using m last by (intro spells_pair modest_isInt) simp_all
  moreover have "sized ?r" using m last by (intro sized_modest isInt_1) simp_all
  ultimately show "parseIntRangeExpr (formatContiguousChunk c) = Inr c"
    using parseIntRangeExpr_spells [of "[formatContiguousChunk c]" "[?r]" c] assms(4) firstSeen_distinct [of "[]" c]
    by (simp add: sized_def)
qed

text \<open>The values of the chunks of a parameter.\<close>

definition chunksOf :: "int list \<Rightarrow> int \<Rightarrow> bool \<Rightarrow> int list list" where
  "chunksOf vals chunkSize contiguous =
     concat (map (chunkRun (nat chunkSize)) (if contiguous then consecutiveRuns vals else [vals]))"

lemma concat_concat_map: "concat (concat (map f xs)) = concat (map (\<lambda>x. concat (f x)) xs)"
  by (induction xs) simp_all

lemma chunksOf_parts:
  assumes "\<forall>v \<in> set vals. modest v" "vals \<noteq> []" "0 < chunkSize"
  shows "concat (chunksOf vals chunkSize contiguous) = vals"
    "c \<in> set (chunksOf vals chunkSize contiguous) \<Longrightarrow> c \<noteq> [] \<and> int (length c) \<le> chunkSize"
    "c \<in> set (chunksOf vals chunkSize True) \<Longrightarrow> consecutive c"
    "length (chunksOf vals chunkSize False) = (length vals - 1) div nat chunkSize + 1"
proof -
  let ?runs = "if contiguous then consecutiveRuns vals else [vals]"
  have runs: "concat (consecutiveRuns vals) = vals" "r \<in> set (consecutiveRuns vals) \<Longrightarrow> r \<noteq> [] \<and> consecutive r" for r
    using consecutiveRuns_parts [of vals] assms(1) by blast+
  have n: "0 < nat chunkSize" using assms(3) by simp
  have r: "\<forall>r \<in> set ?runs. r \<noteq> []" "concat ?runs = vals" using runs assms(2) by auto
  then have "map (\<lambda>r. concat (chunkRun (nat chunkSize) r)) ?runs = ?runs"
    using chunkRun_parts(1) [OF n] by (intro map_idI) blast
  then show "concat (chunksOf vals chunkSize contiguous) = vals" using r(2) by (simp add: chunksOf_def concat_concat_map)
  show "c \<noteq> [] \<and> int (length c) \<le> chunkSize" if c: "c \<in> set (chunksOf vals chunkSize contiguous)"
  proof -
    obtain r where "r \<in> set ?runs" "c \<in> set (chunkRun (nat chunkSize) r)"
      using c unfolding chunksOf_def set_concat by auto
    then show ?thesis using r(1) chunkRun_parts(3) [OF n, of r c] assms(3) by auto
  qed
  show "consecutive c" if c: "c \<in> set (chunksOf vals chunkSize True)"
  proof -
    obtain r where r: "r \<in> set (consecutiveRuns vals)" "c \<in> set (chunkRun (nat chunkSize) r)"
      using c by (auto simp: chunksOf_def)
    obtain xs ys where "chunkRun (nat chunkSize) r = xs @ c # ys" using r(2) by (meson split_list)
    then have "r = concat xs @ c @ concat ys" using chunkRun_parts(1) [OF n, of r] runs(2) [OF r(1)] by simp
    then show ?thesis using runs(2) [OF r(1)] by (metis successively_append_iff)
  qed
  show "length (chunksOf vals chunkSize False) = (length vals - 1) div nat chunkSize + 1"
    using chunkRun_parts(2) [OF n assms(2)] by (simp add: chunksOf_def)
qed

text \<open>C35. Chunking loses no value.  For values below $2^{62}$ in magnitude, whose differences fit an \<^verbatim>\<open>int\<close>, and chunks of at
  most the ten million values a range expression may have, each text a chunked parameter is expanded into reads back as the
  values of one chunk, each the first time it occurs in the chunk.  The chunks, in order, are exactly the values of the
  parameter; none is empty and none has more values than the chunk size; with the contiguous constraint each is a range of consecutive
  integers, and without it there are as few as possible.\<close>

theorem chunks_partition_values:
  assumes "vals \<noteq> []" "\<forall>v \<in> set vals. \<bar>v\<bar> < 2 ^ 62" "min (int (length vals)) chunkSize \<le> maxRangeValues" "0 < chunkSize"
  shows "\<exists>chunks. map parseIntRangeExpr (chunkValues vals chunkSize contiguous) = map (\<lambda>c. Inr (firstSeen [] c)) chunks \<and>
    concat chunks = vals \<and> (\<forall>c \<in> set chunks. c \<noteq> [] \<and> int (length c) \<le> chunkSize) \<and>
    (if contiguous then \<forall>c \<in> set chunks. successively (\<lambda>a b. b = a + 1) c
     else length chunks = (length vals - 1) div nat chunkSize + 1)"
proof (intro exI conjI)
  let ?chunks = "chunksOf vals chunkSize contiguous"
  have all: "\<forall>v \<in> set vals. modest v" using assms(2) by (simp add: modest_def)
  note parts = chunksOf_parts [OF all assms(1,4)]
  show con: "concat ?chunks = vals" by (rule parts(1))
  show "\<forall>c \<in> set ?chunks. c \<noteq> [] \<and> int (length c) \<le> chunkSize" using parts(2) by blast
  show "if contiguous then \<forall>c \<in> set ?chunks. consecutive c else length ?chunks = (length vals - 1) div nat chunkSize + 1"
    using parts(3,4) by simp
  have len: "int (length c) \<le> maxRangeValues \<and> (\<forall>v \<in> set c. modest v) \<and> c \<noteq> []" if c: "c \<in> set ?chunks" for c
  proof -
    obtain xs ys where "?chunks = xs @ c # ys" using c by (meson split_list)
    then have "vals = concat xs @ c @ concat ys" using con by simp
    then have "int (length c) \<le> int (length vals)" "set c \<subseteq> set vals" by auto
    then show ?thesis using assms(3) all parts(2) [OF c] by auto
  qed
  have "parseIntRangeExpr (if contiguous then formatContiguousChunk c else formatNoncontiguousChunk c) = Inr (firstSeen [] c)"
    if c: "c \<in> set ?chunks" for c
  proof (cases contiguous)
    case True
    then show ?thesis using format_contiguous [of c] len [OF c] parts(3) c firstSeen_distinct [of "[]" c] by simp
  qed (use format_noncontiguous [of c] len [OF c] in simp)
  moreover have "chunkValues vals chunkSize contiguous =
      map (if contiguous then formatContiguousChunk else formatNoncontiguousChunk) ?chunks"
    by (simp add: chunkValues_def chunksOf_def Let_def map_concat comp_def)
  ultimately show "map parseIntRangeExpr (chunkValues vals chunkSize contiguous) = map (\<lambda>c. Inr (firstSeen [] c)) ?chunks"
    by (simp add: if_distrib [of "\<lambda>f. f _"])
qed

theorem chunks_partition_values_witness:
  "\<exists>chunks. map parseIntRangeExpr [''1-5:2'', ''6,6,7''] = map (\<lambda>c. Inr (firstSeen [] c)) chunks \<and>
     concat chunks = [1, 3, 5, 6, 6, 7]"
proof -
  have "\<exists>chunks. map parseIntRangeExpr (chunkValues [1, 3, 5, 6, 6, 7] 3 False) = map (\<lambda>c. Inr (firstSeen [] c)) chunks \<and>
      concat chunks = [1, 3, 5, 6, 6, 7]"
    using chunks_partition_values [of "[1, 3, 5, 6, 6, 7]" 3 False] by (auto simp: maxRangeValues_def)
  moreover have "chunkValues [1, 3, 5, 6, 6, 7] 3 False = [''1-5:2'', ''6,6,7'']" by code_simp
  ultimately show ?thesis by simp
qed

end
