(* ===== verification/CombProps.thy ===== *)
theory CombProps
  imports Expand
begin

text \<open>
  Combination expressions: the parser never runs out of fuel, and it inverts printing.
\<close>

section \<open>Fuel\<close>

lemma parse_0:
  "parseExpr 0 d ts = Inl FuelExhausted" "parseCombElement 0 d ts = Inl FuelExhausted"
  "parseStars 0 d cs ts = Inl FuelExhausted" "parseGroup 0 d cs ts = Inl FuelExhausted"
  by (simp_all add: parseExpr.simps parseCombElement.simps parseStars.simps parseGroup.simps)

lemmas parse_Suc =
  parseExpr.simps [of "Suc n" for n, unfolded nat.case]
  parseCombElement.simps [of "Suc n" for n, unfolded nat.case]
  parseStars.simps [of "Suc n" for n, unfolded nat.case]
  parseGroup.simps [of "Suc n" for n, unfolded nat.case]

text \<open>What every parser does with its input: it consumes some of it (the loop over stars possibly nothing), and it does
  not run out of fuel when it has three units for each token, and a few more.\<close>

definition consumes :: "nat \<Rightarrow> nat \<Rightarrow> nat \<Rightarrow> string list \<Rightarrow> comb_error + ('a \<times> string list) \<Rightarrow> bool" where
  "consumes least extra f ts result \<longleftrightarrow>
     (case result of
        Inl e \<Rightarrow> 3 * length ts + extra \<le> f \<longrightarrow> e \<noteq> FuelExhausted
      | Inr (x, rest) \<Rightarrow> length rest + least \<le> length ts)"

lemma consumes_simps:
  "consumes least extra f ts (Inl e) \<longleftrightarrow> (3 * length ts + extra \<le> f \<longrightarrow> e \<noteq> FuelExhausted)"
  "consumes least extra f ts (Inr (x, rest)) \<longleftrightarrow> length rest + least \<le> length ts"
  by (simp_all add: consumes_def)

lemma parsers_consume:
  "(\<forall>d ts. consumes 1 2 f ts (parseExpr f d ts)) \<and> (\<forall>d ts. consumes 1 1 f ts (parseCombElement f d ts)) \<and>
   (\<forall>d cs ts. consumes 0 1 f ts (parseStars f d cs ts)) \<and> (\<forall>d cs ts. consumes 1 3 f ts (parseGroup f d cs ts))"
proof (induction f)
  case 0
  show ?case by (simp add: parse_0 consumes_simps)
next
  case (Suc f)
  have E: "consumes 1 2 f ts (parseExpr f d ts)" and L: "consumes 1 1 f ts (parseCombElement f d ts)"
    and S: "consumes 0 1 f ts (parseStars f d cs ts)" and G: "consumes 1 3 f ts (parseGroup f d cs ts)" for d cs ts
    using Suc by blast+
  have "consumes 1 2 (Suc f) ts (parseExpr (Suc f) d ts)" for d ts
  proof (cases "parseCombElement f d ts")
    case (Inl e)
    then show ?thesis using L [of ts d] by (simp add: parse_Suc consumes_simps)
  next
    case (Inr p)
    obtain left rest where p: "p = (left, rest)" by (cases p)
    have r: "length rest < length ts" using L [of ts d] Inr p by (simp add: consumes_simps)
    then show ?thesis
      using S [of rest d "[left]"] Inr p
      by (cases "parseStars f d [left] rest") (auto simp: parse_Suc consumes_simps)
  qed
  moreover have "consumes 1 1 (Suc f) ts (parseCombElement (Suc f) d ts)" for d ts
    using G [of "tl ts" "d + 1" "[]"]
    by (cases ts; cases "parseGroup f (d + 1) [] (tl ts)") (auto simp: parse_Suc consumes_simps)
  moreover have "consumes 0 1 (Suc f) ts (parseStars (Suc f) d cs ts)" for d cs ts
  proof (cases "ts = [] \<or> hd ts \<noteq> ''*''")
    case False
    then obtain t u where ts: "ts = t # u" by (cases ts) auto
    show ?thesis
    proof (cases "parseCombElement f d u")
      case (Inl e)
      then show ?thesis using L [of u d] ts False by (simp add: parse_Suc consumes_simps)
    next
      case (Inr p)
      obtain right rest where p: "p = (right, rest)" by (cases p)
      have r: "length rest < length u" using L [of u d] Inr p by (simp add: consumes_simps)
      then show ?thesis
        using S [of rest d "cs @ [right]"] Inr p ts False
        by (cases "parseStars f d (cs @ [right]) rest") (auto simp: parse_Suc consumes_simps)
    qed
  qed (auto simp: parse_Suc consumes_simps)
  moreover have "consumes 1 3 (Suc f) ts (parseGroup (Suc f) d cs ts)" for d cs ts
  proof (cases "ts = [] \<or> hd ts = '')'' \<or> hd ts = '',''")
    case False
    show ?thesis
    proof (cases "parseExpr f d ts")
      case (Inl e)
      then show ?thesis using E [of ts d] False by (simp add: parse_Suc consumes_simps)
    next
      case (Inr p)
      obtain child rest where p: "p = (child, rest)" by (cases p)
      have r: "length rest < length ts" using E [of ts d] Inr p by (simp add: consumes_simps)
      then show ?thesis
        using G [of "tl rest" d "cs @ [child]"] Inr p False
        by (cases rest; cases "parseGroup f d (cs @ [child]) (tl rest)") (auto simp: parse_Suc consumes_simps)
    qed
  qed (auto simp: parse_Suc consumes_simps)
  ultimately show ?case by blast
qed

lemma parseCombinationExpr_fuel: "parseCombinationExpr e \<noteq> Inl FuelExhausted"
  using parsers_consume [of "3 * length (tokenizeComb e) + 2"]
  by (auto simp: parseCombinationExpr_def Let_def consumes_def split: sum.splits list.splits)

section \<open>Printing\<close>

fun isProduct :: "combNode \<Rightarrow> bool" where
  "isProduct (combProduct cs) = True"
| "isProduct c = False"

text \<open>The trees the grammar has, with at most 64 nested groups around them and in them.\<close>

fun comb_wf :: "nat \<Rightarrow> combNode \<Rightarrow> bool" where
  "comb_wf d (combIdent name) \<longleftrightarrow> isIdentifier name"
| "comb_wf d (combProduct cs) \<longleftrightarrow> 2 \<le> length cs \<and> (\<forall>c \<in> set cs. \<not> isProduct c \<and> comb_wf d c)"
| "comb_wf d (combAssoc cs) \<longleftrightarrow> 2 \<le> length cs \<and> d < 64 \<and> (\<forall>c \<in> set cs. comb_wf (d + 1) c)"

fun comb_text :: "combNode \<Rightarrow> string" where
  "comb_text (combIdent name) = name"
| "comb_text (combProduct cs) = Join (map comb_text cs) ''*''"
| "comb_text (combAssoc cs) = ''('' @ Join (map comb_text cs) '','' @ '')''"

fun joinToks :: "string \<Rightarrow> string list list \<Rightarrow> string list" where
  "joinToks sep [] = []"
| "joinToks sep [ts] = ts"
| "joinToks sep (ts # us # tss) = ts @ sep # joinToks sep (us # tss)"

fun comb_tokens :: "combNode \<Rightarrow> string list" where
  "comb_tokens (combIdent name) = [name]"
| "comb_tokens (combProduct cs) = joinToks ''*'' (map comb_tokens cs)"
| "comb_tokens (combAssoc cs) = ''('' # joinToks '','' (map comb_tokens cs) @ ['')'']"

lemma joinToks_Cons: "joinToks sep (ts # tss) = ts @ concat (map (\<lambda>us. sep # us) tss)"
  by (induction tss arbitrary: ts) auto

lemma isIdentifier_head: "isIdentifier t \<Longrightarrow> t \<noteq> '')'' \<and> t \<noteq> '','' \<and> t \<noteq> ''('' \<and> t \<noteq> ''*''"
  by (auto simp: isIdentifier_def isIdentChar_def)

lemma comb_tokens_head:
  "comb_wf d c \<Longrightarrow> \<exists>t us. comb_tokens c = t # us \<and> t \<noteq> '')'' \<and> t \<noteq> '',''"
proof (induction c arbitrary: d)
  case (combProduct cs)
  obtain x xs where cs: "cs = x # xs" using combProduct.prems by (cases cs) auto
  then have "comb_wf d x" using combProduct.prems by simp
  then obtain t us where "comb_tokens x = t # us" "t \<noteq> '')'' \<and> t \<noteq> '',''" using combProduct.IH [of x d] cs by auto
  then show ?case using cs by (simp add: joinToks_Cons)
qed (auto dest: isIdentifier_head)

text \<open>Reading back one node, as an element and as an expression.\<close>

definition reads :: "combNode \<Rightarrow> bool" where
  "reads c \<longleftrightarrow>
     (\<forall>d rest f. comb_wf d c \<longrightarrow>
        (\<not> isProduct c \<longrightarrow> 3 * length (comb_tokens c) \<le> f \<longrightarrow> parseCombElement f d (comb_tokens c @ rest) = Inr (c, rest)) \<and>
        (3 * length (comb_tokens c) + 1 \<le> f \<longrightarrow> rest = [] \<or> hd rest \<noteq> ''*'' \<longrightarrow>
           parseExpr f d (comb_tokens c @ rest) = Inr (c, rest)))"

lemma readsD:
  assumes "reads c" "comb_wf d c"
  shows "\<not> isProduct c \<Longrightarrow> 3 * length (comb_tokens c) \<le> f \<Longrightarrow> parseCombElement f d (comb_tokens c @ rest) = Inr (c, rest)"
    "3 * length (comb_tokens c) + 1 \<le> f \<Longrightarrow> rest = [] \<or> hd rest \<noteq> ''*'' \<Longrightarrow>
       parseExpr f d (comb_tokens c @ rest) = Inr (c, rest)"
  using assms unfolding reads_def by blast+

lemma reads_element:
  assumes "\<And>d rest f. comb_wf d c \<Longrightarrow> 3 * length (comb_tokens c) \<le> f \<Longrightarrow>
      parseCombElement f d (comb_tokens c @ rest) = Inr (c, rest)" "\<not> isProduct c"
  shows "reads c"
proof -
  have "parseExpr f d (comb_tokens c @ rest) = Inr (c, rest)"
    if c: "comb_wf d c" "3 * length (comb_tokens c) + 1 \<le> f" "rest = [] \<or> hd rest \<noteq> ''*''" for f d rest
  proof -
    obtain n where "f = Suc n" using c(2) by (cases f) auto
    then show ?thesis using assms(1) [OF c(1), of n rest] c by (simp add: parse_Suc)
  qed
  then show ?thesis using assms unfolding reads_def by blast
qed

lemma parseStars_reads:
  assumes "\<And>c. c \<in> set cs \<Longrightarrow> reads c \<and> comb_wf d c \<and> \<not> isProduct c" "rest = [] \<or> hd rest \<noteq> ''*''"
    and "3 * length (concat (map (\<lambda>c. ''*'' # comb_tokens c) cs)) + 1 \<le> f"
  shows "parseStars f d acc (concat (map (\<lambda>c. ''*'' # comb_tokens c) cs) @ rest) = Inr (combProduct (acc @ cs), rest)"
  using assms(1,3)
proof (induction cs arbitrary: f acc)
  case Nil
  then show ?case using assms(2) by (cases f) (auto simp: parse_Suc)
next
  case (Cons c cs)
  obtain n where f: "f = Suc n" using Cons.prems(2) by (cases f) auto
  let ?more = "concat (map (\<lambda>c. ''*'' # comb_tokens c) cs)"
  have "parseCombElement n d (comb_tokens c @ ?more @ rest) = Inr (c, ?more @ rest)"
    using Cons.prems f by (intro readsD(1)) auto
  moreover have "parseStars n d (acc @ [c]) (?more @ rest) = Inr (combProduct ((acc @ [c]) @ cs), rest)"
    using Cons.prems f by (intro Cons.IH) auto
  ultimately show ?case using f by (simp add: parse_Suc)
qed

lemma parseGroup_reads:
  assumes "cs \<noteq> []" "\<And>c. c \<in> set cs \<Longrightarrow> reads c \<and> comb_wf d c" "3 * length (joinToks '','' (map comb_tokens cs)) + 3 \<le> f"
  shows "parseGroup f d acc (joinToks '','' (map comb_tokens cs) @ '')'' # rest) = Inr (acc @ cs, rest)"
  using assms
proof (induction cs arbitrary: f acc)
  case (Cons c cs)
  obtain n where f: "f = Suc n" using Cons.prems(3) by (cases f) auto
  have wf: "comb_wf d c" "reads c" using Cons.prems(2) by simp_all
  obtain t us where t: "comb_tokens c = t # us" "t \<noteq> '')''" "t \<noteq> '',''" using comb_tokens_head [OF wf(1)] by blast
  show ?case
  proof (cases cs)
    case Nil
    have "parseExpr n d (comb_tokens c @ '')'' # rest) = Inr (c, '')'' # rest)"
      using Cons.prems(3) f Nil by (intro readsD(2) wf) simp_all
    then show ?thesis using f t Nil by (simp add: parse_Suc)
  next
    case (Cons c' cs')
    let ?more = "joinToks '','' (map comb_tokens cs) @ '')'' # rest"
    have j: "joinToks '','' (map comb_tokens (c # cs)) = comb_tokens c @ '','' # joinToks '','' (map comb_tokens cs)"
      using Cons by simp
    have "parseExpr n d (comb_tokens c @ '','' # ?more) = Inr (c, '','' # ?more)"
      using Cons.prems(3) f j by (intro readsD(2) wf) simp_all
    moreover have "parseGroup n d (acc @ [c]) ?more = Inr ((acc @ [c]) @ cs, rest)"
      using Cons.prems f j Cons by (intro Cons.IH) simp_all
    ultimately show ?thesis using f t unfolding j by (simp add: parse_Suc)
  qed
qed simp

lemma reads_all: "reads c"
proof (induction c)
  case (combIdent name)
  show ?case
  proof (rule reads_element)
    fix d rest f assume "comb_wf d (combIdent name)" "3 * length (comb_tokens (combIdent name)) \<le> f"
    then show "parseCombElement f d (comb_tokens (combIdent name) @ rest) = Inr (combIdent name, rest)"
      using isIdentifier_head [of name] by (cases f) (auto simp: parse_Suc)
  qed simp
next
  case (combAssoc cs)
  show ?case
  proof (rule reads_element)
    fix d rest f
    assume wf: "comb_wf d (combAssoc cs)" and f: "3 * length (comb_tokens (combAssoc cs)) \<le> f"
    obtain n where n: "f = Suc n" using f by (cases f) auto
    have "parseGroup n (d + 1) [] (joinToks '','' (map comb_tokens cs) @ '')'' # rest) = Inr ([] @ cs, rest)"
      using wf f n combAssoc.IH by (intro parseGroup_reads) auto
    then show "parseCombElement f d (comb_tokens (combAssoc cs) @ rest) = Inr (combAssoc cs, rest)"
      using wf n by (simp add: parse_Suc)
  qed simp
next
  case (combProduct cs)
  have "parseExpr f d (comb_tokens (combProduct cs) @ rest) = Inr (combProduct cs, rest)"
    if a: "comb_wf d (combProduct cs)" "3 * length (comb_tokens (combProduct cs)) + 1 \<le> f" "rest = [] \<or> hd rest \<noteq> ''*''" for f d rest
  proof -
    obtain x y ys where cs: "cs = x # y # ys" using a(1) by (cases cs; cases "tl cs") auto
    obtain n where n: "f = Suc n" using a(2) by (cases f) auto
    let ?more = "concat (map (\<lambda>c. ''*'' # comb_tokens c) (y # ys))"
    have t: "comb_tokens (combProduct cs) = comb_tokens x @ ?more" by (simp add: cs joinToks_Cons comp_def)
    have "parseCombElement n d (comb_tokens x @ ?more @ rest) = Inr (x, ?more @ rest)"
      using a(1,2) n combProduct.IH [of x] unfolding t by (intro readsD(1)) (auto simp: cs)
    moreover have "1 \<le> length (comb_tokens x)" using a(1) comb_tokens_head [of d x] by (auto simp: cs)
    then have "3 * length us + 1 \<le> n" if "3 * length (comb_tokens x @ us) + 1 \<le> f" for us using that n by simp
    then have "3 * length ?more + 1 \<le> n" using a(2) t by metis
    then have "parseStars n d [x] (?more @ rest) = Inr (combProduct ([x] @ y # ys), rest)"
      using a n combProduct.IH unfolding t by (intro parseStars_reads) (auto simp: cs)
    ultimately show ?thesis unfolding t using n by (simp add: parse_Suc cs)
  qed
  then show ?case unfolding reads_def by simp
qed

section \<open>Tokens\<close>

definition bounded :: "string \<Rightarrow> bool" where
  "bounded s \<longleftrightarrow> s = [] \<or> \<not> isIdentChar (hd s)"

lemma tokenize_ident:
  assumes "isIdentifier t" "bounded s"
  shows "tokenizeComb (t @ s) = t # tokenizeComb s"
proof -
  obtain c u where t: "t = c # u" using assms(1) by (cases t) (auto simp: isIdentifier_def)
  have c: "isIdentChar c" "\<forall>x \<in> set u. isIdentChar x" using assms(1) by (auto simp: t isIdentifier_def list_all_iff)
  have "c \<notin> set [CHR '' '', CHR 0x09]" "c \<notin> set ''*(),''" using c(1) by (auto simp: isIdentChar_def)
  moreover have "takeWhile isIdentChar (u @ s) = u" "dropWhile isIdentChar (u @ s) = s"
    using c(2) assms(2) by (cases s; auto simp: bounded_def takeWhile_append dropWhile_append)+
  ultimately show ?thesis using c(1) by (simp add: t del: list.set)
qed

lemma tokenize_sep: "c \<in> set ''*(),'' \<Longrightarrow> tokenizeComb (c # s) = [c] # tokenizeComb s"
  by auto

lemma tokenize_Join:
  assumes "sep \<in> set ''*,''" "\<And>c s. c \<in> set cs \<Longrightarrow> bounded s \<Longrightarrow> tokenizeComb (comb_text c @ s) = comb_tokens c @ tokenizeComb s"
    and "bounded s"
  shows "tokenizeComb (Join (map comb_text cs) [sep] @ s) = joinToks [sep] (map comb_tokens cs) @ tokenizeComb s"
  using assms(2)
proof (induction cs rule: induct_list012)
  case (3 c c' cs)
  have b: "bounded (sep # x)" for x using assms(1) by (auto simp: bounded_def isIdentChar_def)
  have t: "tokenizeComb (sep # x) = [sep] # tokenizeComb x" for x using assms(1) by (intro tokenize_sep) auto
  have "tokenizeComb (Join (map comb_text (c' # cs)) [sep] @ s) = joinToks [sep] (map comb_tokens (c' # cs)) @ tokenizeComb s"
    by (rule "3.IH"(2)) (use "3.prems" in auto)
  moreover have "tokenizeComb (comb_text c @ sep # x) = comb_tokens c @ tokenizeComb (sep # x)" for x
    using "3.prems" [of c] b by simp
  ultimately show ?case by (simp add: t del: tokenizeComb.simps)
qed (use assms(3) in auto)

lemma tokenize_text: "comb_wf d c \<Longrightarrow> bounded s \<Longrightarrow> tokenizeComb (comb_text c @ s) = comb_tokens c @ tokenizeComb s"
proof (induction c arbitrary: d s)
  case (combIdent name)
  then show ?case by (simp add: tokenize_ident)
next
  case (combProduct cs)
  then show ?case by (simp, intro tokenize_Join) auto
next
  case (combAssoc cs)
  have "tokenizeComb (Join (map comb_text cs) '','' @ '')'' @ s) =
      joinToks '','' (map comb_tokens cs) @ tokenizeComb ('')'' @ s)"
    using combAssoc by (intro tokenize_Join) (auto simp: bounded_def isIdentChar_def)
  then show ?case by (simp add: tokenize_sep del: tokenizeComb.simps)
qed

lemma parse_text: "comb_wf 0 tree \<Longrightarrow> parseCombinationExpr (comb_text tree) = Inr tree"
proof -
  assume wf: "comb_wf 0 tree"
  have "tokenizeComb (comb_text tree) = comb_tokens tree" using tokenize_text [OF wf, of "[]"] by (simp add: bounded_def)
  moreover have "parseExpr (3 * length (comb_tokens tree) + 2) 0 (comb_tokens tree) = Inr (tree, [])"
    using readsD(2) [OF reads_all wf, of "3 * length (comb_tokens tree) + 2" "[]"] by simp
  ultimately show ?thesis by (simp add: parseCombinationExpr_def)
qed

text \<open>C36. The parser of combination expressions is total and inverts printing: it never runs out of the fuel its recursion is
  given, whatever the expression, and it reads the text of every tree of the grammar with at most 64 nested groups as that
  tree.\<close>

theorem combination_parser:
  "parseCombinationExpr e \<noteq> Inl FuelExhausted \<and> (comb_wf 0 tree \<longrightarrow> parseCombinationExpr (comb_text tree) = Inr tree)"
  using parseCombinationExpr_fuel parse_text by blast

theorem combination_parser_witness:
  "parseCombinationExpr ''A*(B,C*D)'' =
     Inr (combProduct [combIdent ''A'', combAssoc [combIdent ''B'', combProduct [combIdent ''C'', combIdent ''D'']]])"
proof -
  let ?t = "combProduct [combIdent ''A'', combAssoc [combIdent ''B'', combProduct [combIdent ''C'', combIdent ''D'']]]"
  have "comb_wf 0 ?t" "comb_text ?t = ''A*(B,C*D)''" by code_simp+
  then show ?thesis using combination_parser [of "[]" ?t] by simp
qed

end
