(* ===== verification/ExpandProps.thy ===== *)
theory ExpandProps
  imports CombProps
begin

text \<open>
  Expansion of parameter spaces: the number of tasks is counted before a row is built, and each row assigns the
  parameters of the expression values of their ranges.
\<close>

section \<open>Counting\<close>

lemma mulSaturate_exact:
  assumes "0 \<le> a" "0 \<le> b" "mulSaturate a b = Some p"
  shows "p = a * b"
proof (cases "a = 0 \<or> b = 0")
  case True
  then show ?thesis using assms(3) by (auto simp: mulSaturate_def)
next
  case False
  let ?p = "i64 (a * b)"
  have ab: "0 < a" "0 < b" using False assms by auto
  have p: "p = ?p" "i64 (?p sdiv b) = a" using False assms(3) by (auto simp: mulSaturate_def Let_def split: if_splits)
  have le: "0 \<le> c div b \<and> c div b \<le> c" if "0 \<le> c" for c
    using that ab zdiv_mono2 [of c 1 b] by (simp add: pos_imp_zdiv_nonneg_iff)
  have "isInt ?p" by (rule isInt_i64)
  have nonneg: "0 \<le> ?p"
  proof (rule ccontr)
    assume "\<not> 0 \<le> ?p"
    then have "?p sdiv b = - (- ?p div b)" using ab by (simp add: signed_divide_int_def sgn_if)
    moreover have "0 \<le> - ?p div b" "- ?p div b \<le> - ?p" using le [of "- ?p"] \<open>\<not> 0 \<le> ?p\<close> by auto
    ultimately have "i64 (?p sdiv b) \<le> 0" using \<open>isInt ?p\<close> by (subst i64_id) (auto simp: isInt_def MaxInt_def)
    then show False using p(2) ab by simp
  qed
  then have "?p div b = a"
    using p(2) le [OF nonneg] \<open>isInt ?p\<close> ab by (subst (asm) i64_id) (auto simp: sdiv_nonneg isInt_def MinInt_def)
  then have "a * b \<le> ?p" using ab(2) le_div_int(1) [of b a ?p] by simp
  then have "isInt (a * b)" using \<open>isInt ?p\<close> mult_pos_pos [OF ab] by (auto simp: isInt_def MinInt_def)
  then show ?thesis using p(1) by (simp add: i64_id)
qed

lemma length_cartesianProduct [simp]: "length (cartesianProduct a b) = length a * length b"
  by (induction a) (simp_all add: cartesianProduct_def)

lemma length_zipRows: "zipRows (g # gs) = Inr rows \<Longrightarrow> length rows = length g"
  by (auto simp: zipRows_def split: option.splits)

text \<open>A count is the number of rows, or above the cap.\<close>

definition counts :: "int option \<Rightarrow> nat \<Rightarrow> bool" where
  "counts c n \<longleftrightarrow> (\<forall>k. c = Some k \<longrightarrow> 0 \<le> k \<and> (k = int n \<or> maxTasksPerStep < k))"

lemma count_rows:
  "evalCombNode node pv = Inr rows \<Longrightarrow> counts (countCombNode node pv) (length rows)"
  "evalProduct result children pv = Inr rows \<Longrightarrow> counts (countProduct (int (length result)) children pv) (length rows)"
  "evalGroup children pv = Inr groups \<Longrightarrow>
     length groups = length children \<and> (children \<noteq> [] \<longrightarrow> counts (countCombNode (hd children) pv) (length (hd groups)))"
proof (induction node pv and result children pv and children pv arbitrary: rows and rows and groups
    rule: evalCombNode_evalProduct_evalGroup.induct)
  case (1 name pv)
  then show ?case by (auto simp: evalIdent_def counts_def split: option.splits)
next
  case (2 children pv)
  then show ?case by simp
next
  case (3 children pv)
  obtain groups where g: "evalGroup children pv = Inr groups" "zipRows groups = Inr rows"
    using "3.prems" by (auto split: sum.splits)
  show ?case
  proof (cases children)
    case Nil
    then show ?thesis using g by (auto simp: counts_def zipRows_def)
  next
    case (Cons c cs)
    then have IH: "counts (countCombNode c pv) (length (hd groups)) \<and> length groups = length children" using "3.IH" [OF g(1)] by simp
    then obtain x xs where "groups = x # xs" using Cons by (cases groups) auto
    then show ?thesis using IH Cons length_zipRows g(2) by fastforce
  qed
next
  case (4 result pv)
  then show ?case by (auto simp: counts_def)
next
  case (5 result child children pv)
  obtain rows1 where r: "evalCombNode child pv = Inr rows1" "evalProduct (cartesianProduct result rows1) children pv = Inr rows"
    using "5.prems" by (auto split: sum.splits)
  have IH: "counts (countProduct (int (length result * length rows1)) children pv) (length rows)"
    using "5.IH"(2) [OF r] by simp
  show ?case unfolding counts_def
  proof (intro allI impI)
    fix k assume k: "countProduct (int (length result)) (child # children) pv = Some k"
    obtain c p where c: "countCombNode child pv = Some c" "mulSaturate (int (length result)) c = Some p"
      using k by (auto split: option.splits)
    have c': "0 \<le> c" "c = int (length rows1) \<or> maxTasksPerStep < c"
      using "5.IH"(1) [OF r(1)] c(1) by (auto simp: counts_def)
    then have p: "p = int (length result) * c" using mulSaturate_exact c(2) by simp
    show "0 \<le> k \<and> (k = int (length rows) \<or> maxTasksPerStep < k)"
    proof (cases "maxTasksPerStep < p")
      case True
      then show ?thesis using k c by (simp add: maxTasksPerStep_def)
    next
      case False
      have "p = int (length result * length rows1)"
      proof (cases "length result = 0")
        case f: False
        then have "1 \<le> int (length result)" by linarith
        then have "1 * c \<le> p" unfolding p using c'(1) by (rule mult_right_mono)
        then show ?thesis using p c'(2) False by simp
      qed (simp add: p)
      then show ?thesis using IH k c False by (simp add: counts_def)
    qed
  qed
next
  case (6 pv)
  then show ?case by simp
next
  case (7 child children pv)
  obtain rows gs where g: "evalCombNode child pv = Inr rows" "evalGroup children pv = Inr gs" "groups = rows # gs"
    using "7.prems" by (auto split: sum.splits)
  show ?case using "7.IH"(1) [OF g(1)] "7.IH"(2) [OF g(1,2)] g(3) by simp
qed

section \<open>Rows\<close>

lemma table_ok_copyRow: "table_ok dst \<Longrightarrow> table_ok (copyRow dst src)"
  unfolding copyRow_def by (induction src arbitrary: dst) auto

lemma tget_copyRow:
  assumes "table_ok src"
  shows "tget (copyRow dst src) k = (case tget src k of Some v \<Rightarrow> Some v | None \<Rightarrow> tget dst k)"
  using assms unfolding copyRow_def
proof (induction src arbitrary: dst)
  case (Cons p src)
  obtain j v where p: "p = (j, v)" by (cases p)
  have "table_ok src" "tget src j = None" using Cons.prems by (auto simp: p table_ok_def tget_def map_of_eq_None_iff)
  then show ?case using Cons.IH [of "tput j v dst"] by (auto simp: p split: option.splits)
qed simp

text \<open>A row that assigns exactly some parameters, each a value of its range.\<close>

definition row_of :: "string list table \<Rightarrow> string set \<Rightarrow> TaskParams \<Rightarrow> bool" where
  "row_of pv names row \<longleftrightarrow> table_ok row \<and>
     (\<forall>k. k \<in> names \<longleftrightarrow> tget row k \<noteq> None) \<and>
     (\<forall>k v. tget row k = Some v \<longrightarrow> v \<in> set (tgetz [] pv k))"

lemma row_of_Nil: "row_of pv {} []"
  by (simp add: row_of_def)

lemma row_of_copyRow:
  assumes "row_of pv A ra" "row_of pv B rb"
  shows "row_of pv (A \<union> B) (copyRow ra rb)"
  using assms table_ok_copyRow [of ra rb] tget_copyRow [of rb ra]
  unfolding row_of_def by (auto split: option.splits)

lemma row_of_merge:
  assumes "list_all2 (\<lambda>g A. i < length g \<and> row_of pv A (g ! i)) gs As" "row_of pv B acc"
  shows "row_of pv (\<Union> (set As) \<union> B) (fold (\<lambda>g merged. copyRow merged (g ! i)) gs acc)"
  using assms
proof (induction arbitrary: B acc rule: list_all2_induct)
  case (Cons g gs A As)
  have "row_of pv (B \<union> A) (copyRow acc (g ! i))" using Cons by (intro row_of_copyRow) auto
  from Cons.IH [OF this] show ?case by (simp add: Un_ac)
qed simp

lemma mismatch_None: "mismatch n i gs = None \<longleftrightarrow> (\<forall>g \<in> set gs. length g = n)"
  by (induction gs arbitrary: i) auto

definition rows_of :: "string list table \<Rightarrow> string set \<Rightarrow> TaskParams list \<Rightarrow> bool" where
  "rows_of pv names rows \<longleftrightarrow> (\<forall>row \<in> set rows. row_of pv names row)"

lemma rows_of_zipRows:
  assumes "list_all2 (\<lambda>g A. rows_of pv A g) groups As" "zipRows groups = Inr rows"
  shows "rows_of pv (\<Union> (set As)) rows"
proof (cases groups)
  case Nil
  then show ?thesis using assms(2) by (simp add: zipRows_def rows_of_def)
next
  case (Cons g gs)
  have len: "\<forall>h \<in> set groups. length h = length g"
    and rows: "rows = map (\<lambda>i. fold (\<lambda>g merged. copyRow merged (g ! i)) groups []) [0..<length g]"
    using assms(2) by (auto simp: Cons zipRows_def mismatch_None split: option.splits)
  have "row_of pv (\<Union> (set As) \<union> {}) (fold (\<lambda>g merged. copyRow merged (g ! i)) groups [])" if i: "i < length g" for i
  proof (rule row_of_merge [OF _ row_of_Nil])
    show "list_all2 (\<lambda>g A. i < length g \<and> row_of pv A (g ! i)) groups As"
      using assms(1) len i by (auto simp: list_all2_conv_all_nth rows_of_def)
  qed
  then show ?thesis by (auto simp: rows rows_of_def)
qed

lemma rows_of_cartesian:
  "rows_of pv A a \<Longrightarrow> rows_of pv B b \<Longrightarrow> rows_of pv (A \<union> B) (cartesianProduct a b)"
  using row_of_copyRow [OF row_of_Nil, of pv A] row_of_copyRow [of pv A _ B]
  by (auto simp: rows_of_def cartesianProduct_def)

lemma eval_rows:
  "evalCombNode node pv = Inr rows \<Longrightarrow> rows_of pv (set (collectIdents node)) rows"
  "evalProduct result children pv = Inr rows \<Longrightarrow> rows_of pv A result \<Longrightarrow>
     rows_of pv (A \<union> (\<Union>c \<in> set children. set (collectIdents c))) rows"
  "evalGroup children pv = Inr groups \<Longrightarrow> list_all2 (\<lambda>g A. rows_of pv A g) groups (map (\<lambda>c. set (collectIdents c)) children)"
proof (induction node pv and result children pv and children pv arbitrary: rows and rows A and groups
    rule: evalCombNode_evalProduct_evalGroup.induct)
  case (1 name pv)
  then show ?case by (auto simp: evalIdent_def rows_of_def row_of_def table_ok_def tgetz_def split: option.splits if_splits)
next
  case (2 children pv)
  then show ?case using 2(1) [of rows "{}"] by (simp add: rows_of_def row_of_Nil)
next
  case (3 children pv)
  obtain groups where g: "evalGroup children pv = Inr groups" "zipRows groups = Inr rows"
    using "3.prems" by (auto split: sum.splits)
  then show ?case using rows_of_zipRows [OF "3.IH" [OF g(1)] g(2)] by simp
next
  case (5 result child children pv)
  obtain rows1 where r: "evalCombNode child pv = Inr rows1" "evalProduct (cartesianProduct result rows1) children pv = Inr rows"
    using "5.prems" by (auto split: sum.splits)
  have "rows_of pv (A \<union> set (collectIdents child)) (cartesianProduct result rows1)"
    using "5.IH"(1) [OF r(1)] "5.prems"(2) by (intro rows_of_cartesian)
  from "5.IH"(2) [OF r this] show ?case by (simp add: Un_assoc)
next
  case (7 child children pv)
  then show ?case by (auto split: sum.splits)
qed simp_all

section \<open>The parameter space\<close>

definition combExpr :: "StepParameterSpace \<Rightarrow> string" where
  "combExpr space =
     (case ps_Combination space of
        Some c \<Rightarrow> c
      | None \<Rightarrow> Join (map tp_Name (ps_TaskParameterDefinitions space)) ''*'')"

definition expandTree :: "combNode \<Rightarrow> string list table \<Rightarrow> int option \<Rightarrow> int option \<times> (expand_error + TaskParams list)" where
  "expandTree tree pv b =
     (case countCombNode tree pv of
        None \<Rightarrow> (b, Inl TooManyTasks)
      | Some count \<Rightarrow>
          if maxTasksPerStep < count then (b, Inl TooManyTasks)
          else
            let (b, e) = charge b count
            in (b, case e of Some e \<Rightarrow> Inl e | None \<Rightarrow> map_sum BadCombination id (evalCombNode tree pv)))"

lemma expandParameterSpace_tree:
  assumes "paramValues [] (ps_TaskParameterDefinitions space) = Inr pv"
  shows "expandParameterSpace (Some space) b =
     (if combExpr space = [] then chargeOne b
      else case parseCombinationExpr (combExpr space) of
          Inl e \<Rightarrow> (b, Inl (BadCombination e))
        | Inr tree \<Rightarrow> expandTree tree pv b)"
  by (simp only: expandParameterSpace_def option.case assms sum.case combExpr_def [symmetric] Let_def expandTree_def)

lemma expandParameterSpace_rows:
  assumes "expandParameterSpace ps b = (b', Inr rows)"
  obtains (one) "rows = [[]]" "charge b 1 = (b', None)" "\<And>space. ps = Some space \<Longrightarrow> combExpr space = []"
  | (tree) space pv tree k where "ps = Some space" "combExpr space \<noteq> []"
      "paramValues [] (ps_TaskParameterDefinitions space) = Inr pv"
      "parseCombinationExpr (combExpr space) = Inr tree" "countCombNode tree pv = Some k" "k \<le> maxTasksPerStep"
      "charge b k = (b', None)" "evalCombNode tree pv = Inr rows"
proof (cases ps)
  case None
  then show ?thesis using assms one
    by (auto simp: expandParameterSpace_def chargeOne_def split: prod.splits option.splits)
next
  case (Some space)
  obtain pv where pv: "paramValues [] (ps_TaskParameterDefinitions space) = Inr pv"
    using assms Some by (cases "paramValues [] (ps_TaskParameterDefinitions space)") (auto simp: expandParameterSpace_def)
  have e: "(if combExpr space = [] then chargeOne b
      else case parseCombinationExpr (combExpr space) of
          Inl e \<Rightarrow> (b, Inl (BadCombination e))
        | Inr tree \<Rightarrow> expandTree tree pv b) = (b', Inr rows)"
    using assms pv by (simp add: Some expandParameterSpace_tree)
  show ?thesis
  proof (cases "combExpr space = []")
    case True
    then show ?thesis using e one Some by (auto simp: chargeOne_def split: prod.splits option.splits)
  next
    case False
    obtain t where t: "parseCombinationExpr (combExpr space) = Inr t" using e False by (auto split: sum.splits)
    obtain k where k: "countCombNode t pv = Some k" "k \<le> maxTasksPerStep"
      using e False t by (auto simp: expandTree_def split: option.splits if_splits)
    obtain c ce where c: "charge b k = (c, ce)" by (cases "charge b k")
    have "ce = None" "c = b'" "evalCombNode t pv = Inr rows"
      using e False t k c by (cases ce; cases "evalCombNode t pv"; auto simp: expandTree_def)+
    then show ?thesis using tree [OF Some False pv t k] c by simp
  qed
qed

lemma charge_ok:
  assumes "charge b k = (b', None)" "0 \<le> k" "k \<le> maxTasksPerStep" "\<forall>t. b = Some t \<longrightarrow> 0 \<le> t \<and> t \<le> maxTasksPerJob"
  shows "b' = map_option (\<lambda>t. t + k) b \<and> (\<forall>t. b' = Some t \<longrightarrow> 0 \<le> t \<and> t \<le> maxTasksPerJob)"
proof (cases b)
  case None
  then show ?thesis using assms(1) by (simp add: charge_def)
next
  case (Some t)
  have "0 \<le> t" "t \<le> 1000000" "k \<le> 1000000" using assms(3,4) Some by (simp_all add: maxTasksPerJob_def maxTasksPerStep_def)
  then have "i64 (t + k) = t + k" using assms(2) by (intro i64_small) simp
  then show ?thesis using assms(1,2) Some \<open>0 \<le> t\<close> by (auto simp: charge_def Let_def split: if_splits)
qed

lemma paramValues_from:
  "paramValues pv0 tps = Inr pv \<Longrightarrow> tget pv k = Some vals \<Longrightarrow>
     tget pv0 k = Some vals \<or> (\<exists>tp \<in> set tps. tp_Name tp = k \<and> expandTaskParam tp = Inr vals)"
  by (induction pv0 tps rule: paramValues.induct) (fastforce split: sum.splits if_splits)+

section \<open>The default expression\<close>

definition identTree :: "string list \<Rightarrow> combNode" where
  "identTree names = (case names of [name] \<Rightarrow> combIdent name | _ \<Rightarrow> combProduct (map combIdent names))"

lemma parse_default:
  assumes "names \<noteq> []" "\<forall>name \<in> set names. isIdentifier name"
  shows "parseCombinationExpr (Join names ''*'') = Inr (identTree names)"
proof -
  have "comb_wf 0 (identTree names) \<and> comb_text (identTree names) = Join names ''*''"
    using assms by (cases names rule: remdups_adj.cases) (auto simp: identTree_def comp_def)
  then show ?thesis using parse_text by metis
qed

text \<open>What a row says of some parameters.\<close>

definition view :: "string list \<Rightarrow> TaskParams \<Rightarrow> string option list" where
  "view names row = map (tget row) names"

lemma view_step:
  assumes "table_ok r" "n \<notin> set ds"
  shows "view (ds @ [n]) (copyRow (copyRow [] r) [(n, v)]) = view ds r @ [Some v]"
proof -
  have "tget (copyRow [] r) k = tget r k" for k using tget_copyRow [OF assms(1), of "[]"] by (auto split: option.splits)
  moreover have "copyRow (copyRow [] r) [(n, v)] = tput n v (copyRow [] r)" by (simp add: copyRow_def)
  ultimately show ?thesis using assms(2) by (auto simp: view_def)
qed

lemma evalProduct_idents:
  assumes "list_all2 (\<lambda>n vals. tget pv n = Some vals) ns valss" "\<forall>r \<in> set result. table_ok r" "distinct (ds @ ns)"
  shows "\<exists>rows. evalProduct result (map combIdent ns) pv = Inr rows \<and>
     map (view (ds @ ns)) rows =
       concat (map (\<lambda>r. map (\<lambda>vs. view ds r @ map Some vs) (product_lists valss)) result)"
  using assms
proof (induction arbitrary: result ds rule: list_all2_induct)
  case Nil
  then show ?case by simp
next
  case (Cons n ns vals valss)
  let ?res = "cartesianProduct result (map (\<lambda>v. [(n, v)]) vals)"
  have ok: "\<forall>r \<in> set ?res. table_ok r" by (auto simp: cartesianProduct_def intro!: table_ok_copyRow)
  obtain rows where rows: "evalProduct ?res (map combIdent ns) pv = Inr rows"
    and v: "map (view ((ds @ [n]) @ ns)) rows =
      concat (map (\<lambda>r. map (\<lambda>vs. view (ds @ [n]) r @ map Some vs) (product_lists valss)) ?res)"
    using Cons.IH [OF ok, of "ds @ [n]"] Cons.prems(2) by auto
  have "map (\<lambda>r. map (\<lambda>vs. view (ds @ [n]) r @ map Some vs) (product_lists valss)) ?res =
      concat (map (\<lambda>r. map (\<lambda>v. map (\<lambda>vs. view ds r @ Some v # map Some vs) (product_lists valss)) vals) result)"
    using Cons.prems view_step [of _ n ds]
    by (auto simp: cartesianProduct_def map_concat comp_def intro!: arg_cong [where f = concat])
  moreover have "concat (concat xsss) = concat (map concat xsss)" for xsss :: "string option list list list list"
    by (induction xsss) simp_all
  ultimately show ?case using rows v Cons.hyps(1) by (simp add: evalIdent_def map_concat comp_def)
qed

lemma eval_default:
  assumes "list_all2 (\<lambda>n vals. tget pv n = Some vals) names valss" "distinct names"
  shows "\<exists>rows. evalCombNode (identTree names) pv = Inr rows \<and> map (view names) rows = map (map Some) (product_lists valss)"
proof (cases "\<exists>n. names = [n]")
  case True
  then show ?thesis using assms(1)
    by (auto simp: identTree_def evalIdent_def list_all2_Cons1 view_def comp_def map_concat)
next
  case False
  then have "identTree names = combProduct (map combIdent names)" by (auto simp: identTree_def split: list.splits)
  then show ?thesis using evalProduct_idents [OF assms(1), of "[[]]" "[]"] assms(2) by (simp add: view_def)
qed

lemma mulSaturate_fits:
  assumes "0 \<le> a" "0 \<le> b" "a * b \<le> maxTasksPerStep"
  shows "mulSaturate a b = Some (a * b)"
proof (cases "a = 0 \<or> b = 0")
  case True
  then show ?thesis by (auto simp: mulSaturate_def)
next
  case False
  then have b: "0 < b" using assms by simp
  then have "a * 1 \<le> a * b" using assms by (intro mult_left_mono) simp_all
  moreover from this have "i64 a = a" "i64 (a * b) = a * b"
    using assms by (intro i64_small; simp add: maxTasksPerStep_def)+
  ultimately show ?thesis using assms(1) b False
    by (auto simp: mulSaturate_def Let_def signed_divide_int_def sgn_if abs_mult)
qed

text \<open>What the guard of the expansion accepts.\<close>

definition admits :: "int option \<Rightarrow> bool" where
  "admits c \<longleftrightarrow> (case c of None \<Rightarrow> False | Some k \<Rightarrow> k \<le> maxTasksPerStep)"

lemma mulSaturate_admits:
  assumes "0 \<le> a" "0 \<le> b"
  shows "admits (mulSaturate a b) \<longleftrightarrow> a * b \<le> maxTasksPerStep"
  using mulSaturate_exact [OF assms] mulSaturate_fits [OF assms]
  by (cases "mulSaturate a b") (auto simp: admits_def)

lemma countProduct_admits:
  assumes "list_all2 (\<lambda>n vals. tget pv n = Some vals) ns valss" "[] \<notin> set valss" "0 \<le> tot"
  shows "admits (countProduct tot (map combIdent ns) pv) \<longleftrightarrow>
     tot * int (prod_list (map length valss)) \<le> maxTasksPerStep"
  using assms
proof (induction arbitrary: tot rule: list_all2_induct)
  case Nil
  then show ?case by (simp add: admits_def)
next
  case (Cons n ns vals valss)
  let ?c = "int (length vals)" and ?rest = "int (prod_list (map length valss))"
  have "0 < prod_list (map length valss)" using Cons.prems(1) by (induction valss) auto
  then have ge: "tot * ?c \<le> tot * ?c * ?rest" using Cons.prems(2) mult_left_mono [of 1 ?rest "tot * ?c"] by simp
  have count: "countCombNode (combIdent n) pv = Some ?c" using Cons.hyps(1) by (simp add: tgetz_def)
  note w = mulSaturate_admits [OF Cons.prems(2), of ?c]
  show ?case
  proof (cases "tot * ?c \<le> maxTasksPerStep")
    case True
    then have "mulSaturate tot ?c = Some (tot * ?c)" using Cons.prems(2) by (intro mulSaturate_fits) simp_all
    then show ?thesis using True Cons.IH [of "tot * ?c"] Cons.prems count by (simp add: mult.assoc)
  next
    case False
    then have "\<not> tot * ?c * ?rest \<le> maxTasksPerStep" using ge by linarith
    then show ?thesis using False w count by (auto simp: admits_def mult.assoc split: option.splits)
  qed
qed

lemma count_default:
  assumes "list_all2 (\<lambda>n vals. tget pv n = Some vals) names valss" "[] \<notin> set valss"
  shows "admits (countCombNode (identTree names) pv) \<longleftrightarrow> int (prod_list (map length valss)) \<le> maxTasksPerStep"
proof (cases "\<exists>n. names = [n]")
  case True
  then show ?thesis using assms(1) by (auto simp: identTree_def list_all2_Cons1 tgetz_def admits_def)
next
  case False
  then have "identTree names = combProduct (map combIdent names)" by (auto simp: identTree_def split: list.splits)
  then show ?thesis using countProduct_admits [OF assms, of 1] by simp
qed

lemma paramValues_all:
  assumes "list_all2 (\<lambda>tp vals. expandTaskParam tp = Inr vals) tps valss" "distinct (map tp_Name tps)"
  shows "\<exists>pv. paramValues pv0 tps = Inr pv \<and> (\<forall>k. k \<notin> set (map tp_Name tps) \<longrightarrow> tget pv k = tget pv0 k) \<and>
     list_all2 (\<lambda>n vals. tget pv n = Some vals) (map tp_Name tps) valss"
  using assms
proof (induction arbitrary: pv0 rule: list_all2_induct)
  case Nil
  then show ?case by simp
next
  case (Cons tp tps vals valss)
  obtain pv where "paramValues (tput (tp_Name tp) vals pv0) tps = Inr pv"
    "\<forall>k. k \<notin> set (map tp_Name tps) \<longrightarrow> tget pv k = tget (tput (tp_Name tp) vals pv0) k"
    "list_all2 (\<lambda>n vals. tget pv n = Some vals) (map tp_Name tps) valss"
    using Cons.IH [of "tput (tp_Name tp) vals pv0"] Cons.prems by auto
  then show ?case using Cons.hyps(1) Cons.prems by auto
qed

section \<open>Properties\<close>

text \<open>C37. The caps on tasks hold.  When a step expands to rows they are at most a million, the budget of the job grows by
  exactly their number although it was charged before any row was built, and it stays within the cap of the job.\<close>

theorem expansion_bounded:
  assumes "expandParameterSpace ps b = (b', Inr rows)" "\<forall>t. b = Some t \<longrightarrow> 0 \<le> t \<and> t \<le> maxTasksPerJob"
  shows "int (length rows) \<le> maxTasksPerStep \<and> b' = map_option (\<lambda>t. t + int (length rows)) b \<and>
    (\<forall>t. b' = Some t \<longrightarrow> 0 \<le> t \<and> t \<le> maxTasksPerJob)"
  using assms(1)
proof (cases rule: expandParameterSpace_rows)
  case one
  then show ?thesis using charge_ok [OF one(2) _ _ assms(2)] by (simp add: maxTasksPerStep_def)
next
  case (tree space pv tree k)
  have "0 \<le> k" "k = int (length rows)" using count_rows(1) [OF tree(8)] tree(5,6) by (auto simp: counts_def)
  then show ?thesis using charge_ok [OF tree(7) _ tree(6) assms(2)] tree(6) by simp
qed

text \<open>C38. A row of an expansion assigns exactly the parameters the combination expression names, and to each of them a
  value that a definition of that name expands to; without an expression the only row is empty.\<close>

theorem expansion_rows_typed:
  assumes "expandParameterSpace (Some space) b = (b', Inr rows)" "row \<in> set rows"
  shows "(if combExpr space = [] then row = []
     else \<exists>tree. parseCombinationExpr (combExpr space) = Inr tree \<and>
            (\<forall>k. tget row k \<noteq> None \<longleftrightarrow> k \<in> set (collectIdents tree))) \<and>
    (\<forall>k v. tget row k = Some v \<longrightarrow>
       (\<exists>tp vals. tp \<in> set (ps_TaskParameterDefinitions space) \<and> tp_Name tp = k \<and> expandTaskParam tp = Inr vals \<and> v \<in> set vals))"
  using assms(1)
proof (cases rule: expandParameterSpace_rows)
  case one
  then show ?thesis using assms(2) by simp
next
  case (tree space' pv tree k)
  have row: "row_of pv (set (collectIdents tree)) row" using eval_rows(1) [OF tree(8)] assms(2) by (simp add: rows_of_def)
  have "\<exists>tp vals. tp \<in> set (ps_TaskParameterDefinitions space) \<and> tp_Name tp = k \<and> expandTaskParam tp = Inr vals \<and> v \<in> set vals"
    if v: "tget row k = Some v" for k v
  proof -
    have "v \<in> set (tgetz [] pv k)" using row v by (simp add: row_of_def)
    then obtain vals where "tget pv k = Some vals" "v \<in> set vals" by (cases "tget pv k") (auto simp: tgetz_def)
    then show ?thesis using paramValues_from [OF tree(3)] tree(1) by fastforce
  qed
  then show ?thesis using row tree(1,2,4) by (auto simp: row_of_def)
qed

text \<open>C39. Without a combination expression a step has the full product of its parameters.  When the names are distinct
  identifiers and each parameter expands to some values, the step expands exactly when the product of their numbers is
  within the cap, and it then has one row for each combination of values, the last parameter varying fastest;
  otherwise it is refused as too many tasks.\<close>

theorem default_product_complete:
  assumes "ps_Combination space = None" "names = map tp_Name (ps_TaskParameterDefinitions space)" "names \<noteq> []"
    and "distinct names" "\<forall>name \<in> set names. isIdentifier name"
    and "list_all2 (\<lambda>tp vals. expandTaskParam tp = Inr vals) (ps_TaskParameterDefinitions space) valss" "[] \<notin> set valss"
  shows "if int (prod_list (map length valss)) \<le> maxTasksPerStep
    then \<exists>rows. ExpandParameterSpace (Some space) = Inr rows \<and>
           map (\<lambda>row. map (tget row) names) rows = map (map Some) (product_lists valss)
    else ExpandParameterSpace (Some space) = Inl TooManyTasks"
proof -
  have expr: "combExpr space = Join names ''*''" using assms(1,2) by (simp add: combExpr_def)
  have p: "parseCombinationExpr (combExpr space) = Inr (identTree names)" using assms(3,5) expr by (simp add: parse_default)
  have "combExpr space \<noteq> []" using assms(3,5) expr by (cases names rule: remdups_adj.cases) (auto simp: isIdentifier_def)
  moreover obtain pv where pv: "paramValues [] (ps_TaskParameterDefinitions space) = Inr pv"
    "list_all2 (\<lambda>n vals. tget pv n = Some vals) names valss"
    using paramValues_all [OF assms(6)] assms(2,4) by metis
  ultimately have "ExpandParameterSpace (Some space) = snd (expandTree (identTree names) pv None)"
    by (simp add: ExpandParameterSpace_def expandParameterSpace_tree [OF pv(1)] p)
  then show ?thesis using count_default [OF pv(2) assms(7)] eval_default [OF pv(2) assms(4)]
    by (auto simp: expandTree_def admits_def view_def [abs_def] charge_def split: option.splits)
qed

definition demoParam :: "string \<Rightarrow> string \<Rightarrow> TaskParamDefinition" where
  "demoParam name expr = \<lparr>tp_Name = name, tp_Type = TaskParamTypeInt, tp_RangeExpr = Some expr, tp_RangeList = [], tp_Chunks = None\<rparr>"

definition demoSpace :: "string option \<Rightarrow> StepParameterSpace" where
  "demoSpace comb = \<lparr>ps_TaskParameterDefinitions = [demoParam ''F'' ''1-2'', demoParam ''L'' ''7,9''], ps_Combination = comb\<rparr>"

lemma demo_zip:
  "expandParameterSpace (Some (demoSpace (Some ''(F,L)''))) (Some 5) =
     (Some 7, Inr [[(''F'', ''1''), (''L'', ''7'')], [(''F'', ''2''), (''L'', ''9'')]])"
  by code_simp

theorem expansion_bounded_witness:
  "\<exists>rows. expandParameterSpace (Some (demoSpace (Some ''(F,L)''))) (Some 5) = (Some 7, Inr rows) \<and>
     int (length rows) \<le> maxTasksPerStep \<and> (7 :: int) = 5 + int (length rows) \<and> (7 :: int) \<le> maxTasksPerJob"
proof -
  have "\<forall>t. Some 5 = Some t \<longrightarrow> 0 \<le> t \<and> t \<le> maxTasksPerJob" by (simp add: maxTasksPerJob_def maxTasksPerStep_def)
  from expansion_bounded [OF demo_zip this] show ?thesis using demo_zip by auto
qed

theorem expansion_rows_typed_witness:
  "\<exists>tp vals. tp \<in> set (ps_TaskParameterDefinitions (demoSpace (Some ''(F,L)''))) \<and> tp_Name tp = ''L'' \<and>
     expandTaskParam tp = Inr vals \<and> ''9'' \<in> set vals"
  using expansion_rows_typed [OF demo_zip, of "[(''F'', ''2''), (''L'', ''9'')]"] by simp

theorem default_product_complete_witness:
  "\<exists>rows. ExpandParameterSpace (Some (demoSpace None)) = Inr rows \<and>
     map (\<lambda>row. map (tget row) [''F'', ''L'']) rows =
       [[Some ''1'', Some ''7''], [Some ''1'', Some ''9''], [Some ''2'', Some ''7''], [Some ''2'', Some ''9'']]"
proof -
  have F: "expandTaskParam (demoParam ''F'' ''1-2'') = Inr [''1'', ''2'']" by code_simp
  have L: "expandTaskParam (demoParam ''L'' ''7,9'') = Inr [''7'', ''9'']" by code_simp
  have i: "isIdentifier ''F''" "isIdentifier ''L''" by code_simp+
  have d: "ps_TaskParameterDefinitions (demoSpace None) = [demoParam ''F'' ''1-2'', demoParam ''L'' ''7,9'']"
    "ps_Combination (demoSpace None) = None" "tp_Name (demoParam ''F'' ''1-2'') = ''F''" "tp_Name (demoParam ''L'' ''7,9'') = ''L''"
    by (simp_all add: demoSpace_def demoParam_def)
  have "if int (prod_list (map length [[''1'', ''2''], [''7'', ''9'']])) \<le> maxTasksPerStep
    then \<exists>rows. ExpandParameterSpace (Some (demoSpace None)) = Inr rows \<and>
           map (\<lambda>row. map (tget row) [''F'', ''L'']) rows = map (map Some) (product_lists [[''1'', ''2''], [''7'', ''9'']])
    else ExpandParameterSpace (Some (demoSpace None)) = Inl TooManyTasks"
    by (rule default_product_complete) (use F L i in \<open>simp_all add: d\<close>)
  then show ?thesis by (simp add: maxTasksPerStep_def)
qed

end
