(* ===== verification/Spec2Isabelle.thy ===== *)
theory Spec2Isabelle
  imports StoreEffects DepsProps ReadProps BusSubjects AccountProps SchedProps RangeProps ChunkProps ExpandProps
begin

text \<open>
  A verification development of sqi, a render-farm manager that runs OpenJD jobs.  A server keeps farms, queues, jobs,
  steps, tasks and workers in a store.  Its scheduler leases ready tasks to workers that ask for work, records what
  they report, retries failures, and releases or cancels what depends on what ended.  Several servers may share a
  store; the one that holds the leader lease schedules, and what its scheduler writes on its own account carries the
  epoch of its lease, while the requests of users are written under a context without an epoch.  Paths below are
  relative to \<^verbatim>\<open>src/internal\<close>.

  \<^bold>\<open>Conventions.\<close>  A Go map is an association list with distinct keys (\<open>'v table\<close> in \<open>Prelude\<close>); where the code ranges over
  a map the model visits the rows in the order of the list.  A struct is a record with the field names of the code
  after a short prefix.  An operation returns the new state and a sum whose left part is the error.  Identifiers
  and times the code draws are arguments.  A mutex makes each operation of the store atomic, so an
  operation is one step.  Where overflow matters a Go \<^verbatim>\<open>int\<close> is an integer wrapped by \<open>i64\<close> after each operation that
  may overflow (\<open>GoInts\<close>); a \<^verbatim>\<open>float64\<close> is a rational number, an infinity or NaN, rounded as IEEE 754 asks (\<open>GoFloat\<close>,
  \<open>GoFormat\<close>); a Go string is a list of bytes, decoded as UTF-8 where the code looks at runes, with the tables of
  Unicode for letter case and white space (\<open>GoUnicode\<close>, \<open>GoStrings\<close>).

  \<^bold>\<open>The store\<close> (\<^verbatim>\<open>store\<close>, \<^verbatim>\<open>store/fake\<close>).  The rows, statuses and transition tables are in \<open>StoreTypes\<close>; the operations of the
  in-memory store, which is the reference of the SQL one, are in \<open>StoreAttempts\<close>, \<open>StoreLease\<close>, \<open>StoreFinalize\<close>,
  \<open>StoreJobs\<close>, \<open>StoreWorkers\<close>, \<open>StoreCatalog\<close> and \<open>StoreAccounts\<close>, the listings in \<open>StoreReads\<close>.  \<open>StoreSystem\<close> makes them a
  transition system: \<open>store_op\<close> has a constructor for each writing operation, \<open>exec\<close> is the store after it, and
  \<open>op_ok\<close> is what the callers owe it.  \<open>StoreMoves\<close>, \<open>StoreOps\<close> and \<open>StoreInv\<close> describe each operation once by how it
  moves rows; the invariants of every reachable store follow from these descriptions through the locales
  \<open>invariant_of\<close> and \<open>invariant_under\<close> of \<open>Prelude\<close>.  \<open>StoreFrame\<close>, \<open>StoreLeader\<close>, \<open>StoreCaps\<close>, \<open>StoreBlocked\<close> and \<open>StoreNames\<close>
  hold what operations leave alone, the leader epoch, capacity, blocked jobs and step names.  The properties:
  claims never leak, attempts, transitions, capacity and leases (\<open>StoreProps\<close>), where no operation but one that
  moves a job takes a load above its cap; the effects of failure, completion,
  finalization, cancellation, retention and submission, and the fence (\<open>StoreEffects\<close>); pages of a listing,
  each read from the rows in any order, since a Go map is ranged over in a different order each time
  (\<open>ReadProps\<close>); users, sessions, keys and join tokens (\<open>AccountProps\<close>).

  \<^bold>\<open>Step dependencies\<close> (\<^verbatim>\<open>openjd/deps.go\<close>).  \<open>DepsModel\<close> has the two passes, \<open>DepsFacts\<close> and \<open>DepsProps\<close> that they release and
  cancel exactly the steps they should.

  \<^bold>\<open>The scheduler\<close> (\<^verbatim>\<open>scheduler\<close>).  \<open>SchedBase\<close> has its state, the registry of parked requests, the attempt cache and the
  fence; \<open>SchedDeps\<close> dependencies between jobs; \<open>SchedTasks\<close> reports, failures, cancellation and retry; \<open>SchedWorkers\<close>
  registration, heartbeats, sweeps and logs; \<open>SchedMatch\<close> eligibility; \<open>SchedLease\<close> leases; \<open>SchedSystem\<close> the routing and
  the transition system of all inputs.  A handler is an action on the state that calls the operations of the
  store; handlers are steps, and the writes of the other parts of the server come between them.  A request that
  waits is split at its wait.  The context a handler writes under is part of the state; the cancellations, retries and
  reconciliations the API asks for run \<open>under\<close> the context of their request.  \<open>SchedSteady\<close> and \<open>SchedEffects\<close> show that every handler writes through the store's
  operations and keeps \<open>op_ok\<close>, so that the scheduler refines the transition system of the store; \<open>SchedBlocked\<close>,
  \<open>SchedCores\<close>, \<open>SchedWaiters\<close> and \<open>SchedProps\<close> have the sweep of blocked jobs, the cores of a worker, the registry,
  the superseded leader and foreign reports; a superseded scheduler changes nothing on its own account, but what a user asks
  of it still lands.  \<open>SchedProps\<close> also has a run in which a task of a blocked job is leased.

  \<^bold>\<open>Messages.\<close>  \<open>BusSubjects\<close> is \<^verbatim>\<open>bus/subjects.go\<close> with the round trip of worker subjects, \<open>ProtocolText\<close> is
  \<^verbatim>\<open>worker/protocol/statustext.go\<close> with what sanitized text is.

  \<^bold>\<open>Parameter spaces\<close> (\<^verbatim>\<open>openjd/intrange\<close>, \<^verbatim>\<open>openjd/range.go\<close>, \<^verbatim>\<open>openjd/expand.go\<close>).  \<open>IntRange\<close> and \<open>RangeExpr\<close> have range
  elements and expressions; \<open>IntRangeProps\<close> and \<open>RangeProps\<close> compare counts, values and overlap with the sets the elements
  denote, show that a printed expression reads back, and have an input on which the overlap test is wrong because a product overflows.  \<open>Expand\<close> has the
  expansion of a step into tasks; \<open>ChunkProps\<close> shows that chunks partition the values, \<open>CombProps\<close> that the parser of
  combination expressions inverts printing, \<open>ExpandProps\<close> that the caps hold and which rows there are.

  \<^bold>\<open>Bounds and fuel.\<close>  Only the parser of combination expressions has fuel, three units for each token and two more; it never
  runs out (\<open>parseCombinationExpr_fuel\<close>).  Every other loop is a total function with its termination proof.  The
  overlap test is proved for steps up to $2^{31}$ and bounds up to $2^{61}$, within which no operation of it
  overflows, and the partition into chunks for values below $2^{62}$ in magnitude, whose differences do not overflow.  \<open>StoreDemo\<close> and \<open>SchedDemo\<close> hold the concrete runs of the witnesses.

  \<^bold>\<open>Not modelled.\<close>  The SQL stores, whose statements a database runs; the HTTP interface, authentication and configuration,
  which are plumbing around the store or use external libraries; the embedded message broker; the worker process,
  which runs programs on its host; parsing and validation of templates and the expression language.  The payload of
  an assignment (\<^verbatim>\<open>scheduler/assign.go\<close>) is the argument \<open>build\<close>, which may fail, and the generator of identifiers is
  the argument \<open>uuid\<close>, assumed injective where it matters.  Logging and metrics are left out.
\<close>

end
